(* ===== verification/Prelude.thy ===== *)
theory Prelude
  imports Complex_Main "HOL-Library.AList"
begin

text \<open>
  What every component of the development shares: the exceptions of the Python code as values
  (\<open>exc\<close>, \<open>bindE\<close>), Python's insertion-ordered \<^verbatim>\<open>dict\<close> as an association list behind the
  locale \<open>keyed_store\<close>, the bounded \<^verbatim>\<open>deque\<close> behind the locale \<open>bounded_queue\<close>, and the
  theorem collections the component proofs draw on.
\<close>

named_theorems quad_simps \<open>characteristic equations of the model's operations\<close>
named_theorems quad_inv \<open>operations keep their component's invariant\<close>

section \<open>Exceptions as values\<close>

text \<open>
  The exception classes the modelled code raises or catches. \<open>OrderRejectedError\<close> and
  \<open>OrderTimeoutError\<close> are the two of \<^verbatim>\<open>execution/gateway.py\<close>; \<open>TimeoutError\<close> and
  \<open>ConnectionError\<close> are the transient failures it retries; \<open>ExchangeError\<close> stands for every other
  exception an exchange call can raise, its flag being the adapter's own verdict
  \<^verbatim>\<open>is_order_not_found(exc)\<close>.
\<close>

datatype exc =
    ValueError | TypeError | KeyError | IndexError | ZeroDivisionError | OverflowError | InvalidOperation | RuntimeError
  | TimeoutError | ConnectionError | ExchangeError bool
  | OrderRejectedError | OrderTimeoutError

type_synonym 'a res = "exc + 'a"

fun bindE :: "'a res \<Rightarrow> ('a \<Rightarrow> 'b res) \<Rightarrow> 'b res" where
  "bindE (Inl e) f = Inl e"
| "bindE (Inr a) f = f a"

lemma bindE_Inr_iff: "bindE r f = Inr b \<longleftrightarrow> (\<exists>a. r = Inr a \<and> f a = Inr b)"
  by (cases r) auto

lemma bindE_Inl_iff: "bindE r f = Inl e \<longleftrightarrow> r = Inl e \<or> (\<exists>a. r = Inr a \<and> f a = Inl e)"
  by (cases r) auto

lemma bindE_assoc: "bindE (bindE r f) g = bindE r (\<lambda>a. bindE (f a) g)"
  by (cases r) auto

lemma bindE_cong [fundef_cong]:
  "r = r' \<Longrightarrow> (\<And>a. r' = Inr a \<Longrightarrow> f a = f' a) \<Longrightarrow> bindE r f = bindE r' f'"
  by (cases r') auto

text \<open>An operation on a state that may raise, and the next one on what it left.\<close>

fun bindS :: "'a res \<times> 's \<Rightarrow> ('a \<Rightarrow> 's \<Rightarrow> 'b res \<times> 's) \<Rightarrow> 'b res \<times> 's" where
  "bindS (Inl e, s) f = (Inl e, s)"
| "bindS (Inr a, s) f = f a s"

lemma bindS_Inr_iff: "bindS r f = (Inr b, s') \<longleftrightarrow> (\<exists>a s. r = (Inr a, s) \<and> f a s = (Inr b, s'))"
  by (cases "(r, f)" rule: bindS.cases) auto

lemma snd_bindS: "(\<And>a s. P s \<Longrightarrow> P (snd (f a s))) \<Longrightarrow> P (snd r) \<Longrightarrow> P (snd (bindS r f))"
  by (cases "(r, f)" rule: bindS.cases) auto

section \<open>Dictionaries\<close>

text \<open>
  What the code relies on when it uses a \<^verbatim>\<open>dict\<close> (or \<^verbatim>\<open>dict.get\<close> with a default): a lookup
  after a store or a removal. Accumulating into a dictionary (\<open>d[k] = d.get(k, 0) + v\<close>) is
  proved once here to give, at each key, the fold of that key's values in order.
\<close>

locale keyed_store =
  fixes get :: "'d \<Rightarrow> 'k \<Rightarrow> 'v option"
    and put :: "'k \<Rightarrow> 'v \<Rightarrow> 'd \<Rightarrow> 'd"
    and del :: "'k \<Rightarrow> 'd \<Rightarrow> 'd"
    and void :: "'d"
  assumes get_void: "get void k = None"
    and get_put: "get (put k v d) k' = (if k' = k then Some v else get d k')"
    and get_del: "get (del k d) k' = (if k' = k then None else get d k')"
begin

lemma get_put_same [simp]: "get (put k v d) k = Some v"
  by (simp add: get_put)

lemma get_put_other [simp]: "k' \<noteq> k \<Longrightarrow> get (put k v d) k' = get d k'"
  by (simp add: get_put)

lemma lookup_accumulate:
  "(case get (foldl (\<lambda>d kv. put (fst kv) (f (case get d (fst kv) of None \<Rightarrow> z | Some v \<Rightarrow> v) (snd kv)) d) d kvs) k
      of None \<Rightarrow> z | Some v \<Rightarrow> v) =
   foldl f (case get d k of None \<Rightarrow> z | Some v \<Rightarrow> v) (map snd (filter (\<lambda>kv. fst kv = k) kvs))"
  by (induction kvs arbitrary: d) (auto simp: get_put)

lemma lookup_accumulate_None:
  "get (foldl (\<lambda>d kv. put (fst kv) (f (case get d (fst kv) of None \<Rightarrow> z | Some v \<Rightarrow> v) (snd kv)) d) d kvs) k = None
   \<longleftrightarrow> get d k = None \<and> k \<notin> fst ` set kvs"
  by (induction kvs arbitrary: d) (auto simp: get_put)

lemma lookup_puts_other:
  "k \<notin> fst ` set kvs \<Longrightarrow> get (foldl (\<lambda>d kv. put (fst kv) (snd kv) d) d kvs) k = get d k"
  by (induction kvs arbitrary: d) (auto simp: get_put)

lemma lookup_dels:
  "get (foldl (\<lambda>d k. del k d) d ks) k = (if k \<in> set ks then None else get d k)"
  by (induction ks arbitrary: d) (auto simp: get_del)

end

type_synonym ('k, 'v) dict = "('k \<times> 'v) list"

definition dict_get_or :: "'v \<Rightarrow> ('k, 'v) dict \<Rightarrow> 'k \<Rightarrow> 'v" where
  "dict_get_or z d k = (case map_of d k of None \<Rightarrow> z | Some v \<Rightarrow> v)"

definition dict_accumulate :: "('v \<Rightarrow> 'v \<Rightarrow> 'v) \<Rightarrow> 'v \<Rightarrow> ('k \<times> 'v) list \<Rightarrow> ('k, 'v) dict \<Rightarrow> ('k, 'v) dict" where
  "dict_accumulate f z kvs d =
     foldl (\<lambda>d kv. AList.update (fst kv) (f (dict_get_or z d (fst kv)) (snd kv)) d) d kvs"

lemma map_of_AList_update: "map_of (AList.update k v d) k' = (if k' = k then Some v else map_of d k')"
  by (simp add: update_conv')

lemma map_of_AList_delete: "map_of (AList.delete k d) k' = (if k' = k then None else map_of d k')"
  by (simp add: delete_conv')

interpretation pydict: keyed_store map_of AList.update AList.delete "[]"
  by unfold_locales (simp_all add: map_of_AList_update map_of_AList_delete)

lemma dict_get_or_simps [simp]:
  "dict_get_or z [] k = z"
  "dict_get_or z ((k', v) # d) k = (if k = k' then v else dict_get_or z d k)"
  by (simp_all add: dict_get_or_def)

lemma dict_get_or_update: "dict_get_or z (AList.update k v d) k' = (if k' = k then v else dict_get_or z d k')"
  by (simp add: dict_get_or_def map_of_AList_update)

lemma dict_accumulate_simps [simp]:
  "dict_accumulate f z [] d = d"
  "dict_accumulate f z (kv # kvs) d =
     dict_accumulate f z kvs (AList.update (fst kv) (f (dict_get_or z d (fst kv)) (snd kv)) d)"
  by (simp_all add: dict_accumulate_def)

lemma get_or_dict_accumulate:
  "dict_get_or z (dict_accumulate f z kvs d) k =
     foldl f (dict_get_or z d k) (map snd (filter (\<lambda>kv. fst kv = k) kvs))"
  using pydict.lookup_accumulate[where f = f and z = z and d = d and kvs = kvs and k = k] by (simp add: dict_accumulate_def dict_get_or_def)

lemma dict_accumulate_None:
  "map_of (dict_accumulate f z kvs d) k = None \<longleftrightarrow> map_of d k = None \<and> k \<notin> fst ` set kvs"
  using pydict.lookup_accumulate_None[where f = f and z = z and d = d and kvs = kvs and k = k] by (simp add: dict_accumulate_def dict_get_or_def)

lemma distinct_keys_update: "distinct (map fst d) \<Longrightarrow> distinct (map fst (AList.update k v d))"
  by (simp add: distinct_update)

lemma length_update: "length (AList.update k v d) = (if map_of d k = None then Suc (length d) else length d)"
  by (induction d) auto

section \<open>Slices\<close>

text \<open>\<^verbatim>\<open>xs[i:]\<close>: a negative index counts from the end, and an index out of range is cut to the list.\<close>

definition slice_from :: "int \<Rightarrow> 'a list \<Rightarrow> 'a list" where
  "slice_from i xs = drop (nat (if i < 0 then int (length xs) + i else i)) xs"

section \<open>Bounded queues\<close>

text \<open>
  \<^verbatim>\<open>collections.deque(maxlen=n)\<close>: appending to a full queue drops the oldest entry. The
  contract a client relies on is that the contents are the newest \<open>n\<close> of everything appended.
\<close>

definition take_last :: "nat \<Rightarrow> 'a list \<Rightarrow> 'a list" where
  "take_last n xs = drop (length xs - n) xs"

lemma length_take_last [simp]: "length (take_last n xs) = min n (length xs)"
  by (simp add: take_last_def)

lemma take_last_all [simp]: "length xs \<le> n \<Longrightarrow> take_last n xs = xs"
  by (simp add: take_last_def)

lemma take_last_Nil [simp]: "take_last n [] = []"
  by (simp add: take_last_def)

lemma set_take_last: "set (take_last n xs) \<subseteq> set xs"
  by (simp add: take_last_def set_drop_subset)

lemma take_last_snoc_take_last: "take_last n (take_last n xs @ [x]) = take_last n (xs @ [x])"
proof (cases "length xs \<le> n")
  case False
  show ?thesis
  proof (cases n)
    case (Suc m)
    with False have "length xs - m = Suc (length xs - n)" by simp
    with False Suc show ?thesis by (simp add: take_last_def tl_drop drop_Suc)
  qed (simp add: take_last_def)
qed simp

lemma take_last_append: "take_last n (xs @ [x]) = (if n = 0 then [] else take_last (n - 1) xs @ [x])"
  by (cases n) (simp_all add: take_last_def)

lemma slice_from_last: "0 < c \<Longrightarrow> slice_from (- c) xs = take_last (nat c) xs"
  by (simp add: slice_from_def take_last_def nat_diff_distrib')

lemma rev_take_last: "rev (take_last n xs) = take n (rev xs)"
  by (simp add: take_last_def take_rev)

lemma take_last_take_last: "take_last m (take_last n xs) = take_last (min m n) xs"
  by (auto simp: take_last_def min_def intro!: arg_cong[where f = "\<lambda>k. drop k xs"])

definition deque_append :: "nat \<Rightarrow> 'a \<Rightarrow> 'a list \<Rightarrow> 'a list" where
  "deque_append n x q = take_last n (q @ [x])"

locale bounded_queue =
  fixes push :: "'a \<Rightarrow> 'q \<Rightarrow> 'q"
    and items :: "'q \<Rightarrow> 'a list"
    and cap :: nat
  assumes items_push: "items (push x q) = take_last cap (items q @ [x])"
begin

lemma size_push: "length (items q) \<le> cap \<Longrightarrow> length (items (push x q)) \<le> cap"
  by (simp add: items_push)

lemma items_pushes:
  "items (foldl (\<lambda>q x. push x q) q xs) =
     (if xs = [] then items q else take_last cap (items q @ xs))"
proof (induction xs rule: rev_induct)
  case (snoc x xs)
  show ?case
  proof (cases "xs = []")
    case True then show ?thesis by (simp add: items_push)
  next
    case False
    with snoc show ?thesis
      by (simp add: items_push take_last_snoc_take_last flip: append_assoc)
  qed
qed simp

lemma last_push: "0 < cap \<Longrightarrow> items (push x q) \<noteq> [] \<and> last (items (push x q)) = x"
  by (simp add: items_push take_last_append)

end

interpretation deque: bounded_queue "deque_append n" "\<lambda>q. q" n for n
  by unfold_locales (simp add: deque_append_def)

end
