(* ===== verification/Numerics.thy ===== *)
theory Numerics
  imports Prelude
begin

text \<open>
  Python's two non-integer number types. A \<^verbatim>\<open>decimal.Decimal\<close> is a rational whose arithmetic
  rounds to 28 significant decimal digits, half to even (the default context); a
  \<^verbatim>\<open>float\<close> is a rational whose arithmetic rounds to 53 significant binary digits, half to
  even. Both roundings are one executable function, \<open>round_sig\<close>, at two bases and two
  precisions; what the components need of them is the locale \<open>rounding\<close>, interpreted at both.
\<close>

section \<open>Digits of a rational\<close>

function ilog :: "int \<Rightarrow> int \<Rightarrow> int" where
  "ilog b n = (if b \<le> 1 \<or> n < b then 0 else 1 + ilog b (n div b))"
  by pat_completeness auto
termination
proof (relation "measure (\<lambda>(b, n). nat n)", goal_cases)
  case 1 then show ?case by simp
next
  case (2 b n)
  then have "0 < n" "1 < b" by auto
  then have "n div b < n" by (rule int_div_less_self)
  with \<open>0 < n\<close> show ?case by simp
qed

declare ilog.simps [simp del]

definition bpow :: "int \<Rightarrow> int \<Rightarrow> rat" where
  "bpow b e = (if 0 \<le> e then of_int (b ^ nat e) else 1 / of_int (b ^ nat (- e)))"

definition magnitude :: "int \<Rightarrow> rat \<Rightarrow> int" where
  "magnitude b x = (let pq = quotient_of \<bar>x\<bar>;
                        e = ilog b (fst pq) - ilog b (snd pq)
                    in if bpow b e \<le> \<bar>x\<bar> then e else e - 1)"

definition half_even :: "rat \<Rightarrow> int" where
  "half_even x = (let f = \<lfloor>x\<rfloor>; d = x - of_int f in
     if d < 1 / 2 then f else if d > 1 / 2 then f + 1 else if even f then f else f + 1)"

definition round_sig :: "int \<Rightarrow> int \<Rightarrow> rat \<Rightarrow> rat" where
  "round_sig b p x = (if x = 0 then 0 else
     (let u = bpow b (magnitude b x - p + 1) in of_int (half_even (x / u)) * u))"

lemma ilog_bounds:
  assumes "2 \<le> b" "1 \<le> n"
  shows "0 \<le> ilog b n \<and> b ^ nat (ilog b n) \<le> n \<and> n < b ^ nat (ilog b n + 1)"
  using assms
proof (induction b n rule: ilog.induct)
  case (1 b n)
  show ?case
  proof (cases "n < b")
    case True
    with 1 show ?thesis by (simp add: ilog.simps[of b n])
  next
    case False
    let ?q = "n div b"
    from False 1 have q: "1 \<le> ?q" "2 \<le> b" by (auto simp: pos_imp_zdiv_pos_iff int_one_le_iff_zero_less)
    with 1 False have IH: "0 \<le> ilog b ?q" "b ^ nat (ilog b ?q) \<le> ?q" "?q < b ^ nat (ilog b ?q + 1)"
      by auto
    have e: "ilog b n = 1 + ilog b ?q" using False 1 by (simp add: ilog.simps[of b n])
    have a: "b * ?q \<le> n"
    proof -
      have "n = b * ?q + n mod b" by simp
      moreover have "0 \<le> n mod b" using q by simp
      ultimately show ?thesis by linarith
    qed
    have c: "n < b * (?q + 1)"
    proof -
      have "n = b * ?q + n mod b" by simp
      moreover have "n mod b < b" using q by simp
      ultimately show ?thesis by (simp only: distrib_left)
    qed
    have "b ^ nat (ilog b n) = b * b ^ nat (ilog b ?q)" using IH e
      by (simp add: nat_add_distrib)
    also have "\<dots> \<le> b * ?q" using IH q by (intro mult_left_mono) auto
    finally have l: "b ^ nat (ilog b n) \<le> n" using a by simp
    have "b ^ nat (ilog b n + 1) = b * b ^ nat (ilog b ?q + 1)" using IH e
      by (simp add: nat_add_distrib)
    moreover have "b * (?q + 1) \<le> b * b ^ nat (ilog b ?q + 1)" using IH q by (intro mult_left_mono) auto
    ultimately have "n < b ^ nat (ilog b n + 1)" using c by linarith
    with l e IH show ?thesis by simp
  qed
qed

lemma bpow_powi: "bpow b e = of_int b powi e"
  by (simp add: bpow_def power_int_def divide_inverse power_inverse)

lemma bpow_pos [simp]: "0 < b \<Longrightarrow> 0 < bpow b e"
  by (simp add: bpow_powi)

lemma bpow_add: "0 < b \<Longrightarrow> bpow b (i + j) = bpow b i * bpow b j"
  by (simp add: bpow_powi power_int_add)

lemma bpow_of_nat: "0 \<le> e \<Longrightarrow> bpow b e = of_int (b ^ nat e)"
  by (simp add: bpow_def)

lemma bpow_mono: "2 \<le> b \<Longrightarrow> i \<le> j \<Longrightarrow> bpow b i \<le> bpow b j"
  by (simp add: bpow_powi power_int_increasing)

lemma bpow_less_cancel: "2 \<le> b \<Longrightarrow> bpow b i < bpow b j \<Longrightarrow> i < j"
  by (meson bpow_mono linorder_not_le)

lemma magnitude_bounds:
  assumes b: "2 \<le> b" and x: "x \<noteq> 0"
  shows "bpow b (magnitude b x) \<le> \<bar>x\<bar> \<and> \<bar>x\<bar> < bpow b (magnitude b x + 1)"
proof -
  obtain p q where pq: "quotient_of \<bar>x\<bar> = (p, q)" by fastforce
  then have q: "0 < q" and xe: "\<bar>x\<bar> = of_int p / of_int q"
    by (auto dest: quotient_of_denom_pos quotient_of_div)
  with x have p: "0 < p" by (metis abs_le_zero_iff divide_le_0_iff linorder_not_le of_int_0_less_iff of_int_le_0_iff less_imp_le)
  let ?i = "ilog b p" and ?j = "ilog b q"
  have i: "0 \<le> ?i" "b ^ nat ?i \<le> p" "p < b ^ nat (?i + 1)"
    and j: "0 \<le> ?j" "b ^ nat ?j \<le> q" "q < b ^ nat (?j + 1)"
    using ilog_bounds[OF b, of p] ilog_bounds[OF b, of q] p q by auto
  have pi: "bpow b ?i \<le> of_int p" "of_int p < bpow b (?i + 1)"
    using i by (simp_all add: bpow_of_nat del: of_int_power)
  have qj: "bpow b ?j \<le> of_int q" "of_int q < bpow b (?j + 1)"
    using j by (simp_all add: bpow_of_nat del: of_int_power)
  have b0: "0 < b" using b by simp
  have hi: "\<bar>x\<bar> < bpow b (?i - ?j + 1)"
  proof -
    have "bpow b (?i + 1) = bpow b (?i - ?j + 1) * bpow b ?j"
      using bpow_add[OF b0, of "?i - ?j + 1" ?j] by simp
    also have "\<dots> \<le> bpow b (?i - ?j + 1) * of_int q"
      using qj b0 by (intro mult_left_mono) (auto intro: less_imp_le)
    finally have "of_int p < bpow b (?i - ?j + 1) * of_int q" using pi by simp
    then show ?thesis using q by (simp add: xe divide_less_eq)
  qed
  have lo: "bpow b (?i - ?j - 1) \<le> \<bar>x\<bar>"
  proof -
    have "bpow b (?i - ?j - 1) * of_int q \<le> bpow b (?i - ?j - 1) * bpow b (?j + 1)"
      using qj b0 by (intro mult_left_mono) (auto intro: less_imp_le)
    also have "\<dots> = bpow b ?i"
      using bpow_add[OF b0, of "?i - ?j - 1" "?j + 1"] by simp
    finally show ?thesis using pi q by (simp add: xe le_divide_eq)
  qed
  show ?thesis using hi lo by (auto simp: magnitude_def Let_def pq)
qed

lemma magnitude_mono:
  assumes "2 \<le> b" "0 < x" "x \<le> y"
  shows "magnitude b x \<le> magnitude b y"
proof -
  have "bpow b (magnitude b x) < bpow b (magnitude b y + 1)"
    using magnitude_bounds[of b x] magnitude_bounds[of b y] assms by auto
  from bpow_less_cancel[OF assms(1) this] show ?thesis by simp
qed

lemma magnitude_minus [simp]: "magnitude b (- x) = magnitude b x"
  by (simp add: magnitude_def)

section \<open>Half-even rounding\<close>

lemma half_even_of_int [simp]: "half_even (of_int n) = n"
  by (simp add: half_even_def)

lemma half_even_bounds: "\<lfloor>x\<rfloor> \<le> half_even x \<and> half_even x \<le> \<lfloor>x\<rfloor> + 1"
  by (simp add: half_even_def Let_def)

lemma half_even_error: "\<bar>of_int (half_even x) - x\<bar> \<le> 1 / 2"
proof -
  have "of_int \<lfloor>x\<rfloor> \<le> x" "x < of_int \<lfloor>x\<rfloor> + 1" by linarith+
  then show ?thesis by (auto simp: half_even_def Let_def)
qed

lemma half_even_mono:
  assumes "x \<le> y"
  shows "half_even x \<le> half_even y"
proof (cases "\<lfloor>x\<rfloor> = \<lfloor>y\<rfloor>")
  case True
  with assms show ?thesis by (auto simp: half_even_def Let_def)
next
  case False
  with floor_mono[OF assms] have "\<lfloor>x\<rfloor> + 1 \<le> \<lfloor>y\<rfloor>" by simp
  with half_even_bounds[of x] half_even_bounds[of y] show ?thesis by linarith
qed

lemma half_even_minus: "half_even (- x) = - half_even x"
proof (cases "x = of_int \<lfloor>x\<rfloor>")
  case True
  then show ?thesis by (metis half_even_of_int of_int_minus)
next
  case False
  have l: "of_int \<lfloor>x\<rfloor> < x" using False by (metis le_less of_int_floor_le)
  have f: "\<lfloor>- x\<rfloor> = - \<lfloor>x\<rfloor> - 1"
    by (rule floor_unique) (use l in \<open>simp_all, linarith+\<close>)
  show ?thesis by (auto simp: half_even_def Let_def f)
qed

section \<open>Rounding to significant digits\<close>

lemma round_sig_zero [simp]: "round_sig b p 0 = 0"
  by (simp add: round_sig_def)

lemma round_sig_minus: "round_sig b p (- x) = - round_sig b p x"
  by (simp add: round_sig_def Let_def half_even_minus)

lemma round_sig_le_bpow:
  assumes b: "2 \<le> b" and p: "1 \<le> p" and x: "0 < x"
  shows "round_sig b p x \<le> bpow b (magnitude b x + 1)"
    and "bpow b (magnitude b x) \<le> round_sig b p x"
proof -
  let ?m = "magnitude b x" and ?u = "bpow b (magnitude b x - p + 1)"
  have b0: "0 < b" and u0: "0 < ?u" using b by auto
  have m: "bpow b ?m \<le> x" "x < bpow b (?m + 1)" using magnitude_bounds[OF b, of x] x by auto
  have e: "bpow b (?m + 1) = of_int (b ^ nat p) * ?u" "bpow b ?m = of_int (b ^ nat (p - 1)) * ?u"
    using bpow_add[OF b0, of p "?m - p + 1"] bpow_add[OF b0, of "p - 1" "?m - p + 1"] p
    by (simp_all add: bpow_of_nat)
  have "half_even (x / ?u) \<le> half_even (of_int (b ^ nat p))"
    using m e u0 by (intro half_even_mono) (simp add: divide_le_eq)
  then have "(of_int (half_even (x / ?u)) :: rat) \<le> of_int (b ^ nat p)"
    by (simp only: half_even_of_int of_int_le_iff)
  with u0 x show "round_sig b p x \<le> bpow b (?m + 1)"
    unfolding e by (simp add: round_sig_def Let_def)
  have "half_even (of_int (b ^ nat (p - 1))) \<le> half_even (x / ?u)"
    using m e u0 by (intro half_even_mono) (simp add: le_divide_eq)
  then have "(of_int (b ^ nat (p - 1)) :: rat) \<le> of_int (half_even (x / ?u))"
    by (simp only: half_even_of_int of_int_le_iff)
  with u0 x show "bpow b ?m \<le> round_sig b p x"
    unfolding e by (simp add: round_sig_def Let_def)
qed

lemma round_sig_mono_pos:
  assumes b: "2 \<le> b" and p: "1 \<le> p" and x: "0 < x" and xy: "x \<le> y"
  shows "round_sig b p x \<le> round_sig b p y"
proof (cases "magnitude b x = magnitude b y")
  case True
  let ?u = "bpow b (magnitude b y - p + 1)"
  have u: "0 < ?u" using b by simp
  have "half_even (x / ?u) \<le> half_even (y / ?u)"
    using xy u by (intro half_even_mono) (simp add: divide_right_mono)
  then have "(of_int (half_even (x / ?u)) :: rat) \<le> of_int (half_even (y / ?u))" by simp
  then show ?thesis using True x xy u by (simp add: round_sig_def Let_def)
next
  case False
  with magnitude_mono[OF b x xy] have "magnitude b x + 1 \<le> magnitude b y" by simp
  from bpow_mono[OF b this] show ?thesis
    using round_sig_le_bpow[OF b p x] round_sig_le_bpow[OF b p, of y] x xy by linarith
qed

lemma round_sig_nonneg:
  assumes "2 \<le> b" "1 \<le> p" "0 \<le> x"
  shows "0 \<le> round_sig b p x"
proof (cases "x = 0")
  case False
  with assms have "0 < bpow b (magnitude b x)" "bpow b (magnitude b x) \<le> round_sig b p x"
    by (auto intro: round_sig_le_bpow)
  then show ?thesis by simp
qed simp

lemma round_sig_mono:
  assumes b: "2 \<le> b" and p: "1 \<le> p" and xy: "x \<le> y"
  shows "round_sig b p x \<le> round_sig b p y"
proof -
  consider "0 < x" | "y < 0" | "x \<le> 0" "0 \<le> y" by linarith
  then show ?thesis
  proof cases
    case 1 then show ?thesis using round_sig_mono_pos assms by blast
  next
    case 2
    then have "round_sig b p (- y) \<le> round_sig b p (- x)"
      using round_sig_mono_pos[OF b p, of "- y" "- x"] xy by simp
    then show ?thesis by (simp add: round_sig_minus)
  next
    case 3
    then have "0 \<le> round_sig b p (- x)" "0 \<le> round_sig b p y"
      using round_sig_nonneg[OF b p] by auto
    then show ?thesis by (simp add: round_sig_minus)
  qed
qed

lemma round_sig_exact:
  assumes b: "2 \<le> b" and p: "1 \<le> p" and m: "\<bar>m\<bar> < b ^ nat p"
  shows "round_sig b p (of_int m * bpow b k) = of_int m * bpow b k"
proof (cases "m = 0")
  case False
  let ?x = "of_int m * bpow b k" and ?M = "magnitude b (of_int m * bpow b k)"
  have b0: "0 < b" using b by simp
  have x0: "?x \<noteq> 0" using False bpow_pos[OF b0, of k] by simp
  have "\<bar>?x\<bar> = of_int \<bar>m\<bar> * bpow b k" using bpow_pos[OF b0, of k] by (simp add: abs_mult)
  also have "\<dots> < bpow b p * bpow b k"
    using m p bpow_pos[OF b0, of k] by (intro mult_strict_right_mono) (simp_all add: bpow_of_nat del: of_int_power)
  finally have "\<bar>?x\<bar> < bpow b (p + k)" by (simp add: bpow_add[OF b0])
  with magnitude_bounds[OF b x0] have "bpow b ?M < bpow b (p + k)" by simp
  from bpow_less_cancel[OF b this] have le: "?M - p + 1 \<le> k" by simp
  let ?u = "bpow b (?M - p + 1)"
  have "bpow b k = of_int (b ^ nat (k - (?M - p + 1))) * ?u"
    using bpow_add[OF b0, of "k - (?M - p + 1)" "?M - p + 1"] le by (simp add: bpow_of_nat)
  then have "?x = of_int (m * b ^ nat (k - (?M - p + 1))) * ?u" by simp
  moreover have "?u \<noteq> 0" using bpow_pos[OF b0] by (simp add: less_imp_neq[symmetric])
  ultimately have "?x / ?u = of_int (m * b ^ nat (k - (?M - p + 1)))"
    by (simp add: nonzero_divide_eq_eq)
  then have "half_even (?x / ?u) = m * b ^ nat (k - (?M - p + 1))"
    by (simp only: half_even_of_int)
  then have "round_sig b p ?x = of_int (m * b ^ nat (k - (?M - p + 1))) * ?u"
    using x0 by (simp only: round_sig_def Let_def if_False)
  with \<open>?x = of_int (m * _) * ?u\<close> show ?thesis by (simp only:)
qed simp

lemma round_sig_error:
  assumes b: "2 \<le> b" and p: "1 \<le> p"
  shows "\<bar>round_sig b p x - x\<bar> \<le> \<bar>x\<bar> * bpow b (1 - p) / 2"
proof (cases "x = 0")
  case False
  let ?u = "bpow b (magnitude b x - p + 1)"
  have b0: "0 < b" and u: "0 < ?u" using b by auto
  have "round_sig b p x - x = (of_int (half_even (x / ?u)) - x / ?u) * ?u"
    using False u by (simp add: round_sig_def Let_def left_diff_distrib)
  then have "\<bar>round_sig b p x - x\<bar> = \<bar>of_int (half_even (x / ?u)) - x / ?u\<bar> * ?u"
    using u by (simp only: abs_mult abs_of_pos)
  also have "\<dots> \<le> 1 / 2 * ?u"
    using half_even_error[of "x / ?u"] u by (intro mult_right_mono) auto
  also have "?u = bpow b (magnitude b x) * bpow b (1 - p)"
    using bpow_add[OF b0, of "magnitude b x" "1 - p"] by (simp add: algebra_simps)
  also have "1 / 2 * (bpow b (magnitude b x) * bpow b (1 - p)) \<le> 1 / 2 * (\<bar>x\<bar> * bpow b (1 - p))"
    using magnitude_bounds[OF b False] bpow_pos[OF b0, of "1 - p"]
    by (intro mult_left_mono mult_right_mono) auto
  finally show ?thesis by simp
qed simp

lemma round_sig_idem:
  assumes b: "2 \<le> b" and p: "1 \<le> p"
  shows "round_sig b p (round_sig b p x) = round_sig b p x"
proof (cases "x = 0")
  case False
  let ?u = "bpow b (magnitude b x - p + 1)" and ?n = "half_even (x / bpow b (magnitude b x - p + 1))"
  have b0: "0 < b" and u: "0 < ?u" using b by auto
  have "\<bar>x\<bar> < of_int (b ^ nat p) * ?u"
    using magnitude_bounds[OF b False] bpow_add[OF b0, of p "magnitude b x - p + 1"] p
    by (simp add: bpow_of_nat)
  then have ub: "\<bar>x / ?u\<bar> \<le> of_int (b ^ nat p)" using u by (simp add: divide_le_eq)
  have "half_even (x / ?u) \<le> half_even (of_int (b ^ nat p))"
    "half_even (- (x / ?u)) \<le> half_even (of_int (b ^ nat p))"
    using ub by (intro half_even_mono; simp only: abs_le_iff)+
  then have "?n \<le> b ^ nat p" "- ?n \<le> b ^ nat p"
    by (simp_all only: half_even_of_int half_even_minus)
  then consider "\<bar>?n\<bar> < b ^ nat p" | "?n = b ^ nat p" | "?n = - (b ^ nat p)" by linarith
  then show ?thesis
  proof cases
    case 1
    from round_sig_exact[OF b p this] False show ?thesis by (simp add: round_sig_def Let_def)
  next
    case 2
    have "1 < b ^ nat p" using b p by (simp add: one_less_power)
    with round_sig_exact[OF b p, of 1 "p + (magnitude b x - p + 1)"]
    have "round_sig b p (bpow b p * ?u) = bpow b p * ?u" by (simp add: bpow_add[OF b0, symmetric])
    moreover have "round_sig b p x = bpow b p * ?u"
      using 2 False p by (simp add: round_sig_def Let_def bpow_of_nat)
    ultimately show ?thesis by simp
  next
    case 3
    have "1 < b ^ nat p" using b p by (simp add: one_less_power)
    with round_sig_exact[OF b p, of "- 1" "p + (magnitude b x - p + 1)"]
    have "round_sig b p (- (bpow b p * ?u)) = - (bpow b p * ?u)" by (simp add: bpow_add[OF b0, symmetric])
    moreover have "round_sig b p x = - (bpow b p * ?u)"
      using 3 False p by (simp add: round_sig_def Let_def bpow_of_nat)
    ultimately show ?thesis by simp
  qed
qed simp

section \<open>The contract of a rounding mode\<close>

text \<open>A running sum \<open>s += x\<close> in a loop, under a rounding mode.\<close>

fun rsum :: "(rat \<Rightarrow> rat) \<Rightarrow> rat \<Rightarrow> rat list \<Rightarrow> rat" where
  "rsum rnd s [] = s"
| "rsum rnd s (x # xs) = rsum rnd (rnd (s + x)) xs"

lemma rsum_append: "rsum rnd s (xs @ ys) = rsum rnd (rsum rnd s xs) ys"
  by (induction xs arbitrary: s) auto

lemma rsum_foldl: "rsum rnd s xs = foldl (\<lambda>s x. rnd (s + x)) s xs"
  by (induction xs arbitrary: s) auto

text \<open>
  What every numeric lemma of the development uses: rounding is monotone, odd, idempotent and
  within a relative error \<open>eps\<close>. The client lemmas are about the operations the code builds from
  it: rounded products, quotients and running sums.
\<close>

locale rounding =
  fixes rnd :: "rat \<Rightarrow> rat" and eps :: rat
  assumes rnd_mono: "x \<le> y \<Longrightarrow> rnd x \<le> rnd y"
    and rnd_zero [simp]: "rnd 0 = 0"
    and rnd_minus: "rnd (- x) = - rnd x"
    and rnd_idem [simp]: "rnd (rnd x) = rnd x"
    and rnd_err: "\<bar>rnd x - x\<bar> \<le> \<bar>x\<bar> * eps"
    and eps_bounds: "0 \<le> eps" "eps < 1"
begin

lemma rnd_nonneg: "0 \<le> x \<Longrightarrow> 0 \<le> rnd x"
  using rnd_mono[of 0 x] by simp

lemma rnd_nonpos: "x \<le> 0 \<Longrightarrow> rnd x \<le> 0"
  using rnd_mono[of x 0] by simp

lemma rnd_lower: "0 \<le> x \<Longrightarrow> x * (1 - eps) \<le> rnd x"
  using rnd_err[of x] by (simp add: algebra_simps abs_le_iff)

lemma rnd_upper: "0 \<le> x \<Longrightarrow> rnd x \<le> x * (1 + eps)"
  using rnd_err[of x] by (simp add: algebra_simps abs_le_iff)

lemma rnd_pos: "0 < x \<Longrightarrow> 0 < rnd x"
  using rnd_lower[of x] eps_bounds mult_pos_pos[of x "1 - eps"] by linarith

lemma rnd_eq_0_iff [simp]: "rnd x = 0 \<longleftrightarrow> x = 0"
  using rnd_pos[of x] rnd_pos[of "- x"] by (cases "x = 0") (auto simp: rnd_minus neq_iff)

lemma rnd_pos_iff [simp]: "0 < rnd x \<longleftrightarrow> 0 < x"
  using rnd_pos[of x] rnd_nonpos[of x] by linarith

lemma rnd_le_0_iff [simp]: "rnd x \<le> 0 \<longleftrightarrow> x \<le> 0"
  using rnd_pos_iff[of x] by linarith

text \<open>A comparison against a representable bound survives rounding.\<close>

lemma rnd_le_rep: "rnd y = y \<Longrightarrow> x \<le> y \<Longrightarrow> rnd x \<le> y"
  using rnd_mono[of x y] by simp

lemma rep_le_rnd: "rnd y = y \<Longrightarrow> y \<le> x \<Longrightarrow> y \<le> rnd x"
  using rnd_mono[of y x] by simp

lemma rep_less_rndD: "rnd y = y \<Longrightarrow> y < rnd x \<Longrightarrow> y < x"
  using rnd_le_rep[of y x] by linarith

lemma rnd_less_repD: "rnd y = y \<Longrightarrow> rnd x < y \<Longrightarrow> x < y"
  using rep_le_rnd[of y x] by linarith

text \<open>Running sums \<open>s += x\<close>.\<close>

lemma rsum_mono: "s \<le> t \<Longrightarrow> list_all2 (\<le>) xs ys \<Longrightarrow> rsum rnd s xs \<le> rsum rnd t ys"
proof (induction xs arbitrary: s t ys)
  case (Cons x xs)
  then obtain y ys' where "ys = y # ys'" "x \<le> y" "list_all2 (\<le>) xs ys'"
    by (auto simp: list_all2_Cons1)
  with Cons.IH[of "rnd (s + x)" "rnd (t + y)" ys'] Cons.prems show ?case
    by (simp add: rnd_mono add_mono)
qed simp

lemma rsum_start_mono: "s \<le> t \<Longrightarrow> rsum rnd s xs \<le> rsum rnd t xs"
  by (rule rsum_mono) (simp_all add: list_all2_refl)

lemma rsum_nonneg: "0 \<le> s \<Longrightarrow> \<forall>x \<in> set xs. 0 \<le> x \<Longrightarrow> 0 \<le> rsum rnd s xs"
  by (induction xs arbitrary: s) (simp_all add: rnd_nonneg)

lemma rsum_ge_start: "rnd s = s \<Longrightarrow> \<forall>x \<in> set xs. 0 \<le> x \<Longrightarrow> s \<le> rsum rnd s xs"
proof (induction xs arbitrary: s)
  case (Cons x xs)
  then have "s \<le> rnd (s + x)" by (intro rep_le_rnd) auto
  with Cons.IH[of "rnd (s + x)"] Cons.prems show ?case by simp
qed simp

lemma rnd_rsum: "rnd s = s \<Longrightarrow> rnd (rsum rnd s xs) = rsum rnd s xs"
  by (induction xs arbitrary: s) simp_all

end

lemma rounding_round_sig:
  assumes "2 \<le> b" "2 \<le> p"
  shows "rounding (round_sig b p) (bpow b (1 - p) / 2)"
proof
  have "bpow b (1 - p) \<le> bpow b 0" using assms by (intro bpow_mono) auto
  then show "bpow b (1 - p) / 2 < 1" by (simp add: bpow_def[of b 0])
  show "0 \<le> bpow b (1 - p) / 2" using assms bpow_pos[of b "1 - p"] by linarith
  show "\<bar>round_sig b p x - x\<bar> \<le> \<bar>x\<bar> * (bpow b (1 - p) / 2)" for x
    using round_sig_error[of b p x] assms by simp
qed (use assms in \<open>auto intro: round_sig_mono round_sig_idem simp: round_sig_minus\<close>)

section \<open>Decimal\<close>

text \<open>The default context of \<^verbatim>\<open>decimal\<close>: \<^verbatim>\<open>prec=28, rounding=ROUND_HALF_EVEN\<close>.\<close>

definition dround :: "rat \<Rightarrow> rat" where
  "dround = round_sig 10 28"

definition deps :: rat where
  "deps = bpow 10 (- 27) / 2"

interpretation dec: rounding dround deps
  using rounding_round_sig[of 10 28] by (simp add: dround_def deps_def)

lemma dround_int [simp]: "\<bar>n\<bar> < 10 ^ 28 \<Longrightarrow> dround (of_int n) = of_int n"
  using round_sig_exact[of 10 28 n 0] by (simp add: dround_def bpow_def)

lemma dround_numeral [simp]: "(numeral w :: int) < 10 ^ 28 \<Longrightarrow> dround (numeral w) = numeral w"
  using dround_int[of "numeral w"] by simp

lemma dround_1 [simp]: "dround 1 = 1"
  using dround_int[of 1] by simp

lemma dround_decimal: "\<bar>m\<bar> < 10 ^ 28 \<Longrightarrow> dround (of_int m / 10 ^ k) = of_int m / 10 ^ k"
  using round_sig_exact[of 10 28 m "- int k"]
  by (cases "k = 0") (simp_all add: dround_def bpow_def)

text \<open>
  \<^verbatim>\<open>quantize\<close> to \<open>k\<close> places: the coefficient of the result must fit the context, or
  \<^verbatim>\<open>InvalidOperation\<close> is raised. \<open>half_up\<close> is \<^verbatim>\<open>ROUND_HALF_UP\<close> (ties away from zero);
  \<open>dfloordiv\<close> is \<^verbatim>\<open>Decimal.__floordiv__\<close> (towards zero) and \<open>dtrunc\<close> is \<^verbatim>\<open>int(...)\<close>.
\<close>

definition half_up :: "rat \<Rightarrow> int" where
  "half_up x = (if 0 \<le> x then \<lfloor>x + 1 / 2\<rfloor> else - \<lfloor>1 / 2 - x\<rfloor>)"

definition dquantize :: "(rat \<Rightarrow> int) \<Rightarrow> nat \<Rightarrow> rat \<Rightarrow> rat res" where
  "dquantize r k x = (let c = r (x * 10 ^ k) in
     if \<bar>c\<bar> < 10 ^ 28 then Inr (of_int c / 10 ^ k) else Inl InvalidOperation)"

definition dtrunc :: "rat \<Rightarrow> int" where
  "dtrunc x = (if 0 \<le> x then \<lfloor>x\<rfloor> else \<lceil>x\<rceil>)"

definition decimal_div :: "rat \<Rightarrow> rat \<Rightarrow> rat res" where
  "decimal_div a b = (if b = 0 then Inl (if a = 0 then InvalidOperation else ZeroDivisionError) else Inr (dround (a / b)))"

definition dfloordiv :: "rat \<Rightarrow> rat \<Rightarrow> rat res" where
  "dfloordiv a b = (if b = 0 then Inl (if a = 0 then InvalidOperation else ZeroDivisionError)
     else (let q = dtrunc (a / b) in
       if \<bar>q\<bar> < 10 ^ 28 then Inr (of_int q) else Inl InvalidOperation))"

lemma dquantizeD: "dquantize r k x = Inr y \<Longrightarrow> y = of_int (r (x * 10 ^ k)) / 10 ^ k"
  by (simp add: dquantize_def Let_def split: if_splits)

lemma dround_quantized: "dquantize r k x = Inr y \<Longrightarrow> dround y = y"
  by (auto simp: dquantize_def Let_def dround_decimal split: if_splits)

lemma half_up_error: "\<bar>of_int (half_up x) - x\<bar> \<le> 1 / 2"
proof -
  have "of_int \<lfloor>x + 1 / 2\<rfloor> \<le> x + 1 / 2" "x + 1 / 2 < of_int \<lfloor>x + 1 / 2\<rfloor> + 1"
    "of_int \<lfloor>1 / 2 - x\<rfloor> \<le> 1 / 2 - x" "1 / 2 - x < of_int \<lfloor>1 / 2 - x\<rfloor> + 1" by linarith+
  then show ?thesis unfolding half_up_def abs_le_iff
    by (cases "0 \<le> x") (simp_all only: if_True if_False of_int_minus, linarith+)
qed

lemma half_up_nonneg: "0 \<le> x \<Longrightarrow> 0 \<le> half_up x"
  by (simp add: half_up_def)

section \<open>Binary floating point\<close>

text \<open>
  IEEE 754 binary64 without its range limits: the exponent is unbounded, so neither overflow to
  infinity nor gradual underflow occurs, and there is no NaN.
\<close>

definition fround :: "rat \<Rightarrow> rat" where
  "fround = round_sig 2 53"

definition feps :: rat where
  "feps = bpow 2 (- 52) / 2"

interpretation flt: rounding fround feps
  using rounding_round_sig[of 2 53] by (simp add: fround_def feps_def)

lemma fround_int [simp]: "\<bar>n\<bar> < 2 ^ 53 \<Longrightarrow> fround (of_int n) = of_int n"
  using round_sig_exact[of 2 53 n 0] by (simp add: fround_def bpow_def)

lemma fround_numeral [simp]: "(numeral w :: int) < 2 ^ 53 \<Longrightarrow> fround (numeral w) = numeral w"
  using fround_int[of "numeral w"] by simp

lemma fround_1 [simp]: "fround 1 = 1"
  using fround_int[of 1] by simp

text \<open>\<^verbatim>\<open>round(x, k)\<close> on a float: correctly rounded through the decimal expansion.\<close>

definition fround_places :: "nat \<Rightarrow> rat \<Rightarrow> rat" where
  "fround_places k x = fround (of_int (half_even (x * 10 ^ k)) / 10 ^ k)"

text \<open>
  \<^verbatim>\<open>Decimal(str(x))\<close> for a float \<open>x\<close>: \<^verbatim>\<open>repr\<close> prints the shortest decimal that reads back as
  \<open>x\<close>, the closest to \<open>x\<close> of that length; 17 digits always suffice. \<open>short_decimals n x\<close> are the
  two candidates of \<open>n\<close> digits around \<open>x\<close>, closest first.
\<close>

definition short_decimals :: "int \<Rightarrow> rat \<Rightarrow> rat list" where
  "short_decimals n x = (let u = bpow 10 (magnitude 10 x - n + 1);
       lo = of_int \<lfloor>x / u\<rfloor> * u; hi = of_int \<lceil>x / u\<rceil> * u
     in if x - lo \<le> hi - x then [lo, hi] else [hi, lo])"

fun short_repr :: "nat \<Rightarrow> int \<Rightarrow> rat \<Rightarrow> rat" where
  "short_repr 0 n x = round_sig 10 17 x"
| "short_repr (Suc k) n x =
     (case filter (\<lambda>y. fround y = x) (short_decimals n x) of
        y # _ \<Rightarrow> y
      | [] \<Rightarrow> short_repr k (n + 1) x)"

definition dec_of_float :: "rat \<Rightarrow> rat" where
  "dec_of_float x = (if x = 0 then 0 else short_repr 16 1 x)"

lemma dec_of_float_0 [simp]: "dec_of_float 0 = 0"
  by (simp add: dec_of_float_def)

lemma short_repr_pos: "0 < x \<Longrightarrow> 0 < short_repr k n x"
proof (induction k n x rule: short_repr.induct)
  case (1 n x)
  then show ?case using rounding.rnd_pos[OF rounding_round_sig[of 10 17]] by simp
next
  case (2 k n x)
  show ?case
  proof (cases "filter (\<lambda>y. fround y = x) (short_decimals n x)")
    case Nil with 2 show ?thesis by simp
  next
    case (Cons y ys)
    then have "y \<in> set (filter (\<lambda>y. fround y = x) (short_decimals n x))" by simp
    then have "fround y = x" by simp
    then have "0 < y" using 2 by (metis flt.rnd_pos_iff)
    with Cons show ?thesis by simp
  qed
qed

lemma dec_of_float_pos: "0 < x \<Longrightarrow> 0 < dec_of_float x"
  by (simp add: dec_of_float_def short_repr_pos del: short_repr.simps)

lemma dec_of_float_nonneg: "0 \<le> x \<Longrightarrow> 0 \<le> dec_of_float x"
  using dec_of_float_pos[of x] by (cases "x = 0") auto

text \<open>An integral float below \<open>10 ^ 15\<close> converts to itself.\<close>

lemma short_decimals_int:
  assumes m: "0 < m" "m < 10 ^ 15" and n: "1 \<le> n" and y: "y \<in> set (short_decimals n (of_int m))"
  shows "\<exists>j. y = of_int j \<and> \<bar>j\<bar> \<le> 10 ^ 15" "15 \<le> n \<Longrightarrow> y = of_int m"
proof -
  let ?x = "of_int m :: rat" and ?M = "magnitude 10 (of_int m)" and ?u = "bpow 10 (magnitude 10 (of_int m) - n + 1)"
  have M: "bpow 10 ?M \<le> ?x" "?x < bpow 10 (?M + 1)"
    using magnitude_bounds[of 10 ?x] m by auto
  have "?x < of_int (10 ^ 15)" using m(2) by (simp only: of_int_less_iff)
  with M have "bpow 10 ?M < bpow 10 15" by (simp add: bpow_of_nat)
  from bpow_less_cancel[OF _ this] have M15: "?M \<le> 14" by simp
  have u0: "0 < ?u" by simp
  have y': "y = of_int \<lfloor>?x / ?u\<rfloor> * ?u \<or> y = of_int \<lceil>?x / ?u\<rceil> * ?u"
    using y by (auto simp: short_decimals_def Let_def split: if_splits)
  have exact: "y = ?x" if "?M - n + 1 \<le> 0"
  proof -
    have "?x = of_int (m * 10 ^ nat (- (?M - n + 1))) * ?u"
      using bpow_add[of 10 "- (?M - n + 1)" "?M - n + 1"] that bpow_of_nat[of "- (?M - n + 1)" 10]
      by (simp add: bpow_def[of 10 0])
    then have "?x / ?u = of_int (m * 10 ^ nat (- (?M - n + 1)))"
      using u0 by (simp add: nonzero_divide_eq_eq less_imp_neq[symmetric])
    with y' \<open>?x = of_int (m * _) * ?u\<close> show "y = ?x" by (simp only: floor_of_int ceiling_of_int) auto
  qed
  show "15 \<le> n \<Longrightarrow> y = of_int m" using M15 exact by simp
  show "\<exists>j. y = of_int j \<and> \<bar>j\<bar> \<le> 10 ^ 15"
  proof (cases "?M - n + 1 \<le> 0")
    case True with exact m show ?thesis by auto
  next
    case False
    then have u: "?u = of_int (10 ^ nat (?M - n + 1))" by (simp add: bpow_of_nat)
    have "?x < of_int (10 ^ nat n) * ?u"
      using M(2) bpow_add[of 10 n "?M - n + 1"] n bpow_of_nat[of n 10] by simp
    then have q: "?x / ?u \<le> of_int (10 ^ nat n)" using u0 by (simp add: divide_le_eq)
    have q0: "0 \<le> ?x / ?u" using m u0 by (intro divide_nonneg_pos) auto
    have fl: "0 \<le> \<lfloor>?x / ?u\<rfloor>" "\<lfloor>?x / ?u\<rfloor> \<le> \<lceil>?x / ?u\<rceil>" "\<lceil>?x / ?u\<rceil> \<le> 10 ^ nat n"
      using q q0 by (simp_all only: zero_le_floor ceiling_le_iff floor_le_ceiling)
    have top: "10 ^ nat n * 10 ^ nat (?M - n + 1) \<le> (10 ^ 15 :: int)"
    proof -
      have "nat n + nat (?M - n + 1) \<le> 15" using False n M15 by simp
      then have "(10 :: int) ^ (nat n + nat (?M - n + 1)) \<le> 10 ^ 15" by (intro power_increasing) auto
      then show ?thesis by (simp only: power_add)
    qed
    obtain j where j: "y = of_int (j * 10 ^ nat (?M - n + 1))" "0 \<le> j" "j \<le> 10 ^ nat n"
    proof (rule disjE[OF y'])
      assume "y = of_int \<lfloor>?x / ?u\<rfloor> * ?u"
      with fl show thesis by (intro that[of "\<lfloor>?x / ?u\<rfloor>"]) (simp_all only: of_int_mult u order_trans[OF fl(2,3)])
    next
      assume "y = of_int \<lceil>?x / ?u\<rceil> * ?u"
      with fl show thesis
        by (intro that[of "\<lceil>?x / ?u\<rceil>"]) (simp_all only: of_int_mult u order_trans[OF fl(1,2)])
    qed
    have "0 \<le> j * 10 ^ nat (?M - n + 1)" "j * 10 ^ nat (?M - n + 1) \<le> 10 ^ 15"
      using j(2) order_trans[OF mult_right_mono[OF j(3), of "10 ^ nat (?M - n + 1)"] top] by simp_all
    with j(1) show ?thesis by (intro exI[of _ "j * 10 ^ nat (?M - n + 1)"]) auto
  qed
qed

lemma short_repr_int:
  assumes "0 < m" "m < 10 ^ 15" "1 \<le> n" "16 \<le> int k + n" "n \<le> 15"
  shows "short_repr k n (of_int m) = of_int m"
  using assms(3-5)
proof (induction k arbitrary: n)
  case (Suc k)
  let ?F = "filter (\<lambda>y. fround y = of_int m) (short_decimals n (of_int m))"
  have all: "y = of_int m" if "y \<in> set ?F" for y
  proof -
    from that obtain j where j: "y = of_int j" "\<bar>j\<bar> \<le> 10 ^ 15"
      using short_decimals_int(1)[OF assms(1,2) Suc.prems(1)] by auto
    then have "fround y = y" by simp
    with that show ?thesis by simp
  qed
  show ?case
  proof (cases "n = 15")
    case True
    have "fround (of_int m) = of_int m" using assms by (intro fround_int) simp
    moreover have "hd (short_decimals n (of_int m)) \<in> set (short_decimals n (of_int m))"
      "short_decimals n (of_int m) \<noteq> []" by (simp_all add: short_decimals_def Let_def)
    moreover have "hd (short_decimals n (of_int m)) = of_int m"
      using True calculation short_decimals_int(2)[OF assms(1,2), of 15] by simp
    ultimately have "?F \<noteq> []" by (auto simp: filter_empty_conv intro: bexI)
    then show ?thesis using all by (cases ?F) auto
  next
    case False
    then show ?thesis using all Suc by (cases ?F) auto
  qed
qed simp

lemma dec_of_float_int: "0 \<le> m \<Longrightarrow> m < 10 ^ 15 \<Longrightarrow> dec_of_float (of_int m) = of_int m"
  using short_repr_int[of m 1 16] by (cases "m = 0") (simp_all add: dec_of_float_def del: short_repr.simps)

lemma dec_of_float_numeral [simp]:
  "(numeral w :: int) < 10 ^ 15 \<Longrightarrow> dec_of_float (numeral w) = numeral w"
  using dec_of_float_int[of "numeral w"] by simp

lemma dec_of_float_1 [simp]: "dec_of_float 1 = 1"
  using dec_of_float_int[of 1] by simp

section \<open>Arithmetic on a decimal grid\<close>

text \<open>
  With the quantity, the unit and the step all multiples of \<open>1 / 10 ^ p\<close> and below \<open>10 ^ 27\<close> such
  units, no Decimal operation rounds, and the quotient truncates as in the integers.
\<close>

lemma int_div_bounds:
  assumes "1 \<le> M" "0 \<le> Q"
  shows "0 \<le> Q div M \<and> Q div M * M \<le> Q \<and> Q div M \<le> (Q :: int)"
proof -
  have d: "0 \<le> Q div M" using assms by (simp add: pos_imp_zdiv_nonneg_iff)
  have "Q div M * M + Q mod M = Q" "0 \<le> Q mod M" using assms by simp_all
  then have m: "Q div M * M \<le> Q" by linarith
  have "Q div M * 1 \<le> Q div M * M" using d assms by (intro mult_left_mono) auto
  with d m show ?thesis by simp
qed

lemma dtrunc_dround_div:
  assumes "1 \<le> M" "0 \<le> Q" "Q < 10 ^ 27"
  shows "dtrunc (dround (of_int Q / of_int M)) = Q div M"
proof -
  let ?x = "of_int Q / of_int M :: rat" and ?d = "Q div M"
  have M0: "0 < (of_int M :: rat)" using assms by simp
  have d: "0 \<le> ?d" "?d \<le> Q" using int_div_bounds[OF assms(1,2)] by auto
  have decomp: "of_int Q = of_int M * of_int ?d + (of_int (Q mod M) :: rat)"
    by (metis mult_div_mod_eq of_int_add of_int_mult)
  have "Q mod M \<le> M - 1" "0 \<le> Q mod M" using assms(1) pos_mod_bound[of M Q] by auto
  then have "(of_int (Q mod M) :: rat) \<le> of_int (M - 1)" "(of_int 0 :: rat) \<le> of_int (Q mod M)"
    by (simp_all only: of_int_le_iff)
  then have r: "of_int (Q mod M) \<le> (of_int M - 1 :: rat)" "0 \<le> (of_int (Q mod M) :: rat)" by simp_all
  have "of_int ?d \<le> ?x" using decomp r M0 by (simp add: le_divide_eq algebra_simps)
  then have lo: "of_int ?d \<le> dround ?x" using d assms by (intro dec.rep_le_rnd) auto
  have x0: "0 \<le> ?x" using assms by simp
  have "?x = of_int ?d + of_int (Q mod M) / of_int M" using decomp M0 by (simp add: add_divide_distrib)
  moreover have "of_int (Q mod M) / of_int M \<le> (of_int M - 1) / (of_int M :: rat)"
    using r M0 by (intro divide_right_mono) auto
  moreover have "(of_int M - 1) / of_int M = (1 - 1 / of_int M :: rat)" using M0 by (simp add: diff_divide_distrib)
  ultimately have "?x \<le> of_int ?d + 1 - 1 / of_int M" by linarith
  moreover have "?x * deps < 1 / of_int M"
  proof -
    have "(of_int Q :: rat) < of_int (10 ^ 27)" using assms(3) by (simp only: of_int_less_iff)
    then have "of_int Q * deps < 1" by (simp add: deps_def bpow_def)
    then show ?thesis using M0 by (simp add: field_simps)
  qed
  moreover have "dround ?x \<le> ?x + ?x * deps" using dec.rnd_upper[OF x0] by (simp only: distrib_left mult_1_right)
  ultimately have hi: "dround ?x < of_int ?d + 1" by linarith
  have "0 \<le> dround ?x" using lo d by (meson of_int_0_le_iff order_trans)
  then have "dtrunc (dround ?x) = \<lfloor>dround ?x\<rfloor>" by (simp add: dtrunc_def)
  also have "\<dots> = ?d" using lo hi by (intro floor_unique) auto
  finally show ?thesis .
qed

lemma grid_div: "M \<noteq> 0 \<Longrightarrow> (of_int Q / 10 ^ p) / (of_int M / 10 ^ p) = (of_int Q / of_int M :: rat)"
  by simp

lemma grid_le_0: "of_int n / (10 :: rat) ^ p \<le> 0 \<longleftrightarrow> n \<le> 0"
  by (subst pos_divide_le_eq) auto

lemma dround_grid: "\<bar>n\<bar> < 10 ^ 27 \<Longrightarrow> dround (of_int n / 10 ^ p) = of_int n / 10 ^ p"
  by (rule dround_decimal) simp

end
