(* ===== verification/PyValues.thy ===== *)
theory PyValues
  imports Numerics
begin

text \<open>
  The dynamically typed values the code keeps in its free-form dictionaries
  (\<^verbatim>\<open>Action.metadata\<close>, \<^verbatim>\<open>StrategyContext.strategy_params\<close>, untyped configuration entries), their
  truth value, and the conversion \<^verbatim>\<open>Decimal(str(v))\<close> that every numeric use of them goes through.
\<close>

datatype pyval =
    PNone | PBool bool | PInt int | PFloat rat | PDec rat | PStr string

fun truthy :: "pyval \<Rightarrow> bool" where
  "truthy PNone = False"
| "truthy (PBool b) = b"
| "truthy (PInt n) = (n \<noteq> 0)"
| "truthy (PFloat x) = (x \<noteq> 0)"
| "truthy (PDec x) = (x \<noteq> 0)"
| "truthy (PStr s) = (s \<noteq> [])"

definition py_get :: "(string, pyval) dict \<Rightarrow> string \<Rightarrow> pyval" where
  "py_get d k = (case map_of d k of None \<Rightarrow> PNone | Some v \<Rightarrow> v)"

text \<open>\<^verbatim>\<open>d.get(k, v)\<close>.\<close>

definition get_or :: "(string, pyval) dict \<Rightarrow> string \<Rightarrow> pyval \<Rightarrow> pyval" where
  "get_or d k z = (case map_of d k of None \<Rightarrow> z | Some v \<Rightarrow> v)"

section \<open>Text\<close>

definition code_point :: "char \<Rightarrow> nat" where
  "code_point c = of_char c"

definition upper_char :: "char \<Rightarrow> char" where
  "upper_char c = (if 97 \<le> code_point c \<and> code_point c \<le> 122 then char_of (code_point c - 32) else c)"

definition upper :: "string \<Rightarrow> string" where
  "upper s = map upper_char s"

definition lower_char :: "char \<Rightarrow> char" where
  "lower_char c = (if 65 \<le> code_point c \<and> code_point c \<le> 90 then char_of (code_point c + 32) else c)"

definition lower :: "string \<Rightarrow> string" where
  "lower s = map lower_char s"

definition is_space :: "char \<Rightarrow> bool" where
  "is_space c = (code_point c = 32 \<or> (9 \<le> code_point c \<and> code_point c \<le> 13)
     \<or> (28 \<le> code_point c \<and> code_point c \<le> 31))"

definition strip :: "string \<Rightarrow> string" where
  "strip s = rev (dropWhile is_space (rev (dropWhile is_space s)))"

definition is_digit :: "char \<Rightarrow> bool" where
  "is_digit c = (48 \<le> code_point c \<and> code_point c \<le> 57)"

definition digits_value :: "string \<Rightarrow> int" where
  "digits_value s = foldl (\<lambda>n c. 10 * n + (int (code_point c) - 48)) 0 s"

text \<open>\<^verbatim>\<open>s.replace(w, "")\<close>.\<close>

function drop_sub :: "string \<Rightarrow> string \<Rightarrow> string" where
  "drop_sub w s =
     (if s = [] then []
      else if w \<noteq> [] \<and> take (length w) s = w then drop_sub w (drop (length w) s)
      else hd s # drop_sub w (tl s))"
  by pat_completeness auto
termination by (relation "measure (\<lambda>(w, s). length s)") auto

declare drop_sub.simps [simp del]

lemma upper_idem [simp]: "upper (upper s) = upper s"
proof -
  have "upper_char (upper_char c) = upper_char c" for c
  proof (cases "97 \<le> code_point c \<and> code_point c \<le> 122")
    case True
    then have "(code_point c - 32) mod 256 = code_point c - 32" by (intro mod_less) arith
    with True show ?thesis by (auto simp: upper_char_def code_point_def)
  qed (auto simp: upper_char_def)
  then show ?thesis by (simp add: upper_def)
qed

text \<open>\<^verbatim>\<open>str(n)\<close> of a natural number.\<close>

fun str_nat :: "nat \<Rightarrow> string" where
  "str_nat n = (if n < 10 then [char_of (48 + n)] else str_nat (n div 10) @ [char_of (48 + n mod 10)])"

declare str_nat.simps [simp del]

lemma code_point_digit: "d < 10 \<Longrightarrow> code_point (char_of (48 + d)) = 48 + d"
  by (simp add: code_point_def)

lemma digits_value_snoc: "digits_value (s @ [c]) = 10 * digits_value s + (int (code_point c) - 48)"
  by (simp add: digits_value_def)

lemma digits_value_str_nat: "digits_value (str_nat n) = int n"
proof (induction n rule: less_induct)
  case (less n)
  show ?case
  proof (cases "n < 10")
    case True
    then have "str_nat n = [] @ [char_of (48 + n)]" by (simp add: str_nat.simps[of n])
    then have "digits_value (str_nat n) = 10 * digits_value [] + (int (code_point (char_of (48 + n))) - 48)"
      by (simp only: digits_value_snoc)
    then show ?thesis using True by (simp add: code_point_digit digits_value_def)
  next
    case False
    then have "str_nat n = str_nat (n div 10) @ [char_of (48 + n mod 10)]" by (simp add: str_nat.simps[of n])
    then have "digits_value (str_nat n) = 10 * int (n div 10) + (int (48 + n mod 10) - 48)"
      using less[of "n div 10"] False by (simp only: digits_value_snoc code_point_digit)
    moreover have "10 * int (n div 10) + int (n mod 10) = int n"
      by (simp only: zdiv_int zmod_int) simp
    ultimately show ?thesis by simp
  qed
qed

lemma str_nat_inject: "str_nat m = str_nat n \<longleftrightarrow> m = n"
  by (metis digits_value_str_nat of_nat_eq_iff)

section \<open>Reading a Decimal\<close>

text \<open>
  The numeric-string grammar of \<^verbatim>\<open>decimal\<close> after stripping white space and removing underscores:
  an optional sign, digits with at most one point and at least one digit, an optional exponent.
  The strings \<^verbatim>\<open>Infinity\<close> and \<^verbatim>\<open>NaN\<close>, which Python also reads, are refused: the model's numbers
  are finite.
\<close>

definition read_sign :: "string \<Rightarrow> int \<times> string" where
  "read_sign s = (case s of [] \<Rightarrow> (1, [])
     | c # cs \<Rightarrow> if c = CHR ''-'' then (- 1, cs) else if c = CHR ''+'' then (1, cs) else (1, s))"

definition read_exponent :: "string \<Rightarrow> int option" where
  "read_exponent s = (case s of [] \<Rightarrow> Some 0
     | c # cs \<Rightarrow>
        if c = CHR ''e'' \<or> c = CHR ''E'' then
          (let sg = read_sign cs in
           if snd sg \<noteq> [] \<and> list_all is_digit (snd sg) then Some (fst sg * digits_value (snd sg)) else None)
        else None)"

definition parse_decimal :: "string \<Rightarrow> rat option" where
  "parse_decimal s =
     (let sg = read_sign (filter (\<lambda>c. c \<noteq> CHR ''_'') (strip s));
          whole = takeWhile is_digit (snd sg);
          r = dropWhile is_digit (snd sg);
          frac = (if r \<noteq> [] \<and> hd r = CHR ''.'' then takeWhile is_digit (tl r) else []);
          r' = (if r \<noteq> [] \<and> hd r = CHR ''.'' then dropWhile is_digit (tl r) else r)
      in if whole @ frac = [] then None
         else map_option (\<lambda>e. of_int (fst sg * digits_value (whole @ frac)) * bpow 10 (e - int (length frac)))
                (read_exponent r'))"

text \<open>\<^verbatim>\<open>Decimal(str(v))\<close>, with \<^verbatim>\<open>InvalidOperation\<close> for text that is no number.\<close>

fun to_decimal :: "pyval \<Rightarrow> rat res" where
  "to_decimal PNone = Inl InvalidOperation"
| "to_decimal (PBool b) = Inl InvalidOperation"
| "to_decimal (PInt n) = Inr (of_int n)"
| "to_decimal (PFloat x) = Inr (dec_of_float x)"
| "to_decimal (PDec x) = Inr x"
| "to_decimal (PStr s) = (case parse_decimal s of None \<Rightarrow> Inl InvalidOperation | Some x \<Rightarrow> Inr x)"

text \<open>\<^verbatim>\<open>float(v)\<close>; a string is read as a Decimal and rounded once, as \<^verbatim>\<open>float\<close> does.\<close>

fun to_float :: "pyval \<Rightarrow> rat res" where
  "to_float PNone = Inl TypeError"
| "to_float (PBool b) = Inr (if b then 1 else 0)"
| "to_float (PInt n) = Inr (fround (of_int n))"
| "to_float (PFloat x) = Inr x"
| "to_float (PDec x) = Inr (fround x)"
| "to_float (PStr s) = (case parse_decimal s of None \<Rightarrow> Inl ValueError | Some x \<Rightarrow> Inr (fround x))"

text \<open>
  \<^verbatim>\<open>int(v)\<close>: numbers are truncated, text must be an optional sign and digits, with single
  underscores between digits.
\<close>

fun valid_digits :: "(char \<Rightarrow> bool) \<Rightarrow> string \<Rightarrow> bool" where
  "valid_digits P [] = False"
| "valid_digits P [c] = P c"
| "valid_digits P (c # d # ds) = (P c \<and> (if d = CHR ''_'' then valid_digits P ds else valid_digits P (d # ds)))"

definition parse_int :: "string \<Rightarrow> int option" where
  "parse_int s = (let sg = read_sign (strip s) in
     if valid_digits is_digit (snd sg) then Some (fst sg * digits_value (filter is_digit (snd sg))) else None)"

fun to_int :: "pyval \<Rightarrow> int res" where
  "to_int PNone = Inl TypeError"
| "to_int (PBool b) = Inr (if b then 1 else 0)"
| "to_int (PInt n) = Inr n"
| "to_int (PFloat x) = Inr (dtrunc x)"
| "to_int (PDec x) = Inr (dtrunc x)"
| "to_int (PStr s) = (case parse_int s of None \<Rightarrow> Inl ValueError | Some n \<Rightarrow> Inr n)"

lemma to_decimal_error: "to_decimal v = Inl e \<Longrightarrow> e = InvalidOperation"
  by (cases v) (auto split: option.splits)

end
