(* ===== verification/Domain.thy ===== *)
theory Domain
  imports PyValues
begin

text \<open>
  The data classes of \<^verbatim>\<open>src/quad/types\<close>: one record per dataclass, one datatype per enum, the
  fields in the source's order with the source's defaults. Amounts the source types \<^verbatim>\<open>Decimal\<close>
  are rationals computed with \<open>dround\<close>; fields it types \<^verbatim>\<open>float\<close> are rationals computed with
  \<open>fround\<close>. \<^verbatim>\<open>Action\<close> and \<^verbatim>\<open>RiskResult\<close> refer to each other, so they are mutually recursive
  datatypes around the record of the action's own fields.
\<close>

section \<open>types/domain.py\<close>

datatype futures_position_side = FLong | FShort | FBoth

datatype margin_type = Isolated | Cross

datatype position_side = Long | Short

datatype position_status = Open | Closed | Liquidated

record balance =
  bal_asset :: string
  bal_free :: rat
  bal_locked :: rat

definition balance_total :: "balance \<Rightarrow> rat" where
  "balance_total b = dround (bal_free b + bal_locked b)"

record futures_position =
  fp_symbol :: string
  fp_side :: futures_position_side
  fp_size :: rat
  fp_entry_price :: rat
  fp_mark_price :: rat
  fp_liquidation_price :: rat
  fp_leverage :: int
  fp_margin_type :: margin_type
  fp_margin :: rat
  fp_unrealized_pnl :: rat
  fp_realized_pnl :: rat
  fp_funding_paid :: rat
  fp_update_time :: int

definition default_futures_position :: futures_position where
  "default_futures_position = \<lparr>fp_symbol = [], fp_side = FLong, fp_size = 0, fp_entry_price = 0,
     fp_mark_price = 0, fp_liquidation_price = 0, fp_leverage = 1, fp_margin_type = Isolated,
     fp_margin = 0, fp_unrealized_pnl = 0, fp_realized_pnl = 0, fp_funding_paid = 0,
     fp_update_time = 0\<rparr>"

record account =
  acc_id :: string
  acc_exchange :: string
  acc_balances :: "(string, balance) dict"
  acc_total_usdt :: rat
  acc_timestamp :: int
  acc_max_leverage :: int
  acc_total_wallet_balance :: rat
  acc_total_margin_balance :: rat
  acc_available_balance :: rat
  acc_positions :: "futures_position list"

definition default_account :: "string \<Rightarrow> string \<Rightarrow> account" where
  "default_account i ex = \<lparr>acc_id = i, acc_exchange = ex, acc_balances = [], acc_total_usdt = 0,
     acc_timestamp = 0, acc_max_leverage = 1, acc_total_wallet_balance = 0,
     acc_total_margin_balance = 0, acc_available_balance = 0, acc_positions = []\<rparr>"

record position =
  pos_id :: "int option"
  pos_strategy :: string
  pos_symbol :: string
  pos_side :: position_side
  pos_quantity :: rat
  pos_entry_price :: rat
  pos_current_price :: rat
  pos_unrealized_pnl :: rat
  pos_realized_pnl :: rat
  pos_leverage :: int
  pos_margin_type :: margin_type
  pos_position_side :: futures_position_side
  pos_liquidation_price :: rat
  pos_initial_margin :: rat
  pos_maintenance_margin :: rat
  pos_funding_paid :: rat
  pos_status :: position_status
  pos_opened_at :: int
  pos_updated_at :: int
  pos_stop_loss_order_id :: string
  pos_take_profit_order_id :: string
  pos_stop_loss_price :: rat
  pos_take_profit_price :: rat

text \<open>Exchange order identifiers are \<^verbatim>\<open>int | str\<close>.\<close>

datatype order_id = IntId int | StrId string

record order =
  ord_id :: "order_id option"
  ord_client_order_id :: string
  ord_symbol :: string
  ord_side :: string
  ord_order_type :: string
  ord_quantity :: rat
  ord_filled_qty :: rat
  ord_price :: "rat option"
  ord_stop_price :: "rat option"
  ord_status :: string
  ord_time_in_force :: string
  ord_created_at :: int
  ord_updated_at :: int
  ord_working_type :: string
  ord_position_side :: string
  ord_price_protect :: bool

record order_request =
  req_symbol :: string
  req_side :: string
  req_order_type :: string
  req_quantity :: rat
  req_price :: "rat option"
  req_stop_price :: "rat option"
  req_time_in_force :: string
  req_client_order_id :: string
  req_reduce_only :: bool
  req_post_only :: bool
  req_working_type :: string
  req_position_side :: string
  req_price_protect :: bool
  req_take_profit_price :: "rat option"
  req_stop_loss_price :: "rat option"

definition default_order_request :: order_request where
  "default_order_request = \<lparr>req_symbol = [], req_side = [], req_order_type = [], req_quantity = 0,
     req_price = None, req_stop_price = None, req_time_in_force = ''GTC'', req_client_order_id = [],
     req_reduce_only = False, req_post_only = False, req_working_type = [], req_position_side = [],
     req_price_protect = False, req_take_profit_price = None, req_stop_loss_price = None\<rparr>"

text \<open>
  A fill is a dict with keys such as \<^verbatim>\<open>qty\<close>, \<^verbatim>\<open>price\<close>, \<^verbatim>\<open>commission\<close>.
\<close>

record order_result =
  res_order_id :: order_id
  res_client_order_id :: string
  res_symbol :: string
  res_side :: string
  res_order_type :: string
  res_quantity :: rat
  res_filled_qty :: rat
  res_price :: "rat option"
  res_status :: string
  res_fills :: "(string, pyval) dict list"

record trade =
  trd_id :: "int option"
  trd_position_id :: "int option"
  trd_order_id :: "order_id option"
  trd_symbol :: string
  trd_side :: string
  trd_quantity :: rat
  trd_price :: rat
  trd_fee :: rat
  trd_pnl :: "rat option"
  trd_timestamp :: int

section \<open>types/market.py\<close>

record futures_contract =
  fc_symbol :: string
  fc_mark_price :: rat
  fc_index_price :: rat
  fc_funding_rate :: rat
  fc_next_funding_time :: int
  fc_volume_24h :: rat
  fc_open_interest :: rat
  fc_open_interest_value :: rat
  fc_last_price :: rat
  fc_price_change_24h :: rat
  fc_high_24h :: rat
  fc_low_24h :: rat
  fc_last_update :: int

record funding_rate =
  fr_symbol :: string
  fr_funding_rate :: rat
  fr_next_funding_time :: int
  fr_mark_price :: rat
  fr_index_price :: rat

section \<open>types/risk.py\<close>

datatype action_type =
    ENTER | EXIT | HOLD | Adjust_stop | Reduce_position | Set_stop_loss | Set_take_profit
  | Open_long | Open_short | Close_long | Close_short

record circuit_breaker_status =
  cbs_name :: string
  cbs_active :: bool
  cbs_triggered_at :: "int option"
  cbs_tier :: int

record risk_status =
  rs_drawdown_percent :: rat
  rs_daily_pnl :: rat
  rs_daily_loss_limit :: rat
  rs_circuit_breakers :: "(string, circuit_breaker_status) dict"
  rs_gates :: "(string, bool) dict"

record action_data =
  act_type :: action_type
  act_strategy :: string
  act_symbol :: string
  act_quantity :: rat
  act_price :: "rat option"
  act_reason :: string
  act_confidence :: rat
  act_risk_checked :: bool
  act_metadata :: "(string, pyval) dict"
  act_contract :: string
  act_side :: string
  act_order_type :: string
  act_stop_loss_price :: "rat option"
  act_take_profit_price :: "rat option"

datatype action = Action (data: action_data) (risk_result_of: "risk_result option")
and risk_result = RiskResult (passed: bool) (gate: string) (details: "(string \<times> detail) list")
and detail =
    DInt int | DBool bool | DDec rat | DStrs "string list"
  | DNear "(string \<times> futures_position_side \<times> rat \<times> rat) list"
  | DRows "(string \<times> rat list) list" | DAction action

text \<open>
  \<^verbatim>\<open>RiskResult.reason\<close> and the f-strings it is built from are log text and are left out; the
  \<^verbatim>\<open>details\<close> dict keeps its keys, with the numbers the code prints into it kept as numbers.
\<close>

text \<open>
  \<^verbatim>\<open>Action.__post_init__\<close>: every constructor call runs it.
\<close>

definition default_side :: "action_type \<Rightarrow> string" where
  "default_side t =
     (if t \<in> {Open_long, Close_short, ENTER} then ''BUY''
      else if t \<in> {Open_short, Close_long, EXIT} then ''SELL''
      else if t \<in> {Set_stop_loss, Set_take_profit} then ''SELL''
      else '''')"

definition post_init :: "action_data \<Rightarrow> action_data" where
  "post_init a =
     (let a1 = a\<lparr>act_contract := (if act_contract a \<noteq> [] then act_contract a else act_symbol a)\<rparr>;
          a2 = (if act_side a1 = [] then a1\<lparr>act_side := default_side (act_type a1)\<rparr> else a1)
      in if act_type a2 = Set_stop_loss then a2\<lparr>act_order_type := ''STOP_MARKET''\<rparr>
         else if act_type a2 = Set_take_profit then a2\<lparr>act_order_type := ''TAKE_PROFIT_MARKET''\<rparr>
         else a2)"

definition default_action :: action_data where
  "default_action = \<lparr>act_type = HOLD, act_strategy = [], act_symbol = [], act_quantity = 0,
     act_price = None, act_reason = [], act_confidence = 1, act_risk_checked = False,
     act_metadata = [], act_contract = [], act_side = [], act_order_type = [],
     act_stop_loss_price = None, act_take_profit_price = None\<rparr>"

section \<open>types/strategy.py\<close>

record strategy_context =
  ctx_account :: "account option"
  ctx_positions :: "position list"
  ctx_futures_positions :: "futures_position list"
  ctx_orders :: "order list"
  ctx_futures_contracts :: "(string, futures_contract) dict"
  ctx_funding_rates :: "(string, funding_rate) dict"
  ctx_mark_prices :: "(string, rat) dict"
  ctx_underlying_price :: "rat option"
  ctx_risk_status :: "risk_status option"
  ctx_strategy_params :: "(string, pyval) dict"

definition default_context :: strategy_context where
  "default_context = \<lparr>ctx_account = None, ctx_positions = [], ctx_futures_positions = [],
     ctx_orders = [], ctx_futures_contracts = [], ctx_funding_rates = [], ctx_mark_prices = [],
     ctx_underlying_price = None, ctx_risk_status = None, ctx_strategy_params = []\<rparr>"

section \<open>Lemmas\<close>

lemma set_default_side: "default_side t \<in> {''BUY'', ''SELL'', ''''}"
  by (simp add: default_side_def)

lemma default_side_empty_iff:
  "default_side t = [] \<longleftrightarrow> t \<in> {HOLD, Adjust_stop, Reduce_position}"
  by (cases t) (simp_all add: default_side_def)

text \<open>The three fields \<^verbatim>\<open>__post_init__\<close> fills in, in one update.\<close>

lemma post_init_update:
  "post_init a = a\<lparr>
     act_contract := (if act_contract a \<noteq> [] then act_contract a else act_symbol a),
     act_side := (if act_side a = [] then default_side (act_type a) else act_side a),
     act_order_type := (if act_type a = Set_stop_loss then ''STOP_MARKET''
      else if act_type a = Set_take_profit then ''TAKE_PROFIT_MARKET'' else act_order_type a)\<rparr>"
  by (cases a) (simp add: post_init_def Let_def)

lemma post_init_type [simp]: "act_type (post_init a) = act_type a"
  and post_init_quantity [simp]: "act_quantity (post_init a) = act_quantity a"
  and post_init_symbol [simp]: "act_symbol (post_init a) = act_symbol a"
  and post_init_metadata [simp]: "act_metadata (post_init a) = act_metadata a"
  and post_init_stop_loss [simp]: "act_stop_loss_price (post_init a) = act_stop_loss_price a"
  and post_init_take_profit [simp]: "act_take_profit_price (post_init a) = act_take_profit_price a"
  and post_init_price [simp]: "act_price (post_init a) = act_price a"
  and post_init_risk_checked [simp]: "act_risk_checked (post_init a) = act_risk_checked a"
  and post_init_strategy [simp]: "act_strategy (post_init a) = act_strategy a"
  by (simp_all add: post_init_update del: if_split)

lemma post_init_side: "act_side (post_init a) = (if act_side a = [] then default_side (act_type a) else act_side a)"
  by (simp add: post_init_update del: if_split)

lemma post_init_contract:
  "act_contract (post_init a) = (if act_contract a \<noteq> [] then act_contract a else act_symbol a)"
  by (simp add: post_init_update del: if_split)

lemma post_init_order_type:
  "act_order_type (post_init a) =
     (if act_type a = Set_stop_loss then ''STOP_MARKET''
      else if act_type a = Set_take_profit then ''TAKE_PROFIT_MARKET'' else act_order_type a)"
  by (simp add: post_init_update del: if_split)

text \<open>Constructing an action twice changes nothing: \<^verbatim>\<open>dataclasses.replace\<close> re-runs \<^verbatim>\<open>__post_init__\<close>.\<close>

lemma post_init_idem: "post_init (post_init a) = post_init a"
proof -
  have "(if (if s = [] then default_side t else s) = [] then default_side t else (if s = [] then default_side t else s))
      = (if s = [] then default_side t else s)" for s t by simp
  then show ?thesis unfolding post_init_update by (cases a) simp
qed

end
