(* ===== verification/Gates.thy ===== *)
theory Gates
  imports Domain
begin

text \<open>
  \<^verbatim>\<open>src/quad/risk/gates.py\<close>: the nine pre-trade gates and the pipeline that runs them. Each gate is
  a function of the configuration, the action and the context; a gate that prints a number into
  its details with \<^verbatim>\<open>quantize\<close> can raise \<^verbatim>\<open>InvalidOperation\<close>, so its result is a \<open>risk_result res\<close>.
  The configuration is the \<^verbatim>\<open>RiskConfig\<close> section of \<^verbatim>\<open>config/schema.py\<close> after validation: every key
  is present, and the float fields are binary64 values, read as \<^verbatim>\<open>Decimal(str(x))\<close> by the gates.
\<close>

section \<open>Configuration (config/schema.py)\<close>

record kelly_config =
  kc_fraction :: rat
  kc_default_fraction :: rat

record breaker_config =
  bc_max_consecutive :: int
  bc_min_cascade_distance_pct :: rat
  bc_funding_rate_spike_threshold :: rat
  bc_max_consecutive_spikes :: int
  bc_volatility_breaker_atr_pct :: rat

record risk_config =
  rc_max_positions :: int
  rc_max_portfolio_risk_pct :: rat
  rc_max_daily_loss_usd :: rat
  rc_max_drawdown_pct :: rat
  rc_max_leverage :: int
  rc_min_distance_to_liquidation_pct :: rat
  rc_liquidation_distance_fraction :: rat
  rc_funding_rate_periods :: int
  rc_max_funding_rate_cost :: rat
  rc_max_position_concentration :: rat
  rc_min_position_size_usd :: rat
  rc_max_position_size_pct :: rat
  rc_max_position_size_usd :: rat
  rc_correlation_threshold_pct :: rat
  rc_kelly :: kelly_config
  rc_circuit_breakers :: breaker_config
  rc_sl_enabled :: bool
  rc_tp_enabled :: bool

text \<open>The schema's defaults; \<^verbatim>\<open>0.2\<close>, \<^verbatim>\<open>0.001\<close> and the like are the binary64 values nearest to them.\<close>

definition default_breaker_config :: breaker_config where
  "default_breaker_config = \<lparr>bc_max_consecutive = 3, bc_min_cascade_distance_pct = fround (5 / 100),
     bc_funding_rate_spike_threshold = fround (1 / 1000), bc_max_consecutive_spikes = 3,
     bc_volatility_breaker_atr_pct = fround (5 / 100)\<rparr>"

definition default_risk_config :: risk_config where
  "default_risk_config = \<lparr>rc_max_positions = 1, rc_max_portfolio_risk_pct = 20,
     rc_max_daily_loss_usd = 500, rc_max_drawdown_pct = 25, rc_max_leverage = 10,
     rc_min_distance_to_liquidation_pct = fround (2 / 10),
     rc_liquidation_distance_fraction = 1 / 2, rc_funding_rate_periods = 3,
     rc_max_funding_rate_cost = fround (1 / 1000),
     rc_max_position_concentration = fround (4 / 10), rc_min_position_size_usd = 10,
     rc_max_position_size_pct = fround (1 / 10), rc_max_position_size_usd = 10000,
     rc_correlation_threshold_pct = 60,
     rc_kelly = \<lparr>kc_fraction = 1 / 4, kc_default_fraction = fround (2 / 100)\<rparr>,
     rc_circuit_breakers = default_breaker_config, rc_sl_enabled = True, rc_tp_enabled = True\<rparr>"

section \<open>Gate names\<close>

definition "MAX_POSITIONS_GATE = ''MAX_POSITIONS_GATE''"
definition "PORTFOLIO_RISK_GATE = ''PORTFOLIO_RISK_GATE''"
definition "DAILY_LOSS_GATE = ''DAILY_LOSS_GATE''"
definition "DRAWDOWN_GATE = ''DRAWDOWN_GATE''"
definition "LIQUIDATION_RISK_GATE = ''LIQUIDATION_RISK_GATE''"
definition "FUNDING_RATE_COST_GATE = ''FUNDING_RATE_COST_GATE''"
definition "LEVERAGE_LIMIT_GATE = ''LEVERAGE_LIMIT_GATE''"
definition "POSITION_CONCENTRATION_GATE = ''POSITION_CONCENTRATION_GATE''"
definition "CORRELATION_GATE = ''CORRELATION_GATE''"

lemmas gate_name_defs = MAX_POSITIONS_GATE_def PORTFOLIO_RISK_GATE_def DAILY_LOSS_GATE_def
  DRAWDOWN_GATE_def LIQUIDATION_RISK_GATE_def FUNDING_RATE_COST_GATE_def LEVERAGE_LIMIT_GATE_def
  POSITION_CONCENTRATION_GATE_def CORRELATION_GATE_def

definition ALL_GATES :: "string list" where
  "ALL_GATES = [MAX_POSITIONS_GATE, PORTFOLIO_RISK_GATE, DAILY_LOSS_GATE, DRAWDOWN_GATE,
     LIQUIDATION_RISK_GATE, FUNDING_RATE_COST_GATE, LEVERAGE_LIMIT_GATE,
     POSITION_CONCENTRATION_GATE, CORRELATION_GATE]"

lemma distinct_ALL_GATES: "distinct ALL_GATES"
  by (simp add: ALL_GATES_def gate_name_defs)

section \<open>Helpers\<close>

text \<open>\<^verbatim>\<open>effective_min_liquidation_distance\<close>; a missing or zero leverage counts as 1.\<close>

definition effective_min_liquidation_distance :: "risk_config \<Rightarrow> int option \<Rightarrow> rat" where
  "effective_min_liquidation_distance cfg leverage =
     (let configured = dec_of_float (rc_min_distance_to_liquidation_pct cfg);
          fraction = dec_of_float (rc_liquidation_distance_fraction cfg);
          lev = max 1 (case leverage of None \<Rightarrow> 1 | Some n \<Rightarrow> if n = 0 then 1 else n)
      in min configured (dround (fraction / of_int lev)))"

definition is_entry :: "action_type \<Rightarrow> bool" where
  "is_entry t = (t \<in> {ENTER, Open_long, Open_short})"

fun position_mark :: "string \<Rightarrow> futures_position list \<Rightarrow> rat" where
  "position_mark symb [] = 0"
| "position_mark symb (p # ps) =
     (if fp_symbol p = symb \<and> 0 < fp_mark_price p then dec_of_float (fp_mark_price p)
      else position_mark symb ps)"

definition resolve_mark_price :: "string \<Rightarrow> strategy_context \<Rightarrow> rat" where
  "resolve_mark_price symb ctx =
     (case map_of (ctx_futures_contracts ctx) symb of
        Some c \<Rightarrow> if 0 < fc_mark_price c then fc_mark_price c
                  else position_mark symb (ctx_futures_positions ctx)
      | None \<Rightarrow> position_mark symb (ctx_futures_positions ctx))"

definition proposed_notional :: "action \<Rightarrow> strategy_context \<Rightarrow> rat" where
  "proposed_notional a ctx =
     (let mark = resolve_mark_price (act_symbol (data a)) ctx;
          q = dround \<bar>act_quantity (data a)\<bar>
      in if 0 < mark then dround (q * mark) else q)"

definition position_notional :: "futures_position \<Rightarrow> rat" where
  "position_notional p = dround (dec_of_float \<bar>fp_size p\<bar> * dec_of_float (fp_mark_price p))"

definition open_notional :: "strategy_context \<Rightarrow> rat" where
  "open_notional ctx = rsum dround 0 (map position_notional (ctx_futures_positions ctx))"

text \<open>The existing exposure, plus the proposed one for an entry.\<close>

definition total_notional :: "action \<Rightarrow> strategy_context \<Rightarrow> rat" where
  "total_notional a ctx = (if is_entry (act_type (data a))
     then dround (open_notional ctx + proposed_notional a ctx) else open_notional ctx)"

definition portfolio_value :: "strategy_context \<Rightarrow> rat" where
  "portfolio_value ctx = (case ctx_account ctx of Some acc \<Rightarrow> acc_total_usdt acc | None \<Rightarrow> 0)"

definition pass :: "string \<Rightarrow> risk_result res" where
  "pass g = Inr (RiskResult True g [])"

definition block :: "string \<Rightarrow> (string \<times> detail) list \<Rightarrow> risk_result res" where
  "block g ds = Inr (RiskResult False g ds)"

abbreviation quantize2 :: "rat \<Rightarrow> rat res" where
  "quantize2 \<equiv> dquantize half_even 2"

section \<open>The nine gates\<close>

definition check_max_positions :: "risk_config \<Rightarrow> action \<Rightarrow> strategy_context \<Rightarrow> risk_result res" where
  "check_max_positions cfg a ctx =
     (let limit = rc_max_positions cfg;
          open_count = int (length (filter (\<lambda>p. 0 < \<bar>fp_size p\<bar>) (ctx_futures_positions ctx)));
          would_add = (if is_entry (act_type (data a)) then 1 else 0)
      in if limit < open_count + would_add
         then block MAX_POSITIONS_GATE [(''open_positions'', DInt open_count), (''limit'', DInt limit),
                (''would_add'', DBool (would_add \<noteq> 0))]
         else pass MAX_POSITIONS_GATE)"

definition check_portfolio_risk :: "risk_config \<Rightarrow> action \<Rightarrow> strategy_context \<Rightarrow> risk_result res" where
  "check_portfolio_risk cfg a ctx =
     (let max_risk_pct = dec_of_float (rc_max_portfolio_risk_pct cfg);
          pv = portfolio_value ctx
      in if pv \<le> 0 then
           (if is_entry (act_type (data a)) then block PORTFOLIO_RISK_GATE [] else pass PORTFOLIO_RISK_GATE)
         else
           (let total = total_notional a ctx;
                risk_pct = dround (dround (total / pv) * 100)
            in if max_risk_pct < risk_pct then
                 bindE (quantize2 risk_pct) (\<lambda>rp. bindE (quantize2 total) (\<lambda>tn.
                   block PORTFOLIO_RISK_GATE [(''risk_pct'', DDec rp), (''limit_pct'', DDec max_risk_pct),
                     (''total_notional'', DDec tn), (''portfolio_value'', DDec pv)]))
               else pass PORTFOLIO_RISK_GATE))"

definition check_daily_loss :: "risk_config \<Rightarrow> action \<Rightarrow> strategy_context \<Rightarrow> risk_result res" where
  "check_daily_loss cfg a ctx =
     (let max_loss = dec_of_float (rc_max_daily_loss_usd cfg);
          daily_pnl = (case ctx_risk_status ctx of Some s \<Rightarrow> rs_daily_pnl s | None \<Rightarrow> 0)
      in if daily_pnl < dround (- max_loss)
         then block DAILY_LOSS_GATE [(''daily_pnl'', DDec daily_pnl),
                (''max_daily_loss'', DDec (dround (- max_loss)))]
         else pass DAILY_LOSS_GATE)"

definition check_drawdown :: "risk_config \<Rightarrow> action \<Rightarrow> strategy_context \<Rightarrow> risk_result res" where
  "check_drawdown cfg a ctx =
     (let max_dd_pct = dec_of_float (rc_max_drawdown_pct cfg);
          current_dd = (case ctx_risk_status ctx of Some s \<Rightarrow> rs_drawdown_percent s | None \<Rightarrow> 0)
      in if max_dd_pct < current_dd
         then block DRAWDOWN_GATE [(''drawdown_pct'', DDec current_dd), (''limit_pct'', DDec max_dd_pct)]
         else pass DRAWDOWN_GATE)"

text \<open>
  The float distance of a position to its liquidation price, as a fraction of the mark price.
\<close>

definition liquidation_distance :: "futures_position \<Rightarrow> rat" where
  "liquidation_distance p =
     (if fp_side p = FLong
      then fround (fround (fp_mark_price p - fp_liquidation_price p) / fp_mark_price p)
      else fround (fround (fp_liquidation_price p - fp_mark_price p) / fp_mark_price p))"

definition has_liquidation_price :: "futures_position \<Rightarrow> bool" where
  "has_liquidation_price p = (\<not> (fp_liquidation_price p \<le> 0 \<or> fp_mark_price p \<le> 0))"

definition near_liquidation :: "risk_config \<Rightarrow> futures_position \<Rightarrow> bool" where
  "near_liquidation cfg p =
     (liquidation_distance p < fround (effective_min_liquidation_distance cfg (Some (fp_leverage p))))"

definition check_liquidation_risk :: "risk_config \<Rightarrow> action \<Rightarrow> strategy_context \<Rightarrow> risk_result res" where
  "check_liquidation_risk cfg a ctx =
     (let examined = filter has_liquidation_price (ctx_futures_positions ctx);
          min_distance = (\<lambda>p. effective_min_liquidation_distance cfg (Some (fp_leverage p)));
          near = map (\<lambda>p. (fp_symbol p, fp_side p,
                    fround_places 2 (fround (liquidation_distance p * 100)),
                    fround_places 2 (fround (fround (min_distance p) * 100))))
                  (filter (near_liquidation cfg) examined)
      in if near \<noteq> []
         then block LIQUIDATION_RISK_GATE [(''near_liquidation'', DNear near),
                (''min_distance_pct'', DDec (dround (min_distance (last examined) * 100)))]
         else pass LIQUIDATION_RISK_GATE)"

definition check_funding_rate_cost :: "risk_config \<Rightarrow> action \<Rightarrow> strategy_context \<Rightarrow> risk_result res" where
  "check_funding_rate_cost cfg a ctx =
     (let max_cost_ratio = dec_of_float (rc_max_funding_rate_cost cfg);
          periods = rc_funding_rate_periods cfg;
          value = proposed_notional a ctx
      in if \<not> is_entry (act_type (data a)) then pass FUNDING_RATE_COST_GATE
         else if value \<le> 0 then pass FUNDING_RATE_COST_GATE
         else case map_of (ctx_funding_rates ctx) (act_symbol (data a)) of
           None \<Rightarrow> block FUNDING_RATE_COST_GATE []
         | Some fr \<Rightarrow>
            (let rate = dround \<bar>fr_funding_rate fr\<bar>;
                 projected = dround (dround (value * rate) * of_int periods);
                 limit = dround (value * max_cost_ratio)
             in if rate \<le> 0 then pass FUNDING_RATE_COST_GATE
                else if limit < projected then
                  bindE (quantize2 projected) (\<lambda>pc. bindE (quantize2 limit) (\<lambda>cl.
                    block FUNDING_RATE_COST_GATE [(''projected_cost'', DDec pc), (''cost_limit'', DDec cl),
                      (''funding_rate'', DDec rate), (''periods'', DInt periods)]))
                else pass FUNDING_RATE_COST_GATE))"

definition effective_max_leverage :: "risk_config \<Rightarrow> strategy_context \<Rightarrow> int" where
  "effective_max_leverage cfg ctx = (case ctx_account ctx of
     Some acc \<Rightarrow> if 0 < acc_max_leverage acc then min (rc_max_leverage cfg) (acc_max_leverage acc)
                 else rc_max_leverage cfg
   | None \<Rightarrow> rc_max_leverage cfg)"

definition wallet_balance :: "strategy_context \<Rightarrow> rat" where
  "wallet_balance ctx = (case ctx_account ctx of Some acc \<Rightarrow> acc_total_wallet_balance acc | None \<Rightarrow> 0)"

definition check_leverage_limit :: "risk_config \<Rightarrow> action \<Rightarrow> strategy_context \<Rightarrow> risk_result res" where
  "check_leverage_limit cfg a ctx =
     (let max_lev = effective_max_leverage cfg ctx; wallet = wallet_balance ctx
      in if wallet \<le> 0 then pass LEVERAGE_LIMIT_GATE
         else
           (let total = total_notional a ctx;
                eff = dround (total / wallet)
            in if of_int max_lev < eff then
                 bindE (quantize2 eff) (\<lambda>el. bindE (quantize2 total) (\<lambda>tn.
                   block LEVERAGE_LIMIT_GATE [(''effective_leverage'', DDec el), (''max_leverage'', DInt max_lev),
                     (''total_notional'', DDec tn), (''wallet_balance'', DDec wallet)]))
               else pass LEVERAGE_LIMIT_GATE))"

text \<open>
  The notional per group (symbol, or quote asset), in first-seen order; an entry with a positive
  quantity is added to its own group. \<open>violations\<close> runs over the groups and prints each one above
  the limit.
\<close>

abbreviation dadd :: "rat \<Rightarrow> rat \<Rightarrow> rat" where
  "dadd x y \<equiv> dround (x + y)"

definition group_notional :: "(string \<Rightarrow> string) \<Rightarrow> bool \<Rightarrow> action \<Rightarrow> strategy_context \<Rightarrow> (string, rat) dict" where
  "group_notional key add a ctx =
     (let held = map (\<lambda>p. (key (fp_symbol p), position_notional p)) (ctx_futures_positions ctx)
      in dict_accumulate dadd 0
           (held @ (if add then [(key (act_symbol (data a)), proposed_notional a ctx)] else [])) [])"

fun violations :: "rat \<Rightarrow> (rat \<Rightarrow> rat list res) \<Rightarrow> (string, rat) dict \<Rightarrow> (string \<times> rat list) list res" where
  "violations limit row [] = Inr []"
| "violations limit row ((g, n) # d) =
     (if limit < n then
        bindE (row n) (\<lambda>r. bindE (violations limit row d) (\<lambda>rs. Inr ((g, r) # rs)))
      else violations limit row d)"

definition check_position_concentration :: "risk_config \<Rightarrow> action \<Rightarrow> strategy_context \<Rightarrow> risk_result res" where
  "check_position_concentration cfg a ctx =
     (let max_conc = dec_of_float (rc_max_position_concentration cfg); pv = portfolio_value ctx
      in if pv \<le> 0 then pass POSITION_CONCENTRATION_GATE
         else
           bindE (violations (dround (max_conc * pv))
               (\<lambda>n. bindE (quantize2 n) (\<lambda>qn.
                  bindE (quantize2 (dround (dround (n / pv) * 100))) (\<lambda>qc.
                  bindE (quantize2 (dround (max_conc * 100))) (\<lambda>ql. Inr [qn, qc, ql]))))
               (group_notional (\<lambda>s. s)
                 (is_entry (act_type (data a)) \<and> 0 < act_quantity (data a)) a ctx))
             (\<lambda>vs. if vs \<noteq> [] then block POSITION_CONCENTRATION_GATE [(''violations'', DRows vs)]
                   else pass POSITION_CONCENTRATION_GATE))"

definition quote_asset :: "string \<Rightarrow> string" where
  "quote_asset symb = (if 4 \<le> length symb then take_last 4 symb else symb)"

definition check_correlation :: "risk_config \<Rightarrow> action \<Rightarrow> strategy_context \<Rightarrow> risk_result res" where
  "check_correlation cfg a ctx =
     (let threshold_pct = dec_of_float (rc_correlation_threshold_pct cfg); pv = portfolio_value ctx
      in if pv \<le> 0 then pass CORRELATION_GATE
         else
           bindE (violations (dround (dround (threshold_pct / 100) * pv))
               (\<lambda>n. bindE (quantize2 n) (\<lambda>qn.
                  bindE (quantize2 (dround (dround (n / pv) * 100))) (\<lambda>qp. Inr [qn, qp])))
               (group_notional quote_asset
                 (is_entry (act_type (data a)) \<and> 0 < act_quantity (data a) \<and> act_symbol (data a) \<noteq> []) a ctx))
             (\<lambda>vs. if vs \<noteq> [] then block CORRELATION_GATE [(''violations'', DRows vs)]
                   else pass CORRELATION_GATE))"

section \<open>The pipeline\<close>

type_synonym gate_fn = "risk_config \<Rightarrow> action \<Rightarrow> strategy_context \<Rightarrow> risk_result res"

record gate_pipeline =
  gp_cfg :: risk_config
  gp_enabled :: "(string, bool) dict"

definition init_pipeline :: "risk_config \<Rightarrow> gate_pipeline" where
  "init_pipeline cfg = \<lparr>gp_cfg = cfg, gp_enabled = map (\<lambda>g. (g, True)) ALL_GATES\<rparr>"

definition gates :: "(string \<times> gate_fn) list" where
  "gates = [(MAX_POSITIONS_GATE, check_max_positions), (PORTFOLIO_RISK_GATE, check_portfolio_risk),
     (DAILY_LOSS_GATE, check_daily_loss), (DRAWDOWN_GATE, check_drawdown),
     (LIQUIDATION_RISK_GATE, check_liquidation_risk), (FUNDING_RATE_COST_GATE, check_funding_rate_cost),
     (LEVERAGE_LIMIT_GATE, check_leverage_limit),
     (POSITION_CONCENTRATION_GATE, check_position_concentration), (CORRELATION_GATE, check_correlation)]"

definition gate_enabled :: "gate_pipeline \<Rightarrow> bool \<Rightarrow> string \<Rightarrow> bool" where
  "gate_enabled gp z g = dict_get_or z (gp_enabled gp) g"

definition gate_sequence :: "gate_pipeline \<Rightarrow> gate_fn list" where
  "gate_sequence gp = map snd (filter (\<lambda>g. gate_enabled gp True (fst g)) gates)"

fun run_gates :: "gate_fn list \<Rightarrow> risk_config \<Rightarrow> action \<Rightarrow> strategy_context \<Rightarrow> risk_result option res" where
  "run_gates [] cfg a ctx = Inr None"
| "run_gates (g # gs) cfg a ctx =
     bindE (g cfg a ctx) (\<lambda>r. if \<not> passed r then Inr (Some r) else run_gates gs cfg a ctx)"

definition evaluate_gates :: "gate_pipeline \<Rightarrow> action \<Rightarrow> strategy_context \<Rightarrow> risk_result res" where
  "evaluate_gates gp a ctx =
     bindE (run_gates (gate_sequence gp) (gp_cfg gp) a ctx) (\<lambda>r. case r of
        Some f \<Rightarrow> Inr f
      | None \<Rightarrow> Inr (RiskResult True ''ALL''
          [(''gates_checked'', DStrs (filter (gate_enabled gp False) ALL_GATES))]))"

fun run_all_gates :: "gate_fn list \<Rightarrow> risk_config \<Rightarrow> action \<Rightarrow> strategy_context \<Rightarrow> risk_result list res" where
  "run_all_gates [] cfg a ctx = Inr []"
| "run_all_gates (g # gs) cfg a ctx =
     bindE (g cfg a ctx) (\<lambda>r. bindE (run_all_gates gs cfg a ctx) (\<lambda>rs. Inr (r # rs)))"

definition evaluate_all_gates :: "gate_pipeline \<Rightarrow> action \<Rightarrow> strategy_context \<Rightarrow> risk_result list res" where
  "evaluate_all_gates gp a ctx = run_all_gates (gate_sequence gp) (gp_cfg gp) a ctx"

definition get_gate_status :: "gate_pipeline \<Rightarrow> (string, bool) dict" where
  "get_gate_status gp = gp_enabled gp"

definition set_gate_enabled :: "string \<Rightarrow> bool \<Rightarrow> gate_pipeline \<Rightarrow> gate_pipeline res" where
  "set_gate_enabled name en gp =
     (if name \<notin> set ALL_GATES then Inl ValueError
      else if map_of (gp_enabled gp) name = None then Inl KeyError
      else Inr (gp\<lparr>gp_enabled := AList.update name en (gp_enabled gp)\<rparr>))"

section \<open>Every gate answers under its own name\<close>

text \<open>
  The contract the pipeline relies on: a gate's verdict carries the gate's own name, and a passing
  verdict carries no details.
\<close>

locale gate_contract =
  fixes name :: string and check :: gate_fn
  assumes verdict_named: "check cfg a ctx = Inr r \<Longrightarrow> gate r = name"
    and pass_silent: "check cfg a ctx = Inr r \<Longrightarrow> passed r \<Longrightarrow> details r = []"
begin

lemma pass_unique: "check cfg a ctx = Inr r \<Longrightarrow> passed r \<Longrightarrow> check cfg a ctx = pass name"
  using verdict_named[of cfg a ctx r] pass_silent[of cfg a ctx r] by (cases r) (simp add: pass_def)

end

lemma pass_iff [simp]: "pass g = Inr r \<longleftrightarrow> r = RiskResult True g []"
  by (auto simp: pass_def)

lemma block_iff [simp]: "block g ds = Inr r \<longleftrightarrow> r = RiskResult False g ds"
  by (auto simp: block_def)

lemmas gate_split = if_splits option.splits

interpretation max_positions: gate_contract MAX_POSITIONS_GATE check_max_positions
  by unfold_locales (auto simp: check_max_positions_def Let_def split: gate_split)

interpretation portfolio_risk: gate_contract PORTFOLIO_RISK_GATE check_portfolio_risk
  by unfold_locales (auto simp: check_portfolio_risk_def Let_def bindE_Inr_iff split: gate_split)

interpretation daily_loss: gate_contract DAILY_LOSS_GATE check_daily_loss
  by unfold_locales (auto simp: check_daily_loss_def Let_def split: gate_split)

interpretation drawdown: gate_contract DRAWDOWN_GATE check_drawdown
  by unfold_locales (auto simp: check_drawdown_def Let_def split: gate_split)

interpretation liquidation_risk: gate_contract LIQUIDATION_RISK_GATE check_liquidation_risk
  by unfold_locales (auto simp: check_liquidation_risk_def Let_def split: gate_split)

interpretation funding_rate_cost: gate_contract FUNDING_RATE_COST_GATE check_funding_rate_cost
  by unfold_locales (auto simp: check_funding_rate_cost_def Let_def bindE_Inr_iff split: gate_split)

interpretation leverage_limit: gate_contract LEVERAGE_LIMIT_GATE check_leverage_limit
  by unfold_locales (auto simp: check_leverage_limit_def Let_def bindE_Inr_iff split: gate_split)

interpretation position_concentration: gate_contract POSITION_CONCENTRATION_GATE check_position_concentration
  by unfold_locales (auto simp: check_position_concentration_def Let_def bindE_Inr_iff split: gate_split)

interpretation correlation: gate_contract CORRELATION_GATE check_correlation
  by unfold_locales (auto simp: check_correlation_def Let_def bindE_Inr_iff split: gate_split)

lemmas verdicts_named = max_positions.verdict_named portfolio_risk.verdict_named
  daily_loss.verdict_named drawdown.verdict_named liquidation_risk.verdict_named
  funding_rate_cost.verdict_named leverage_limit.verdict_named
  position_concentration.verdict_named correlation.verdict_named

lemma gates_named: "(n, g) \<in> set gates \<Longrightarrow> g cfg a ctx = Inr r \<Longrightarrow> gate r = n"
  by (auto simp: gates_def dest: verdicts_named)

section \<open>The pipeline\<close>

lemma run_gates_iff_all:
  "run_all_gates gs cfg a ctx = Inr rs \<Longrightarrow> run_gates gs cfg a ctx = Inr (find (\<lambda>r. \<not> passed r) rs)"
  by (induction gs arbitrary: rs) (auto simp: bindE_Inr_iff)

lemma run_gates_None_iff:
  "run_gates gs cfg a ctx = Inr None \<longleftrightarrow> (\<forall>g \<in> set gs. \<exists>r. g cfg a ctx = Inr r \<and> passed r)"
  by (induction gs) (auto simp: bindE_Inr_iff)

lemma run_gates_SomeD:
  "run_gates gs cfg a ctx = Inr (Some r) \<Longrightarrow> \<not> passed r \<and> (\<exists>g \<in> set gs. g cfg a ctx = Inr r)"
  by (induction gs) (auto simp: bindE_Inr_iff split: if_splits)

lemma evaluate_gates_passed_iff:
  "(\<exists>r. evaluate_gates gp a ctx = Inr r \<and> passed r) \<longleftrightarrow>
     (\<forall>(n, g) \<in> set gates. gate_enabled gp True n \<longrightarrow> (\<exists>r. g (gp_cfg gp) a ctx = Inr r \<and> passed r))"
proof -
  have "(\<exists>r. evaluate_gates gp a ctx = Inr r \<and> passed r) \<longleftrightarrow>
      run_gates (gate_sequence gp) (gp_cfg gp) a ctx = Inr None"
    by (auto simp: evaluate_gates_def bindE_Inr_iff split: option.splits dest: run_gates_SomeD)
  then show ?thesis by (auto simp: run_gates_None_iff gate_sequence_def)
qed

lemma enabled_init: "(n, g) \<in> set gates \<Longrightarrow> gate_enabled (init_pipeline cfg) True n"
  by (auto simp: gate_enabled_def init_pipeline_def ALL_GATES_def gate_name_defs gates_def)

lemma passed_init_gates:
  assumes "evaluate_gates (init_pipeline cfg) a ctx = Inr r" "passed r" "(n, g) \<in> set gates"
  shows "\<exists>r. g cfg a ctx = Inr r \<and> passed r"
proof -
  have "\<exists>r. evaluate_gates (init_pipeline cfg) a ctx = Inr r \<and> passed r" using assms by blast
  then have "\<exists>r. g (gp_cfg (init_pipeline cfg)) a ctx = Inr r \<and> passed r"
    unfolding evaluate_gates_passed_iff using assms(3) enabled_init[OF assms(3)] by blast
  then show ?thesis by (simp add: init_pipeline_def)
qed

section \<open>What a passing gate guarantees\<close>

lemma max_positions_passD:
  assumes "check_max_positions cfg a ctx = Inr r" "passed r"
  shows "int (length (filter (\<lambda>p. 0 < \<bar>fp_size p\<bar>) (ctx_futures_positions ctx)))
     + (if is_entry (act_type (data a)) then 1 else 0) \<le> rc_max_positions cfg"
  using assms by (auto simp: check_max_positions_def Let_def split: if_splits)

lemma portfolio_risk_passD:
  assumes "check_portfolio_risk cfg a ctx = Inr r" "passed r" "is_entry (act_type (data a))"
  shows "0 < portfolio_value ctx"
    and "dround (dround (total_notional a ctx / portfolio_value ctx) * 100)
           \<le> dec_of_float (rc_max_portfolio_risk_pct cfg)"
  using assms by (auto simp: check_portfolio_risk_def Let_def bindE_Inr_iff not_less split: if_splits)

lemma leverage_limit_passD:
  assumes "check_leverage_limit cfg a ctx = Inr r" "passed r" "0 < wallet_balance ctx"
  shows "dround (total_notional a ctx / wallet_balance ctx) \<le> of_int (effective_max_leverage cfg ctx)"
  using assms by (auto simp: check_leverage_limit_def Let_def bindE_Inr_iff not_less split: if_splits)

lemma daily_loss_passD:
  assumes "check_daily_loss cfg a ctx = Inr r" "passed r" "ctx_risk_status ctx = Some s"
  shows "dround (- dec_of_float (rc_max_daily_loss_usd cfg)) \<le> rs_daily_pnl s"
  using assms by (auto simp: check_daily_loss_def Let_def not_less split: if_splits)

lemma drawdown_passD:
  assumes "check_drawdown cfg a ctx = Inr r" "passed r" "ctx_risk_status ctx = Some s"
  shows "rs_drawdown_percent s \<le> dec_of_float (rc_max_drawdown_pct cfg)"
  using assms by (auto simp: check_drawdown_def Let_def not_less split: if_splits)

lemma liquidation_risk_passD:
  assumes "check_liquidation_risk cfg a ctx = Inr r" "passed r"
    "p \<in> set (ctx_futures_positions ctx)" "has_liquidation_price p"
  shows "\<not> near_liquidation cfg p"
  using assms by (auto simp: check_liquidation_risk_def Let_def filter_empty_conv split: if_splits)

lemma funding_passD:
  assumes "check_funding_rate_cost cfg a ctx = Inr r" "passed r"
    "is_entry (act_type (data a))" "0 < proposed_notional a ctx"
  shows "map_of (ctx_funding_rates ctx) (act_symbol (data a)) \<noteq> None"
  using assms by (auto simp: check_funding_rate_cost_def Let_def split: if_splits option.splits)

lemma position_mark_nonneg: "0 \<le> position_mark s ps"
  by (induction ps) (auto intro: dec_of_float_nonneg)

lemma resolve_mark_nonneg: "0 \<le> resolve_mark_price s ctx"
  by (auto simp: resolve_mark_price_def position_mark_nonneg split: option.splits)

lemma proposed_notional_nonneg: "0 \<le> proposed_notional a ctx"
  using resolve_mark_nonneg by (auto simp: proposed_notional_def Let_def intro!: dec.rnd_nonneg mult_nonneg_nonneg)

lemma proposed_notional_pos: "act_quantity (data a) \<noteq> 0 \<Longrightarrow> 0 < proposed_notional a ctx"
  by (auto simp: proposed_notional_def Let_def)

lemma proposed_notional_mono:
  assumes "act_symbol (data a') = act_symbol (data a)" "\<bar>act_quantity (data a')\<bar> \<le> \<bar>act_quantity (data a)\<bar>"
  shows "proposed_notional a' ctx \<le> proposed_notional a ctx"
  using assms by (auto simp: proposed_notional_def Let_def intro!: dec.rnd_mono mult_right_mono)

lemma position_notional_nonneg: "0 \<le> fp_mark_price p \<Longrightarrow> 0 \<le> position_notional p"
  by (auto simp: position_notional_def intro!: dec.rnd_nonneg mult_nonneg_nonneg dec_of_float_nonneg)

lemma total_notional_nonneg:
  "\<forall>p \<in> set (ctx_futures_positions ctx). 0 \<le> fp_mark_price p \<Longrightarrow> 0 \<le> total_notional a ctx"
  by (auto simp: total_notional_def open_notional_def
      intro!: dec.rnd_nonneg add_nonneg_nonneg dec.rsum_nonneg position_notional_nonneg proposed_notional_nonneg)

lemma total_notional_mono:
  assumes "act_type (data a') = act_type (data a)" "act_symbol (data a') = act_symbol (data a)"
    "\<bar>act_quantity (data a')\<bar> \<le> \<bar>act_quantity (data a)\<bar>"
  shows "total_notional a' ctx \<le> total_notional a ctx"
  using assms proposed_notional_mono[OF assms(2,3)]
  by (simp add: total_notional_def dec.rnd_mono)

text \<open>A rounded ratio below a bound bounds the exact ratio up to the rounding error.\<close>

lemma rounded_ratio_bound:
  assumes "0 \<le> n" "0 < v" "dround (n / v) \<le> m"
  shows "n * (1 - deps) \<le> m * v"
proof -
  have "n / v * (1 - deps) \<le> dround (n / v)" using assms by (intro dec.rnd_lower) simp
  then have "n / v * (1 - deps) \<le> m" using assms by simp
  then have "n / v * (1 - deps) * v \<le> m * v" using assms by (intro mult_right_mono) auto
  then show ?thesis using assms by simp
qed

lemma rounded_pct_bound:
  assumes "0 \<le> n" "0 < v" "dround (dround (n / v) * 100) \<le> m"
  shows "n * (1 - deps)\<^sup>2 * 100 \<le> m * v"
proof -
  have d: "0 \<le> 1 - deps" using dec.eps_bounds by simp
  have "dround (n / v) * 100 * (1 - deps) \<le> m"
    using dec.rnd_lower[of "dround (n / v) * 100"] dec.rnd_nonneg[of "n / v"] assms by simp
  moreover have "n / v * (1 - deps) * 100 * (1 - deps) \<le> dround (n / v) * 100 * (1 - deps)"
    using dec.rnd_lower[of "n / v"] assms d by (intro mult_right_mono) auto
  ultimately have "n / v * (1 - deps) * 100 * (1 - deps) * v \<le> m * v"
    using assms by (intro mult_right_mono) auto
  moreover have "n / v * (1 - deps) * 100 * (1 - deps) * v = n * (1 - deps)\<^sup>2 * 100"
    using assms by (simp add: power2_eq_square)
  ultimately show ?thesis by simp
qed

section \<open>Groups\<close>

lemma violations_Nil_iff:
  "violations limit row d = Inr [] \<longleftrightarrow> (\<forall>(g, n) \<in> set d. n \<le> limit)"
  by (induction limit row d rule: violations.induct) (auto simp: bindE_Inr_iff not_less)

lemma distinct_group_notional: "distinct (map fst (group_notional key add a ctx))"
proof -
  have "distinct (map fst d) \<Longrightarrow> distinct (map fst (dict_accumulate f z kvs d))" for f z kvs and d :: "(string, rat) dict"
    by (induction kvs arbitrary: d) (auto simp: distinct_update)
  then show ?thesis by (simp add: group_notional_def Let_def)
qed

lemma group_notional_value:
  "dict_get_or 0 (group_notional key add a ctx) g =
     (let held = rsum dround 0 (map position_notional
                   (filter (\<lambda>p. key (fp_symbol p) = g) (ctx_futures_positions ctx)))
      in if add \<and> key (act_symbol (data a)) = g then dround (held + proposed_notional a ctx) else held)"
proof -
  have held: "map snd (filter (\<lambda>kv. fst kv = g) (map (\<lambda>p. (key (fp_symbol p), position_notional p)) ps))
      = map position_notional (filter (\<lambda>p. key (fp_symbol p) = g) ps)" for ps
    by (induction ps) auto
  show ?thesis
    by (simp add: group_notional_def Let_def get_or_dict_accumulate held rsum_foldl)
qed

lemma group_notional_keys:
  "fst ` set (group_notional key add a ctx) =
     key ` fp_symbol ` set (ctx_futures_positions ctx) \<union> (if add then {key (act_symbol (data a))} else {})"
proof -
  have "g \<in> fst ` set (group_notional key add a ctx) \<longleftrightarrow>
      g \<in> key ` fp_symbol ` set (ctx_futures_positions ctx) \<union> (if add then {key (act_symbol (data a))} else {})" for g
    using map_of_eq_None_iff[of "group_notional key add a ctx" g]
    by (auto simp: group_notional_def Let_def dict_accumulate_None image_image)
  then show ?thesis by blast
qed

lemma group_violation_free:
  "violations limit row (group_notional key add a ctx) = Inr [] \<longleftrightarrow>
     (\<forall>g \<in> fst ` set (group_notional key add a ctx). dict_get_or 0 (group_notional key add a ctx) g \<le> limit)"
  using distinct_group_notional[of key add a ctx]
  by (fastforce simp: violations_Nil_iff dict_get_or_def map_of_eq_Some_iff)

lemma group_violation_free_mono:
  assumes "violations limit row (group_notional key add a ctx) = Inr []"
    "act_symbol (data a') = act_symbol (data a)" "\<bar>act_quantity (data a')\<bar> \<le> \<bar>act_quantity (data a)\<bar>"
  shows "violations limit row (group_notional key add a' ctx) = Inr []"
proof -
  have "dict_get_or 0 (group_notional key add a' ctx) g \<le> dict_get_or 0 (group_notional key add a ctx) g" for g
    using proposed_notional_mono[OF assms(2,3)] assms(2)
    by (auto simp: group_notional_value Let_def intro: dec.rnd_mono)
  moreover have "fst ` set (group_notional key add a' ctx) = fst ` set (group_notional key add a ctx)"
    using assms(2) by (simp add: group_notional_keys)
  ultimately show ?thesis using assms(1) unfolding group_violation_free by (metis order_trans)
qed

section \<open>Smaller orders\<close>

lemma portfolio_risk_mono:
  assumes "total_notional a' ctx \<le> total_notional a ctx" "act_type (data a') = act_type (data a)"
    "check_portfolio_risk cfg a ctx = Inr r" "passed r"
  shows "\<exists>r'. check_portfolio_risk cfg a' ctx = Inr r' \<and> passed r'"
proof -
  have "dround (dround (total_notional a' ctx / v) * 100) \<le> dround (dround (total_notional a ctx / v) * 100)" if "0 < v" for v
    using assms(1) that by (intro dec.rnd_mono mult_right_mono divide_right_mono) auto
  then show ?thesis using assms(2-)
    by (fastforce simp: check_portfolio_risk_def Let_def bindE_Inr_iff not_less split: if_splits)
qed

lemma leverage_limit_mono:
  assumes "total_notional a' ctx \<le> total_notional a ctx" "check_leverage_limit cfg a ctx = Inr r" "passed r"
  shows "\<exists>r'. check_leverage_limit cfg a' ctx = Inr r' \<and> passed r'"
proof -
  have "dround (total_notional a' ctx / v) \<le> dround (total_notional a ctx / v)" if "0 < v" for v
    using assms(1) that by (intro dec.rnd_mono divide_right_mono) auto
  then show ?thesis using assms(2-)
    by (fastforce simp: check_leverage_limit_def Let_def bindE_Inr_iff not_less split: if_splits)
qed

lemma gate_mono:
  assumes "act_type (data a') = act_type (data a)" "act_symbol (data a') = act_symbol (data a)"
    and "0 < act_quantity (data a')" "act_quantity (data a') \<le> act_quantity (data a)"
    and "(n, check) \<in> set gates" "n \<noteq> FUNDING_RATE_COST_GATE"
    and "check cfg a ctx = Inr r" "passed r"
  shows "\<exists>r'. check cfg a' ctx = Inr r' \<and> passed r'"
proof -
  have q: "\<bar>act_quantity (data a')\<bar> \<le> \<bar>act_quantity (data a)\<bar>" "0 < act_quantity (data a)" using assms by auto
  note N = total_notional_mono[OF assms(1,2) q(1), of ctx]
  note G = group_violation_free_mono[OF _ assms(2) q(1)]
  consider "check = check_portfolio_risk" | "check = check_leverage_limit" | "check = check_position_concentration"
    | "check = check_correlation"
    | "check \<in> {check_max_positions, check_daily_loss, check_drawdown, check_liquidation_risk}"
    using assms(5,6) by (auto simp: gates_def)
  then show ?thesis
  proof cases
    case 1 then show ?thesis using portfolio_risk_mono[OF N assms(1)] assms(7,8) by blast
  next
    case 2 then show ?thesis using leverage_limit_mono[OF N] assms(7,8) by blast
  next
    case 3 then show ?thesis using assms(1,3,7,8) q G
      by (fastforce simp: check_position_concentration_def Let_def bindE_Inr_iff split: if_splits)
  next
    case 4 then show ?thesis using assms(1,2,3,7,8) q G
      by (fastforce simp: check_correlation_def Let_def bindE_Inr_iff split: if_splits)
  next
    case 5
    then have "check cfg a' ctx = check cfg a ctx" using assms(1)
      by (auto simp: check_max_positions_def check_daily_loss_def check_drawdown_def check_liquidation_risk_def)
    then show ?thesis using assms(7,8) by simp
  qed
qed

section \<open>Example inputs\<close>

definition example_account :: account where
  "example_account = (default_account ''main'' ''bybit'')
     \<lparr>acc_total_usdt := 1000, acc_total_wallet_balance := 1000, acc_max_leverage := 10\<rparr>"

definition example_context :: strategy_context where
  "example_context = default_context\<lparr>ctx_account := Some example_account,
     ctx_funding_rates := [(''BTCUSDT'', \<lparr>fr_symbol = ''BTCUSDT'', fr_funding_rate = 1 / 10000,
        fr_next_funding_time = 0, fr_mark_price = 50, fr_index_price = 50\<rparr>)],
     ctx_risk_status := Some \<lparr>rs_drawdown_percent = 0, rs_daily_pnl = - 20, rs_daily_loss_limit = 500,
        rs_circuit_breakers = [], rs_gates = []\<rparr>\<rparr>"

definition example_entry :: "rat \<Rightarrow> action" where
  "example_entry q = Action (post_init (default_action
     \<lparr>act_type := Open_long, act_symbol := ''BTCUSDT'', act_quantity := q\<rparr>)) None"

lemma gp_cfg_init [simp]: "gp_cfg (init_pipeline cfg) = cfg"
  by (simp add: init_pipeline_def)

lemma gate_sequence_init: "gate_sequence (init_pipeline cfg) = map snd gates"
  using enabled_init[of _ _ cfg] by (auto simp: gate_sequence_def intro!: arg_cong[where f = "map snd"] filter_True)

lemma example_evaluated:
  "list_all (\<lambda>g. snd g default_risk_config (example_entry 100) example_context = pass (fst g)) gates
   \<and> check_max_positions (default_risk_config\<lparr>rc_max_positions := 0\<rparr>) (example_entry 100) example_context =
       Inr (RiskResult False MAX_POSITIONS_GATE
         [(''open_positions'', DInt 0), (''limit'', DInt 0), (''would_add'', DBool True)])
   \<and> list_all (\<lambda>g. snd g (default_risk_config\<lparr>rc_max_positions := 0\<rparr>) (example_entry 100) example_context
         = pass (fst g)) (tl gates)"
  by code_simp

lemma example_100:
  "check_max_positions default_risk_config (example_entry 100) example_context = pass MAX_POSITIONS_GATE"
  "check_portfolio_risk default_risk_config (example_entry 100) example_context = pass PORTFOLIO_RISK_GATE"
  "check_daily_loss default_risk_config (example_entry 100) example_context = pass DAILY_LOSS_GATE"
  "check_drawdown default_risk_config (example_entry 100) example_context = pass DRAWDOWN_GATE"
  "check_liquidation_risk default_risk_config (example_entry 100) example_context = pass LIQUIDATION_RISK_GATE"
  "check_funding_rate_cost default_risk_config (example_entry 100) example_context = pass FUNDING_RATE_COST_GATE"
  "check_leverage_limit default_risk_config (example_entry 100) example_context = pass LEVERAGE_LIMIT_GATE"
  "check_position_concentration default_risk_config (example_entry 100) example_context = pass POSITION_CONCENTRATION_GATE"
  "check_correlation default_risk_config (example_entry 100) example_context = pass CORRELATION_GATE"
  using example_evaluated by (simp_all add: gates_def)

text \<open>The same entry with no free position slot left.\<close>

lemmas example_no_slot = example_evaluated[THEN conjunct2, THEN conjunct1]
  example_evaluated[THEN conjunct2, THEN conjunct2, unfolded gates_def, simplified]

lemma example_passes:
  "evaluate_gates (init_pipeline default_risk_config) (example_entry 100) example_context =
     Inr (RiskResult True ''ALL'' [(''gates_checked'',
       DStrs (filter (gate_enabled (init_pipeline default_risk_config) False) ALL_GATES))])"
  by (simp add: evaluate_gates_def gate_sequence_init gates_def example_100 pass_def)

lemmas example_defs = example_account_def example_context_def example_entry_def default_account_def
  default_context_def default_action_def

section \<open>Properties\<close>

text \<open>
  \<^bold>\<open>C14\<close>. If the full pipeline lets an entry through, every limit of the configuration holds
  afterwards: the portfolio has a positive value; the position count including the new one is
  within \<open>max_positions\<close>; total notional including the new order is at most
  \<open>max_portfolio_risk_pct\<close> percent of the portfolio and \<open>max_leverage\<close> times a positive wallet, up
  to the relative error of two Decimal roundings; daily PnL and drawdown are within their limits;
  no position is nearer to liquidation than its threshold; and an order of non-zero size has
  funding data.
\<close>

theorem gates_passed_limits:
  assumes "evaluate_gates (init_pipeline cfg) a ctx = Inr r" and "passed r"
    and "is_entry (act_type (data a))"
    and marks: "\<forall>p \<in> set (ctx_futures_positions ctx). 0 \<le> fp_mark_price p"
  shows "0 < portfolio_value ctx
    \<and> int (length (filter (\<lambda>p. 0 < \<bar>fp_size p\<bar>) (ctx_futures_positions ctx))) + 1 \<le> rc_max_positions cfg
    \<and> total_notional a ctx * (1 - deps)\<^sup>2 * 100
        \<le> dec_of_float (rc_max_portfolio_risk_pct cfg) * portfolio_value ctx
    \<and> (0 < wallet_balance ctx \<longrightarrow>
        total_notional a ctx * (1 - deps) \<le> of_int (effective_max_leverage cfg ctx) * wallet_balance ctx)
    \<and> (\<forall>s. ctx_risk_status ctx = Some s \<longrightarrow>
        dround (- dec_of_float (rc_max_daily_loss_usd cfg)) \<le> rs_daily_pnl s
        \<and> rs_drawdown_percent s \<le> dec_of_float (rc_max_drawdown_pct cfg))
    \<and> (\<forall>p \<in> set (ctx_futures_positions ctx). has_liquidation_price p \<longrightarrow> \<not> near_liquidation cfg p)
    \<and> (act_quantity (data a) \<noteq> 0 \<longrightarrow> map_of (ctx_funding_rates ctx) (act_symbol (data a)) \<noteq> None)"
proof (intro conjI allI impI ballI)
  note ok = passed_init_gates[OF assms(1,2)]
  have N: "0 \<le> total_notional a ctx" using marks by (rule total_notional_nonneg)
  obtain r1 where r1: "check_max_positions cfg a ctx = Inr r1" "passed r1"
    using ok[of MAX_POSITIONS_GATE check_max_positions] by (auto simp: gates_def)
  obtain r2 where r2: "check_portfolio_risk cfg a ctx = Inr r2" "passed r2"
    using ok[of PORTFOLIO_RISK_GATE check_portfolio_risk] by (auto simp: gates_def)
  obtain r3 where r3: "check_daily_loss cfg a ctx = Inr r3" "passed r3"
    using ok[of DAILY_LOSS_GATE check_daily_loss] by (auto simp: gates_def)
  obtain r4 where r4: "check_drawdown cfg a ctx = Inr r4" "passed r4"
    using ok[of DRAWDOWN_GATE check_drawdown] by (auto simp: gates_def)
  obtain r5 where r5: "check_liquidation_risk cfg a ctx = Inr r5" "passed r5"
    using ok[of LIQUIDATION_RISK_GATE check_liquidation_risk] by (auto simp: gates_def)
  obtain r6 where r6: "check_funding_rate_cost cfg a ctx = Inr r6" "passed r6"
    using ok[of FUNDING_RATE_COST_GATE check_funding_rate_cost] by (auto simp: gates_def)
  obtain r7 where r7: "check_leverage_limit cfg a ctx = Inr r7" "passed r7"
    using ok[of LEVERAGE_LIMIT_GATE check_leverage_limit] by (auto simp: gates_def)
  show pv: "0 < portfolio_value ctx" by (rule portfolio_risk_passD(1)[OF r2 assms(3)])
  show "int (length (filter (\<lambda>p. 0 < \<bar>fp_size p\<bar>) (ctx_futures_positions ctx))) + 1 \<le> rc_max_positions cfg"
    using max_positions_passD[OF r1] assms(3) by simp
  show "total_notional a ctx * (1 - deps)\<^sup>2 * 100
      \<le> dec_of_float (rc_max_portfolio_risk_pct cfg) * portfolio_value ctx"
    by (rule rounded_pct_bound[OF N pv portfolio_risk_passD(2)[OF r2 assms(3)]])
  show "total_notional a ctx * (1 - deps) \<le> of_int (effective_max_leverage cfg ctx) * wallet_balance ctx"
    if "0 < wallet_balance ctx"
    by (rule rounded_ratio_bound[OF N that leverage_limit_passD[OF r7 that]])
  show "dround (- dec_of_float (rc_max_daily_loss_usd cfg)) \<le> rs_daily_pnl s"
    if "ctx_risk_status ctx = Some s" for s using daily_loss_passD[OF r3 that] by simp
  show "rs_drawdown_percent s \<le> dec_of_float (rc_max_drawdown_pct cfg)"
    if "ctx_risk_status ctx = Some s" for s using drawdown_passD[OF r4 that] by simp
  show "\<not> near_liquidation cfg p" if "p \<in> set (ctx_futures_positions ctx)" "has_liquidation_price p" for p
    by (rule liquidation_risk_passD[OF r5 that])
  show "map_of (ctx_funding_rates ctx) (act_symbol (data a)) \<noteq> None" if "act_quantity (data a) \<noteq> 0"
    by (rule funding_passD[OF r6 assms(3) proposed_notional_pos[OF that]])
qed

theorem gates_passed_limits_witness:
  "total_notional (example_entry 100) example_context * (1 - deps)\<^sup>2 * 100
     \<le> dec_of_float (rc_max_portfolio_risk_pct default_risk_config) * portfolio_value example_context"
  by (rule gates_passed_limits[OF example_passes, THEN conjunct2, THEN conjunct2, THEN conjunct1])
    (simp_all add: example_defs is_entry_def)

text \<open>
  \<^bold>\<open>C16\<close>. The fail-fast \<open>evaluate\<close> and the diagnostic \<open>evaluate_all\<close> agree: when no gate raises,
  the fail-fast verdict is the first failing verdict of the diagnostic run, and it is the passing
  \<open>ALL\<close> verdict exactly when the diagnostic run has no failure.
\<close>

theorem evaluate_first_failure:
  assumes "evaluate_all_gates gp a ctx = Inr rs"
  shows "evaluate_gates gp a ctx =
    (case find (\<lambda>r. \<not> passed r) rs of
       Some r \<Rightarrow> Inr r
     | None \<Rightarrow> Inr (RiskResult True ''ALL'' [(''gates_checked'', DStrs (filter (gate_enabled gp False) ALL_GATES))]))"
  using assms unfolding evaluate_all_gates_def evaluate_gates_def
  by (simp add: run_gates_iff_all split: option.splits)

theorem evaluate_first_failure_witness:
  "evaluate_gates (init_pipeline (default_risk_config\<lparr>rc_max_positions := 0\<rparr>)) (example_entry 100) example_context =
     Inr (RiskResult False MAX_POSITIONS_GATE
       [(''open_positions'', DInt 0), (''limit'', DInt 0), (''would_add'', DBool True)])"
proof -
  have "evaluate_all_gates (init_pipeline (default_risk_config\<lparr>rc_max_positions := 0\<rparr>)) (example_entry 100) example_context =
    Inr (RiskResult False MAX_POSITIONS_GATE
           [(''open_positions'', DInt 0), (''limit'', DInt 0), (''would_add'', DBool True)]
         # map (\<lambda>g. RiskResult True g []) (tl ALL_GATES))"
    by (simp add: evaluate_all_gates_def gate_sequence_init gates_def ALL_GATES_def example_no_slot pass_def)
  from evaluate_first_failure[OF this] show ?thesis by simp
qed

text \<open>
  Shrinking an order never turns a pass into a rejection: an action that clears a gate clears
  it with a smaller positive quantity too. The funding-cost gate is the exception: it compares two
  roundings of the same notional, which are not monotone in it.
\<close>

lemma exposure_gates_monotone:
  assumes "act_type (data a') = act_type (data a)" "act_symbol (data a') = act_symbol (data a)"
    and "0 < act_quantity (data a')" "act_quantity (data a') \<le> act_quantity (data a)"
    and "(n, check) \<in> set gates" "n \<noteq> FUNDING_RATE_COST_GATE"
    and "check cfg a ctx = Inr r" "passed r"
  shows "\<exists>r'. check cfg a' ctx = Inr r' \<and> passed r'"
  using assms by (rule gate_mono)

text \<open>
  The liquidation threshold never exceeds the configured cap, never exceeds the configured
  fraction of the theoretical \<open>1 / leverage\<close> distance, equals their minimum for a known positive
  leverage, and only shrinks as leverage grows.
\<close>

lemma liquidation_threshold:
  assumes "0 \<le> rc_liquidation_distance_fraction cfg" "1 \<le> l" "l \<le> l'"
  shows "effective_min_liquidation_distance cfg (Some l) =
           min (dec_of_float (rc_min_distance_to_liquidation_pct cfg))
               (dround (dec_of_float (rc_liquidation_distance_fraction cfg) / of_int l))
    \<and> effective_min_liquidation_distance cfg (Some l') \<le> effective_min_liquidation_distance cfg (Some l)
    \<and> effective_min_liquidation_distance cfg (Some l) \<le> effective_min_liquidation_distance cfg None"
proof (intro conjI)
  have "dround (dec_of_float (rc_liquidation_distance_fraction cfg) / of_int j)
      \<le> dround (dec_of_float (rc_liquidation_distance_fraction cfg) / of_int i)" if "1 \<le> i" "i \<le> j" for i j :: int
    using that assms(1) by (intro dec.rnd_mono divide_left_mono dec_of_float_nonneg) auto
  from this[of l l'] this[of 1 l] show "effective_min_liquidation_distance cfg (Some l') \<le> effective_min_liquidation_distance cfg (Some l)"
    "effective_min_liquidation_distance cfg (Some l) \<le> effective_min_liquidation_distance cfg None"
    using assms by (auto simp: effective_min_liquidation_distance_def Let_def max_def)
qed (use assms in \<open>simp add: effective_min_liquidation_distance_def Let_def max_def\<close>)

text \<open>
  The per-group exposure the concentration and correlation gates compare with their limits is,
  for every group, the rounded running sum of the notionals of exactly that group's positions, plus
  the proposed notional when the entry belongs to it; a group exists exactly for the held symbols
  and the entry's own.
\<close>

lemma group_exposure_correct:
  "dict_get_or 0 (group_notional key add a ctx) g =
     (let held = rsum dround 0 (map position_notional
                   (filter (\<lambda>p. key (fp_symbol p) = g) (ctx_futures_positions ctx)))
      in if add \<and> key (act_symbol (data a)) = g then dround (held + proposed_notional a ctx) else held)
   \<and> fst ` set (group_notional key add a ctx) =
       key ` fp_symbol ` set (ctx_futures_positions ctx) \<union> (if add then {key (act_symbol (data a))} else {})"
  by (simp add: group_notional_value group_notional_keys)

text \<open>
  Toggling a gate changes that gate alone; a disabled gate is not consulted, so the verdict does
  not depend on it; an unknown name is refused with \<open>ValueError\<close>.
\<close>

lemma set_gate_enabled_effect:
  assumes "set_gate_enabled g en (init_pipeline cfg) = Inr gp'"
  shows "g \<in> set ALL_GATES
    \<and> (\<forall>h. gate_enabled gp' True h = (if h = g then en else gate_enabled (init_pipeline cfg) True h))
    \<and> ((\<exists>r. evaluate_gates gp' a ctx = Inr r \<and> passed r) \<longleftrightarrow>
           (\<forall>(n, c) \<in> set gates. (n = g \<longrightarrow> en) \<longrightarrow> (\<exists>r. c cfg a ctx = Inr r \<and> passed r)))
    \<and> (\<forall>g' en'. g' \<notin> set ALL_GATES \<longrightarrow> set_gate_enabled g' en' gp' = Inl ValueError)"
proof (intro conjI allI impI)
  have gp': "gp' = (init_pipeline cfg)\<lparr>gp_enabled := AList.update g en (gp_enabled (init_pipeline cfg))\<rparr>"
    and g: "g \<in> set ALL_GATES"
    using assms by (auto simp: set_gate_enabled_def split: if_splits)
  show "g \<in> set ALL_GATES" by (rule g)
  show en: "gate_enabled gp' True h = (if h = g then en else gate_enabled (init_pipeline cfg) True h)" for h
    by (simp add: gp' gate_enabled_def dict_get_or_def update_conv')
  have "gate_enabled gp' True n \<longleftrightarrow> (n = g \<longrightarrow> en)" if "(n, c) \<in> set gates" for n c
    using that enabled_init[OF that, of cfg] by (simp add: en)
  then show "(\<exists>r. evaluate_gates gp' a ctx = Inr r \<and> passed r) \<longleftrightarrow>
      (\<forall>(n, c) \<in> set gates. (n = g \<longrightarrow> en) \<longrightarrow> (\<exists>r. c cfg a ctx = Inr r \<and> passed r))"
    unfolding evaluate_gates_passed_iff by (intro ball_cong refl) (auto simp: gp' split: prod.split)
  show "set_gate_enabled g' en' gp' = Inl ValueError" if "g' \<notin> set ALL_GATES" for g' en'
    using that by (simp add: set_gate_enabled_def)
qed

end
