(* ===== verification/Breakers.thy ===== *)
theory Breakers
  imports Gates
begin

text \<open>
  \<^verbatim>\<open>src/quad/risk/circuit_breakers.py\<close>: the seven circuit breakers. The dict of breakers has the
  seven names as its keys from construction on, so it is a function from the datatype of names; a
  method that takes a name as text goes through \<open>breaker_of_name\<close>. Each private check updates its
  own breaker (locale \<open>breaker_check\<close>). An operation reads the clock and may fail to write the
  state file: both come from an \<open>env\<close>. The text of a trigger's reason is left out.
\<close>

section \<open>State\<close>

datatype breaker_id = Daily_loss | Drawdown | Consecutive_loss | Kill_switch
  | Liquidation_cascade | Funding_rate_spike | Volatility

definition ALL_BREAKERS :: "breaker_id list" where
  "ALL_BREAKERS = [Daily_loss, Drawdown, Consecutive_loss, Kill_switch, Liquidation_cascade,
     Funding_rate_spike, Volatility]"

fun breaker_name :: "breaker_id \<Rightarrow> string" where
  "breaker_name Daily_loss = ''DAILY_LOSS_BREAKER''"
| "breaker_name Drawdown = ''DRAWDOWN_BREAKER''"
| "breaker_name Consecutive_loss = ''CONSECUTIVE_LOSS_BREAKER''"
| "breaker_name Kill_switch = ''KILL_SWITCH''"
| "breaker_name Liquidation_cascade = ''LIQUIDATION_CASCADE_BREAKER''"
| "breaker_name Funding_rate_spike = ''FUNDING_RATE_SPIKE_BREAKER''"
| "breaker_name Volatility = ''VOLATILITY_BREAKER''"

definition breaker_of_name :: "string \<Rightarrow> breaker_id option" where
  "breaker_of_name n = find (\<lambda>i. breaker_name i = n) ALL_BREAKERS"

text \<open>\<open>prev_daily_pnl\<close> is the attribute \<^verbatim>\<open>_prev_daily_pnl\<close> set on first use; \<open>None\<close> is its absence.\<close>

record breaker =
  tier :: int
  active :: bool
  triggered_at :: "rat option"
  auto_reset :: bool
  threshold :: rat
  hysteresis :: rat
  max_consecutive :: int
  consecutive_losses :: int
  last_utc_day :: int
  peak_value :: rat
  funding_spike_counts :: "(string, int) dict"
  near_liquidation_positions :: "string set"
  prev_daily_pnl :: "rat option"

definition default_breaker :: "int \<Rightarrow> breaker" where
  "default_breaker t = \<lparr>tier = t, active = False, triggered_at = None, auto_reset = True,
     threshold = 0, hysteresis = 0, max_consecutive = 0, consecutive_losses = 0, last_utc_day = 0,
     peak_value = 0, funding_spike_counts = [], near_liquidation_positions = {}, prev_daily_pnl = None\<rparr>"

type_synonym breakers = "breaker_id \<Rightarrow> breaker"

record env =
  env_now :: rat
  env_yday :: int
  env_write_ok :: bool

fun init_breakers :: "risk_config \<Rightarrow> breakers" where
  "init_breakers cfg Daily_loss =
     (default_breaker 1)\<lparr>threshold := dec_of_float (rc_max_daily_loss_usd cfg)\<rparr>"
| "init_breakers cfg Drawdown =
     (default_breaker 2)\<lparr>threshold := dec_of_float (rc_max_drawdown_pct cfg), hysteresis := 5\<rparr>"
| "init_breakers cfg Consecutive_loss =
     (default_breaker 3)\<lparr>max_consecutive := bc_max_consecutive (rc_circuit_breakers cfg)\<rparr>"
| "init_breakers cfg Kill_switch = (default_breaker 4)\<lparr>auto_reset := False\<rparr>"
| "init_breakers cfg Liquidation_cascade =
     (default_breaker 1)\<lparr>threshold := dec_of_float (bc_min_cascade_distance_pct (rc_circuit_breakers cfg))\<rparr>"
| "init_breakers cfg Funding_rate_spike =
     (default_breaker 1)\<lparr>threshold := dec_of_float (bc_funding_rate_spike_threshold (rc_circuit_breakers cfg))\<rparr>"
| "init_breakers cfg Volatility =
     (default_breaker 2)\<lparr>threshold := dec_of_float (bc_volatility_breaker_atr_pct (rc_circuit_breakers cfg))\<rparr>"

section \<open>The checks\<close>

definition trip :: "env \<Rightarrow> breaker \<Rightarrow> breaker" where
  "trip e b = b\<lparr>active := True, triggered_at := Some (env_now e)\<rparr>"

definition clear :: "breaker \<Rightarrow> breaker" where
  "clear b = b\<lparr>active := False, triggered_at := None\<rparr>"

definition check_daily_loss_breaker :: "risk_config \<Rightarrow> env \<Rightarrow> rat \<Rightarrow> breakers \<Rightarrow> breakers" where
  "check_daily_loss_breaker cfg e daily_pnl bs =
     (let b = bs Daily_loss; max_loss = dec_of_float (rc_max_daily_loss_usd cfg)
      in if active b then
           (if env_yday e \<noteq> last_utc_day b then bs(Daily_loss := clear b) else bs)
         else if daily_pnl < dround (- max_loss) then
           bs(Daily_loss := (trip e b)\<lparr>last_utc_day := env_yday e\<rparr>)
         else bs)"

definition check_drawdown_breaker :: "risk_config \<Rightarrow> env \<Rightarrow> rat \<Rightarrow> rat \<Rightarrow> breakers \<Rightarrow> breakers" where
  "check_drawdown_breaker cfg e drawdown_pct portfolio bs =
     (let max_dd = dec_of_float (rc_max_drawdown_pct cfg);
          b = (bs Drawdown)\<lparr>peak_value := max (peak_value (bs Drawdown)) portfolio\<rparr>
      in if active b then
           bs(Drawdown := if drawdown_pct \<le> dround (max_dd - hysteresis b) then clear b else b)
         else bs(Drawdown := if max_dd < drawdown_pct then trip e b else b))"

definition check_consecutive_losses :: "risk_config \<Rightarrow> env \<Rightarrow> breakers \<Rightarrow> breakers" where
  "check_consecutive_losses cfg e bs =
     (let b = bs Consecutive_loss; m = bc_max_consecutive (rc_circuit_breakers cfg)
      in if active b then
           (if consecutive_losses b < m then bs(Consecutive_loss := clear b) else bs)
         else if m \<le> consecutive_losses b then bs(Consecutive_loss := trip e b)
         else bs)"

definition check_kill_switch :: "breakers \<Rightarrow> breakers" where
  "check_kill_switch bs = bs"

text \<open>The symbols within the cascade distance of liquidation.\<close>

definition current_near :: "risk_config \<Rightarrow> strategy_context \<Rightarrow> string set" where
  "current_near cfg ctx = set (map fp_symbol
     (filter (\<lambda>p. has_liquidation_price p
          \<and> liquidation_distance p < bc_min_cascade_distance_pct (rc_circuit_breakers cfg))
       (ctx_futures_positions ctx)))"

definition check_liquidation_cascade :: "risk_config \<Rightarrow> env \<Rightarrow> strategy_context \<Rightarrow> breakers \<Rightarrow> breakers" where
  "check_liquidation_cascade cfg e ctx bs =
     (let b = bs Liquidation_cascade;
          near = current_near cfg ctx;
          existing = set (map fp_symbol (ctx_futures_positions ctx));
          liquidated = near_liquidation_positions b - near - existing;
          b' = (if liquidated \<noteq> {} \<and> \<not> active b then trip e b
                else if active b then (if near = {} then clear b else b)
                else b)
      in bs(Liquidation_cascade := b'\<lparr>near_liquidation_positions := near\<rparr>))"

text \<open>
  \<open>current_spikes\<close> keeps the order of the funding-rate dict; the source iterates a set there, whose
  order is arbitrary and only decides the order in which counters are created.
\<close>

definition current_spikes :: "risk_config \<Rightarrow> strategy_context \<Rightarrow> string list" where
  "current_spikes cfg ctx = map fst
     (filter (\<lambda>kv. bc_funding_rate_spike_threshold (rc_circuit_breakers cfg) < \<bar>fround (fr_funding_rate (snd kv))\<bar>)
       (ctx_funding_rates ctx))"

definition count_spikes :: "string list \<Rightarrow> (string, int) dict \<Rightarrow> (string, int) dict" where
  "count_spikes spikes counts =
     (let bumped = dict_accumulate (+) 0 (map (\<lambda>s. (s, 1)) (remdups spikes)) counts
      in map (\<lambda>kv. (fst kv, if fst kv \<in> set spikes then snd kv else 0)) bumped)"

definition escalating :: "risk_config \<Rightarrow> (string, int) dict \<Rightarrow> string list" where
  "escalating cfg counts =
     map fst (filter (\<lambda>kv. bc_max_consecutive_spikes (rc_circuit_breakers cfg) \<le> snd kv) counts)"

definition check_funding_rate_spike :: "risk_config \<Rightarrow> env \<Rightarrow> strategy_context \<Rightarrow> breakers \<Rightarrow> breakers" where
  "check_funding_rate_spike cfg e ctx bs =
     (let counts = count_spikes (current_spikes cfg ctx) (funding_spike_counts (bs Funding_rate_spike));
          b = (bs Funding_rate_spike)\<lparr>funding_spike_counts := counts\<rparr>;
          esc = escalating cfg counts
      in bs(Funding_rate_spike :=
           (if esc \<noteq> [] \<and> \<not> active b then trip e b
            else if active b then (if esc = [] then clear b else b)
            else b)))"

definition atr_threshold :: "risk_config \<Rightarrow> rat" where
  "atr_threshold cfg = (let t = bc_volatility_breaker_atr_pct (rc_circuit_breakers cfg)
     in if t \<le> 0 \<or> 50 < t then 5 else t)"

definition high_volatility :: "risk_config \<Rightarrow> futures_contract \<Rightarrow> bool" where
  "high_volatility cfg c =
     (let mark = fround (fc_mark_price c); change = fround (fc_price_change_24h c)
      in 0 < mark \<and> 0 < \<bar>change\<bar> \<and> atr_threshold cfg < fround (\<bar>fround (change / mark)\<bar> * 100))"

definition check_volatility :: "risk_config \<Rightarrow> env \<Rightarrow> strategy_context \<Rightarrow> breakers \<Rightarrow> breakers" where
  "check_volatility cfg e ctx bs =
     (let b = bs Volatility;
          high = map fst (filter (\<lambda>kv. high_volatility cfg (snd kv)) (ctx_futures_contracts ctx))
      in bs(Volatility :=
           (if high \<noteq> [] \<and> \<not> active b then trip e b
            else if active b then (if high = [] then clear b else b)
            else b)))"

definition ctx_daily_pnl :: "strategy_context \<Rightarrow> rat" where
  "ctx_daily_pnl ctx = (case ctx_risk_status ctx of Some s \<Rightarrow> rs_daily_pnl s | None \<Rightarrow> 0)"

definition ctx_drawdown :: "strategy_context \<Rightarrow> rat" where
  "ctx_drawdown ctx = (case ctx_risk_status ctx of Some s \<Rightarrow> rs_drawdown_percent s | None \<Rightarrow> 0)"

definition count_losses :: "rat \<Rightarrow> breaker \<Rightarrow> breaker" where
  "count_losses daily_pnl b =
     (case prev_daily_pnl b of
        None \<Rightarrow> b\<lparr>prev_daily_pnl := Some daily_pnl\<rparr>
      | Some prev \<Rightarrow>
         (if daily_pnl < prev then
            (if consecutive_losses b < 100 then b\<lparr>consecutive_losses := consecutive_losses b + 1\<rparr> else b)
          else if prev < daily_pnl then b\<lparr>consecutive_losses := 0\<rparr>
          else b)\<lparr>prev_daily_pnl := Some daily_pnl\<rparr>)"

definition update_consecutive_losses :: "strategy_context \<Rightarrow> breakers \<Rightarrow> breakers" where
  "update_consecutive_losses ctx bs =
     bs(Consecutive_loss := count_losses (ctx_daily_pnl ctx) (bs Consecutive_loss))"

section \<open>The state file\<close>

text \<open>
  The JSON object of the state file; a value that is no JSON object at a name's place is
  \<open>None\<close>. \<^verbatim>\<open>str(peak_value)\<close> is kept as the Decimal it spells.
\<close>

type_synonym payload = "(string, (string, pyval) dict option) dict"

definition save_breaker :: "breaker \<Rightarrow> (string, pyval) dict" where
  "save_breaker b = [(''active'', PBool (active b)),
     (''triggered_at'', case triggered_at b of None \<Rightarrow> PNone | Some t \<Rightarrow> PFloat t),
     (''consecutive_losses'', PInt (consecutive_losses b)),
     (''peak_value'', PDec (peak_value b)),
     (''last_utc_day'', PInt (last_utc_day b))]"

definition saved_payload :: "breakers \<Rightarrow> payload" where
  "saved_payload bs = map (\<lambda>i. (breaker_name i, Some (save_breaker (bs i)))) ALL_BREAKERS"

text \<open>One entry is restored field by field; a value that does not convert stops it there.\<close>

definition load_breaker :: "(string, pyval) dict \<Rightarrow> breaker \<Rightarrow> breaker" where
  "load_breaker saved b =
     (let b1 = b\<lparr>active := (case map_of saved ''active'' of None \<Rightarrow> active b | Some v \<Rightarrow> truthy v)\<rparr>
      in case (case map_of saved ''triggered_at'' of
                 None \<Rightarrow> Inr (triggered_at b1)
               | Some PNone \<Rightarrow> Inr None
               | Some v \<Rightarrow> bindE (to_float v) (\<lambda>x. Inr (Some x))) of
        Inl _ \<Rightarrow> b1
      | Inr t \<Rightarrow> (let b2 = b1\<lparr>triggered_at := t\<rparr>
      in case (case map_of saved ''consecutive_losses'' of None \<Rightarrow> Inr (consecutive_losses b2) | Some v \<Rightarrow> to_int v) of
        Inl _ \<Rightarrow> b2
      | Inr n \<Rightarrow> (let b3 = b2\<lparr>consecutive_losses := n\<rparr>
      in case (case map_of saved ''peak_value'' of None \<Rightarrow> Inr (peak_value b3) | Some v \<Rightarrow> to_decimal v) of
        Inl _ \<Rightarrow> b3
      | Inr p \<Rightarrow> (let b4 = b3\<lparr>peak_value := p\<rparr>
      in case (case map_of saved ''last_utc_day'' of None \<Rightarrow> Inr (last_utc_day b4) | Some v \<Rightarrow> to_int v) of
        Inl _ \<Rightarrow> b4
      | Inr d \<Rightarrow> b4\<lparr>last_utc_day := d\<rparr>))))"

definition load_entry :: "string \<times> (string, pyval) dict option \<Rightarrow> breakers \<Rightarrow> breakers" where
  "load_entry entry bs = (case (breaker_of_name (fst entry), snd entry) of
     (Some i, Some saved) \<Rightarrow> bs(i := load_breaker saved (bs i))
   | _ \<Rightarrow> bs)"

definition load_state :: "payload option \<Rightarrow> breakers \<Rightarrow> breakers" where
  "load_state disk bs = (case disk of None \<Rightarrow> bs | Some pl \<Rightarrow> fold load_entry pl bs)"

section \<open>The manager\<close>

record breaker_manager =
  bm_cfg :: risk_config
  bm_breakers :: breakers
  bm_disk :: "payload option"

definition init_breaker_manager :: "risk_config \<Rightarrow> payload option \<Rightarrow> breaker_manager" where
  "init_breaker_manager cfg disk =
     \<lparr>bm_cfg = cfg, bm_breakers = load_state disk (init_breakers cfg), bm_disk = disk\<rparr>"

definition save_state :: "env \<Rightarrow> breaker_manager \<Rightarrow> breaker_manager" where
  "save_state e m = (if env_write_ok e then m\<lparr>bm_disk := Some (saved_payload (bm_breakers m))\<rparr> else m)"

definition breaker_status_dict :: "breaker_id \<Rightarrow> breaker \<Rightarrow> circuit_breaker_status" where
  "breaker_status_dict i b = \<lparr>cbs_name = breaker_name i, cbs_active = active b,
     cbs_triggered_at = map_option (\<lambda>t. dtrunc (fround (t * 1000))) (triggered_at b), cbs_tier = tier b\<rparr>"

definition breakers_status :: "breaker_manager \<Rightarrow> (string, circuit_breaker_status) dict" where
  "breakers_status m = map (\<lambda>i. (breaker_name i, breaker_status_dict i (bm_breakers m i))) ALL_BREAKERS"

definition is_trading_allowed :: "breaker_manager \<Rightarrow> bool" where
  "is_trading_allowed m = (\<not> list_ex (\<lambda>i. active (bm_breakers m i)) ALL_BREAKERS)"

definition check_all_breakers :: "risk_config \<Rightarrow> env \<Rightarrow> strategy_context \<Rightarrow> breakers \<Rightarrow> breakers" where
  "check_all_breakers cfg e ctx bs =
     check_volatility cfg e ctx
      (check_funding_rate_spike cfg e ctx
       (check_liquidation_cascade cfg e ctx
        (check_kill_switch
         (check_consecutive_losses cfg e
          (check_drawdown_breaker cfg e (ctx_drawdown ctx) (portfolio_value ctx)
           (check_daily_loss_breaker cfg e (ctx_daily_pnl ctx) bs))))))"

definition check_all :: "env \<Rightarrow> strategy_context \<Rightarrow> breaker_manager
     \<Rightarrow> (string, circuit_breaker_status) dict \<times> breaker_manager" where
  "check_all e ctx m =
     (let m' = save_state e (m\<lparr>bm_breakers := check_all_breakers (bm_cfg m) e ctx (bm_breakers m)\<rparr>)
      in (breakers_status m', m'))"

definition update_peak :: "strategy_context \<Rightarrow> breakers \<Rightarrow> breakers" where
  "update_peak ctx bs = bs(Drawdown := (bs Drawdown)
     \<lparr>peak_value := max (peak_value (bs Drawdown)) (portfolio_value ctx)\<rparr>)"

definition update_monitoring_data :: "env \<Rightarrow> strategy_context \<Rightarrow> breaker_manager \<Rightarrow> breaker_manager" where
  "update_monitoring_data e ctx m =
     save_state e (m\<lparr>bm_breakers :=
       check_volatility (bm_cfg m) e ctx
        (check_funding_rate_spike (bm_cfg m) e ctx
         (check_liquidation_cascade (bm_cfg m) e ctx
          (check_consecutive_losses (bm_cfg m) e
           (check_drawdown_breaker (bm_cfg m) e (ctx_drawdown ctx) (portfolio_value ctx)
            (check_daily_loss_breaker (bm_cfg m) e (ctx_daily_pnl ctx)
             (update_consecutive_losses ctx
              (update_peak ctx (bm_breakers m))))))))\<rparr>)"

definition trigger :: "env \<Rightarrow> string \<Rightarrow> breaker_manager \<Rightarrow> breaker_manager" where
  "trigger e name m = (case breaker_of_name name of
     None \<Rightarrow> m
   | Some i \<Rightarrow> save_state e (m\<lparr>bm_breakers := (bm_breakers m)(i := trip e (bm_breakers m i))\<rparr>))"

text \<open>\<^verbatim>\<open>reset\<close> keeps \<^verbatim>\<open>triggered_at\<close>.\<close>

definition reset :: "env \<Rightarrow> string \<Rightarrow> breaker_manager \<Rightarrow> bool \<times> breaker_manager" where
  "reset e name m = (case breaker_of_name name of
     None \<Rightarrow> (False, m)
   | Some i \<Rightarrow>
      (let b = bm_breakers m i
       in if \<not> auto_reset b \<and> i \<noteq> Kill_switch then (False, m)
          else if i = Kill_switch then (False, m)
          else if active b then
            (True, save_state e (m\<lparr>bm_breakers := (bm_breakers m)(i := b\<lparr>active := False\<rparr>)\<rparr>))
          else (True, m)))"

text \<open>
  \<^verbatim>\<open>uuid.UUID(hex=s)\<close> of the standard library: the texts \<^verbatim>\<open>urn:\<close> and \<^verbatim>\<open>uuid:\<close> are removed, then
  braces at both ends, then every hyphen; 32 characters must remain and \<^verbatim>\<open>int(_, 16)\<close> must read
  them: a sign, a prefix \<^verbatim>\<open>0x\<close>, then hexadecimal digits with single underscores between.
\<close>

definition is_hex :: "char \<Rightarrow> bool" where
  "is_hex c = (is_digit c \<or> (65 \<le> code_point c \<and> code_point c \<le> 70) \<or> (97 \<le> code_point c \<and> code_point c \<le> 102))"

definition valid_hex_int :: "string \<Rightarrow> bool" where
  "valid_hex_int s = (let t = snd (read_sign (strip s));
     u = (if take 2 t = ''0x'' \<or> take 2 t = ''0X'' then
            (if take 1 (drop 2 t) = ''_'' then drop 3 t else drop 2 t) else t)
     in valid_digits is_hex u)"

definition is_brace :: "char \<Rightarrow> bool" where
  "is_brace c = (c = CHR ''{'' \<or> c = CHR ''}'')"

definition valid_uuid :: "string \<Rightarrow> bool" where
  "valid_uuid s = (let h = drop_sub ''uuid:'' (drop_sub ''urn:'' s);
        h' = filter (\<lambda>c. c \<noteq> CHR ''-'') (rev (dropWhile is_brace (rev (dropWhile is_brace h))))
     in length h' = 32 \<and> valid_hex_int h')"

definition valid_reset_token :: "string \<Rightarrow> bool" where
  "valid_reset_token t = (take 11 t = ''KILL_RESET_'' \<and> valid_uuid (drop 11 t))"

definition reset_kill_switch :: "env \<Rightarrow> string \<Rightarrow> breaker_manager \<Rightarrow> bool \<times> breaker_manager" where
  "reset_kill_switch e token m =
     (if \<not> valid_reset_token token then (False, m)
      else if active (bm_breakers m Kill_switch) then
        (True, save_state e (m\<lparr>bm_breakers := (bm_breakers m)(Kill_switch := clear (bm_breakers m Kill_switch))\<rparr>))
      else (False, m))"

section \<open>Every check minds its own breaker\<close>

text \<open>
  The contract the manager relies on: a check reads and writes one breaker, keeps that breaker's
  configuration, and stamps the time exactly when it trips it.
\<close>

locale breaker_check =
  fixes own :: breaker_id and check :: "env \<Rightarrow> breakers \<Rightarrow> breakers"
  assumes frame: "i \<noteq> own \<Longrightarrow> check e bs i = bs i"
    and local: "bs own = bs' own \<Longrightarrow> check e bs own = check e bs' own"
    and keeps_hysteresis: "hysteresis (check e bs own) = hysteresis (bs own)"
    and keeps_auto_reset: "auto_reset (check e bs own) = auto_reset (bs own)"
    and stamps: "\<not> active (bs own) \<Longrightarrow> active (check e bs own) \<Longrightarrow> triggered_at (check e bs own) = Some (env_now e)"
begin

lemma hysteresis_check: "hysteresis (check e bs i) = hysteresis (bs i)"
  using frame[of i e bs] keeps_hysteresis[of e bs] by (cases "i = own") auto

lemma auto_reset_check: "auto_reset (check e bs i) = auto_reset (bs i)"
  using frame[of i e bs] keeps_auto_reset[of e bs] by (cases "i = own") auto

lemma stamped: "(\<forall>i. active (bs i) \<longrightarrow> triggered_at (bs i) \<noteq> None) \<Longrightarrow> \<not> active (bs own)
    \<Longrightarrow> active (check e bs i) \<longrightarrow> triggered_at (check e bs i) \<noteq> None"
  using frame[of i e bs] stamps[of bs e] by (cases "i = own") auto

lemma others_survive: "i \<noteq> own \<Longrightarrow> active (foldl (\<lambda>bs e. check e bs) bs es i) = active (bs i)"
  by (induction es arbitrary: bs) (simp_all add: frame)

end

lemmas breaker_defs = Let_def trip_def clear_def

interpretation daily_loss_breaker: breaker_check Daily_loss "\<lambda>e. check_daily_loss_breaker cfg e pnl" for cfg pnl
  by unfold_locales (auto simp: check_daily_loss_breaker_def breaker_defs)

interpretation drawdown_breaker: breaker_check Drawdown "\<lambda>e. check_drawdown_breaker cfg e dd pv" for cfg dd pv
  by unfold_locales (auto simp: check_drawdown_breaker_def breaker_defs)

interpretation consecutive_loss_breaker: breaker_check Consecutive_loss "\<lambda>e. check_consecutive_losses cfg e" for cfg
  by unfold_locales (auto simp: check_consecutive_losses_def breaker_defs)

interpretation cascade_breaker: breaker_check Liquidation_cascade "\<lambda>e. check_liquidation_cascade cfg e ctx" for cfg ctx
  by unfold_locales (auto simp: check_liquidation_cascade_def breaker_defs)

interpretation spike_breaker: breaker_check Funding_rate_spike "\<lambda>e. check_funding_rate_spike cfg e ctx" for cfg ctx
  by unfold_locales (auto simp: check_funding_rate_spike_def breaker_defs)

interpretation volatility_breaker: breaker_check Volatility "\<lambda>e. check_volatility cfg e ctx" for cfg ctx
  by unfold_locales (auto simp: check_volatility_def breaker_defs)

lemmas check_frames = daily_loss_breaker.frame drawdown_breaker.frame consecutive_loss_breaker.frame
  cascade_breaker.frame spike_breaker.frame volatility_breaker.frame

lemmas check_hysteresis = daily_loss_breaker.hysteresis_check drawdown_breaker.hysteresis_check
  consecutive_loss_breaker.hysteresis_check cascade_breaker.hysteresis_check
  spike_breaker.hysteresis_check volatility_breaker.hysteresis_check

lemma peak_frame: "i \<noteq> Drawdown \<Longrightarrow> update_peak ctx bs i = bs i"
  by (simp add: update_peak_def)

lemma losses_frame: "i \<noteq> Consecutive_loss \<Longrightarrow> update_consecutive_losses ctx bs i = bs i"
  by (simp add: update_consecutive_losses_def)

lemma count_losses_keeps [simp]:
  "active (count_losses p b) = active b" "hysteresis (count_losses p b) = hysteresis b"
  "triggered_at (count_losses p b) = triggered_at b"
  by (auto simp: count_losses_def split: option.splits)

lemma update_hysteresis:
  "hysteresis (update_peak ctx bs i) = hysteresis (bs i)"
  "hysteresis (update_consecutive_losses ctx bs i) = hysteresis (bs i)"
  by (simp_all add: update_peak_def update_consecutive_losses_def)

lemma breakers_save_state [simp]: "bm_breakers (save_state e m) = bm_breakers m"
  and cfg_save_state [simp]: "bm_cfg (save_state e m) = bm_cfg m"
  by (simp_all add: save_state_def)

section \<open>Restart\<close>

lemma breaker_of_name_name [simp]: "breaker_of_name (breaker_name i) = Some i"
  by (cases i) (simp_all add: breaker_of_name_def ALL_BREAKERS_def)

lemma set_ALL_BREAKERS: "set ALL_BREAKERS = UNIV"
  using breaker_id.exhaust by (auto simp: ALL_BREAKERS_def)

lemma distinct_ALL_BREAKERS: "distinct ALL_BREAKERS"
  by (simp add: ALL_BREAKERS_def)

text \<open>The persisted part of a breaker.\<close>

definition persisted :: "breaker \<Rightarrow> bool \<times> rat option \<times> int \<times> rat \<times> int" where
  "persisted b = (active b, triggered_at b, consecutive_losses b, peak_value b, last_utc_day b)"

lemma load_save_breaker:
  "load_breaker (save_breaker b) b0 = b0\<lparr>active := active b, triggered_at := triggered_at b,
     consecutive_losses := consecutive_losses b, peak_value := peak_value b, last_utc_day := last_utc_day b\<rparr>"
  by (cases "triggered_at b") (simp_all add: load_breaker_def save_breaker_def)

lemma load_saved_entries:
  "distinct is \<Longrightarrow> fold load_entry (map (\<lambda>i. (breaker_name i, Some (save_breaker (bs i)))) is) bs0 j =
     (if j \<in> set is then load_breaker (save_breaker (bs j)) (bs0 j) else bs0 j)"
  by (induction "is" arbitrary: bs0) (auto simp: load_entry_def)

lemma load_saved_state: "load_state (Some (saved_payload bs)) bs0 i = load_breaker (save_breaker (bs i)) (bs0 i)"
  by (simp add: load_state_def saved_payload_def load_saved_entries distinct_ALL_BREAKERS set_ALL_BREAKERS)

lemma persisted_load_saved: "persisted (load_state (Some (saved_payload bs)) bs0 i) = persisted (bs i)"
  by (simp add: load_saved_state load_save_breaker persisted_def)

lemma save_breaker_persisted: "persisted b = persisted b' \<Longrightarrow> save_breaker b = save_breaker b'"
  by (simp add: save_breaker_def persisted_def)

lemma hysteresis_load_breaker [simp]: "hysteresis (load_breaker s b) = hysteresis b"
  by (simp add: load_breaker_def Let_def split: sum.splits)

lemma hysteresis_load_state: "hysteresis (load_state d bs i) = hysteresis (bs i)"
proof -
  have "hysteresis (fold load_entry pl bs i) = hysteresis (bs i)" for pl
    by (induction pl arbitrary: bs) (auto simp: load_entry_def split: option.splits)
  then show ?thesis by (simp add: load_state_def split: option.splits)
qed

section \<open>Runs of the manager\<close>

text \<open>
  What can happen to the manager while the process lives, and across a restart, which builds a new
  manager from the same configuration and the state file.
\<close>

datatype breaker_event =
    Check_all env strategy_context | Monitor env strategy_context | Trigger env string
  | Reset env string | Reset_kill env string | Restart

inductive breaker_step :: "breaker_manager \<Rightarrow> breaker_event \<Rightarrow> breaker_manager \<Rightarrow> bool" where
  step_check_all: "breaker_step m (Check_all e ctx) (snd (check_all e ctx m))"
| step_monitor: "breaker_step m (Monitor e ctx) (update_monitoring_data e ctx m)"
| step_trigger: "breaker_step m (Trigger e n) (trigger e n m)"
| step_reset: "breaker_step m (Reset e n) (snd (reset e n m))"
| step_reset_kill: "breaker_step m (Reset_kill e t) (snd (reset_kill_switch e t m))"
| step_restart: "breaker_step m Restart (init_breaker_manager (bm_cfg m) (bm_disk m))"

inductive breaker_run :: "breaker_manager \<Rightarrow> breaker_event list \<Rightarrow> breaker_manager \<Rightarrow> bool" where
  run_nil: "breaker_run m [] m"
| run_snoc: "breaker_run m evs m' \<Longrightarrow> breaker_step m' ev m'' \<Longrightarrow> breaker_run m (evs @ [ev]) m''"

inductive_cases breaker_stepE: "breaker_step m ev m'"

fun event_writes_ok :: "breaker_event \<Rightarrow> bool" where
  "event_writes_ok (Check_all e ctx) = env_write_ok e"
| "event_writes_ok (Monitor e ctx) = env_write_ok e"
| "event_writes_ok (Trigger e n) = env_write_ok e"
| "event_writes_ok (Reset e n) = env_write_ok e"
| "event_writes_ok (Reset_kill e t) = env_write_ok e"
| "event_writes_ok Restart = True"

fun unlocks_kill_switch :: "breaker_event \<Rightarrow> bool" where
  "unlocks_kill_switch (Reset_kill e t) = valid_reset_token t"
| "unlocks_kill_switch _ = False"

definition synced :: "breaker_manager \<Rightarrow> bool" where
  "synced m = (bm_disk m = Some (saved_payload (bm_breakers m)))"

lemma synced_save_state: "env_write_ok e \<Longrightarrow> synced (save_state e m)"
  by (simp add: synced_def save_state_def)

lemma saved_payload_reload: "saved_payload (load_state (Some (saved_payload bs)) bs0) = saved_payload bs"
proof -
  have "save_breaker (load_state (Some (saved_payload bs)) bs0 i) = save_breaker (bs i)" for i
    by (rule save_breaker_persisted) (rule persisted_load_saved)
  then show ?thesis by (simp add: saved_payload_def)
qed

lemma active_load_state [simp]: "active (load_state (Some (saved_payload bs)) bs0 i) = active (bs i)"
  using persisted_load_saved[of bs bs0 i] by (simp add: persisted_def)

lemma kill_switch_check_all: "check_all_breakers cfg e ctx bs Kill_switch = bs Kill_switch"
  by (simp add: check_all_breakers_def check_frames check_kill_switch_def)

lemma kill_switch_monitor: "bm_breakers (update_monitoring_data e ctx m) Kill_switch = bm_breakers m Kill_switch"
  by (simp add: update_monitoring_data_def check_frames peak_frame losses_frame)

lemma kill_switch_step:
  assumes "breaker_step m ev m'" "synced m" "active (bm_breakers m Kill_switch)"
    "event_writes_ok ev" "\<not> unlocks_kill_switch ev"
  shows "synced m' \<and> active (bm_breakers m' Kill_switch)"
  using assms(1)
proof cases
  case (step_check_all e ctx)
  then show ?thesis using assms(2-)
    by (simp add: check_all_def Let_def synced_save_state kill_switch_check_all)
next
  case (step_monitor e ctx)
  then show ?thesis using assms(2-) kill_switch_monitor[of e ctx m]
    by (simp add: update_monitoring_data_def synced_save_state)
next
  case (step_trigger e n)
  then show ?thesis using assms(2-)
    by (simp add: trigger_def synced_save_state trip_def split: option.split)
next
  case (step_reset e n)
  then show ?thesis using assms(2-)
    by (auto simp: reset_def Let_def synced_save_state split: option.split)
next
  case (step_reset_kill e t)
  then show ?thesis using assms(2-) by (simp add: reset_kill_switch_def)
next
  case step_restart
  then show ?thesis using assms(2,3)
    by (simp add: synced_def init_breaker_manager_def saved_payload_reload)
qed

lemma kill_switch_run:
  assumes "breaker_run m evs m'" "synced m" "active (bm_breakers m Kill_switch)"
    "\<forall>ev \<in> set evs. event_writes_ok ev \<and> \<not> unlocks_kill_switch ev"
  shows "synced m' \<and> active (bm_breakers m' Kill_switch)"
  using assms by (induction rule: breaker_run.induct) (auto dest: kill_switch_step)

lemma active_blocks: "active (bm_breakers m i) \<Longrightarrow> \<not> is_trading_allowed m"
  by (auto simp: is_trading_allowed_def list_ex_iff set_ALL_BREAKERS)

lemma trading_allowed_iff: "is_trading_allowed m \<longleftrightarrow> (\<forall>i. \<not> active (bm_breakers m i))"
  by (auto simp: is_trading_allowed_def list_ex_iff set_ALL_BREAKERS)

section \<open>Streaks\<close>

text \<open>The monitoring cycles of a process, from a manager's start.\<close>

definition monitor_cycles :: "(env \<times> strategy_context) list \<Rightarrow> breaker_manager \<Rightarrow> breaker_manager" where
  "monitor_cycles hist m = foldl (\<lambda>m c. update_monitoring_data (fst c) (snd c) m) m hist"

lemma monitor_cycles_simps [simp]:
  "monitor_cycles [] m = m"
  "monitor_cycles (hist @ [c]) m = update_monitoring_data (fst c) (snd c) (monitor_cycles hist m)"
  by (simp_all add: monitor_cycles_def)

lemma bm_cfg_monitor [simp]: "bm_cfg (update_monitoring_data e ctx m) = bm_cfg m"
  by (simp add: update_monitoring_data_def)

lemma bm_cfg_cycles [simp]: "bm_cfg (monitor_cycles hist m) = bm_cfg m"
  by (induction hist rule: rev_induct) simp_all

text \<open>
  The number of falls in a sequence of daily PnL readings since its last rise.
\<close>

definition loss_streak :: "rat list \<Rightarrow> int" where
  "loss_streak ps = int (length (filter (\<lambda>(p, q). q < p) (takeWhile (\<lambda>(p, q). \<not> p < q) (rev (zip ps (tl ps))))))"

lemma zip_tl_snoc: "ps \<noteq> [] \<Longrightarrow> zip (ps @ [p]) (tl ps @ [p]) = zip ps (tl ps) @ [(last ps, p)]"
proof (induction ps)
  case (Cons a ps)
  then show ?case by (cases ps) simp_all
qed simp

lemma loss_streak_snoc:
  "loss_streak (ps @ [p]) = (if ps = [] \<or> last ps < p then 0 else loss_streak ps + (if p < last ps then 1 else 0))"
  by (cases "ps = []") (simp_all add: loss_streak_def zip_tl_snoc)

lemma loss_streak_nonneg: "0 \<le> loss_streak ps"
  by (simp add: loss_streak_def)

lemma count_losses_streak:
  assumes "prev_daily_pnl b = (if ps = [] then None else Some (last ps))"
    "consecutive_losses b = min 100 (loss_streak ps)"
  shows "prev_daily_pnl (count_losses p b) = Some p
    \<and> consecutive_losses (count_losses p b) = min 100 (loss_streak (ps @ [p]))"
proof (cases "ps = []")
  case True
  then show ?thesis using assms by (simp add: count_losses_def loss_streak_def)
next
  case False
  then show ?thesis using assms loss_streak_nonneg[of ps]
    by (auto simp: count_losses_def loss_streak_snoc)
qed

lemma consecutive_loss_monitor:
  "bm_breakers (update_monitoring_data e ctx m) Consecutive_loss =
     check_consecutive_losses (bm_cfg m) e (update_consecutive_losses ctx (bm_breakers m)) Consecutive_loss"
  by (simp add: update_monitoring_data_def check_frames)
    (rule consecutive_loss_breaker.local, simp add: check_frames update_consecutive_losses_def peak_frame)

lemma consecutive_loss_state:
  assumes "monitor_cycles hist (init_breaker_manager cfg None) = m" "bm_breakers m Consecutive_loss = b"
  shows "prev_daily_pnl b = (if hist = [] then None else Some (last (map (\<lambda>c. ctx_daily_pnl (snd c)) hist)))
    \<and> consecutive_losses b = min 100 (loss_streak (map (\<lambda>c. ctx_daily_pnl (snd c)) hist))
    \<and> (hist \<noteq> [] \<longrightarrow> active b = (bc_max_consecutive (rc_circuit_breakers cfg) \<le> consecutive_losses b))"
  using assms
proof (induction hist arbitrary: m b rule: rev_induct)
  case Nil
  then show ?case by (auto simp: init_breaker_manager_def load_state_def default_breaker_def loss_streak_def)
next
  case (snoc c hist)
  define m0 where "m0 = monitor_cycles hist (init_breaker_manager cfg None)"
  define b0 where "b0 = bm_breakers m0 Consecutive_loss"
  let ?b1 = "count_losses (ctx_daily_pnl (snd c)) b0"
  have cfg: "bm_cfg m0 = cfg" by (simp add: m0_def init_breaker_manager_def)
  have b: "b = check_consecutive_losses cfg (fst c) ((bm_breakers m0)(Consecutive_loss := ?b1)) Consecutive_loss"
    using snoc.prems by (auto simp: consecutive_loss_monitor update_consecutive_losses_def b0_def cfg m0_def[symmetric])
  have keep: "prev_daily_pnl b = prev_daily_pnl ?b1 \<and> consecutive_losses b = consecutive_losses ?b1
      \<and> active b = (bc_max_consecutive (rc_circuit_breakers cfg) \<le> consecutive_losses b)"
    unfolding b by (auto simp: check_consecutive_losses_def breaker_defs)
  show ?case
    using keep snoc.IH[OF m0_def[symmetric] b0_def[symmetric]]
      count_losses_streak[of b0 "map (\<lambda>c. ctx_daily_pnl (snd c)) hist" "ctx_daily_pnl (snd c)"]
    by (simp split: if_splits)
qed

text \<open>How many of the latest cycles saw a funding-rate spike for a symbol, without a gap.\<close>

definition spike_streak :: "string \<Rightarrow> string list list \<Rightarrow> int" where
  "spike_streak s hist = int (length (takeWhile (\<lambda>spikes. s \<in> set spikes) (rev hist)))"

lemma spike_streak_snoc: "spike_streak s (hist @ [sp]) = (if s \<in> set sp then spike_streak s hist + 1 else 0)"
  by (simp add: spike_streak_def)

lemma map_of_map_values: "map_of (map (\<lambda>kv. (fst kv, f (fst kv) (snd kv))) d) k = map_option (f k) (map_of d k)"
  by (induction d) auto

lemma filter_eq_remdups: "filter (\<lambda>x. x = s) (remdups xs) = (if s \<in> set xs then [s] else [])"
proof -
  have "distinct ys \<Longrightarrow> filter (\<lambda>x. x = s) ys = (if s \<in> set ys then [s] else [])" for ys
    by (induction ys) auto
  then show ?thesis by simp
qed

lemma count_spikes_get:
  "dict_get_or 0 (count_spikes spikes counts) s = (if s \<in> set spikes then dict_get_or 0 counts s + 1 else 0)"
proof -
  let ?b = "dict_accumulate (+) 0 (map (\<lambda>s. (s, 1 :: int)) (remdups spikes)) counts"
  have "dict_get_or 0 ?b s = dict_get_or 0 counts s + (if s \<in> set spikes then 1 else 0)"
    by (simp add: get_or_dict_accumulate filter_map comp_def filter_eq_remdups)
  then show ?thesis
    using map_of_map_values[of "\<lambda>k v. if k \<in> set spikes then v else 0" ?b s]
    by (auto simp: count_spikes_def Let_def dict_get_or_def split: option.splits)
qed

lemma distinct_dict_accumulate: "distinct (map fst d) \<Longrightarrow> distinct (map fst (dict_accumulate f z kvs d))"
  by (induction kvs arbitrary: d) (auto simp: distinct_update)

lemma distinct_count_spikes: "distinct (map fst counts) \<Longrightarrow> distinct (map fst (count_spikes spikes counts))"
  by (simp add: count_spikes_def Let_def comp_def distinct_dict_accumulate)

lemma escalating_iff:
  assumes "distinct (map fst counts)" "1 \<le> bc_max_consecutive_spikes (rc_circuit_breakers cfg)"
  shows "escalating cfg counts \<noteq> [] \<longleftrightarrow>
    (\<exists>s. bc_max_consecutive_spikes (rc_circuit_breakers cfg) \<le> dict_get_or 0 counts s)"
proof
  assume "escalating cfg counts \<noteq> []"
  then obtain s n where "(s, n) \<in> set counts" "bc_max_consecutive_spikes (rc_circuit_breakers cfg) \<le> n"
    by (auto simp: escalating_def filter_empty_conv)
  then show "\<exists>s. bc_max_consecutive_spikes (rc_circuit_breakers cfg) \<le> dict_get_or 0 counts s"
    using assms(1) by (intro exI[of _ s]) (simp add: dict_get_or_def)
next
  assume "\<exists>s. bc_max_consecutive_spikes (rc_circuit_breakers cfg) \<le> dict_get_or 0 counts s"
  then obtain s where "bc_max_consecutive_spikes (rc_circuit_breakers cfg) \<le> dict_get_or 0 counts s" ..
  then show "escalating cfg counts \<noteq> []" using assms(2)
    by (force simp: dict_get_or_def escalating_def filter_empty_conv dest!: map_of_SomeD split: option.splits)
qed

lemma spike_monitor:
  "bm_breakers (update_monitoring_data e ctx m) Funding_rate_spike =
     check_funding_rate_spike (bm_cfg m) e ctx (bm_breakers m) Funding_rate_spike"
  by (simp add: update_monitoring_data_def check_frames)
    (rule spike_breaker.local, simp add: check_frames losses_frame peak_frame)

lemma spike_state:
  assumes "1 \<le> bc_max_consecutive_spikes (rc_circuit_breakers cfg)"
    "monitor_cycles hist (init_breaker_manager cfg None) = m" "bm_breakers m Funding_rate_spike = b"
  shows "distinct (map fst (funding_spike_counts b))
    \<and> (\<forall>s. dict_get_or 0 (funding_spike_counts b) s = spike_streak s (map (\<lambda>c. current_spikes cfg (snd c)) hist))
    \<and> (active b \<longleftrightarrow> (\<exists>s. bc_max_consecutive_spikes (rc_circuit_breakers cfg) \<le> spike_streak s (map (\<lambda>c. current_spikes cfg (snd c)) hist)))"
  using assms(2,3)
proof (induction hist arbitrary: m b rule: rev_induct)
  case Nil
  then show ?case using assms(1)
    by (auto simp: init_breaker_manager_def load_state_def default_breaker_def spike_streak_def)
next
  case (snoc c hist)
  define m0 where "m0 = monitor_cycles hist (init_breaker_manager cfg None)"
  define b0 where "b0 = bm_breakers m0 Funding_rate_spike"
  let ?counts = "count_spikes (current_spikes cfg (snd c)) (funding_spike_counts b0)"
  have cfg: "bm_cfg m0 = cfg" by (simp add: m0_def init_breaker_manager_def)
  have b: "b = check_funding_rate_spike cfg (fst c) (snd c) (bm_breakers m0) Funding_rate_spike"
    using snoc.prems by (auto simp: spike_monitor cfg m0_def[symmetric])
  have c: "funding_spike_counts b = ?counts" and a: "active b \<longleftrightarrow> escalating cfg ?counts \<noteq> []"
    unfolding b b0_def by (auto simp: check_funding_rate_spike_def breaker_defs)
  note IH = snoc.IH[OF m0_def[symmetric] b0_def[symmetric]]
  then have d: "distinct (map fst ?counts)" by (intro distinct_count_spikes) simp
  have g: "dict_get_or 0 ?counts s = spike_streak s (map (\<lambda>c. current_spikes cfg (snd c)) (hist @ [c]))" for s
    using IH by (simp add: count_spikes_get spike_streak_snoc)
  show ?case using d g unfolding c a escalating_iff[OF d assms(1)] by simp
qed

section \<open>Drawdown and cascade\<close>

lemma hysteresis_step: "breaker_step m ev m' \<Longrightarrow> bm_cfg m' = bm_cfg m \<and>
    (hysteresis (bm_breakers m Drawdown) = 5 \<longrightarrow> hysteresis (bm_breakers m' Drawdown) = 5)"
  by (erule breaker_stepE)
    (auto simp: check_all_def Let_def check_all_breakers_def check_hysteresis check_kill_switch_def
      update_monitoring_data_def update_hysteresis trigger_def trip_def reset_def reset_kill_switch_def
      clear_def init_breaker_manager_def hysteresis_load_state split: option.splits)

lemma hysteresis_run:
  assumes "breaker_run m evs m'" "m = init_breaker_manager cfg disk"
  shows "bm_cfg m' = cfg \<and> hysteresis (bm_breakers m' Drawdown) = 5"
  using assms
proof (induction rule: breaker_run.induct)
  case (run_nil m)
  then show ?case by (simp add: init_breaker_manager_def hysteresis_load_state)
qed (auto dest: hysteresis_step)

lemma drawdown_monitor:
  "bm_breakers (update_monitoring_data e ctx m) Drawdown =
     check_drawdown_breaker (bm_cfg m) e (ctx_drawdown ctx) (portfolio_value ctx)
       (update_peak ctx (bm_breakers m)) Drawdown"
  by (simp add: update_monitoring_data_def check_frames)
    (rule drawdown_breaker.local, simp add: check_frames losses_frame)

lemma hysteresis_monitor: "hysteresis (bm_breakers (update_monitoring_data e ctx m) i) = hysteresis (bm_breakers m i)"
  by (simp add: update_monitoring_data_def check_hysteresis update_hysteresis)

lemma drawdown_monitor_active:
  assumes "hysteresis (bm_breakers m Drawdown) = 5"
  shows "active (bm_breakers (update_monitoring_data e ctx m) Drawdown) =
    (if active (bm_breakers m Drawdown)
     then dround (dec_of_float (rc_max_drawdown_pct (bm_cfg m)) - 5) < ctx_drawdown ctx
     else dec_of_float (rc_max_drawdown_pct (bm_cfg m)) < ctx_drawdown ctx)"
  using assms unfolding drawdown_monitor
  by (auto simp: check_drawdown_breaker_def update_peak_def breaker_defs)

lemma drawdown_band:
  assumes "hysteresis (bm_breakers m Drawdown) = 5"
    "\<forall>c \<in> set hist. dround (dec_of_float (rc_max_drawdown_pct (bm_cfg m)) - 5) < ctx_drawdown (snd c)
       \<and> ctx_drawdown (snd c) \<le> dec_of_float (rc_max_drawdown_pct (bm_cfg m))"
  shows "active (bm_breakers (monitor_cycles hist m) Drawdown) = active (bm_breakers m Drawdown)
    \<and> hysteresis (bm_breakers (monitor_cycles hist m) Drawdown) = 5"
  using assms
proof (induction hist rule: rev_induct)
  case (snoc c hist)
  then have "hysteresis (bm_breakers (monitor_cycles hist m) Drawdown) = 5" by simp
  from drawdown_monitor_active[OF this] snoc show ?case by (auto simp: hysteresis_monitor)
qed simp

lemma cascade_monitor:
  "bm_breakers (update_monitoring_data e ctx m) Liquidation_cascade =
     check_liquidation_cascade (bm_cfg m) e ctx (bm_breakers m) Liquidation_cascade"
  by (simp add: update_monitoring_data_def check_frames)
    (rule cascade_breaker.local, simp add: check_frames losses_frame peak_frame)

lemma cascade_tracks:
  "near_liquidation_positions (bm_breakers (update_monitoring_data e ctx m) Liquidation_cascade) =
     current_near (bm_cfg m) ctx"
  by (simp add: cascade_monitor check_liquidation_cascade_def Let_def)

lemma current_near_held: "current_near cfg ctx \<subseteq> fp_symbol ` set (ctx_futures_positions ctx)"
  by (auto simp: current_near_def)

section \<open>Properties\<close>

text \<open>
  \<^bold>\<open>C15\<close>. The kill switch is latched: once it is triggered, no sequence of checks, monitoring cycles,
  triggers, automatic resets, refused reset tokens and restarts of the process re-allows trading;
  only \<^verbatim>\<open>reset_kill_switch\<close> with a token \<^verbatim>\<open>KILL_RESET_<uuid>\<close> does. The restarts need the state file
  to have been written.
\<close>

theorem kill_switch_latched:
  assumes "breaker_run (trigger e ''KILL_SWITCH'' m) evs m'" and "env_write_ok e"
    and "\<forall>ev \<in> set evs. event_writes_ok ev \<and> \<not> unlocks_kill_switch ev"
  shows "active (bm_breakers m' Kill_switch) \<and> \<not> is_trading_allowed m'"
proof -
  let ?m = "trigger e ''KILL_SWITCH'' m"
  have "breaker_of_name ''KILL_SWITCH'' = Some Kill_switch"
    using breaker_of_name_name[of Kill_switch] by simp
  then have "synced ?m" "active (bm_breakers ?m Kill_switch)"
    using assms(2) by (simp_all add: trigger_def synced_save_state trip_def)
  then show ?thesis using kill_switch_run[OF assms(1)] assms(3) active_blocks by blast
qed

definition example_env :: env where
  "example_env = \<lparr>env_now = 1700000000, env_yday = 318, env_write_ok = True\<rparr>"

theorem kill_switch_latched_witness:
  "\<exists>m'. breaker_run (trigger example_env ''KILL_SWITCH'' (init_breaker_manager default_risk_config None))
       [Reset_kill example_env ''KILL_RESET_please'', Restart] m' \<and> \<not> is_trading_allowed m'"
proof -
  let ?m = "trigger example_env ''KILL_SWITCH'' (init_breaker_manager default_risk_config None)"
  let ?evs = "[Reset_kill example_env ''KILL_RESET_please'', Restart]"
  obtain m' where run: "breaker_run ?m ?evs m'"
    using run_snoc[OF run_snoc[OF run_nil step_reset_kill] step_restart] by fastforce
  have bad: "\<not> valid_reset_token ''KILL_RESET_please''" by code_simp
  have "active (bm_breakers m' Kill_switch) \<and> \<not> is_trading_allowed m'"
    by (rule kill_switch_latched[OF run]) (simp_all add: bad example_env_def)
  with run show ?thesis by blast
qed

text \<open>
  \<^bold>\<open>C29\<close>. A restart restores every breaker: saving the state and building a new manager from the file
  gives each breaker its active flag, trigger time, loss count, peak and day back, so trading is
  allowed after the restart exactly when it was before.
\<close>

theorem breaker_state_survives_restart:
  assumes "env_write_ok e"
  shows "(\<forall>i. persisted (bm_breakers (init_breaker_manager cfg (bm_disk (save_state e m))) i)
            = persisted (bm_breakers m i))
    \<and> is_trading_allowed (init_breaker_manager cfg (bm_disk (save_state e m))) = is_trading_allowed m"
  using assms by (simp add: init_breaker_manager_def save_state_def persisted_load_saved trading_allowed_iff)

theorem breaker_state_survives_restart_witness:
  "persisted (bm_breakers (init_breaker_manager default_risk_config (bm_disk (save_state example_env
       (trigger example_env ''VOLATILITY_BREAKER'' (init_breaker_manager default_risk_config None))))) Volatility)
     = (True, Some 1700000000, 0, 0, 0)"
proof -
  have "breaker_of_name ''VOLATILITY_BREAKER'' = Some Volatility"
    using breaker_of_name_name[of Volatility] by simp
  then show ?thesis
    using breaker_state_survives_restart[of example_env default_risk_config
        "trigger example_env ''VOLATILITY_BREAKER'' (init_breaker_manager default_risk_config None)"]
    by (simp add: example_env_def trigger_def trip_def persisted_def init_breaker_manager_def
        load_state_def default_breaker_def)
qed

text \<open>
  After any number of monitoring cycles, the consecutive-loss counter is the number of times
  the daily PnL fell since it last rose, capped at 100, and the breaker is active exactly when that
  counter has reached the configured maximum.
\<close>

lemma consecutive_loss_breaker_spec:
  assumes "hist \<noteq> []"
  shows "let b = bm_breakers (monitor_cycles hist (init_breaker_manager cfg None)) Consecutive_loss;
             n = min 100 (loss_streak (map (\<lambda>c. ctx_daily_pnl (snd c)) hist))
         in consecutive_losses b = n \<and> active b = (bc_max_consecutive (rc_circuit_breakers cfg) \<le> n)"
  using consecutive_loss_state[OF refl refl, of hist cfg] assms by (simp add: Let_def)

definition pnl_context :: "rat \<Rightarrow> strategy_context" where
  "pnl_context p = default_context\<lparr>ctx_risk_status := Some \<lparr>rs_drawdown_percent = 0, rs_daily_pnl = p,
     rs_daily_loss_limit = 500, rs_circuit_breakers = [], rs_gates = []\<rparr>\<rparr>"

text \<open>
  After any number of monitoring cycles, the funding-rate breaker is active exactly when some
  symbol's rate has spiked in each of the latest \<open>max_consecutive_spikes\<close> cycles, so it clears on the
  first cycle in which no symbol is that far along.
\<close>

lemma funding_spike_breaker_spec:
  assumes "1 \<le> bc_max_consecutive_spikes (rc_circuit_breakers cfg)"
  shows "active (bm_breakers (monitor_cycles hist (init_breaker_manager cfg None)) Funding_rate_spike)
    \<longleftrightarrow> (\<exists>s. bc_max_consecutive_spikes (rc_circuit_breakers cfg)
           \<le> spike_streak s (map (\<lambda>c. current_spikes cfg (snd c)) hist))"
  using spike_state[OF assms refl refl, of hist] by blast

text \<open>
  The drawdown breaker has five points of hysteresis, whatever happened to the manager before:
  it trips on a drawdown above the limit, clears on one at or below the limit minus five, and no
  number of cycles with a drawdown between the two changes it.
\<close>

lemma drawdown_hysteresis:
  assumes "breaker_run (init_breaker_manager cfg disk) evs m"
    and "\<forall>c \<in> set hist. dround (dec_of_float (rc_max_drawdown_pct cfg) - 5) < ctx_drawdown (snd c)
          \<and> ctx_drawdown (snd c) \<le> dec_of_float (rc_max_drawdown_pct cfg)"
  shows "active (bm_breakers (update_monitoring_data e ctx (monitor_cycles hist m)) Drawdown) =
    (if active (bm_breakers m Drawdown)
     then dround (dec_of_float (rc_max_drawdown_pct cfg) - 5) < ctx_drawdown ctx
     else dec_of_float (rc_max_drawdown_pct cfg) < ctx_drawdown ctx)"
proof -
  have m: "bm_cfg m = cfg" "hysteresis (bm_breakers m Drawdown) = 5"
    using hysteresis_run[OF assms(1) refl] by auto
  from drawdown_band[OF m(2)] assms(2) m(1)
  have "active (bm_breakers (monitor_cycles hist m) Drawdown) = active (bm_breakers m Drawdown)"
    "hysteresis (bm_breakers (monitor_cycles hist m) Drawdown) = 5" by auto
  then show ?thesis using drawdown_monitor_active m(1) by simp
qed

definition drawdown_context :: "rat \<Rightarrow> strategy_context" where
  "drawdown_context d = default_context\<lparr>ctx_risk_status := Some \<lparr>rs_drawdown_percent = d, rs_daily_pnl = 0,
     rs_daily_loss_limit = 500, rs_circuit_breakers = [], rs_gates = []\<rparr>\<rparr>"

text \<open>
  A liquidation is noticed: if a symbol was within the cascade distance in one monitoring cycle
  and has no position at all in the next, the cascade breaker is active after that next cycle,
  provided it was not active already and so counts it as a new event.
\<close>

lemma liquidation_cascade_detected:
  assumes "s \<in> current_near (bm_cfg m) ctx" and "s \<notin> fp_symbol ` set (ctx_futures_positions ctx')"
    and "\<not> active (bm_breakers (update_monitoring_data e ctx m) Liquidation_cascade)"
  shows "let b = bm_breakers (update_monitoring_data e' ctx' (update_monitoring_data e ctx m)) Liquidation_cascade
         in active b \<and> triggered_at b = Some (env_now e')"
proof -
  let ?b = "bm_breakers (update_monitoring_data e ctx m) Liquidation_cascade"
  have "s \<in> near_liquidation_positions ?b" by (simp add: cascade_tracks assms(1))
  moreover have "s \<notin> current_near (bm_cfg m) ctx'" using current_near_held assms(2) by blast
  ultimately have "near_liquidation_positions ?b - current_near (bm_cfg m) ctx' - fp_symbol ` set (ctx_futures_positions ctx') \<noteq> {}"
    using assms(2) by blast
  then show ?thesis using assms(3)
    by (subst cascade_monitor) (simp add: check_liquidation_cascade_def Let_def trip_def)
qed

definition near_position :: futures_position where
  "near_position = default_futures_position\<lparr>fp_symbol := ''BTCUSDT'', fp_size := 1, fp_mark_price := 100,
     fp_liquidation_price := 99\<rparr>"

text \<open>
  An active cascade breaker is not re-examined: when the last position near liquidation is itself
  liquidated, the same cycle that sees it disappear clears the breaker.
\<close>

lemma cascade_cleared_by_liquidation:
  "active (bs Liquidation_cascade) \<Longrightarrow> current_near cfg ctx = {} \<Longrightarrow>
     \<not> active (check_liquidation_cascade cfg e ctx bs Liquidation_cascade)"
  by (simp add: check_liquidation_cascade_def Let_def clear_def)

text \<open>
  The default volatility threshold is 0.05, a fraction by its name in the schema, but the check
  compares it with a percentage: a contract that moved by 0.1 percent in a day trips the breaker.
\<close>

lemma default_volatility_trips:
  "high_volatility default_risk_config \<lparr>fc_symbol = ''BTCUSDT'', fc_mark_price = 1000, fc_index_price = 1000,
     fc_funding_rate = 0, fc_next_funding_time = 0, fc_volume_24h = 0, fc_open_interest = 0,
     fc_open_interest_value = 0, fc_last_price = 1000, fc_price_change_24h = 1, fc_high_24h = 1001,
     fc_low_24h = 1000, fc_last_update = 0\<rparr>"
  by code_simp

end
