(* ===== verification/Sizing.thy ===== *)
theory Sizing
  imports Gates
begin

text \<open>
  \<^verbatim>\<open>src/quad/risk/sizing.py\<close>: the fractional-Kelly position sizer. Decimal steps are rounded with
  \<open>dround\<close>, float steps with \<open>fround\<close>, in the source's order. \<^verbatim>\<open>Decimal("Infinity")\<close>, the cap
  when stop losses are off, is \<open>None\<close>.
\<close>

section \<open>State\<close>

record position_sizer =
  ps_kelly_multiplier :: rat
  ps_default_fraction :: rat
  ps_max_pos_pct :: rat
  ps_max_pos_usd :: rat
  ps_max_leverage :: int
  ps_min_pos_usd :: rat
  ps_trade_capital_usd :: rat
  ps_sl_enabled :: bool

text \<open>
  The trade capital is the risk section's \<^verbatim>\<open>trade_capital_usd\<close>, else the first one a strategy
  section sets, else 5. A strategy section that is no dict is \<open>None\<close>.
\<close>

fun strategy_trade_capital :: "(string, (string, pyval) dict option) dict \<Rightarrow> pyval" where
  "strategy_trade_capital [] = PInt 5"
| "strategy_trade_capital ((n, sc) # scs) =
     (case sc of None \<Rightarrow> strategy_trade_capital scs
      | Some d \<Rightarrow> if py_get d ''trade_capital_usd'' \<noteq> PNone then py_get d ''trade_capital_usd''
                  else strategy_trade_capital scs)"

definition init_sizer :: "risk_config \<Rightarrow> pyval \<Rightarrow> (string, (string, pyval) dict option) dict \<Rightarrow> position_sizer res" where
  "init_sizer cfg risk_trade_capital strategies =
     bindE (to_decimal (if risk_trade_capital \<noteq> PNone then risk_trade_capital
                        else strategy_trade_capital strategies)) (\<lambda>capital. Inr
      \<lparr>ps_kelly_multiplier = kc_fraction (rc_kelly cfg),
       ps_default_fraction = kc_default_fraction (rc_kelly cfg),
       ps_max_pos_pct = rc_max_position_size_pct cfg,
       ps_max_pos_usd = dec_of_float (rc_max_position_size_usd cfg),
       ps_max_leverage = rc_max_leverage cfg,
       ps_min_pos_usd = dec_of_float (rc_min_position_size_usd cfg),
       ps_trade_capital_usd = capital,
       ps_sl_enabled = rc_sl_enabled cfg\<rparr>)"

section \<open>Kelly\<close>

definition kelly_fraction :: "rat \<Rightarrow> rat \<Rightarrow> rat \<Rightarrow> rat" where
  "kelly_fraction win_rate avg_win avg_loss =
     (if win_rate \<le> 0 \<or> 1 \<le> win_rate then 0
      else if avg_win \<le> 0 \<or> avg_loss \<le> 0 then 0
      else (let payout_ratio = fround (dround (avg_win / avg_loss))
            in if payout_ratio \<le> 0 then 0
               else (let loss_prob = fround (1 - win_rate)
                     in max 0 (fround (win_rate - fround (loss_prob / payout_ratio))))))"

definition default_size :: "position_sizer \<Rightarrow> rat \<Rightarrow> rat" where
  "default_size ps pv =
     (if pv \<le> 0 then 0
      else (let sz = dround (dec_of_float (ps_default_fraction ps) * pv);
                sz = min sz (ps_max_pos_usd ps);
                sz = max sz (ps_min_pos_usd ps)
            in max sz 0))"

text \<open>Steps 1 to 6 of \<^verbatim>\<open>_adjusted_kelly\<close>.\<close>

definition capped_kelly :: "position_sizer \<Rightarrow> rat \<Rightarrow> rat \<Rightarrow> rat" where
  "capped_kelly ps kelly_f pv =
     (let fraction = dec_of_float (ps_kelly_multiplier ps);
          sz = dround (dround (dec_of_float kelly_f * fraction) * pv);
          leverage = of_int (ps_max_leverage ps);
          sz = (if 1 < leverage then dround (sz / leverage) else sz);
          sz = min sz (dround (dec_of_float (ps_max_pos_pct ps) * pv));
          sz = min sz (ps_max_pos_usd ps)
      in min sz pv)"

text \<open>The rounded size printed into the log line can raise \<^verbatim>\<open>InvalidOperation\<close>.\<close>

definition adjusted_kelly :: "position_sizer \<Rightarrow> rat \<Rightarrow> rat \<Rightarrow> rat res" where
  "adjusted_kelly ps kelly_f pv =
     (if pv \<le> 0 then Inr 0
      else (let sz = capped_kelly ps kelly_f pv
            in if sz < ps_min_pos_usd ps
               then bindE (dquantize half_even 2 sz) (\<lambda>_. Inr (max (default_size ps pv) 0))
               else Inr (max sz 0)))"

definition max_size_from_tp_sl :: "position_sizer \<Rightarrow> rat option" where
  "max_size_from_tp_sl ps =
     (if \<not> ps_sl_enabled ps then None
      else Some (dround (ps_trade_capital_usd ps * of_int (ps_max_leverage ps))))"

section \<open>compute_size\<close>

definition protected_qty :: "action_data \<Rightarrow> bool" where
  "protected_qty a = (truthy (py_get (act_metadata a) ''serial_close'')
     \<or> truthy (py_get (act_metadata a) ''reduce_only''))"

definition param_or :: "strategy_context \<Rightarrow> string \<Rightarrow> pyval \<Rightarrow> pyval" where
  "param_or ctx k z = (case map_of (ctx_strategy_params ctx) k of None \<Rightarrow> z | Some v \<Rightarrow> v)"

text \<open>The size before the request's own cap.\<close>

definition base_size :: "position_sizer \<Rightarrow> strategy_context \<Rightarrow> rat res" where
  "base_size ps ctx =
     bindE (to_float (param_or ctx ''win_rate'' (PFloat 0))) (\<lambda>win_rate.
     bindE (to_decimal (param_or ctx ''avg_win'' (PStr ''0''))) (\<lambda>avg_win.
     bindE (to_decimal (param_or ctx ''avg_loss'' (PStr ''0''))) (\<lambda>avg_loss.
       if win_rate \<le> 0 \<or> avg_win \<le> 0 \<or> avg_loss \<le> 0 then Inr (default_size ps (portfolio_value ctx))
       else adjusted_kelly ps (kelly_fraction win_rate avg_win avg_loss) (portfolio_value ctx))))"

definition capped_size :: "position_sizer \<Rightarrow> action_data \<Rightarrow> rat \<Rightarrow> rat" where
  "capped_size ps a sz =
     (if protected_qty a then act_quantity a
      else (let sz = (if 0 < act_quantity a \<and> act_quantity a < sz then act_quantity a else sz);
                sz = max sz 0
            in case max_size_from_tp_sl ps of
                 None \<Rightarrow> sz
               | Some cap \<Rightarrow> if cap < sz \<and> 0 < cap then cap else sz))"

definition sized_metadata :: "position_sizer \<Rightarrow> rat \<Rightarrow> (string, pyval) dict \<Rightarrow> (string, pyval) dict" where
  "sized_metadata ps sz md = AList.update ''sizing_adjusted_qty'' (PDec sz)
     (AList.update ''sizing_kelly_fraction'' (PFloat (ps_kelly_multiplier ps)) md)"

text \<open>\<^verbatim>\<open>str(sized_qty)\<close> in the metadata is kept as the Decimal it spells.\<close>

definition compute_size :: "position_sizer \<Rightarrow> action \<Rightarrow> strategy_context \<Rightarrow> action res" where
  "compute_size ps act ctx =
     (let a = data act in
      bindE (base_size ps ctx) (\<lambda>base.
        (let sz = capped_size ps a base in
         bindE (dquantize half_up 2 sz) (\<lambda>q.
           Inr (Action (post_init (a\<lparr>act_quantity := q, act_metadata := sized_metadata ps sz (act_metadata a)\<rparr>))
             (risk_result_of act))))))"

text \<open>\<^verbatim>\<open>get_sizing_stats\<close>.\<close>

definition get_sizing_stats :: "position_sizer \<Rightarrow> (string, pyval) dict" where
  "get_sizing_stats ps = [(''kelly_fraction'', PFloat (ps_kelly_multiplier ps)),
     (''default_fraction'', PFloat (ps_default_fraction ps)),
     (''max_position_size_pct'', PFloat (ps_max_pos_pct ps)),
     (''max_position_size_usd'', PDec (ps_max_pos_usd ps)),
     (''max_leverage'', PInt (ps_max_leverage ps)),
     (''min_position_size_usd'', PDec (ps_min_pos_usd ps))]"

section \<open>Lemmas\<close>

lemma dquantize_half_up_error:
  assumes "dquantize half_up 2 x = Inr y"
  shows "\<bar>y - x\<bar> \<le> 1 / 200"
  using half_up_error[of "x * 100"] dquantizeD[OF assms] unfolding abs_le_iff by (simp add: field_simps)

lemma dquantize_half_up_nonneg: "dquantize half_up 2 x = Inr y \<Longrightarrow> 0 \<le> x \<Longrightarrow> 0 \<le> y"
  using half_up_nonneg[of "x * 100"] by (auto dest!: dquantizeD)

lemma half_up_of_int [simp]: "half_up (of_int n) = n"
proof -
  have f: "\<lfloor>of_int n + 1 / 2 :: rat\<rfloor> = n" for n by (rule floor_unique) auto
  have "\<lfloor>1 / 2 - (of_int n :: rat)\<rfloor> = - n" using f[of "- n"] by (simp add: add.commute)
  with f[of n] show ?thesis by (simp add: half_up_def)
qed

lemma dquantize_half_up_exact: "\<bar>n\<bar> < 10 ^ 28 \<Longrightarrow> dquantize half_up 2 (of_int n / 100) = Inr (of_int n / 100)"
  by (simp add: dquantize_def Let_def)

lemma kelly_fraction_bounds: "0 < w \<Longrightarrow> fround w = w \<Longrightarrow> 0 \<le> kelly_fraction w aw al \<and> kelly_fraction w aw al \<le> w"
  by (auto simp: kelly_fraction_def Let_def not_le intro!: flt.rnd_le_rep flt.rnd_nonneg divide_nonneg_pos)

lemma default_size_bounds: "0 \<le> default_size ps pv \<and> default_size ps pv \<le> max 0 (max (ps_max_pos_usd ps) (ps_min_pos_usd ps))"
  by (auto simp: default_size_def Let_def)

lemma capped_kelly_bounds:
  "capped_kelly ps k pv \<le> dround (dec_of_float (ps_max_pos_pct ps) * pv)
   \<and> capped_kelly ps k pv \<le> ps_max_pos_usd ps \<and> capped_kelly ps k pv \<le> pv"
  by (auto simp: capped_kelly_def Let_def)

lemma base_size_bounds:
  assumes "base_size ps ctx = Inr s"
  shows "0 \<le> s \<and> s \<le> max 0 (max (ps_max_pos_usd ps) (ps_min_pos_usd ps))"
proof -
  have "0 \<le> s \<and> s \<le> max 0 (max (ps_max_pos_usd ps) (ps_min_pos_usd ps))"
    if "adjusted_kelly ps k pv = Inr s" for k pv
    using that default_size_bounds[of ps pv] capped_kelly_bounds[of ps k pv]
    by (auto simp: adjusted_kelly_def Let_def bindE_Inr_iff max_def split: if_splits)
  then show ?thesis using assms default_size_bounds[of ps "portfolio_value ctx"]
    by (auto simp: base_size_def bindE_Inr_iff split: if_splits)
qed

lemma compute_size_sized:
  assumes "compute_size ps act ctx = Inr act'"
  shows "\<exists>base q. base_size ps ctx = Inr base \<and> dquantize half_up 2 (capped_size ps (data act) base) = Inr q
    \<and> act' = Action (post_init ((data act)\<lparr>act_quantity := q,
        act_metadata := sized_metadata ps (capped_size ps (data act) base) (act_metadata (data act))\<rparr>)) (risk_result_of act)"
  using assms by (auto simp: compute_size_def Let_def bindE_Inr_iff)

lemma capped_size_bounds:
  assumes "\<not> protected_qty a" "0 \<le> base"
  shows "0 \<le> capped_size ps a base \<and> capped_size ps a base \<le> base
    \<and> (0 < act_quantity a \<longrightarrow> capped_size ps a base \<le> act_quantity a)
    \<and> (\<forall>cap. max_size_from_tp_sl ps = Some cap \<and> 0 < cap \<longrightarrow> capped_size ps a base \<le> cap)"
  using assms by (auto simp: capped_size_def Let_def split: option.split)

section \<open>Properties\<close>

text \<open>
  Sizing an entry never increases risk beyond its caps: the new quantity is non-negative, a
  number of whole cents, and at most half a cent above each of the requested quantity, the stop-loss
  capital cap, and the larger of the maximum and minimum position size; everything that identifies
  the order is kept.
\<close>

lemma compute_size_caps:
  assumes "compute_size ps act ctx = Inr act'" and "\<not> protected_qty (data act)"
  shows "0 \<le> act_quantity (data act') \<and> (\<exists>n. act_quantity (data act') = of_int n / 100)
    \<and> (0 < act_quantity (data act) \<longrightarrow> act_quantity (data act') \<le> act_quantity (data act) + 1 / 200)
    \<and> (\<forall>cap. max_size_from_tp_sl ps = Some cap \<and> 0 < cap \<longrightarrow> act_quantity (data act') \<le> cap + 1 / 200)
    \<and> act_quantity (data act') \<le> max 0 (max (ps_max_pos_usd ps) (ps_min_pos_usd ps)) + 1 / 200
    \<and> act_type (data act') = act_type (data act) \<and> act_symbol (data act') = act_symbol (data act)
    \<and> act_stop_loss_price (data act') = act_stop_loss_price (data act)
    \<and> act_take_profit_price (data act') = act_take_profit_price (data act)"
proof -
  obtain base q where s: "base_size ps ctx = Inr base"
    and q: "dquantize half_up 2 (capped_size ps (data act) base) = Inr q"
    and act': "act_quantity (data act') = q \<and> act_type (data act') = act_type (data act)
      \<and> act_symbol (data act') = act_symbol (data act)
      \<and> act_stop_loss_price (data act') = act_stop_loss_price (data act)
      \<and> act_take_profit_price (data act') = act_take_profit_price (data act)"
    using compute_size_sized[OF assms(1)] by auto
  have c: "\<exists>n. q = of_int n / 100" using dquantizeD[OF q] by auto
  have e: "q \<le> capped_size ps (data act) base + 1 / 200"
    using dquantize_half_up_error[OF q] unfolding abs_le_iff by linarith
  note b = base_size_bounds[OF s]
  with capped_size_bounds[OF assms(2)] have z: "0 \<le> capped_size ps (data act) base
    \<and> capped_size ps (data act) base \<le> base
    \<and> (0 < act_quantity (data act) \<longrightarrow> capped_size ps (data act) base \<le> act_quantity (data act))
    \<and> (\<forall>cap. max_size_from_tp_sl ps = Some cap \<and> 0 < cap \<longrightarrow> capped_size ps (data act) base \<le> cap)" by blast
  with dquantize_half_up_nonneg[OF q] have "0 \<le> q" by blast
  with c e z b act' show ?thesis by fastforce
qed

definition example_sizer :: position_sizer where
  "example_sizer = \<lparr>ps_kelly_multiplier = 1 / 4, ps_default_fraction = 1 / 8, ps_max_pos_pct = 1 / 2,
     ps_max_pos_usd = 10000, ps_max_leverage = 10, ps_min_pos_usd = 10, ps_trade_capital_usd = 5,
     ps_sl_enabled = True\<rparr>"

lemma example_sized: "map_sum id (\<lambda>a. act_quantity (data a)) (compute_size example_sizer (example_entry 100) example_context) = Inr 50"
  by code_simp

text \<open>
  A close keeps its quantity to the cent: an action marked \<^verbatim>\<open>serial_close\<close> or \<^verbatim>\<open>reduce_only\<close> whose
  quantity is a whole number of cents leaves the sizer with exactly that quantity, whatever the
  portfolio, the Kelly inputs and the caps say.
\<close>

lemma close_quantity_kept:
  assumes "compute_size ps act ctx = Inr act'" and "protected_qty (data act)"
    and "act_quantity (data act) = of_int n / 100"
  shows "act_quantity (data act') = act_quantity (data act)"
proof -
  obtain base q where q: "dquantize half_up 2 (capped_size ps (data act) base) = Inr q"
    and act': "act_quantity (data act') = q"
    using compute_size_sized[OF assms(1)] by auto
  have "capped_size ps (data act) base = of_int n / 100" using assms(2,3) by (simp add: capped_size_def)
  with q act' assms(3) show ?thesis by (auto simp: dquantize_def Let_def split: if_splits)
qed

definition example_close :: "rat \<Rightarrow> action" where
  "example_close q = Action (post_init (default_action\<lparr>act_type := Close_long, act_symbol := ''BTCUSDT'',
     act_quantity := q, act_metadata := [(''serial_close'', PBool True)]\<rparr>)) None"

lemma example_close_protected: "protected_qty (data (example_close q))" "act_quantity (data (example_close q)) = q"
  by (simp_all add: example_close_def protected_qty_def py_get_def)

text \<open>
  A finer quantity is not kept: the comment in \<^verbatim>\<open>compute_size\<close> says a close keeps the exact held
  quantity, but closing 0.004 contracts becomes a close of nothing, and 0.015 becomes 0.02.
\<close>

lemma close_quantity_lost:
  "map_sum id (\<lambda>a. act_quantity (data a)) (compute_size example_sizer (example_close (4 / 1000)) example_context) = Inr 0
   \<and> map_sum id (\<lambda>a. act_quantity (data a)) (compute_size example_sizer (example_close (15 / 1000)) example_context) = Inr (2 / 100)"
  by code_simp

text \<open>
  The Kelly fraction of a win rate lies between zero and that win rate, and the Kelly size
  that is not below the minimum obeys every cap: percentage of the portfolio, absolute maximum, and
  the portfolio itself.
\<close>

lemma adjusted_kelly_caps:
  assumes "adjusted_kelly ps (kelly_fraction w aw al) pv = Inr s" and "0 < w" "fround w = w"
  shows "0 \<le> kelly_fraction w aw al \<and> kelly_fraction w aw al \<le> w \<and> 0 \<le> s
    \<and> (0 < pv \<and> ps_min_pos_usd ps \<le> capped_kelly ps (kelly_fraction w aw al) pv \<longrightarrow>
        s \<le> max 0 (dround (dec_of_float (ps_max_pos_pct ps) * pv))
        \<and> s \<le> max 0 (ps_max_pos_usd ps) \<and> s \<le> pv)"
  using assms capped_kelly_bounds[of ps "kelly_fraction w aw al" pv] kelly_fraction_bounds[of w aw al]
    default_size_bounds[of ps pv]
  by (auto simp: adjusted_kelly_def Let_def bindE_Inr_iff max_def split: if_splits)

text \<open>
  The fallback for an undersized Kelly size is not capped by the portfolio: with a minimum position
  of 10 an account worth 3 is sized at 10.
\<close>

lemma default_size_exceeds_portfolio: "adjusted_kelly example_sizer (1 / 2) 3 = Inr 10"
  by code_simp

end
