(* ===== verification/Exposure.thy ===== *)
theory Exposure
  imports Gates
begin

text \<open>
  \<^verbatim>\<open>src/quad/risk/exposure.py\<close>: the futures position tracker. \<open>compute_exposure\<close> returns the tracker
  it leaves behind together with the report or the exception, because the fields it fills before a
  \<^verbatim>\<open>quantize\<close> raises stay filled. The numbers the report prints as text are kept as numbers.
\<close>

section \<open>State\<close>

record exposure_row =
  er_symbol :: string
  er_side :: futures_position_side
  er_distance_pct :: rat
  er_liquidation_price :: rat
  er_mark_price :: rat

record exposure_report =
  xr_notional_exposure :: "(string, rat) dict"
  xr_total_notional_usd :: rat
  xr_avg_leverage :: rat
  xr_margin_utilization_pct :: rat
  xr_liquidation_risk :: "exposure_row list"
  xr_num_positions :: nat
  xr_funding_rates :: "(string, rat) dict"

record tracker =
  tk_notional_exposure :: "(string, rat) dict"
  tk_avg_leverage :: rat
  tk_liquidation_risk :: "exposure_row list"
  tk_margin_utilization :: rat
  tk_funding_rate_snapshots :: "(string, rat list) dict"
  tk_last_report :: "exposure_report option"

definition init_tracker :: tracker where
  "init_tracker = \<lparr>tk_notional_exposure = [], tk_avg_leverage = 0, tk_liquidation_risk = [],
     tk_margin_utilization = 0, tk_funding_rate_snapshots = [], tk_last_report = None\<rparr>"

definition empty_report :: exposure_report where
  "empty_report = \<lparr>xr_notional_exposure = [], xr_total_notional_usd = 0, xr_avg_leverage = 0,
     xr_margin_utilization_pct = 0, xr_liquidation_risk = [], xr_num_positions = 0, xr_funding_rates = []\<rparr>"

section \<open>Operations\<close>

definition notional_per_symbol :: "futures_position list \<Rightarrow> (string, rat) dict" where
  "notional_per_symbol ps = dict_accumulate dadd 0 (map (\<lambda>p. (fp_symbol p, position_notional p)) ps) []"

definition total_margin :: "futures_position list \<Rightarrow> rat" where
  "total_margin ps = rsum dround 0 (map (\<lambda>p. dec_of_float (fp_margin p)) ps)"

text \<open>A rounded ratio to the wallet balance, zero without a positive one.\<close>

definition wallet_ratio :: "nat \<Rightarrow> rat \<Rightarrow> strategy_context \<Rightarrow> rat res" where
  "wallet_ratio places x ctx = (case ctx_account ctx of
     Some acc \<Rightarrow> if 0 < acc_total_wallet_balance acc
                 then dquantize half_even places (dround (x / acc_total_wallet_balance acc)) else Inr 0
   | None \<Rightarrow> Inr 0)"

definition exposure_rows :: "futures_position list \<Rightarrow> exposure_row list" where
  "exposure_rows ps = map (\<lambda>p. \<lparr>er_symbol = fp_symbol p, er_side = fp_side p,
        er_distance_pct = fround_places 4 (fround (liquidation_distance p * 100)),
        er_liquidation_price = fp_liquidation_price p, er_mark_price = fp_mark_price p\<rparr>)
     (filter (\<lambda>p. 0 < fp_liquidation_price p \<and> 0 < fp_mark_price p) ps)"

text \<open>One more funding-rate snapshot for a symbol, at most the latest 100 kept.\<close>

definition add_snapshot :: "(string \<times> rat) \<Rightarrow> (string, rat list) dict \<Rightarrow> (string, rat list) dict" where
  "add_snapshot sr d = AList.update (fst sr) (deque_append 100 (snd sr) (dict_get_or [] d (fst sr))) d"

definition symbol_funding :: "strategy_context \<Rightarrow> (string, rat) dict" where
  "symbol_funding ctx = map (\<lambda>kv. (fst kv, fr_funding_rate (snd kv))) (ctx_funding_rates ctx)"

definition compute_exposure :: "strategy_context \<Rightarrow> tracker \<Rightarrow> exposure_report res \<times> tracker" where
  "compute_exposure ctx tk =
     (let ps = ctx_futures_positions ctx;
          tk1 = tk\<lparr>tk_notional_exposure := notional_per_symbol ps\<rparr>
      in case wallet_ratio 2 (open_notional ctx) ctx of
        Inl e \<Rightarrow> (Inl e, tk1)
      | Inr lev \<Rightarrow>
       (let tk2 = tk1\<lparr>tk_avg_leverage := lev, tk_liquidation_risk := exposure_rows ps\<rparr>
        in case wallet_ratio 4 (total_margin ps) ctx of
          Inl e \<Rightarrow> (Inl e, tk2)
        | Inr util \<Rightarrow>
         (let tk3 = tk2\<lparr>tk_margin_utilization := util,
                tk_funding_rate_snapshots := fold add_snapshot (symbol_funding ctx) (tk_funding_rate_snapshots tk2)\<rparr>
          in case bindE (dquantize half_even 2 (open_notional ctx)) (\<lambda>tn.
                  bindE (dquantize half_even 2 (dround (util * 100))) (\<lambda>mu. Inr (tn, mu))) of
            Inl e \<Rightarrow> (Inl e, tk3)
          | Inr (tn, mu) \<Rightarrow>
             (let report = \<lparr>xr_notional_exposure = notional_per_symbol ps, xr_total_notional_usd = tn,
                    xr_avg_leverage = lev, xr_margin_utilization_pct = mu,
                    xr_liquidation_risk = exposure_rows ps, xr_num_positions = length ps,
                    xr_funding_rates = symbol_funding ctx\<rparr>
              in (Inr report, tk3\<lparr>tk_last_report := Some report\<rparr>)))))"

definition get_exposure_report :: "tracker \<Rightarrow> exposure_report" where
  "get_exposure_report tk = (case tk_last_report tk of Some r \<Rightarrow> r | None \<Rightarrow> empty_report)"

section \<open>Lemmas\<close>

lemma add_snapshot_get:
  "dict_get_or [] (add_snapshot kv d) s =
     (if s = fst kv then deque_append 100 (snd kv) (dict_get_or [] d s) else dict_get_or [] d s)"
  by (simp add: add_snapshot_def dict_get_or_update)

lemma fold_add_snapshot_other:
  "s \<notin> fst ` set kvs \<Longrightarrow> dict_get_or [] (fold add_snapshot kvs d) s = dict_get_or [] d s"
  by (induction kvs arbitrary: d) (auto simp: add_snapshot_get)

lemma fold_add_snapshot:
  assumes "distinct (map fst kvs)"
  shows "dict_get_or [] (fold add_snapshot kvs d) s =
    (case map_of kvs s of None \<Rightarrow> dict_get_or [] d s | Some r \<Rightarrow> deque_append 100 r (dict_get_or [] d s))"
  using assms
proof (induction kvs arbitrary: d)
  case (Cons kv kvs)
  then show ?case using fold_add_snapshot_other[of s kvs "add_snapshot kv d"]
    by (cases kv) (auto simp: add_snapshot_get split: option.splits)
qed simp

lemma compute_exposure_snapshots:
  assumes "compute_exposure ctx tk = (Inr r, tk')"
  shows "tk_funding_rate_snapshots tk' = fold add_snapshot (symbol_funding ctx) (tk_funding_rate_snapshots tk)"
  using assms by (auto simp: compute_exposure_def Let_def split: sum.splits)

lemma map_of_symbol_funding: "map_of (symbol_funding ctx) s = map_option fr_funding_rate (map_of (ctx_funding_rates ctx) s)"
  using map_of_map[of fr_funding_rate "ctx_funding_rates ctx"] by (simp add: symbol_funding_def case_prod_beta')

text \<open>A run of the tracker over cycles none of which raised.\<close>

fun tracker_run :: "strategy_context list \<Rightarrow> tracker \<Rightarrow> tracker res" where
  "tracker_run [] tk = Inr tk"
| "tracker_run (ctx # ctxs) tk =
     (case compute_exposure ctx tk of (Inl e, _) \<Rightarrow> Inl e | (Inr r, tk') \<Rightarrow> tracker_run ctxs tk')"

text \<open>The rates a sequence of cycles saw for a symbol.\<close>

definition rates_seen :: "string \<Rightarrow> strategy_context list \<Rightarrow> rat list" where
  "rates_seen s ctxs = List.map_filter (\<lambda>ctx. map_option fr_funding_rate (map_of (ctx_funding_rates ctx) s)) ctxs"

lemma tracker_run_snapshots:
  assumes "tracker_run ctxs tk = Inr tk'" "\<forall>ctx \<in> set ctxs. distinct (map fst (ctx_funding_rates ctx))"
  shows "dict_get_or [] (tk_funding_rate_snapshots tk') s =
    foldl (\<lambda>q r. deque_append 100 r q) (dict_get_or [] (tk_funding_rate_snapshots tk) s) (rates_seen s ctxs)"
  using assms
proof (induction ctxs arbitrary: tk)
  case (Cons ctx ctxs)
  then obtain r tk1 where c: "compute_exposure ctx tk = (Inr r, tk1)" and t: "tracker_run ctxs tk1 = Inr tk'"
    by (auto split: prod.splits sum.splits)
  have "distinct (map fst (symbol_funding ctx))" using Cons.prems by (simp add: symbol_funding_def comp_def)
  from fold_add_snapshot[OF this] compute_exposure_snapshots[OF c] Cons.IH[OF t] Cons.prems show ?case
    by (simp add: map_of_symbol_funding rates_seen_def map_filter_simps split: option.split)
qed (simp add: rates_seen_def map_filter_simps)

lemma notional_per_symbol_value:
  "dict_get_or 0 (notional_per_symbol ps) s = rsum dround 0 (map position_notional (filter (\<lambda>p. fp_symbol p = s) ps))"
proof -
  have "map snd (filter (\<lambda>kv. fst kv = s) (map (\<lambda>p. (fp_symbol p, position_notional p)) ps))
      = map position_notional (filter (\<lambda>p. fp_symbol p = s) ps)"
    by (induction ps) auto
  then show ?thesis by (simp add: notional_per_symbol_def get_or_dict_accumulate rsum_foldl)
qed

section \<open>Properties\<close>

text \<open>
  The exposure report agrees with what the gates decide on: each symbol's exposure is the
  rounded running sum of its positions' notionals, the total is the gates' open notional to the
  cent, the reported leverage is that total over the wallet, and exactly the positions the
  liquidation gate examines are listed with their distance.
\<close>

lemma exposure_report_correct:
  assumes "compute_exposure ctx tk = (Inr r, tk')"
  shows "get_exposure_report tk' = r
    \<and> (\<forall>s. dict_get_or 0 (xr_notional_exposure r) s =
          rsum dround 0 (map position_notional (filter (\<lambda>p. fp_symbol p = s) (ctx_futures_positions ctx))))
    \<and> dquantize half_even 2 (open_notional ctx) = Inr (xr_total_notional_usd r)
    \<and> (\<forall>acc. ctx_account ctx = Some acc \<and> 0 < acc_total_wallet_balance acc \<longrightarrow>
          dquantize half_even 2 (dround (open_notional ctx / acc_total_wallet_balance acc)) = Inr (xr_avg_leverage r))
    \<and> map er_symbol (xr_liquidation_risk r) =
          map fp_symbol (filter has_liquidation_price (ctx_futures_positions ctx))"
proof -
  have f: "(\<lambda>p. 0 < fp_liquidation_price p \<and> 0 < fp_mark_price p) = has_liquidation_price"
    by (auto simp: has_liquidation_price_def fun_eq_iff)
  have "get_exposure_report tk' = r \<and> xr_notional_exposure r = notional_per_symbol (ctx_futures_positions ctx)
      \<and> dquantize half_even 2 (open_notional ctx) = Inr (xr_total_notional_usd r)
      \<and> wallet_ratio 2 (open_notional ctx) ctx = Inr (xr_avg_leverage r)
      \<and> xr_liquidation_risk r = exposure_rows (ctx_futures_positions ctx)"
    using assms by (auto simp: compute_exposure_def Let_def get_exposure_report_def bindE_Inr_iff split: sum.splits)
  then show ?thesis
    by (auto simp: notional_per_symbol_value wallet_ratio_def exposure_rows_def f comp_def)
qed

definition example_position :: futures_position where
  "example_position = default_futures_position\<lparr>fp_symbol := ''BTCUSDT'', fp_size := 2, fp_entry_price := 90,
     fp_mark_price := 100, fp_liquidation_price := 50, fp_leverage := 2, fp_margin := 100\<rparr>"

definition example_held :: strategy_context where
  "example_held = example_context\<lparr>ctx_futures_positions := [example_position]\<rparr>"

lemma example_exposure: "map_sum id xr_total_notional_usd (fst (compute_exposure example_held init_tracker)) = Inr 200"
  by code_simp

text \<open>
  Over any sequence of cycles, the snapshots kept for a symbol are the latest 100 funding rates
  seen for it, in order, whatever happens to other symbols.
\<close>

lemma funding_snapshots_latest:
  assumes "tracker_run ctxs init_tracker = Inr tk"
    and "\<forall>ctx \<in> set ctxs. distinct (map fst (ctx_funding_rates ctx))"
  shows "dict_get_or [] (tk_funding_rate_snapshots tk) s = take_last 100 (rates_seen s ctxs)"
  using tracker_run_snapshots[OF assms, of s] deque.items_pushes[of 100 "[]" "rates_seen s ctxs"]
  by (simp add: init_tracker_def)

end
