(* ===== verification/RiskManager.thy ===== *)
theory RiskManager
  imports Breakers Sizing Exposure
begin

text \<open>
  \<^verbatim>\<open>src/quad/risk/manager.py\<close>: the single entry point of the risk system, composing the breakers, the
  gates, the sizer and the exposure tracker. The trade repository is not part of the risk system:
  \<open>db\<close> is the query for the trades of a time range (their \<^verbatim>\<open>pnl\<close> fields), \<open>None\<close> without a connected
  database. Log text and reason strings are left out.
\<close>

section \<open>State\<close>

type_synonym pnl_query = "(int \<Rightarrow> int \<Rightarrow> pyval list res) option"

record risk_manager =
  rm_cfg :: risk_config
  rm_top_daily_loss :: "pyval option"
  rm_gates :: gate_pipeline
  rm_breakers :: breaker_manager
  rm_sizer :: position_sizer
  rm_tracker :: tracker

text \<open>
  \<open>rm_top_daily_loss\<close> is the entry \<^verbatim>\<open>max_daily_loss_usd\<close> at the top level of the configuration,
  which \<^verbatim>\<open>get_status\<close> prefers to the risk section's.
\<close>

definition init_risk_manager :: "risk_config \<Rightarrow> pyval option \<Rightarrow> pyval
     \<Rightarrow> (string, (string, pyval) dict option) dict \<Rightarrow> payload option \<Rightarrow> risk_manager res" where
  "init_risk_manager cfg top_loss capital strategies disk =
     bindE (init_sizer cfg capital strategies) (\<lambda>ps. Inr
       \<lparr>rm_cfg = cfg, rm_top_daily_loss = top_loss, rm_gates = init_pipeline cfg,
        rm_breakers = init_breaker_manager cfg disk, rm_sizer = ps, rm_tracker = init_tracker\<rparr>)"

section \<open>evaluate\<close>

definition active_breakers :: "breaker_manager \<Rightarrow> string list" where
  "active_breakers m = map fst (filter (\<lambda>kv. cbs_active (snd kv)) (breakers_status m))"

text \<open>
  A sizing failure is caught and becomes a rejection; an exception of a gate is not caught.
\<close>

definition risk_evaluate :: "risk_manager \<Rightarrow> action \<Rightarrow> strategy_context \<Rightarrow> risk_result res" where
  "risk_evaluate rm a ctx =
     (if \<not> is_trading_allowed (rm_breakers rm)
      then block ''CIRCUIT_BREAKER'' [(''active_breakers'', DStrs (active_breakers (rm_breakers rm)))]
      else bindE (evaluate_gates (rm_gates rm) a ctx) (\<lambda>g.
        if \<not> passed g then Inr g
        else case compute_size (rm_sizer rm) a ctx of
          Inl e \<Rightarrow> block ''POSITION_SIZING'' []
        | Inr sized \<Rightarrow> Inr (RiskResult True ''ALL''
            [(''action'', DAction sized), (''original_action'', DAction a),
             (''sized_quantity'', DDec (act_quantity (data sized)))])))"

section \<open>Monitoring and status\<close>

definition update_monitoring :: "env \<Rightarrow> strategy_context \<Rightarrow> risk_manager \<Rightarrow> risk_manager" where
  "update_monitoring e ctx rm =
     (let rm1 = rm\<lparr>rm_breakers := update_monitoring_data e ctx (rm_breakers rm)\<rparr>
      in if ctx_futures_positions ctx \<noteq> [] \<or> ctx_funding_rates ctx \<noteq> []
         then rm1\<lparr>rm_tracker := snd (compute_exposure ctx (rm_tracker rm1))\<rparr>
         else rm1)"

text \<open>A falsy \<^verbatim>\<open>pnl\<close> counts as zero, one that is no number is skipped.\<close>

fun sum_pnl :: "rat \<Rightarrow> pyval list \<Rightarrow> rat" where
  "sum_pnl acc [] = acc"
| "sum_pnl acc (v # vs) =
     (case to_decimal (if truthy v then v else PStr ''0'') of
        Inl e \<Rightarrow> sum_pnl acc vs
      | Inr d \<Rightarrow> sum_pnl (dround (acc + d)) vs)"

definition compute_daily_pnl :: "pnl_query \<Rightarrow> int \<Rightarrow> rat" where
  "compute_daily_pnl db now_ms = (case db of
     None \<Rightarrow> 0
   | Some get_by_date_range \<Rightarrow>
      (let day_start_ms = now_ms - now_ms mod 86400000
       in case get_by_date_range day_start_ms now_ms of
            Inl e \<Rightarrow> 0
          | Inr vs \<Rightarrow> sum_pnl 0 vs))"

definition get_risk_status :: "pnl_query \<Rightarrow> int \<Rightarrow> risk_manager \<Rightarrow> risk_status res" where
  "get_risk_status db now_ms rm =
     bindE (to_decimal (case rm_top_daily_loss rm of Some v \<Rightarrow> v | None \<Rightarrow> PFloat (rc_max_daily_loss_usd (rm_cfg rm))))
       (\<lambda>limit. Inr \<lparr>rs_drawdown_percent = 0, rs_daily_pnl = compute_daily_pnl db now_ms,
          rs_daily_loss_limit = limit, rs_circuit_breakers = breakers_status (rm_breakers rm),
          rs_gates = get_gate_status (rm_gates rm)\<rparr>)"

definition risk_trading_allowed :: "risk_manager \<Rightarrow> bool" where
  "risk_trading_allowed rm = is_trading_allowed (rm_breakers rm)"

definition trigger_kill_switch :: "env \<Rightarrow> risk_manager \<Rightarrow> risk_manager" where
  "trigger_kill_switch e rm = rm\<lparr>rm_breakers := trigger e ''KILL_SWITCH'' (rm_breakers rm)\<rparr>"

definition risk_reset_kill_switch :: "env \<Rightarrow> string \<Rightarrow> risk_manager \<Rightarrow> bool \<times> risk_manager" where
  "risk_reset_kill_switch e token rm =
     (let r = reset_kill_switch e token (rm_breakers rm) in (fst r, rm\<lparr>rm_breakers := snd r\<rparr>))"

section \<open>Lemmas\<close>

lemma risk_evaluate_passed:
  assumes "risk_evaluate rm a ctx = Inr r" "passed r"
  shows "is_trading_allowed (rm_breakers rm) \<and> (\<exists>g. evaluate_gates (rm_gates rm) a ctx = Inr g \<and> passed g)
    \<and> (\<exists>sized. compute_size (rm_sizer rm) a ctx = Inr sized \<and> details r =
         [(''action'', DAction sized), (''original_action'', DAction a),
          (''sized_quantity'', DDec (act_quantity (data sized)))])"
  using assms by (auto simp: risk_evaluate_def bindE_Inr_iff block_def split: if_splits sum.splits)

text \<open>The quantity of an action that asks for whole cents never grows in the sizer.\<close>

lemma sized_le_requested:
  assumes "compute_size ps act ctx = Inr act'" "\<not> protected_qty (data act)"
    "act_quantity (data act) = of_int n / 100" "0 < n"
  shows "act_quantity (data act') \<le> act_quantity (data act)"
proof -
  obtain base q where s: "base_size ps ctx = Inr base"
    and q: "dquantize half_up 2 (capped_size ps (data act) base) = Inr q"
    and act': "act_quantity (data act') = q"
    using compute_size_sized[OF assms(1)] by auto
  have c: "0 \<le> capped_size ps (data act) base \<and> capped_size ps (data act) base \<le> of_int n / 100"
    using capped_size_bounds[OF assms(2), of base ps] base_size_bounds[OF s] assms(3,4) by auto
  then have "capped_size ps (data act) base * 100 \<le> of_int n" by simp
  then have "\<lfloor>capped_size ps (data act) base * 100 + 1 / 2\<rfloor> \<le> \<lfloor>of_int n + 1 / 2 :: rat\<rfloor>"
    by (intro floor_mono) simp
  also have "\<lfloor>of_int n + 1 / 2 :: rat\<rfloor> = n" by (rule floor_unique) auto
  finally have "half_up (capped_size ps (data act) base * 100) \<le> n" using c by (simp add: half_up_def)
  with dquantizeD[OF q] have "q \<le> of_int n / 100" by (simp add: divide_right_mono)
  with act' assms(3) show ?thesis by simp
qed

lemma gate_passed:
  assumes "evaluate_gates gp a ctx = Inr r" "passed r" "(n, check) \<in> set gates" "gate_enabled gp True n"
  shows "\<exists>r. check (gp_cfg gp) a ctx = Inr r \<and> passed r"
proof -
  have "\<exists>r. evaluate_gates gp a ctx = Inr r \<and> passed r" using assms by blast
  then show ?thesis using assms(3,4) unfolding evaluate_gates_passed_iff by blast
qed

section \<open>Properties\<close>


definition example_manager :: risk_manager where
  "example_manager = \<lparr>rm_cfg = default_risk_config, rm_top_daily_loss = None,
     rm_gates = init_pipeline default_risk_config, rm_breakers = init_breaker_manager default_risk_config None,
     rm_sizer = example_sizer, rm_tracker = init_tracker\<rparr>"

lemma example_trading_allowed: "is_trading_allowed (init_breaker_manager default_risk_config None)"
  by (simp add: is_trading_allowed_def ALL_BREAKERS_def init_breaker_manager_def load_state_def default_breaker_def)

lemma example_approved:
  "\<exists>r. risk_evaluate example_manager (example_entry 100) example_context = Inr r \<and> passed r"
proof -
  obtain s where "compute_size example_sizer (example_entry 100) example_context = Inr s"
    using example_sized by (cases "compute_size example_sizer (example_entry 100) example_context") auto
  then show ?thesis
    by (simp add: risk_evaluate_def example_manager_def example_trading_allowed example_passes)
qed

lemma example_entry_request: "act_quantity (data (example_entry q)) = q" "\<not> protected_qty (data (example_entry q))"
  by (simp_all add: example_entry_def default_action_def protected_qty_def py_get_def)


text \<open>
  The daily PnL fed to the daily-loss gate and breaker is the rounded running sum of the PnLs
  of the trades since the last UTC midnight, entries without a number left out; a missing or failing
  database counts as no loss at all.
\<close>

lemma daily_pnl_of_today:
  "compute_daily_pnl (Some q) now =
     (case q (86400000 * (now div 86400000)) now of
        Inl e \<Rightarrow> 0
      | Inr vs \<Rightarrow> rsum dround 0 (concat (map (\<lambda>v. case to_decimal v of
            Inr d \<Rightarrow> if truthy v then [d] else [0] | Inl e \<Rightarrow> if truthy v then [] else [0]) vs)))
   \<and> compute_daily_pnl None now = 0"
proof -
  have z: "to_decimal (PStr ''0'') = Inr 0" by code_simp
  have "sum_pnl t vs = rsum dround t (concat (map (\<lambda>v. case to_decimal v of
            Inr d \<Rightarrow> if truthy v then [d] else [0] | Inl e \<Rightarrow> if truthy v then [] else [0]) vs))" for t vs
    by (induction vs arbitrary: t) (auto simp: z simp del: to_decimal.simps split: sum.splits)
  moreover have "now - now mod 86400000 = 86400000 * (now div 86400000)"
    by (simp add: minus_mod_eq_mult_div)
  ultimately show ?thesis by (simp add: compute_daily_pnl_def Let_def split: sum.splits)
qed

text \<open>
  The status a cycle builds always reports a drawdown of zero, so with it in the context the
  drawdown gate passes every action and the drawdown breaker never trips on its own.
\<close>

lemma status_drawdown_zero:
  "get_risk_status db now rm = Inr s \<Longrightarrow> rs_drawdown_percent s = 0"
  by (auto simp: get_risk_status_def bindE_Inr_iff)

lemma drawdown_gate_vacuous:
  assumes "get_risk_status db now rm = Inr s" "ctx_risk_status ctx = Some s" "0 \<le> rc_max_drawdown_pct cfg"
  shows "check_drawdown cfg a ctx = pass DRAWDOWN_GATE"
  using assms status_drawdown_zero[OF assms(1)] dec_of_float_nonneg[of "rc_max_drawdown_pct cfg"]
  by (simp add: check_drawdown_def)

lemma drawdown_breaker_never_trips:
  assumes "get_risk_status db now rm = Inr s" "ctx_risk_status ctx = Some s" "0 \<le> rc_max_drawdown_pct (bm_cfg m)"
    "\<not> active (bm_breakers m Drawdown)" "hysteresis (bm_breakers m Drawdown) = 5"
  shows "\<not> active (bm_breakers (update_monitoring_data e ctx m) Drawdown)"
  using assms status_drawdown_zero[OF assms(1)] dec_of_float_nonneg[of "rc_max_drawdown_pct (bm_cfg m)"]
  by (simp add: drawdown_monitor_active ctx_drawdown_def)

end
