(* ===== verification/Buffers.thy ===== *)
theory Buffers
  imports Domain
begin

text \<open>
  \<^verbatim>\<open>src/quad/market_data/buffers.py\<close>: the per-symbol ring buffers of prices and of funding rates. Every
  method holds the buffer's lock for its whole body, so it is one step on the state. The two classes
  have the same body on different entries; the operations are polymorphic, and the interface
  \<open>ring_store\<close> states what a client may rely on.
\<close>

section \<open>State\<close>

text \<open>\<open>rb_config\<close> is the section \<^verbatim>\<open>market_data.buffer_sizes\<close> of the configuration.\<close>

record 'a ring_buffer =
  rb_config :: "(string, pyval) dict"
  rb_maxlen :: int
  rb_buffers :: "(string, 'a list) dict"

text \<open>\<^verbatim>\<open>int(config.get(k) or z)\<close>.\<close>

definition config_int_or :: "(string, pyval) dict \<Rightarrow> string \<Rightarrow> int \<Rightarrow> int res" where
  "config_int_or d k z = (if truthy (py_get d k) then to_int (py_get d k) else Inr z)"

definition init_price_buffer :: "int option \<Rightarrow> (string, pyval) dict \<Rightarrow> rat ring_buffer res" where
  "init_price_buffer max_ticks cfg =
     bindE (case max_ticks of None \<Rightarrow> config_int_or cfg ''max_ticks_per_symbol'' 1000 | Some n \<Rightarrow> Inr n)
       (\<lambda>n. if n < 1 then Inl ValueError else Inr \<lparr>rb_config = cfg, rb_maxlen = n, rb_buffers = []\<rparr>)"

text \<open>The funding-rate buffer does not check its size; a negative one fails at the first append.\<close>

definition init_funding_buffer :: "int option \<Rightarrow> (string, pyval) dict \<Rightarrow> funding_rate ring_buffer res" where
  "init_funding_buffer maxlen cfg =
     bindE (case maxlen of None \<Rightarrow> config_int_or cfg ''funding_rate_maxlen'' 100 | Some n \<Rightarrow> Inr n)
       (\<lambda>n. Inr \<lparr>rb_config = cfg, rb_maxlen = n, rb_buffers = []\<rparr>)"

section \<open>Operations\<close>

definition rb_append :: "string \<Rightarrow> 'a \<Rightarrow> 'a ring_buffer \<Rightarrow> 'a ring_buffer res" where
  "rb_append symb x b =
     (if map_of (rb_buffers b) symb = None \<and> rb_maxlen b < 0 then Inl ValueError
      else Inr (b\<lparr>rb_buffers := AList.update symb
             (deque_append (nat (rb_maxlen b)) x (dict_get_or [] (rb_buffers b) symb)) (rb_buffers b)\<rparr>))"

definition rb_latest :: "'a ring_buffer \<Rightarrow> string \<Rightarrow> 'a option" where
  "rb_latest b symb = (case map_of (rb_buffers b) symb of
     None \<Rightarrow> None | Some q \<Rightarrow> if q = [] then None else Some (last q))"

definition rb_recent :: "string \<Rightarrow> 'a ring_buffer \<Rightarrow> string \<Rightarrow> int option \<Rightarrow> 'a list res" where
  "rb_recent key b symb count =
     bindE (case count of None \<Rightarrow> config_int_or (rb_config b) key 10 | Some c \<Rightarrow> Inr c)
       (\<lambda>c. Inr (case map_of (rb_buffers b) symb of None \<Rightarrow> [] | Some q \<Rightarrow> rev (slice_from (- c) q)))"

definition get_recent :: "rat ring_buffer \<Rightarrow> string \<Rightarrow> int option \<Rightarrow> rat list res" where
  "get_recent = rb_recent ''get_recent_count''"

definition get_recent_rates :: "funding_rate ring_buffer \<Rightarrow> string \<Rightarrow> int option \<Rightarrow> funding_rate list res" where
  "get_recent_rates = rb_recent ''funding_rate_get_recent_count''"

definition rb_symbols :: "'a ring_buffer \<Rightarrow> string set" where
  "rb_symbols b = set (map fst (rb_buffers b))"

definition rb_clear :: "string option \<Rightarrow> 'a ring_buffer \<Rightarrow> 'a ring_buffer" where
  "rb_clear symb b = b\<lparr>rb_buffers := (case symb of Some s \<Rightarrow> AList.delete s (rb_buffers b) | None \<Rightarrow> [])\<rparr>"

text \<open>Despite its name, \<^verbatim>\<open>vwap\<close> is the plain average of the latest \<open>window\<close> prices.\<close>

definition vwap :: "rat ring_buffer \<Rightarrow> string \<Rightarrow> int option \<Rightarrow> rat option res" where
  "vwap b symb window =
     bindE (case window of None \<Rightarrow> config_int_or (rb_config b) ''vwap_window'' 20 | Some w \<Rightarrow> Inr w)
       (\<lambda>w. case map_of (rb_buffers b) symb of
          None \<Rightarrow> Inr None
        | Some q \<Rightarrow> if int (length q) < w then Inr None
            else bindE (decimal_div (rsum dround 0 (slice_from (- w) q)) (of_int w)) (\<lambda>m. Inr (Some m)))"

definition rb_has_data :: "'a ring_buffer \<Rightarrow> string \<Rightarrow> bool" where
  "rb_has_data b symb = (case map_of (rb_buffers b) symb of None \<Rightarrow> False | Some q \<Rightarrow> q \<noteq> [])"

definition rb_total :: "'a ring_buffer \<Rightarrow> nat" where
  "rb_total b = sum_list (map (\<lambda>kv. length (snd kv)) (rb_buffers b))"

definition rb_tracked :: "'a ring_buffer \<Rightarrow> nat" where
  "rb_tracked b = length (rb_buffers b)"

definition snapshot_counts :: "rat ring_buffer \<Rightarrow> nat \<times> nat" where
  "snapshot_counts b = (length (rb_buffers b), sum_list (map (\<lambda>kv. length (snd kv)) (rb_buffers b)))"

section \<open>What a client relies on\<close>

text \<open>A run of the two operations that change a buffer, and the abstract state: each symbol's history since it was last cleared.\<close>

datatype 'a buffer_op = Tick string 'a | Clear "string option"

fun history :: "string \<Rightarrow> 'a list \<Rightarrow> 'a buffer_op list \<Rightarrow> 'a list" where
  "history s h [] = h"
| "history s h (Tick s' x # ops) = history s (if s' = s then h @ [x] else h) ops"
| "history s h (Clear c # ops) = history s (if c = None \<or> c = Some s then [] else h) ops"

fun ring_run :: "(string \<Rightarrow> 'a \<Rightarrow> 'b \<Rightarrow> 'b res) \<Rightarrow> (string option \<Rightarrow> 'b \<Rightarrow> 'b) \<Rightarrow> 'a buffer_op list \<Rightarrow> 'b \<Rightarrow> 'b res" where
  "ring_run tick clr [] b = Inr b"
| "ring_run tick clr (Tick s x # ops) b = bindE (tick s x b) (ring_run tick clr ops)"
| "ring_run tick clr (Clear c # ops) b = ring_run tick clr ops (clr c b)"

locale ring_store =
  fixes tick :: "string \<Rightarrow> 'a \<Rightarrow> 'b \<Rightarrow> 'b res"
    and clr :: "string option \<Rightarrow> 'b \<Rightarrow> 'b"
    and items :: "'b \<Rightarrow> string \<Rightarrow> 'a list"
    and ok :: "'b \<Rightarrow> bool"
    and cap :: nat
  assumes tick_ok: "ok b \<Longrightarrow> \<exists>b'. tick s x b = Inr b' \<and> ok b'"
    and items_tick: "ok b \<Longrightarrow> tick s x b = Inr b' \<Longrightarrow> items b' s' = (if s' = s then take_last cap (items b s @ [x]) else items b s')"
    and clr_ok: "ok b \<Longrightarrow> ok (clr c b)"
    and items_clr: "ok b \<Longrightarrow> items (clr c b) s' = (if c = None \<or> c = Some s' then [] else items b s')"
begin

lemma run_history:
  assumes "ok b" "\<And>s. items b s = take_last cap (h s)"
  shows "\<exists>b'. ring_run tick clr ops b = Inr b' \<and> ok b' \<and> (\<forall>s. items b' s = take_last cap (history s (h s) ops))"
  using assms
proof (induction ops arbitrary: b h)
  case (Cons opr ops)
  show ?case
  proof (cases opr)
    case (Tick s x)
    obtain b1 where b1: "tick s x b = Inr b1" "ok b1" using tick_ok[OF Cons.prems(1)] by blast
    have "items b1 s' = take_last cap (if s = s' then h s' @ [x] else h s')" for s'
      using items_tick[OF Cons.prems(1) b1(1)] Cons.prems(2) by (simp add: take_last_snoc_take_last)
    from Cons.IH[OF b1(2) this] show ?thesis by (simp add: Tick b1)
  next
    case (Clear c)
    have "items (clr c b) s' = take_last cap (if c = None \<or> c = Some s' then [] else h s')" for s'
      using items_clr[OF Cons.prems(1)] Cons.prems(2) by simp
    from Cons.IH[OF clr_ok[OF Cons.prems(1)] this] show ?thesis by (simp add: Clear)
  qed
qed simp

end

definition ring_items :: "'a ring_buffer \<Rightarrow> string \<Rightarrow> 'a list" where
  "ring_items b s = dict_get_or [] (rb_buffers b) s"

text \<open>Every stored queue is non-empty and within the size, and no symbol is stored twice.\<close>

definition ring_ok :: "int \<Rightarrow> (string, pyval) dict \<Rightarrow> 'a ring_buffer \<Rightarrow> bool" where
  "ring_ok n cfg b = (1 \<le> n \<and> rb_maxlen b = n \<and> rb_config b = cfg \<and> distinct (map fst (rb_buffers b))
     \<and> (\<forall>q \<in> set (map snd (rb_buffers b)). q \<noteq> [] \<and> length q \<le> nat n))"

lemma set_values_update: "set (map snd (AList.update k v d)) \<subseteq> insert v (set (map snd d))"
  by (induction d) auto

lemma ring_ok_put:
  assumes "ring_ok n cfg b" "q \<noteq> []" "length q \<le> nat n"
  shows "ring_ok n cfg (b\<lparr>rb_buffers := AList.update s q (rb_buffers b)\<rparr>)"
proof -
  have "\<forall>q \<in> insert q (set (map snd (rb_buffers b))). q \<noteq> [] \<and> length q \<le> nat n"
    using assms by (simp add: ring_ok_def)
  then have "\<forall>q' \<in> set (map snd (AList.update s q (rb_buffers b))). q' \<noteq> [] \<and> length q' \<le> nat n"
    using set_values_update[of s q "rb_buffers b"] by blast
  moreover have "distinct (map fst (AList.update s q (rb_buffers b)))"
    using assms by (intro distinct_keys_update) (simp add: ring_ok_def)
  ultimately show ?thesis using assms(1) by (simp add: ring_ok_def)
qed

interpretation ring: ring_store rb_append rb_clear ring_items "ring_ok n cfg" "nat n" for n cfg
proof unfold_locales
  fix b b' :: "'a ring_buffer" and s s' c x
  assume ok: "ring_ok n cfg b"
  let ?q = "deque_append (nat n) x (dict_get_or [] (rb_buffers b) s)"
  have q: "?q \<noteq> [] \<and> length ?q \<le> nat n" using ok by (auto simp: ring_ok_def deque_append_def take_last_append)
  have app: "rb_append s x b = Inr (b\<lparr>rb_buffers := AList.update s ?q (rb_buffers b)\<rparr>)"
    using ok by (simp add: rb_append_def ring_ok_def)
  have "ring_ok n cfg (b\<lparr>rb_buffers := AList.update s ?q (rb_buffers b)\<rparr>)"
    using q by (intro ring_ok_put[OF ok]) auto
  then show "\<exists>b'. rb_append s x b = Inr b' \<and> ring_ok n cfg b'" using app by blast
  show "rb_append s x b = Inr b' \<Longrightarrow>
      ring_items b' s' = (if s' = s then take_last (nat n) (ring_items b s @ [x]) else ring_items b s')"
    by (auto simp: app ring_items_def dict_get_or_update deque_append_def)
  show "ring_ok n cfg (rb_clear c b)"
    using ok distinct_delete[of "rb_buffers b"]
    by (auto simp: ring_ok_def rb_clear_def AList.delete_eq split: option.split)
  show "ring_items (rb_clear c b) s' = (if c = None \<or> c = Some s' then [] else ring_items b s')"
    by (auto simp: ring_items_def rb_clear_def dict_get_or_def map_of_AList_delete split: option.split)
qed

lemma ring_lookup: "ring_ok n cfg b \<Longrightarrow> map_of (rb_buffers b) s = (if ring_items b s = [] then None else Some (ring_items b s))"
proof (cases "map_of (rb_buffers b) s")
  case (Some q)
  assume "ring_ok n cfg b"
  moreover have "q \<in> set (map snd (rb_buffers b))" using map_of_SomeD[OF Some] by force
  ultimately have "q \<noteq> []" by (auto simp: ring_ok_def)
  then show ?thesis using Some by (simp add: ring_items_def dict_get_or_def)
qed (simp add: ring_items_def dict_get_or_def)

lemma ring_total: "ring_ok n cfg b \<Longrightarrow> int (rb_total b) \<le> n * int (rb_tracked b)"
proof -
  assume ok: "ring_ok n cfg b"
  then have "\<And>kv. kv \<in> set (rb_buffers b) \<Longrightarrow> length (snd kv) \<le> nat n" by (auto simp: ring_ok_def)
  then have "sum_list (map (\<lambda>kv. length (snd kv)) (rb_buffers b)) \<le> sum_list (map (\<lambda>_. nat n) (rb_buffers b))"
    by (rule sum_list_mono)
  then have "sum_list (map (\<lambda>kv. length (snd kv)) (rb_buffers b)) \<le> nat n * length (rb_buffers b)"
    by (simp add: sum_list_triv mult.commute)
  then have "int (rb_total b) \<le> int (nat n * rb_tracked b)" by (simp only: rb_total_def rb_tracked_def of_nat_le_iff)
  then show ?thesis using ok by (simp add: ring_ok_def)
qed

section \<open>Properties\<close>

text \<open>
  \<^bold>\<open>C28\<close>. The price buffer refines an unbounded per-symbol history: after any sequence of appends and
  clears on a new buffer, the latest price is the last of the symbol's history since it was last
  cleared, the recent prices are its newest ones, newest first, the moving average is the rounded mean
  of the latest \<open>w\<close> of them when the buffer holds that many, and a symbol is tracked exactly when its
  history is not empty. The memory is bounded by \<^verbatim>\<open>max_ticks_per_symbol\<close> prices for each tracked symbol.
\<close>

theorem price_buffer_refines_history:
  assumes "init_price_buffer max_ticks cfg = Inr b0"
  shows "\<exists>b. ring_run rb_append rb_clear ops b0 = Inr b
    \<and> (\<forall>s. rb_latest b s = (if history s [] ops = [] then None else Some (last (history s [] ops)))
       \<and> (rb_has_data b s \<longleftrightarrow> history s [] ops \<noteq> []) \<and> (s \<in> rb_symbols b \<longleftrightarrow> history s [] ops \<noteq> [])
       \<and> (\<forall>c > 0. get_recent b s (Some c) = Inr (take (nat (min c (rb_maxlen b0))) (rev (history s [] ops))))
       \<and> (\<forall>w > 0. vwap b s (Some w) =
            Inr (if int (length (history s [] ops)) < w \<or> rb_maxlen b0 < w then None
                 else Some (dround (rsum dround 0 (take_last (nat w) (history s [] ops)) / of_int w)))))
    \<and> int (rb_total b) \<le> rb_maxlen b0 * int (rb_tracked b)"
proof -
  define n where "n = rb_maxlen b0"
  have ok0: "ring_ok n cfg b0" and e0: "ring_items b0 s = take_last (nat n) []" for s
    using assms by (auto simp: init_price_buffer_def bindE_Inr_iff ring_ok_def ring_items_def n_def split: if_splits)
  from ring.run_history[OF ok0, of "\<lambda>_. []", OF e0] obtain b where
    b: "ring_run rb_append rb_clear ops b0 = Inr b" "ring_ok n cfg b"
      "\<And>s. ring_items b s = take_last (nat n) (history s [] ops)" by blast
  have n: "1 \<le> n" using b(2) by (simp add: ring_ok_def)
  have ne: "take_last (nat n) h = [] \<longleftrightarrow> h = []" for h :: "rat list"
    using n length_take_last[of "nat n" h] by (auto simp flip: length_0_conv)
  have last: "last (take_last (nat n) h) = last h" if "h \<noteq> []" for h :: "rat list"
    using that n by (simp add: take_last_def)
  have look: "map_of (rb_buffers b) s = (if history s [] ops = [] then None else Some (take_last (nat n) (history s [] ops)))" for s
    using ring_lookup[OF b(2)] b(3) ne by simp
  have "s \<in> rb_symbols b \<longleftrightarrow> history s [] ops \<noteq> []" for s
    using look[of s] map_of_eq_None_iff[of "rb_buffers b" s] by (simp add: rb_symbols_def split: if_splits)
  moreover have "get_recent b s (Some c) = Inr (take (nat (min c n)) (rev (history s [] ops)))" if "0 < c" for s c
    using that n by (simp add: get_recent_def rb_recent_def look slice_from_last rev_take_last min_def)
  moreover have "vwap b s (Some w) = Inr (if int (length (history s [] ops)) < w \<or> n < w then None
      else Some (dround (rsum dround 0 (take_last (nat w) (history s [] ops)) / of_int w)))" if "0 < w" for s w
    using that n by (auto simp: vwap_def look slice_from_last take_last_take_last decimal_div_def min_def)
  ultimately show ?thesis using b(1) ring_total[OF b(2)] look ne last
    unfolding n_def[symmetric] by (intro exI[of _ b]) (auto simp: rb_latest_def rb_has_data_def)
qed

theorem price_buffer_refines_history_witness:
  "\<exists>b. ring_run rb_append rb_clear [Tick ''BTC'' 1, Tick ''BTC'' 2, Tick ''BTC'' 3, Clear (Some ''ETH'')]
      \<lparr>rb_config = [], rb_maxlen = 2, rb_buffers = []\<rparr> = Inr b
    \<and> get_recent b ''BTC'' (Some 5) = Inr [3, 2]"
proof -
  have "init_price_buffer (Some 2) [] = Inr \<lparr>rb_config = [], rb_maxlen = 2, rb_buffers = []\<rparr>"
    by (simp add: init_price_buffer_def)
  from price_buffer_refines_history[OF this, of "[Tick ''BTC'' 1, Tick ''BTC'' 2, Tick ''BTC'' 3, Clear (Some ''ETH'')]"]
  show ?thesis by (auto 0 4)
qed

text \<open>
  Asked for the last \<open>0\<close> prices, \<^verbatim>\<open>get_recent\<close> returns all of them: \<^verbatim>\<open>prices[-0:]\<close> is the whole list.
\<close>

lemma recent_zero_is_all: "map_of (rb_buffers b) s = Some q \<Longrightarrow> get_recent b s (Some 0) = Inr (rev q)"
  by (simp add: get_recent_def rb_recent_def slice_from_def)

end
