(* ===== verification/Floats.thy ===== *)
theory Floats
  imports PyValues
begin

text \<open>
  The float functions of Python's library that the indicator code uses: \<^verbatim>\<open>sum\<close> over floats, which since
  Python 3.12 (the version of the program's container image) carries a Neumaier compensation,
  \<^verbatim>\<open>math.sqrt\<close>, and \<^verbatim>\<open>max\<close>/\<^verbatim>\<open>min\<close> over a list. What the indicators need of a sum is the locale \<open>summation\<close>.
\<close>

section \<open>sum\<close>

fun sum_from :: "rat \<Rightarrow> rat \<Rightarrow> rat list \<Rightarrow> rat" where
  "sum_from s c [] = (if c = 0 then s else fround (s + c))"
| "sum_from s c (x # xs) =
     (let t = fround (s + x)
      in sum_from t (if \<bar>x\<bar> \<le> \<bar>s\<bar> then fround (c + fround (fround (s - t) + x))
                     else fround (c + fround (fround (x - t) + s))) xs)"

definition float_sum :: "rat list \<Rightarrow> rat" where
  "float_sum = sum_from 0 0"

lemma feps_small: "feps \<le> 1 / 2 ^ 53" "0 < feps"
  by (simp_all add: feps_def bpow_def)

text \<open>
  One step of the compensation over non-negative terms: the computed error of the addition is a tiny
  part of the new sum. \<open>u\<close> is the larger and \<open>v\<close> the smaller of the two terms.
\<close>

lemma step_error:
  assumes "0 \<le> u" "0 \<le> v" "fround u = u" "t = fround (u + v)"
  shows "\<bar>fround (fround (u - t) + v)\<bar> \<le> 3 * feps * t"
proof -
  have e: "feps \<le> 1 / 100" "0 < feps" using feps_small by simp_all
  have ut: "u \<le> t" using assms flt.rep_le_rnd[of u "u + v"] by simp
  have tf: "0 \<le> t * feps" using ut assms(1) e by (intro mult_nonneg_nonneg) auto
  have t1: "\<bar>t - (u + v)\<bar> \<le> (u + v) * feps" using flt.rnd_err[of "u + v"] assms by simp
  then have "(u + v) * (1 - feps) \<le> t" by (simp add: algebra_simps abs_le_iff)
  moreover have "(u + v) * (99 / 100) \<le> (u + v) * (1 - feps)" using e assms(1,2) by (intro mult_left_mono) auto
  ultimately have uv: "u + v \<le> 100 / 99 * t" by simp
  have "(u + v) * feps \<le> 100 / 99 * t * feps" using uv e by (intro mult_right_mono) auto
  with t1 have a: "\<bar>u + v - t\<bar> \<le> 100 / 99 * t * feps" by linarith
  have "\<bar>fround (u - t) - (u - t)\<bar> \<le> \<bar>u - t\<bar> * feps" by (rule flt.rnd_err)
  also have "\<dots> \<le> t * feps" using ut e assms(1) by (intro mult_right_mono) auto
  finally have "\<bar>fround (u - t) + v\<bar> \<le> 100 / 99 * t * feps + t * feps" using a by linarith
  then have b: "\<bar>fround (u - t) + v\<bar> \<le> 199 / 99 * (t * feps)" by (simp add: ac_simps)
  have "\<bar>fround (fround (u - t) + v)\<bar> \<le> \<bar>fround (u - t) + v\<bar> * (1 + feps)"
    using flt.rnd_err[of "fround (u - t) + v"] by (simp add: algebra_simps abs_le_iff) linarith
  also have "\<dots> \<le> 199 / 99 * (t * feps) * (1 + 1 / 100)" using b e tf by (intro mult_mono) auto
  also have "\<dots> \<le> 3 * (t * feps)" using tf by (simp add: mult.commute)
  finally show ?thesis by (simp add: ac_simps)
qed

lemma sum_from_pos:
  assumes "0 \<le> s" "fround s = s" "\<bar>c\<bar> \<le> of_nat k * (4 * feps) * s" "\<forall>x \<in> set xs. 0 \<le> x \<and> fround x = x"
    and "k + length xs \<le> 2 ^ 40"
  shows "0 \<le> sum_from s c xs \<and> (0 < s \<or> (\<exists>x \<in> set xs. 0 < x) \<longrightarrow> 0 < sum_from s c xs)"
  using assms
proof (induction xs arbitrary: s c k)
  case Nil
  then have "of_nat k \<le> (2 ^ 40 :: rat)" using Nil.prems(5) of_nat_le_iff[of k "2 ^ 40", where ?'a = rat] by simp
  then have "of_nat k * (4 * feps) \<le> 2 ^ 40 * (4 * (1 / 2 ^ 53))" using feps_small by (intro mult_mono) auto
  also have "\<dots> \<le> 1 / 2" by simp
  finally have "of_nat k * (4 * feps) * s \<le> 1 / 2 * s" using Nil.prems(1) by (rule mult_right_mono)
  then have "s / 2 \<le> s + c" using Nil.prems(3) by linarith
  with Nil.prems(1) show ?case by (auto simp: flt.rnd_nonneg)
next
  case (Cons x xs)
  let ?t = "fround (s + x)"
  define e where "e = (if \<bar>x\<bar> \<le> \<bar>s\<bar> then fround (fround (s - ?t) + x) else fround (fround (x - ?t) + s))"
  have x: "0 \<le> x" "fround x = x" using Cons.prems(4) by auto
  have t: "s \<le> ?t" "x \<le> ?t" using x Cons.prems(1,2) by (auto intro: flt.rep_le_rnd)
  have e: "\<bar>e\<bar> \<le> 3 * feps * ?t"
    using step_error[of s x ?t] step_error[of x s ?t] x Cons.prems(1,2) by (simp add: e_def add.commute)
  have k: "of_nat k \<le> (2 ^ 40 :: rat)" using Cons.prems(5) of_nat_le_iff[of k "2 ^ 40", where ?'a = rat] by simp
  have "(4 * of_nat k + 3) * feps \<le> (4 * 2 ^ 40 + 3) * (1 / 2 ^ 53)" using k feps_small by (intro mult_mono) auto
  then have k3: "(4 * of_nat k + 3) * (1 + feps) \<le> 4 * (of_nat k + 1)" by (simp add: algebra_simps)
  have "\<bar>c\<bar> \<le> of_nat k * (4 * feps) * ?t"
    using Cons.prems(3) mult_left_mono[OF t(1), of "of_nat k * (4 * feps)"] feps_small(2) by (meson order_trans mult_nonneg_nonneg of_nat_0_le_iff zero_le_numeral less_imp_le)
  with e have "\<bar>c + e\<bar> \<le> (4 * of_nat k + 3) * (feps * ?t)" by (simp add: algebra_simps)
  then have "\<bar>fround (c + e)\<bar> \<le> (4 * of_nat k + 3) * (feps * ?t) * (1 + feps)"
    using flt.rnd_err[of "c + e"] feps_small
      mult_right_mono[of "\<bar>c + e\<bar>" "(4 * of_nat k + 3) * (feps * ?t)" "1 + feps"] by (simp add: algebra_simps)
  also have "\<dots> = (4 * of_nat k + 3) * (1 + feps) * (feps * ?t)" by simp
  also have "\<dots> \<le> 4 * (of_nat k + 1) * (feps * ?t)"
    using k3 t(1) Cons.prems(1) feps_small by (intro mult_right_mono) auto
  finally have c': "\<bar>fround (c + e)\<bar> \<le> of_nat (Suc k) * (4 * feps) * ?t" by (simp add: algebra_simps)
  have step: "sum_from s c (x # xs) = sum_from ?t (fround (c + e)) xs" by (simp add: e_def Let_def)
  have "0 \<le> ?t" "0 < s \<or> 0 < x \<longrightarrow> 0 < ?t" using t x Cons.prems(1) by auto
  with Cons.IH[OF _ _ c'] Cons.prems(4,5) show ?case unfolding step by auto
qed

locale summation =
  fixes total :: "rat list \<Rightarrow> rat"
  assumes total_nonneg: "\<forall>x \<in> set xs. 0 \<le> x \<and> fround x = x \<Longrightarrow> length xs \<le> 2 ^ 40 \<Longrightarrow> 0 \<le> total xs"
    and total_pos: "\<forall>x \<in> set xs. 0 \<le> x \<and> fround x = x \<Longrightarrow> length xs \<le> 2 ^ 40 \<Longrightarrow> \<exists>x \<in> set xs. 0 < x \<Longrightarrow> 0 < total xs"
begin

lemma mean_nonneg:
  assumes "\<forall>x \<in> set xs. 0 \<le> x \<and> fround x = x" "length xs \<le> 2 ^ 40"
  shows "0 \<le> fround (total xs / of_nat p)"
  using total_nonneg[OF assms] by (intro flt.rnd_nonneg) simp

lemma mean_pos:
  assumes "\<forall>x \<in> set xs. 0 < x \<and> fround x = x" "length xs \<le> 2 ^ 40" "xs \<noteq> []" "0 < p"
  shows "0 < fround (total xs / of_nat p)"
proof -
  have "\<exists>x \<in> set xs. 0 < x" using assms(1,3) by (cases xs) auto
  with total_pos[of xs] assms show ?thesis by (force intro: less_imp_le)
qed

end

interpretation fsum: summation float_sum
  using sum_from_pos[of 0 0 0] by unfold_locales (auto simp: float_sum_def)

section \<open>sqrt, max and min\<close>

text \<open>
  \<^verbatim>\<open>math.sqrt\<close> is correctly rounded. The root is searched among the integers after scaling by a power of
  four that leaves at least 54 bits; a remainder is marked by half a unit, which lies strictly between any
  two candidates of the final rounding.
\<close>

function isqrt_between :: "int \<Rightarrow> int \<Rightarrow> int \<Rightarrow> int" where
  "isqrt_between n lo hi =
     (if hi \<le> lo + 1 then lo
      else (let m = (lo + hi) div 2 in if m * m \<le> n then isqrt_between n m hi else isqrt_between n lo m))"
  by pat_completeness auto
termination by (relation "measure (\<lambda>(n, lo, hi). nat (hi - lo))") auto

declare isqrt_between.simps [simp del]

definition isqrt :: "int \<Rightarrow> int" where
  "isqrt n = isqrt_between n 0 (n + 1)"

lemma isqrt_between_bounds:
  "0 \<le> lo \<Longrightarrow> lo < hi \<Longrightarrow> lo * lo \<le> n \<Longrightarrow> n < hi * hi \<Longrightarrow>
   lo \<le> isqrt_between n lo hi \<and> isqrt_between n lo hi * isqrt_between n lo hi \<le> n
   \<and> n < (isqrt_between n lo hi + 1) * (isqrt_between n lo hi + 1)"
proof (induction n lo hi rule: isqrt_between.induct)
  case (1 n lo hi)
  show ?case
  proof (cases "hi \<le> lo + 1")
    case True
    then have "hi = lo + 1" using "1.prems"(2) by simp
    then have "isqrt_between n lo hi = lo" using True by (subst isqrt_between.simps) simp
    then show ?thesis using "1.prems" \<open>hi = lo + 1\<close> by simp
  next
    case False
    define m where "m = (lo + hi) div 2"
    have m: "lo < m" "m < hi" using False unfolding m_def by auto
    show ?thesis
    proof (cases "m * m \<le> n")
      case True
      with "1.IH"(1)[OF False m_def] "1.prems" m False show ?thesis
        by (simp add: isqrt_between.simps[of n lo hi] flip: m_def)
    next
      case nsq: False
      with "1.IH"(2)[OF False m_def] "1.prems" m False show ?thesis
        by (simp add: isqrt_between.simps[of n lo hi] flip: m_def)
    qed
  qed
qed

lemma isqrt_bounds:
  assumes "0 \<le> n"
  shows "0 \<le> isqrt n \<and> isqrt n * isqrt n \<le> n \<and> n < (isqrt n + 1) * (isqrt n + 1)"
proof -
  have "(n + 1) * (n + 1) = n * n + n + (n + 1)" by (simp add: algebra_simps)
  then have "n < (n + 1) * (n + 1)" using assms zero_le_mult_iff[of n n] by linarith
  then show ?thesis using isqrt_between_bounds[of 0 "n + 1" n] assms by (simp add: isqrt_def)
qed

definition float_sqrt :: "rat \<Rightarrow> rat" where
  "float_sqrt x =
     (if x \<le> 0 then 0
      else (let k = 55 + nat (ilog 2 (snd (quotient_of x))); y = x * 4 ^ k; s = isqrt \<lfloor>y\<rfloor>
            in fround ((of_int s + (if of_int (s * s) = y then 0 else 1 / 2)) / 2 ^ k)))"

lemma float_sqrt_nonneg: "0 \<le> float_sqrt x"
  using isqrt_bounds[of "\<lfloor>x * 4 ^ (55 + nat (ilog 2 (snd (quotient_of x))))\<rfloor>"]
  by (auto simp: float_sqrt_def Let_def intro!: flt.rnd_nonneg divide_nonneg_nonneg add_nonneg_nonneg)

fun list_max :: "rat list \<Rightarrow> rat" where
  "list_max [] = 0"
| "list_max [x] = x"
| "list_max (x # y # ys) = max x (list_max (y # ys))"

fun list_min :: "rat list \<Rightarrow> rat" where
  "list_min [] = 0"
| "list_min [x] = x"
| "list_min (x # y # ys) = min x (list_min (y # ys))"

lemma list_max_ge: "x \<in> set xs \<Longrightarrow> x \<le> list_max xs"
  by (induction xs rule: list_max.induct) auto

lemma list_min_le: "x \<in> set xs \<Longrightarrow> list_min xs \<le> x"
  by (induction xs rule: list_min.induct) auto

lemma list_max_in: "xs \<noteq> [] \<Longrightarrow> list_max xs \<in> set xs"
  by (induction xs rule: list_max.induct) (auto simp: max_def)

lemma list_min_in: "xs \<noteq> [] \<Longrightarrow> list_min xs \<in> set xs"
  by (induction xs rule: list_min.induct) (auto simp: min_def)

section \<open>round\<close>

lemma fround_places_mono: "x \<le> y \<Longrightarrow> fround_places k x \<le> fround_places k y"
  unfolding fround_places_def
  by (intro flt.rnd_mono divide_right_mono) (auto intro!: half_even_mono mult_right_mono)

lemma fround_places_int: "\<bar>n\<bar> < 2 ^ 53 \<Longrightarrow> fround_places k (of_int n) = of_int n"
proof -
  have "of_int n * 10 ^ k = (of_int (n * 10 ^ k) :: rat)" by simp
  then have "half_even (of_int n * 10 ^ k) = n * 10 ^ k" by (simp only: half_even_of_int)
  then show "\<bar>n\<bar> < 2 ^ 53 \<Longrightarrow> ?thesis" by (simp add: fround_places_def)
qed

lemma fround_places_minus: "fround_places k (- x) = - fround_places k x"
  using half_even_minus[of "x * 10 ^ k"] by (simp add: fround_places_def flt.rnd_minus)

lemma fround_places_between:
  assumes "of_int a \<le> x" "x \<le> of_int b" "\<bar>a\<bar> < 2 ^ 53" "\<bar>b\<bar> < 2 ^ 53"
  shows "of_int a \<le> fround_places k x \<and> fround_places k x \<le> of_int b"
  using fround_places_mono[OF assms(1), of k] fround_places_mono[OF assms(2), of k] assms(3,4)
  by (simp add: fround_places_int)

end
