(* ===== verification/Indicators.thy ===== *)
theory Indicators
  imports Floats Domain
begin

text \<open>
  \<^verbatim>\<open>src/quad/ai/ta.py\<close>, first half: the technical indicators over candles, oldest first, as float lists.
  Every float operation is rounded in the source's order; squaring is the correctly rounded one. Periods
  are the positive constants of the callers, and the helpers that index a list are called on at least
  fourteen candles.
\<close>

section \<open>Candles (types/market.py)\<close>

record candle =
  cd_symbol :: string
  cd_open :: rat
  cd_high :: rat
  cd_low :: rat
  cd_close :: rat
  cd_volume :: rat
  cd_timestamp :: int

definition opens :: "candle list \<Rightarrow> rat list" where "opens cs = map (\<lambda>c. fround (cd_open c)) cs"
definition highs :: "candle list \<Rightarrow> rat list" where "highs cs = map (\<lambda>c. fround (cd_high c)) cs"
definition lows :: "candle list \<Rightarrow> rat list" where "lows cs = map (\<lambda>c. fround (cd_low c)) cs"
definition closes :: "candle list \<Rightarrow> rat list" where "closes cs = map (\<lambda>c. fround (cd_close c)) cs"
definition volumes :: "candle list \<Rightarrow> rat list" where "volumes cs = map (\<lambda>c. fround (cd_volume c)) cs"

definition last_opt :: "'a list \<Rightarrow> 'a option" where
  "last_opt xs = (if xs = [] then None else Some (last xs))"

section \<open>Moving averages\<close>

text \<open>The pairs are the value that enters the window and the value that leaves it.\<close>

fun sma_roll :: "nat \<Rightarrow> rat \<Rightarrow> (rat \<times> rat) list \<Rightarrow> rat list" where
  "sma_roll p s [] = []"
| "sma_roll p s ((new, old) # r) =
     (let s' = fround (s + fround (new - old)) in fround (s' / of_nat p) # sma_roll p s' r)"

definition sma :: "rat list \<Rightarrow> nat \<Rightarrow> rat list" where
  "sma xs p = (if length xs < p then []
     else (let s = float_sum (take p xs) in fround (s / of_nat p) # sma_roll p s (zip (drop p xs) xs)))"

fun ema_from :: "rat \<Rightarrow> rat \<Rightarrow> rat list \<Rightarrow> rat list" where
  "ema_from k prev [] = []"
| "ema_from k prev (x # xs) =
     (let e = fround (fround (fround (x - prev) * k) + prev) in e # ema_from k e xs)"

definition ema :: "rat list \<Rightarrow> nat \<Rightarrow> rat list" where
  "ema xs p = (if length xs < p then []
     else (let s = fround (float_sum (take p xs) / of_nat p)
           in s # ema_from (fround (2 / of_nat (p + 1))) s (drop p xs)))"

fun rma_from :: "nat \<Rightarrow> rat \<Rightarrow> rat list \<Rightarrow> rat list" where
  "rma_from p avg [] = []"
| "rma_from p avg (x # xs) =
     (let a = fround (fround (fround (avg * (of_nat p - 1)) + x) / of_nat p) in a # rma_from p a xs)"

definition rma :: "rat list \<Rightarrow> nat \<Rightarrow> rat list" where
  "rma xs p = (if length xs < p then []
     else (let s = fround (float_sum (take p xs) / of_nat p) in s # rma_from p s (drop p xs)))"

definition deviation :: "nat \<Rightarrow> rat list \<Rightarrow> rat" where
  "deviation p w =
     (let mean = fround (float_sum w / of_nat p)
      in float_sqrt (fround (float_sum (map (\<lambda>x. fround ((fround (x - mean))\<^sup>2)) w) / of_nat p)))"

definition std_dev :: "rat list \<Rightarrow> nat \<Rightarrow> rat list \<Rightarrow> rat list" where
  "std_dev xs p smas = (if length xs < p \<or> smas = [] then []
     else map (\<lambda>j. deviation p (take p (drop j xs))) [0..<Suc (length xs - p)])"

section \<open>Trend\<close>

definition range_of :: "rat \<times> rat \<Rightarrow> rat \<Rightarrow> rat" where
  "range_of hl prev_close = max (max (fround (fst hl - snd hl)) \<bar>fround (fst hl - prev_close)\<bar>) \<bar>fround (snd hl - prev_close)\<bar>"

definition true_range :: "rat list \<Rightarrow> rat list \<Rightarrow> rat list \<Rightarrow> rat list" where
  "true_range high low close = fround (hd high - hd low) # map2 range_of (tl (zip high low)) close"

definition compute_ema :: "rat list \<Rightarrow> nat \<Rightarrow> rat option" where
  "compute_ema xs p = last_opt (ema xs p)"

definition dm_step :: "rat \<times> rat \<Rightarrow> rat \<times> rat \<Rightarrow> rat \<times> rat" where
  "dm_step prev cur =
     (let up_move = fround (fst cur - fst prev); down_move = fround (snd prev - snd cur)
      in (if down_move < up_move \<and> 0 < up_move then up_move else 0,
          if up_move < down_move \<and> 0 < down_move then down_move else 0))"

definition di_row :: "rat \<Rightarrow> rat \<times> rat \<Rightarrow> rat \<times> rat" where
  "di_row atr dm = (if atr \<noteq> 0 then (fround (fround (100 * fst dm) / atr), fround (fround (100 * snd dm) / atr)) else (0, 0))"

definition dx_of :: "rat \<times> rat \<Rightarrow> rat" where
  "dx_of di = (let s = fround (fst di + snd di)
     in if s \<noteq> 0 then fround (fround (100 * \<bar>fround (fst di - snd di)\<bar>) / s) else 0)"

definition compute_adx :: "rat list \<Rightarrow> rat list \<Rightarrow> rat list \<Rightarrow> nat \<Rightarrow> rat option \<times> rat option \<times> rat option" where
  "compute_adx high low close p =
     (if length high < p + 1 then (None, None, None)
      else (let hl = zip high low; dms = (0, 0) # map2 dm_step hl (tl hl);
                dis = map2 di_row (rma (true_range high low close) p) (zip (rma (map fst dms) p) (rma (map snd dms) p));
                r = map_option (fround_places 2)
            in (r (last_opt (rma (map dx_of dis) p)), r (last_opt (map fst dis)), r (last_opt (map snd dis)))))"

definition detect_trend_regime :: "rat list \<Rightarrow> rat option \<Rightarrow> rat option \<Rightarrow> rat option \<Rightarrow> string" where
  "detect_trend_regime close ema20 ema50 ema200 =
     (case (ema20, ema50) of
        (Some e20, Some e50) \<Rightarrow>
          (let price = last close
           in if e20 < price \<and> e50 < e20 then
                (if (\<exists>e \<in> set_option ema200. e < e20) then ''uptrend'' else ''weak_uptrend'')
              else if price < e20 \<and> e20 < e50 then
                (if (\<exists>e \<in> set_option ema200. e20 < e) then ''downtrend'' else ''weak_downtrend'')
              else ''ranging'')
      | _ \<Rightarrow> ''ranging'')"

section \<open>Momentum\<close>

definition changes :: "rat list \<Rightarrow> rat list" where
  "changes xs = map2 (\<lambda>x y. fround (y - x)) xs (tl xs)"

definition compute_rsi :: "rat list \<Rightarrow> nat \<Rightarrow> rat option" where
  "compute_rsi close p =
     (if length close < p + 1 then None
      else (let gains = rma (map (\<lambda>d. if 0 \<le> d then d else 0) (changes close)) p;
                losses = rma (map (\<lambda>d. if 0 \<le> d then 0 else \<bar>d\<bar>) (changes close)) p
            in if losses = [] \<or> last losses = 0
               then Some (if gains \<noteq> [] \<and> 0 < last gains then 100 else 50)
               else (let rs = fround (last gains / last losses)
                     in Some (fround_places 2 (fround (100 - fround (100 / fround (1 + rs))))))))"

record macd_data =
  md_macd :: "rat option"
  md_signal :: "rat option"
  md_histogram :: "rat option"
  md_cross :: "string option"

definition macd_cross :: "rat list \<Rightarrow> rat list \<Rightarrow> rat \<Rightarrow> string option" where
  "macd_cross line signal histogram =
     (if 2 \<le> length line \<and> 2 \<le> length signal then
        (let prev = fround (line ! (length line - 2) - signal ! (length signal - 2))
         in Some (if prev \<le> 0 \<and> 0 < histogram then ''bullish''
                  else if 0 \<le> prev \<and> histogram < 0 then ''bearish'' else ''neutral''))
      else None)"

definition compute_macd :: "rat list \<Rightarrow> nat \<Rightarrow> nat \<Rightarrow> nat \<Rightarrow> macd_data" where
  "compute_macd close fast slow signal_period =
     (if length close < slow + signal_period then \<lparr>md_macd = None, md_signal = None, md_histogram = None, md_cross = None\<rparr>
      else (let fs = ema close fast; ss = ema close slow;
                line = map2 (\<lambda>f s. fround (f - s)) (drop (length fs - length ss) fs) ss;
                signal = ema line signal_period
            in if line = [] \<or> signal = [] then \<lparr>md_macd = None, md_signal = None, md_histogram = None, md_cross = None\<rparr>
               else (let h = fround (last line - last signal)
                     in \<lparr>md_macd = Some (fround_places 4 (last line)), md_signal = Some (fround_places 4 (last signal)),
                         md_histogram = Some (fround_places 4 h), md_cross = macd_cross line signal h\<rparr>)))"

definition stoch_value :: "rat list \<Rightarrow> rat list \<Rightarrow> rat \<Rightarrow> rat" where
  "stoch_value hs ls c =
     (let hi = list_max hs; lo = list_min ls
      in if hi \<noteq> lo then fround (fround (100 * fround (c - lo)) / fround (hi - lo)) else 50)"

definition compute_stochastic :: "rat list \<Rightarrow> rat list \<Rightarrow> rat list \<Rightarrow> nat \<Rightarrow> nat \<Rightarrow> rat option \<times> rat option" where
  "compute_stochastic high low close k d =
     (if length close < k + d then (None, None)
      else (let raw = map (\<lambda>j. stoch_value (take k (drop j high)) (take k (drop j low)) (close ! (j + k - 1)))
                        [0..<Suc (length close - k)];
                signal = sma raw d
            in if raw = [] \<or> signal = [] then (None, None)
               else (Some (fround_places 2 (last raw)), Some (fround_places 2 (last signal)))))"

section \<open>Volatility and volume\<close>

record bollinger =
  bb_middle :: "rat option"
  bb_upper :: "rat option"
  bb_lower :: "rat option"
  bb_width_pct :: "rat option"
  bb_position :: "rat option"

definition no_bands :: bollinger where
  "no_bands = \<lparr>bb_middle = None, bb_upper = None, bb_lower = None, bb_width_pct = None, bb_position = None\<rparr>"

definition compute_bollinger_bands :: "rat list \<Rightarrow> nat \<Rightarrow> rat \<Rightarrow> bollinger" where
  "compute_bollinger_bands close p mult =
     (let smas = sma close p; sds = std_dev close p smas
      in if length close < p \<or> smas = [] \<or> sds = [] then no_bands
         else (let mid = last smas; w = fround (mult * last sds); upper = fround (mid + w); lower = fround (mid - w);
                   width = (if mid \<noteq> 0 then fround (fround (fround (upper - lower) / mid) * 100) else 0);
                   position = (if upper \<noteq> lower then fround (fround (last close - lower) / fround (upper - lower)) else 1 / 2)
               in \<lparr>bb_middle = Some (fround_places 2 mid), bb_upper = Some (fround_places 2 upper),
                   bb_lower = Some (fround_places 2 lower), bb_width_pct = Some (fround_places 2 width),
                   bb_position = Some (fround_places 4 position)\<rparr>))"

definition compute_atr :: "rat list \<Rightarrow> rat list \<Rightarrow> rat list \<Rightarrow> nat \<Rightarrow> rat option" where
  "compute_atr high low close p =
     (let tr = true_range high low close
      in if length tr < p then None else map_option (fround_places 4) (last_opt (rma tr p)))"

definition compute_volume_ratio :: "rat list \<Rightarrow> nat \<Rightarrow> rat option" where
  "compute_volume_ratio vs p =
     (if length vs < p + 1 then None
      else (case last_opt (sma vs p) of
              None \<Rightarrow> None
            | Some avg \<Rightarrow> if avg = 0 then None else Some (fround_places 4 (fround (last vs / avg)))))"

fun obv_from :: "rat \<Rightarrow> rat \<Rightarrow> (rat \<times> rat) list \<Rightarrow> rat list" where
  "obv_from v prev [] = []"
| "obv_from v prev ((c, vol) # r) =
     (let v' = (if prev < c then fround (v + vol) else if c < prev then fround (v - vol) else v)
      in v' # obv_from v' c r)"

definition compute_obv :: "rat list \<Rightarrow> rat list \<Rightarrow> rat option \<times> string option" where
  "compute_obv close vs =
     (if length close < 2 then (None, None)
      else (let obv = 0 # obv_from 0 (hd close) (zip (tl close) (tl vs));
                recent = (if 10 \<le> length obv then drop (length obv - 10) obv else obv);
                slope = fround (fround (last recent - hd recent) / of_nat (length recent));
                direction = (if 2 \<le> length recent
                             then (if 0 < slope then ''rising'' else if slope < 0 then ''falling'' else ''flat'') else ''flat'')
            in (Some (fround_places 2 (last obv)), Some direction)))"

section \<open>Candlestick patterns\<close>

text \<open>
  The patterns of the last two candles. With a single candle the source only reports an error text, which
  its caller drops.
\<close>

definition bullish_engulfing :: "rat \<times> rat \<Rightarrow> rat \<times> rat \<Rightarrow> bool" where
  "bullish_engulfing prev cur =
     (snd prev < fst prev \<and> fst cur < snd cur \<and> fst prev < snd cur \<and> fst cur < snd prev)"

definition bearish_engulfing :: "rat \<times> rat \<Rightarrow> rat \<times> rat \<Rightarrow> bool" where
  "bearish_engulfing prev cur =
     (fst prev < snd prev \<and> snd cur < fst cur \<and> snd cur < fst prev \<and> snd prev < fst cur)"

definition detect_candlestick_patterns :: "rat list \<Rightarrow> rat list \<Rightarrow> rat list \<Rightarrow> rat list \<Rightarrow> (string \<times> bool) list" where
  "detect_candlestick_patterns os hs ls cs =
     (if length os < 2 then []
      else (let o' = last os; h = last hs; l = last ls; c = last cs;
                body = \<bar>fround (c - o')\<bar>; upper_wick = fround (h - max o' c); lower_wick = fround (min o' c - l);
                total = fround (h - l); prev = (os ! (length os - 2), cs ! (length cs - 2))
            in if total = 0
               then [(''doji'', False), (''bullish_engulfing'', False), (''bearish_engulfing'', False),
                     (''hammer'', False), (''shooting_star'', False)]
               else [(''doji'', fround (body / total) < fround (1 / 10)),
                     (''bullish_engulfing'', bullish_engulfing prev (o', c)),
                     (''bearish_engulfing'', bearish_engulfing prev (o', c)),
                     (''hammer'', fround (2 * body) \<le> lower_wick \<and> upper_wick \<le> body \<and> 0 < lower_wick),
                     (''shooting_star'', fround (2 * body) \<le> upper_wick \<and> lower_wick \<le> body \<and> 0 < upper_wick)]))"

section \<open>compute_indicators\<close>

definition opt_num :: "rat option \<Rightarrow> pyval" where
  "opt_num x = (case x of None \<Rightarrow> PNone | Some r \<Rightarrow> PFloat r)"

definition opt_text :: "string option \<Rightarrow> pyval" where
  "opt_text x = (case x of None \<Rightarrow> PNone | Some s \<Rightarrow> PStr s)"

definition rsi_regime :: "rat \<Rightarrow> string" where
  "rsi_regime rsi = (if 70 \<le> rsi then ''overbought'' else if rsi \<le> 30 then ''oversold'' else ''neutral'')"

definition trend_fields :: "candle list \<Rightarrow> (string, pyval) dict" where
  "trend_fields cs =
     (let close = closes cs; e20 = compute_ema close 20; e50 = compute_ema close 50; e200 = compute_ema close 200;
          (adx, pdi, mdi) = compute_adx (highs cs) (lows cs) close 14
      in [(''trend_ema_20'', opt_num e20), (''trend_ema_50'', opt_num e50), (''trend_ema_200'', opt_num e200),
          (''trend_adx'', opt_num adx), (''trend_plus_di'', opt_num pdi), (''trend_minus_di'', opt_num mdi),
          (''trend_regime'', PStr (detect_trend_regime close e20 e50 e200)),
          (''trend_price_vs_ema20'', case e20 of
             Some e \<Rightarrow> if e \<noteq> 0 then PFloat (fround_places 4 (fround (fround (last close / e) - 1))) else PNone
           | None \<Rightarrow> PNone)])"

definition momentum_fields :: "candle list \<Rightarrow> (string, pyval) dict" where
  "momentum_fields cs =
     (let close = closes cs; rsi = compute_rsi close 14; m = compute_macd close 12 26 9;
          (sk, sd) = compute_stochastic (highs cs) (lows cs) close 14 3
      in [(''momentum_rsi_14'', opt_num rsi), (''momentum_macd'', opt_num (md_macd m)),
          (''momentum_macd_signal'', opt_num (md_signal m)), (''momentum_macd_histogram'', opt_num (md_histogram m)),
          (''momentum_macd_cross'', opt_text (md_cross m)),
          (''momentum_stoch_k'', opt_num sk), (''momentum_stoch_d'', opt_num sd)]
         @ (case rsi of None \<Rightarrow> [] | Some r \<Rightarrow> [(''momentum_rsi_regime'', PStr (rsi_regime r))]))"

definition volatility_fields :: "candle list \<Rightarrow> (string, pyval) dict" where
  "volatility_fields cs =
     (let close = closes cs; b = compute_bollinger_bands close 20 2; atr = compute_atr (highs cs) (lows cs) close 14
      in [(''volatility_bb_middle'', opt_num (bb_middle b)), (''volatility_bb_upper'', opt_num (bb_upper b)),
          (''volatility_bb_lower'', opt_num (bb_lower b)), (''volatility_bb_width_pct'', opt_num (bb_width_pct b)),
          (''volatility_bb_position'', opt_num (bb_position b)), (''volatility_atr_14'', opt_num atr),
          (''volatility_atr_pct'', case atr of
             Some a \<Rightarrow> if a \<noteq> 0 \<and> last close \<noteq> 0
                       then PFloat (fround_places 4 (fround (fround (a / last close) * 100))) else PNone
           | None \<Rightarrow> PNone)]
         @ (case bb_width_pct b of None \<Rightarrow> [] | Some w \<Rightarrow> [(''volatility_bb_squeeze'', PBool (w < 3))]))"

definition volume_fields :: "candle list \<Rightarrow> (string, pyval) dict" where
  "volume_fields cs =
     (let ratio = compute_volume_ratio (volumes cs) 20; (obv, trend) = compute_obv (closes cs) (volumes cs)
      in [(''volume_sma_20_ratio'', opt_num ratio), (''volume_obv'', opt_num obv), (''volume_obv_trend'', opt_text trend)]
         @ (case ratio of None \<Rightarrow> [] | Some r \<Rightarrow> [(''volume_spike'', PBool (3 / 2 < r))]))"

definition price_fields :: "candle list \<Rightarrow> (string, pyval) dict res" where
  "price_fields cs =
     (let close = closes cs; hi = list_max (highs cs); lo = list_min (lows cs); first = hd close
      in if first = 0 then Inl ZeroDivisionError
         else Inr [(''price_change_pct'', PFloat (fround_places 2 (fround (fround (fround (last close - first) / first) * 100)))),
                   (''price_high'', PFloat (fround_places 2 hi)), (''price_low'', PFloat (fround_places 2 lo)),
                   (''price_current'', PFloat (fround_places 2 (last close))),
                   (''price_range_pct'', PFloat (fround_places 2 (fround (fround (fround (hi - lo) / first) * 100))))])"

definition compute_indicators :: "candle list \<Rightarrow> (string, pyval) dict res" where
  "compute_indicators cs =
     (if length cs < 14 then Inr [(''_candle_count'', PInt (int (length cs)))]
      else bindE (price_fields cs) (\<lambda>price. Inr
        ((''_candle_count'', PInt (int (length cs))) # trend_fields cs @ momentum_fields cs @ volatility_fields cs
         @ volume_fields cs @ price
         @ map (\<lambda>(n, b). (''pattern_'' @ n, PBool b))
             (detect_candlestick_patterns (opens cs) (highs cs) (lows cs) (closes cs)))))"

section \<open>Ranges\<close>

text \<open>A list of representable non-negative numbers, the shape of every series the averages run over.\<close>

definition nonneg_series :: "rat list \<Rightarrow> bool" where
  "nonneg_series xs = ((\<forall>x \<in> set xs. 0 \<le> x \<and> fround x = x) \<and> length xs \<le> 2 ^ 40)"

lemma nonneg_series_take: "nonneg_series xs \<Longrightarrow> nonneg_series (take p xs)"
  by (auto simp: nonneg_series_def dest: in_set_takeD)

lemma last_opt_set: "last_opt xs = Some x \<Longrightarrow> x \<in> set xs"
  by (auto simp: last_opt_def split: if_splits)

lemma rma_from_nonneg: "0 \<le> avg \<Longrightarrow> \<forall>x \<in> set xs. 0 \<le> x \<Longrightarrow> 1 \<le> p \<Longrightarrow> y \<in> set (rma_from p avg xs) \<Longrightarrow> 0 \<le> y"
proof (induction xs arbitrary: avg)
  case (Cons x xs)
  let ?a = "fround (fround (fround (avg * (of_nat p - 1)) + x) / of_nat p)"
  have "(1 :: rat) \<le> of_nat p" using Cons.prems(3) by simp
  then have "0 \<le> ?a" using Cons.prems(1,2)
    by (intro flt.rnd_nonneg divide_nonneg_nonneg add_nonneg_nonneg mult_nonneg_nonneg) auto
  with Cons show ?case by (auto simp: Let_def)
qed simp

lemma rma_nonneg:
  assumes "nonneg_series xs" "1 \<le> p" "y \<in> set (rma xs p)"
  shows "0 \<le> y"
proof -
  have "0 \<le> fround (float_sum (take p xs) / of_nat p)"
    using nonneg_series_take[OF assms(1), of p] by (intro fsum.mean_nonneg) (auto simp: nonneg_series_def)
  with assms rma_from_nonneg[of _ "drop p xs" p y] show ?thesis
    by (fastforce simp: rma_def Let_def nonneg_series_def dest: in_set_dropD split: if_splits)
qed

lemma rma_nonempty: "p \<le> length xs \<Longrightarrow> rma xs p \<noteq> []"
  by (simp add: rma_def Let_def)

lemma length_changes: "length (changes xs) = length xs - 1"
  by (simp add: changes_def)

lemma changes_rep: "d \<in> set (changes xs) \<Longrightarrow> fround d = d"
  by (auto simp: changes_def)

lemma fround_abs: "fround x = x \<Longrightarrow> fround \<bar>x\<bar> = \<bar>x\<bar>"
  by (cases "0 \<le> x") (auto simp: flt.rnd_minus)

lemma rsi_range:
  assumes "compute_rsi xs p = Some r" "1 \<le> p" "length xs \<le> 2 ^ 40"
  shows "0 \<le> r \<and> r \<le> 100"
proof -
  let ?g = "map (\<lambda>d. if 0 \<le> d then d else 0) (changes xs)" and ?l = "map (\<lambda>d. if 0 \<le> d then 0 else \<bar>d\<bar>) (changes xs)"
  have ser: "nonneg_series ?g" "nonneg_series ?l"
    using assms(3) changes_rep by (auto simp: nonneg_series_def length_changes fround_abs flt.rnd_minus)
  show ?thesis
  proof (cases "rma ?l p = [] \<or> last (rma ?l p) = 0")
    case True
    then show ?thesis using assms(1) by (auto simp: compute_rsi_def Let_def split: if_splits)
  next
    case False
    have n: "p \<le> length ?l" using assms(1) by (auto simp: compute_rsi_def length_changes split: if_splits)
    then have ne: "rma ?l p \<noteq> []" "rma ?g p \<noteq> []" by (intro rma_nonempty; simp)+
    have "0 \<le> last (rma ?g p)" "0 \<le> last (rma ?l p)"
      by (rule rma_nonneg[OF ser(1) assms(2) last_in_set[OF ne(2)]], rule rma_nonneg[OF ser(2) assms(2) last_in_set[OF ne(1)]])
    then have rs: "0 \<le> fround (last (rma ?g p) / last (rma ?l p))" by (intro flt.rnd_nonneg divide_nonneg_nonneg)
    define w where "w = fround (1 + fround (last (rma ?g p) / last (rma ?l p)))"
    have w: "1 \<le> w" unfolding w_def using rs by (intro flt.rep_le_rnd) auto
    have q: "0 \<le> fround (100 / w)" "fround (100 / w) \<le> 100"
      using w by (auto intro!: flt.rnd_nonneg flt.rnd_le_rep simp: divide_le_eq)
    have "0 \<le> fround (100 - fround (100 / w))" "fround (100 - fround (100 / w)) \<le> 100"
      using q by (auto intro!: flt.rnd_nonneg flt.rnd_le_rep)
    moreover have "r = fround_places 2 (fround (100 - fround (100 / w)))"
      using assms(1) False by (auto simp: compute_rsi_def Let_def w_def split: if_splits)
    ultimately show ?thesis
      using fround_places_between[of 0 "fround (100 - fround (100 / w))" 100 2] by simp
  qed
qed

text \<open>The oscillator may overshoot 100 by a rounding error before the final \<^verbatim>\<open>round\<close>, never after it.\<close>

lemma stoch_value_bounds:
  assumes "list_min ls \<le> c" "c \<le> list_max hs"
  shows "0 \<le> stoch_value hs ls c \<and> stoch_value hs ls c \<le> 100 + 1 / 1000"
proof -
  let ?hi = "list_max hs" and ?lo = "list_min ls"
  have e: "feps \<le> 1 / 10 ^ 9" "0 < feps" using feps_small by (auto intro: order_trans)
  have r: "0 \<le> fround (c - ?lo)" "fround (c - ?lo) \<le> fround (?hi - ?lo)"
    using assms by (auto intro: flt.rnd_nonneg flt.rnd_mono)
  show ?thesis
  proof (cases "?hi = ?lo")
    case False
    then have w: "0 < fround (?hi - ?lo)" using assms by simp
    let ?n = "fround (100 * fround (c - ?lo))"
    have n: "0 \<le> ?n" using r by (intro flt.rnd_nonneg) simp
    have "?n \<le> 100 * fround (c - ?lo) * (1 + feps)" using r by (intro flt.rnd_upper) simp
    also have "\<dots> \<le> 100 * fround (?hi - ?lo) * (1 + 1 / 10 ^ 9)" using r e by (intro mult_mono) auto
    finally have d: "?n / fround (?hi - ?lo) \<le> 100 * (1 + 1 / 10 ^ 9)" using w by (simp add: divide_le_eq ac_simps)
    have d0: "0 \<le> ?n / fround (?hi - ?lo)" using n less_imp_le[OF w] by (rule divide_nonneg_nonneg)
    have "fround (?n / fround (?hi - ?lo)) \<le> ?n / fround (?hi - ?lo) * (1 + feps)" using d0 by (rule flt.rnd_upper)
    also have "\<dots> \<le> 100 * (1 + 1 / 10 ^ 9) * (1 + 1 / 10 ^ 9)" using d d0 e by (intro mult_mono) auto
    also have "\<dots> \<le> 100 + 1 / 1000" by simp
    finally show ?thesis using False d0 by (simp add: stoch_value_def Let_def flt.rnd_nonneg)
  qed (simp add: stoch_value_def)
qed

lemma round_2_cap: "x \<le> 100 + 1 / 1000 \<Longrightarrow> fround_places 2 x \<le> 100"
proof -
  assume "x \<le> 100 + 1 / 1000"
  then have "fround_places 2 x \<le> fround_places 2 (100 + 1 / 1000)" by (rule fround_places_mono)
  also have "\<dots> = 100" by code_simp
  finally show ?thesis .
qed

lemma stochastic_range:
  assumes "compute_stochastic high low close k d = (Some r, s)" "1 \<le> k"
    and "length high = length close" "length low = length close"
    and "\<forall>j < length close. low ! j \<le> close ! j \<and> close ! j \<le> high ! j"
  shows "0 \<le> r \<and> r \<le> 100"
proof -
  let ?raw = "map (\<lambda>j. stoch_value (take k (drop j high)) (take k (drop j low)) (close ! (j + k - 1))) [0..<Suc (length close - k)]"
  have l: "k \<le> length close" using assms(1) by (auto simp: compute_stochastic_def split: if_splits)
  have "last ?raw \<in> set ?raw" by (intro last_in_set) simp
  then obtain j where j: "j \<le> length close - k"
    "last ?raw = stoch_value (take k (drop j high)) (take k (drop j low)) (close ! (j + k - 1))" by (auto simp: less_Suc_eq_le)
  let ?i = "j + k - 1"
  have i: "?i < length close" "k - 1 < k" "j + (k - 1) = ?i" using j(1) l assms(2) by auto
  have "high ! ?i \<in> set (take k (drop j high))" "low ! ?i \<in> set (take k (drop j low))"
    using nth_mem[of "k - 1" "take k (drop j high)"] nth_mem[of "k - 1" "take k (drop j low)"] i assms(3,4) by auto
  then have "list_min (take k (drop j low)) \<le> low ! ?i" "high ! ?i \<le> list_max (take k (drop j high))"
    by (simp_all add: list_min_le list_max_ge)
  then have "0 \<le> last ?raw \<and> last ?raw \<le> 100 + 1 / 1000"
    unfolding j(2) using assms(5) i(1) by (intro stoch_value_bounds) (auto intro: order_trans)
  moreover have "r = fround_places 2 (last ?raw)"
    using assms(1) by (simp add: compute_stochastic_def Let_def split: if_splits del: last_map)
  ultimately show ?thesis using round_2_cap fround_places_mono[of 0 "last ?raw" 2] fround_places_int[of 0 2] by simp
qed

lemma bollinger_order:
  assumes "compute_bollinger_bands xs p m = b" "bb_middle b = Some mid" "bb_upper b = Some u" "bb_lower b = Some l" "0 \<le> m"
    and "1 \<le> p"
  shows "l \<le> mid \<and> mid \<le> u"
proof -
  let ?mid = "last (sma xs p)" and ?sd = "last (std_dev xs p (sma xs p))"
  have ne: "sma xs p \<noteq> []" "std_dev xs p (sma xs p) \<noteq> []"
    and b: "mid = fround_places 2 ?mid" "u = fround_places 2 (fround (?mid + fround (m * ?sd)))"
      "l = fround_places 2 (fround (?mid - fround (m * ?sd)))"
    using assms(1-4) by (auto simp: compute_bollinger_bands_def no_bands_def Let_def split: if_splits)
  have "?sd \<in> set (std_dev xs p (sma xs p))" using ne by simp
  then have "0 \<le> ?sd" by (auto simp: std_dev_def deviation_def Let_def float_sqrt_nonneg split: if_splits simp del: upt_Suc)
  then have w: "0 \<le> fround (m * ?sd)" using assms(5) by (intro flt.rnd_nonneg) simp
  have "y \<in> set (sma_roll p s zs) \<Longrightarrow> fround y = y" for y s zs
    by (induction p s zs rule: sma_roll.induct) (auto simp: Let_def)
  then have "\<forall>y \<in> set (sma xs p). fround y = y" by (auto simp: sma_def Let_def)
  then have "fround ?mid = ?mid" using ne by simp
  then show ?thesis unfolding b using w by (intro conjI fround_places_mono flt.rnd_le_rep flt.rep_le_rnd) auto
qed
end
