(* ===== verification/Validator.thy ===== *)
theory Validator
  imports Domain
begin

text \<open>
  \<^verbatim>\<open>src/quad/ai/validator.py\<close>: the pure checks between a language model's decision and an order. A
  decision is a dict of Python values; the reasons (log text) are the constructors of \<open>rejection\<close>.
\<close>

section \<open>Tokens\<close>

datatype direction = LONG | SHORT | NEUTRAL

fun direction_name :: "direction \<Rightarrow> string" where
  "direction_name LONG = ''LONG''"
| "direction_name SHORT = ''SHORT''"
| "direction_name NEUTRAL = ''NEUTRAL''"

definition VALID_ACTIONS :: "string list" where
  "VALID_ACTIONS = [''ENTER'', ''EXIT'', ''HOLD'', ''adjust_stop'', ''reduce_position'']"

definition LONG_TOKENS :: "string list" where
  "LONG_TOKENS = [''long'', ''buy'', ''up'', ''bullish'', ''bull'', ''buying'', ''b'']"

definition SHORT_TOKENS :: "string list" where
  "SHORT_TOKENS = [''short'', ''sell'', ''down'', ''bearish'', ''bear'', ''selling'', ''s'']"

definition NEUTRAL_TOKENS :: "string list" where
  "NEUTRAL_TOKENS = [''neutral'', ''flat'', ''hold'', ''none'', ''sideways'', ''range'', ''ranging'', '''']"

text \<open>
  What the caller passes as the held side: nothing, text, or an enum member with its name. An object
  without a name or value counts as nothing.
\<close>

datatype side_arg = NoSide | SideText string | SideEnum string

fun side_text :: "side_arg \<Rightarrow> string option" where
  "side_text NoSide = None"
| "side_text (SideText s) = Some s"
| "side_text (SideEnum s) = Some s"

definition normalize_position_side :: "side_arg \<Rightarrow> direction option" where
  "normalize_position_side p =
     (case side_text p of
        None \<Rightarrow> None
      | Some s \<Rightarrow> if upper (strip s) = ''LONG'' then Some LONG
                 else if upper (strip s) = ''SHORT'' then Some SHORT else None)"

definition is_az :: "char \<Rightarrow> bool" where
  "is_az c = (97 \<le> code_point c \<and> code_point c \<le> 122)"

text \<open>The first non-empty piece of \<^verbatim>\<open>re.split("[^a-z]+", token)\<close>, or the token itself when there is none.\<close>

definition leading_word :: "string \<Rightarrow> string" where
  "leading_word t = (let w = takeWhile is_az (dropWhile (\<lambda>c. \<not> is_az c) t) in if w = [] then t else w)"

definition direction_of_token :: "string \<Rightarrow> direction" where
  "direction_of_token t =
     (if t \<in> set LONG_TOKENS then LONG
      else if t \<in> set SHORT_TOKENS then SHORT
      else if t \<in> set NEUTRAL_TOKENS then NEUTRAL
      else if leading_word t \<in> {''long'', ''buy'', ''bull'', ''bullish'', ''up''} then LONG
      else if leading_word t \<in> {''short'', ''sell'', ''bear'', ''bearish'', ''down''} then SHORT
      else NEUTRAL)"

fun canonical_direction :: "pyval \<Rightarrow> direction" where
  "canonical_direction (PStr s) = direction_of_token (lower (strip s))"
| "canonical_direction _ = NEUTRAL"

definition derive_side :: "string \<Rightarrow> pyval \<Rightarrow> side_arg \<Rightarrow> string option" where
  "derive_side action dir held =
     (let key = upper (strip action); d = canonical_direction dir
      in if key \<in> {''HOLD'', ''ADJUST_STOP'', ''REDUCE_POSITION''} then None
         else if key = ''ENTER'' then
           (case d of LONG \<Rightarrow> Some ''BUY'' | SHORT \<Rightarrow> Some ''SELL'' | NEUTRAL \<Rightarrow> None)
         else if key = ''EXIT'' then
           (case normalize_position_side held of
              None \<Rightarrow> None | Some h \<Rightarrow> Some (if h = LONG then ''SELL'' else ''BUY''))
         else None)"

section \<open>plausibility_check\<close>

text \<open>\<^verbatim>\<open>str(v or "")\<close> of the trend entry; the text of a number or a truth value is no regime.\<close>

fun regime_text :: "pyval \<Rightarrow> string" where
  "regime_text (PStr s) = lower (strip s)"
| "regime_text _ = ''''"

fun read_float :: "pyval \<Rightarrow> rat option" where
  "read_float v = (case to_float v of Inr x \<Rightarrow> Some x | Inl e \<Rightarrow> None)"

definition plausibility_check :: "pyval \<Rightarrow> (string, pyval) dict \<Rightarrow> bool" where
  "plausibility_check dir ind =
     (let d = canonical_direction dir; trend = regime_text (py_get ind ''trend_regime'');
          rsi = read_float (py_get ind ''momentum_rsi_14'')
      in \<not> (d = LONG \<and> trend \<in> {''downtrend'', ''weak_downtrend''} \<and> (case rsi of None \<Rightarrow> False | Some r \<Rightarrow> 70 < r))
       \<and> \<not> (d = SHORT \<and> trend \<in> {''uptrend'', ''weak_uptrend''} \<and> (case rsi of None \<Rightarrow> False | Some r \<Rightarrow> r < 30)))"

section \<open>normalize_decision\<close>

datatype rejection = Underivable | Implausible | LowConfidence

record validation =
  vr_decision :: "(string, pyval) dict"
  vr_ok :: bool
  vr_rejected :: "rejection option"
  vr_corrected :: "string list"

definition absent :: "pyval \<Rightarrow> bool" where
  "absent v = (v = PNone \<or> v = PStr '''')"

fun side_token :: "pyval \<Rightarrow> string" where
  "side_token (PStr s) = (let t = upper (strip s) in
     if t \<in> {''BUY'', ''SELL'', ''LONG'', ''SHORT''} then (if t \<in> {''BUY'', ''LONG''} then ''BUY'' else ''SELL'') else '''')"
| "side_token _ = ''''"

text \<open>\<^verbatim>\<open>str(out.get("action") or "HOLD").strip()\<close>; the text of a number is no action.\<close>

definition decision_action :: "(string, pyval) dict \<Rightarrow> string" where
  "decision_action d =
     (case py_get d ''action'' of
        PStr s \<Rightarrow> if s = [] then ''HOLD'' else strip s
      | v \<Rightarrow> if truthy v then '''' else ''HOLD'')"

definition raw_direction :: "(string, pyval) dict \<Rightarrow> pyval" where
  "raw_direction d =
     (if absent (py_get d ''direction'') \<and> \<not> absent (py_get d ''side'') then py_get d ''side'' else py_get d ''direction'')"

definition clamp :: "rat \<Rightarrow> rat" where
  "clamp x = max 0 (min 1 x)"

definition read_confidence :: "pyval \<Rightarrow> rat" where
  "read_confidence v = (case to_float v of Inr x \<Rightarrow> x | Inl e \<Rightarrow> 0)"

text \<open>The three steps of the body: direction and side, the plausibility gate, the confidence gate.\<close>

definition set_side :: "string \<Rightarrow> direction \<Rightarrow> side_arg \<Rightarrow> (string, pyval) dict \<Rightarrow> (string, pyval) dict \<times> rejection option \<times> string list" where
  "set_side action dir held d =
     (let out = AList.update ''direction'' (PStr (direction_name dir)) d
      in if action = ''HOLD'' then
           (AList.update ''direction'' (PStr ''NEUTRAL'') (AList.update ''side'' PNone d), None, [])
         else if action \<in> {''adjust_stop'', ''reduce_position''} then (out, None, [])
         else (case derive_side action (PStr (direction_name dir)) held of
            None \<Rightarrow> (out, Some Underivable, [])
          | Some s \<Rightarrow> (AList.update ''side'' (PStr s) out, None,
              if \<not> absent (py_get d ''side'') \<and> side_token (py_get d ''side'') \<noteq> s then [''side''] else [])))"

definition gate_decision :: "direction \<Rightarrow> (string, pyval) dict \<Rightarrow> string \<Rightarrow> (string, pyval) dict \<times> rejection option
     \<Rightarrow> (string, pyval) dict \<times> rejection option" where
  "gate_decision dir ind mode dr =
     (let set_result = (\<lambda>t. AList.update ''gate_result'' (PStr t) (fst dr))
      in if ind = [] then (set_result ''not_checked'', snd dr)
         else if plausibility_check (PStr (direction_name dir)) ind then (set_result ''pass'', snd dr)
         else if lower (strip mode) = ''veto''
         then (set_result ''veto'', (if snd dr = None then Some Implausible else snd dr))
         else (set_result ''warn'', snd dr))"

definition gate_confidence :: "string \<Rightarrow> rat \<Rightarrow> pyval \<Rightarrow> (string, pyval) dict \<times> rejection option
     \<Rightarrow> (string, pyval) dict \<times> rejection option" where
  "gate_confidence action confidence min_confidence dr =
     (let min_conf = clamp (read_confidence min_confidence)
      in if 0 < min_conf \<and> action \<in> {''ENTER'', ''EXIT''} \<and> confidence < min_conf \<and> snd dr = None
         then (AList.update ''gate_result'' (PStr ''confidence'') (fst dr), Some LowConfidence)
         else dr)"

definition decided_action :: "(string, pyval) dict \<Rightarrow> string" where
  "decided_action d = (if decision_action d \<in> set VALID_ACTIONS then decision_action d else ''HOLD'')"

definition checked_decision :: "(string, pyval) dict \<Rightarrow> (string, pyval) dict" where
  "checked_decision d =
     (if decision_action d \<in> set VALID_ACTIONS then d else AList.update ''action'' (PStr ''HOLD'') d)"

definition normalize_decision :: "(string, pyval) dict \<Rightarrow> side_arg \<Rightarrow> (string, pyval) dict \<Rightarrow> string \<Rightarrow> pyval \<Rightarrow> validation" where
  "normalize_decision d held ind mode min_confidence =
     (let action = decided_action d;
          dir = canonical_direction (raw_direction (checked_decision d));
          s = set_side action dir held (checked_decision d);
          confidence = read_confidence (py_get (fst s) ''confidence'');
          out = AList.update ''confidence'' (PFloat (clamp confidence)) (fst s);
          g = gate_confidence action confidence min_confidence (gate_decision dir ind mode (out, fst (snd s)))
      in \<lparr>vr_decision = fst g, vr_ok = (snd g = None), vr_rejected = snd g, vr_corrected = snd (snd s)\<rparr>)"

section \<open>Lemmas\<close>

lemma canonical_names:
  "canonical_direction (PStr ''LONG'') = LONG" "canonical_direction (PStr ''SHORT'') = SHORT"
  "canonical_direction (PStr ''NEUTRAL'') = NEUTRAL"
  by code_simp+

declare canonical_direction.simps(1) [simp del]

lemma canonical_direction_name [simp]: "canonical_direction (PStr (direction_name d)) = d"
  by (cases d) (simp_all add: canonical_names)

lemma py_get_update [simp]: "py_get (AList.update k v d) k' = (if k' = k then v else py_get d k')"
  by (simp add: py_get_def map_of_AList_update)

lemma clamp_bounds: "0 \<le> clamp x \<and> clamp x \<le> 1"
  by (simp add: clamp_def)

text \<open>The confidence gate compares the unclamped value, and decides as the clamped one would.\<close>

lemma confidence_gate_clamped: "0 < m \<Longrightarrow> m \<le> 1 \<Longrightarrow> x < m \<longleftrightarrow> clamp x < m"
  by (auto simp: clamp_def min_def max_def)

lemma derive_entry: "derive_side ''ENTER'' (PStr (direction_name d)) held =
    (case d of LONG \<Rightarrow> Some ''BUY'' | SHORT \<Rightarrow> Some ''SELL'' | NEUTRAL \<Rightarrow> None)"
proof -
  have "upper (strip ''ENTER'') = ''ENTER''" by code_simp
  then show ?thesis by (simp add: derive_side_def)
qed

lemma derive_exit: "derive_side ''EXIT'' (PStr (direction_name d)) held =
    (case normalize_position_side held of None \<Rightarrow> None | Some h \<Rightarrow> Some (if h = LONG then ''SELL'' else ''BUY''))"
proof -
  have "upper (strip ''EXIT'') = ''EXIT''" by code_simp
  then show ?thesis by (simp add: derive_side_def)
qed

lemma set_side_keeps: "k \<noteq> ''side'' \<Longrightarrow> k \<noteq> ''direction'' \<Longrightarrow> py_get (fst (set_side a dir held d)) k = py_get d k"
  by (simp add: set_side_def Let_def split: option.split)

lemma gate_decision_keeps: "k \<noteq> ''gate_result'' \<Longrightarrow> py_get (fst (gate_decision dir ind mode dr)) k = py_get (fst dr) k"
  by (simp add: gate_decision_def Let_def)

lemma gate_confidence_keeps: "k \<noteq> ''gate_result'' \<Longrightarrow> py_get (fst (gate_confidence a c m dr)) k = py_get (fst dr) k"
  by (simp add: gate_confidence_def Let_def)

lemma set_side_hold:
  "set_side ''HOLD'' dir held d = (AList.update ''direction'' (PStr ''NEUTRAL'') (AList.update ''side'' PNone d), None, [])"
  by (simp add: set_side_def Let_def)

lemma set_side_entry:
  assumes "fst (snd (set_side ''ENTER'' dir held d)) = None"
  shows "dir \<noteq> NEUTRAL \<and> fst (set_side ''ENTER'' dir held d) =
    AList.update ''side'' (PStr (if dir = LONG then ''BUY'' else ''SELL'')) (AList.update ''direction'' (PStr (direction_name dir)) d)"
  using assms by (auto simp: set_side_def Let_def derive_entry split: direction.splits)

lemma set_side_exit:
  assumes "fst (snd (set_side ''EXIT'' dir held d)) = None"
  shows "\<exists>h. normalize_position_side held = Some h \<and> fst (set_side ''EXIT'' dir held d) =
    AList.update ''side'' (PStr (if h = LONG then ''SELL'' else ''BUY'')) (AList.update ''direction'' (PStr (direction_name dir)) d)"
  using assms by (cases "normalize_position_side held") (simp_all add: set_side_def Let_def derive_exit)

lemma gates_accept:
  assumes "snd (gate_confidence a c m (gate_decision dir ind mode dr)) = None"
  shows "snd dr = None \<and> (lower (strip mode) = ''veto'' \<longrightarrow> ind = [] \<or> plausibility_check (PStr (direction_name dir)) ind)
    \<and> (a \<in> {''ENTER'', ''EXIT''} \<longrightarrow> clamp (read_confidence m) \<le> clamp c)"
proof -
  have g: "snd (gate_decision dir ind mode dr) = None"
    using assms by (auto simp: gate_confidence_def Let_def split: if_splits)
  then have 1: "snd dr = None \<and> (lower (strip mode) = ''veto'' \<longrightarrow> ind = [] \<or> plausibility_check (PStr (direction_name dir)) ind)"
    by (auto simp: gate_decision_def Let_def split: if_splits)
  have "clamp (read_confidence m) \<le> clamp c" if "a \<in> {''ENTER'', ''EXIT''}"
  proof (cases "0 < clamp (read_confidence m)")
    case True
    then have "\<not> c < clamp (read_confidence m)" using assms g that by (auto simp: gate_confidence_def Let_def split: if_splits)
    then show ?thesis using confidence_gate_clamped[OF True, of c] clamp_bounds[of "read_confidence m"] by auto
  next
    case False
    then show ?thesis using clamp_bounds[of c] clamp_bounds[of "read_confidence m"] by auto
  qed
  with 1 show ?thesis by blast
qed

lemma checked_decision_simps [simp]:
  "k \<noteq> ''action'' \<Longrightarrow> py_get (checked_decision d) k = py_get d k"
  "raw_direction (checked_decision d) = raw_direction d"
proof -
  show k: "k \<noteq> ''action'' \<Longrightarrow> py_get (checked_decision d) k = py_get d k" for k by (simp add: checked_decision_def)
  have n: "''direction'' \<noteq> ''action''" "''side'' \<noteq> ''action''" by simp_all
  show "raw_direction (checked_decision d) = raw_direction d" unfolding raw_direction_def k[OF n(1)] k[OF n(2)] ..
qed

text \<open>What an accepted decision is made of.\<close>

lemma accepted_parts:
  assumes "vr_ok (normalize_decision d held ind mode m)"
  defines "s \<equiv> set_side (decided_action d) (canonical_direction (raw_direction d)) held (checked_decision d)"
    and "c \<equiv> read_confidence (py_get d ''confidence'')"
  shows "fst (snd s) = None" "lower (strip mode) = ''veto'' \<Longrightarrow> ind = [] \<or> plausibility_check (raw_direction d) ind"
    "decided_action d \<in> {''ENTER'', ''EXIT''} \<Longrightarrow> clamp (read_confidence m) \<le> clamp c"
    "k \<noteq> ''gate_result'' \<Longrightarrow> k \<noteq> ''confidence'' \<Longrightarrow> py_get (vr_decision (normalize_decision d held ind mode m)) k = py_get (fst s) k"
    "py_get (vr_decision (normalize_decision d held ind mode m)) ''confidence'' = PFloat (clamp c)"
proof -
  have c: "read_confidence (py_get (fst s) ''confidence'') = c" by (simp add: s_def c_def set_side_keeps)
  let ?g = "gate_confidence (decided_action d) c m (gate_decision (canonical_direction (raw_direction d)) ind mode
      (AList.update ''confidence'' (PFloat (clamp c)) (fst s), fst (snd s)))"
  have n: "normalize_decision d held ind mode m =
      \<lparr>vr_decision = fst ?g, vr_ok = (snd ?g = None), vr_rejected = snd ?g, vr_corrected = snd (snd s)\<rparr>"
    unfolding normalize_decision_def checked_decision_simps s_def[symmetric] Let_def c ..
  have p: "plausibility_check (PStr (direction_name (canonical_direction (raw_direction d)))) ind = plausibility_check (raw_direction d) ind"
    by (simp add: plausibility_check_def)
  have "snd ?g = None" using assms(1) by (simp add: n)
  from gates_accept[OF this] p show "fst (snd s) = None" "lower (strip mode) = ''veto'' \<Longrightarrow> ind = [] \<or> plausibility_check (raw_direction d) ind"
    "decided_action d \<in> {''ENTER'', ''EXIT''} \<Longrightarrow> clamp (read_confidence m) \<le> clamp c" by simp_all
  show "k \<noteq> ''gate_result'' \<Longrightarrow> k \<noteq> ''confidence'' \<Longrightarrow> py_get (vr_decision (normalize_decision d held ind mode m)) k = py_get (fst s) k"
    "py_get (vr_decision (normalize_decision d held ind mode m)) ''confidence'' = PFloat (clamp c)"
    by (simp_all add: n gate_confidence_keeps gate_decision_keeps)
qed

section \<open>Properties\<close>

text \<open>
  \<^bold>\<open>C19\<close>. No inversion gets through: in every accepted decision an entry has the side of its forecast
  direction and an exit the side that closes the held position, whatever side the model supplied; a
  \<^verbatim>\<open>HOLD\<close> has no side; the confidence is in the unit interval, and for an entry or an exit at least the
  configured minimum; and with the gate in \<^verbatim>\<open>veto\<close> mode the direction passed the plausibility check.
\<close>

theorem accepted_decision_sound:
  assumes "vr_ok (normalize_decision d held ind mode m)"
  shows "let out = vr_decision (normalize_decision d held ind mode m); action = decided_action d in
    (action = ''ENTER'' \<longrightarrow> (\<exists>dir \<in> {LONG, SHORT}. canonical_direction (raw_direction d) = dir
        \<and> py_get out ''direction'' = PStr (direction_name dir)
        \<and> py_get out ''side'' = PStr (if dir = LONG then ''BUY'' else ''SELL'')))
    \<and> (action = ''EXIT'' \<longrightarrow> (\<exists>h. normalize_position_side held = Some h
        \<and> py_get out ''side'' = PStr (if h = LONG then ''SELL'' else ''BUY'')))
    \<and> (action = ''HOLD'' \<longrightarrow> py_get out ''side'' = PNone)
    \<and> (\<exists>c. py_get out ''confidence'' = PFloat c \<and> 0 \<le> c \<and> c \<le> 1
        \<and> (action \<in> {''ENTER'', ''EXIT''} \<longrightarrow> clamp (read_confidence m) \<le> c))
    \<and> (lower (strip mode) = ''veto'' \<longrightarrow> ind = [] \<or> plausibility_check (raw_direction d) ind)"
  unfolding Let_def
proof (intro conjI impI)
  note p = accepted_parts[OF assms]
  let ?out = "vr_decision (normalize_decision d held ind mode m)" and ?dir = "canonical_direction (raw_direction d)"
  show "\<exists>dir \<in> {LONG, SHORT}. ?dir = dir \<and> py_get ?out ''direction'' = PStr (direction_name dir)
      \<and> py_get ?out ''side'' = PStr (if dir = LONG then ''BUY'' else ''SELL'')" if a: "decided_action d = ''ENTER''"
  proof -
    have s: "?dir \<noteq> NEUTRAL" "fst (set_side ''ENTER'' ?dir held (checked_decision d)) =
        AList.update ''side'' (PStr (if ?dir = LONG then ''BUY'' else ''SELL''))
          (AList.update ''direction'' (PStr (direction_name ?dir)) (checked_decision d))"
      using set_side_entry[OF p(1)[unfolded a]] by blast+
    have "py_get ?out ''direction'' = PStr (direction_name ?dir)"
      "py_get ?out ''side'' = PStr (if ?dir = LONG then ''BUY'' else ''SELL'')"
      using p(4)[of "''direction''"] p(4)[of "''side''"] unfolding a s(2) by simp_all
    moreover have "?dir \<in> {LONG, SHORT}" using s(1) by (cases ?dir) simp_all
    ultimately show ?thesis by blast
  qed
  show "\<exists>h. normalize_position_side held = Some h \<and> py_get ?out ''side'' = PStr (if h = LONG then ''SELL'' else ''BUY'')"
    if a: "decided_action d = ''EXIT''"
  proof -
    obtain h where h: "normalize_position_side held = Some h" "fst (set_side ''EXIT'' ?dir held (checked_decision d)) =
        AList.update ''side'' (PStr (if h = LONG then ''SELL'' else ''BUY''))
          (AList.update ''direction'' (PStr (direction_name ?dir)) (checked_decision d))"
      using set_side_exit[OF p(1)[unfolded a]] by blast
    have "py_get ?out ''side'' = PStr (if h = LONG then ''SELL'' else ''BUY'')"
      using p(4)[of "''side''"] unfolding a h(2) by simp
    with h(1) show ?thesis by blast
  qed
  show "py_get ?out ''side'' = PNone" if a: "decided_action d = ''HOLD''"
    using p(4)[of "''side''"] unfolding a set_side_hold by simp
  show "\<exists>c. py_get ?out ''confidence'' = PFloat c \<and> 0 \<le> c \<and> c \<le> 1
      \<and> (decided_action d \<in> {''ENTER'', ''EXIT''} \<longrightarrow> clamp (read_confidence m) \<le> c)"
    using p(3,5) clamp_bounds by blast
  show "ind = [] \<or> plausibility_check (raw_direction d) ind" if "lower (strip mode) = ''veto''"
    using p(2)[OF that] .
qed

definition example_decision :: "(string, pyval) dict" where
  "example_decision = [(''action'', PStr ''ENTER''), (''direction'', PStr ''bearish''), (''side'', PStr ''BUY''),
     (''confidence'', PFloat 2)]"

theorem accepted_decision_sound_witness:
  "py_get (vr_decision (normalize_decision example_decision NoSide [] ''veto'' (PFloat (1 / 2)))) ''side'' = PStr ''SELL''"
proof -
  have ok: "vr_ok (normalize_decision example_decision NoSide [] ''veto'' (PFloat (1 / 2)))" by code_simp
  have a: "decided_action example_decision = ''ENTER''" by code_simp
  have d: "canonical_direction (raw_direction example_decision) = SHORT" by code_simp
  from accepted_decision_sound[OF ok] show ?thesis by (auto simp: Let_def a d)
qed

text \<open>
  A \<^verbatim>\<open>HOLD\<close> is not always let through as a no-op: its leftover direction is checked like an entry's, and
  in \<^verbatim>\<open>veto\<close> mode it is rejected.
\<close>

lemma hold_can_be_vetoed:
  "vr_rejected (normalize_decision [(''action'', PStr ''HOLD''), (''direction'', PStr ''long'')] NoSide
     [(''trend_regime'', PStr ''downtrend''), (''momentum_rsi_14'', PFloat 75)] ''veto'' (PFloat 0)) = Some Implausible"
  by code_simp

end
