(* ===== verification/Signals.thy ===== *)
theory Signals
  imports Indicators Validator
begin

text \<open>
  \<^verbatim>\<open>src/quad/ai/ta.py\<close>, second half: the deterministic signals made from one timeframe's indicators, and
  how they agree with the plausibility gate of \<^verbatim>\<open>ai/validator.py\<close>. An indicator dict holds floats, texts,
  truth values or \<^verbatim>\<open>None\<close>, as \<open>compute_indicators\<close> fills it; \<open>number\<close> reads a float entry.
\<close>

section \<open>generate_local_signal\<close>

fun number :: "pyval \<Rightarrow> rat option" where
  "number (PFloat x) = Some x"
| "number (PInt n) = Some (of_int n)"
| "number _ = None"

definition ind_num :: "(string, pyval) dict \<Rightarrow> string \<Rightarrow> rat option" where
  "ind_num ind k = number (py_get ind k)"

definition trend_bias :: "rat option \<Rightarrow> rat option \<Rightarrow> rat" where
  "trend_bias e20 e50 =
     (case (e20, e50) of
        (Some a, Some b) \<Rightarrow> if a \<noteq> 0 \<and> b \<noteq> 0 then (if b < a then 1 else if a < b then - 1 else 0) else 0
      | _ \<Rightarrow> 0)"

definition amplify_adx :: "rat option \<Rightarrow> rat \<Rightarrow> rat" where
  "amplify_adx adx s =
     (case adx of Some a \<Rightarrow> if 25 < a then fround (s * fround (1 + min (fround (a / 50)) 1)) else s | None \<Rightarrow> s)"

definition add_rsi :: "rat option \<Rightarrow> rat \<Rightarrow> rat" where
  "add_rsi rsi s =
     (case rsi of None \<Rightarrow> s
      | Some r \<Rightarrow> if r < 30 then fround (s + 1 / 2) else if 70 < r then fround (s - 1 / 2)
                 else if r < 45 then fround (s + fround (15 / 100))
                 else if 55 < r then fround (s - fround (15 / 100)) else s)"

definition add_cross :: "pyval \<Rightarrow> rat \<Rightarrow> rat" where
  "add_cross cross s =
     (if cross = PStr ''bullish'' then fround (s + fround (7 / 10))
      else if cross = PStr ''bearish'' then fround (s - fround (7 / 10)) else s)"

definition add_histogram :: "rat option \<Rightarrow> rat \<Rightarrow> rat" where
  "add_histogram hist s =
     (case hist of None \<Rightarrow> s
      | Some h \<Rightarrow> if 0 < h then fround (s + fround (2 / 10)) else if h < 0 then fround (s - fround (2 / 10)) else s)"

definition amplify_volume :: "pyval \<Rightarrow> rat option \<Rightarrow> rat \<Rightarrow> rat" where
  "amplify_volume spike ratio s = (if truthy spike \<and> ratio \<noteq> None then fround (s * fround (12 / 10)) else s)"

definition local_score :: "(string, pyval) dict \<Rightarrow> rat" where
  "local_score ind =
     amplify_volume (get_or ind ''volume_spike'' (PBool False)) (ind_num ind ''volume_sma_20_ratio'')
       (add_histogram (ind_num ind ''momentum_macd_histogram'')
         (add_cross (get_or ind ''momentum_macd_cross'' (PStr ''neutral''))
           (add_rsi (ind_num ind ''momentum_rsi_14'')
             (amplify_adx (ind_num ind ''trend_adx'')
               (trend_bias (ind_num ind ''trend_ema_20'') (ind_num ind ''trend_ema_50''))))))"

definition clamp_score :: "rat \<Rightarrow> rat" where
  "clamp_score s = max (- 3) (min 3 s)"

definition local_strength :: "rat \<Rightarrow> rat" where
  "local_strength s = fround_places 3 (min (fround (\<bar>clamp_score s\<bar> / 3)) 1)"

definition local_direction :: "rat \<Rightarrow> direction" where
  "local_direction s =
     (if fround (4 / 10) < clamp_score s then LONG else if clamp_score s < - fround (4 / 10) then SHORT else NEUTRAL)"

definition volatility_regime :: "rat option \<Rightarrow> string" where
  "volatility_regime atr_pct =
     (case atr_pct of None \<Rightarrow> ''normal''
      | Some a \<Rightarrow> if 3 < a then ''high'' else if a < fround (8 / 10) then ''low'' else ''normal'')"

definition funding_sentiment :: "rat option \<Rightarrow> string" where
  "funding_sentiment rate =
     (case rate of None \<Rightarrow> ''neutral''
      | Some r \<Rightarrow> if fround (5 / 10000) < r then ''crowded_long'' else if r < - fround (5 / 10000) then ''crowded_short'' else ''neutral'')"

definition generate_local_signal :: "(string, pyval) dict \<Rightarrow> string \<Rightarrow> rat option \<Rightarrow> rat option \<Rightarrow> (string, pyval) dict" where
  "generate_local_signal ind symb rate annual =
     [(''symbol'', PStr symb), (''price'', py_get ind ''price_current''),
      (''price_change_pct'', py_get ind ''price_change_pct''), (''trend'', get_or ind ''trend_regime'' (PStr ''unknown'')),
      (''adx'', py_get ind ''trend_adx''), (''rsi'', py_get ind ''momentum_rsi_14''),
      (''rsi_regime'', get_or ind ''momentum_rsi_regime'' (PStr ''neutral'')),
      (''macd_cross'', get_or ind ''momentum_macd_cross'' (PStr ''neutral'')),
      (''macd_hist'', py_get ind ''momentum_macd_histogram''),
      (''stoch_k'', py_get ind ''momentum_stoch_k''), (''stoch_d'', py_get ind ''momentum_stoch_d''),
      (''bb_position'', py_get ind ''volatility_bb_position''),
      (''volatility'', PStr (volatility_regime (ind_num ind ''volatility_atr_pct''))),
      (''atr_pct'', py_get ind ''volatility_atr_pct''), (''volume_ratio'', py_get ind ''volume_sma_20_ratio''),
      (''volume_spike'', get_or ind ''volume_spike'' (PBool False)),
      (''price_vs_ema20'', py_get ind ''trend_price_vs_ema20''),
      (''funding_rate'', opt_num rate), (''funding_annual_pct'', opt_num annual),
      (''funding_sentiment'', PStr (funding_sentiment rate)),
      (''local_direction'', PStr (direction_name (local_direction (local_score ind)))),
      (''local_strength'', PFloat (local_strength (local_score ind)))]"

section \<open>generate_scalp_signal\<close>

definition scalp_rsi :: "rat option \<Rightarrow> rat" where
  "scalp_rsi rsi =
     (case rsi of None \<Rightarrow> 0
      | Some r \<Rightarrow> if r < 30 then min (fround (fround (30 - r) / 15)) 1
                 else if 70 < r then - min (fround (fround (r - 70) / 15)) 1 else 0)"

definition add_stochastic :: "rat option \<Rightarrow> rat option \<Rightarrow> rat \<Rightarrow> rat" where
  "add_stochastic k d s =
     (case (k, d) of
        (Some k, Some d) \<Rightarrow>
          if k < 20 \<and> d < k then fround (s + 1 / 2) else if 80 < k \<and> k < d then fround (s - 1 / 2) else s
      | _ \<Rightarrow> s)"

definition add_band :: "rat option \<Rightarrow> rat \<Rightarrow> rat" where
  "add_band position s =
     (case position of None \<Rightarrow> s
      | Some b \<Rightarrow> if b \<le> fround (5 / 100) then fround (s + fround (4 / 10))
                 else if fround (95 / 100) \<le> b then fround (s - fround (4 / 10)) else s)"

definition scalp_score :: "(string, pyval) dict \<Rightarrow> rat" where
  "scalp_score ind =
     (let s = add_band (ind_num ind ''volatility_bb_position'')
                (add_stochastic (ind_num ind ''momentum_stoch_k'') (ind_num ind ''momentum_stoch_d'')
                  (scalp_rsi (ind_num ind ''momentum_rsi_14'')));
          s1 = (if truthy (get_or ind ''volume_spike'' (PBool False)) \<and> s \<noteq> 0 then fround (s * fround (13 / 10)) else s)
      in (case ind_num ind ''volatility_atr_pct'' of
            Some a \<Rightarrow> if a < fround (5 / 100) then fround (s1 / 2) else s1
          | None \<Rightarrow> s1))"

definition scalp_strength :: "rat \<Rightarrow> rat" where
  "scalp_strength s = min (fround (\<bar>s\<bar> / (3 / 2))) 1"

definition scalp_direction :: "rat \<Rightarrow> direction" where
  "scalp_direction s =
     (if scalp_strength s < fround (35 / 100) then NEUTRAL else if 0 < s then LONG else SHORT)"

definition generate_scalp_signal :: "(string, pyval) dict \<Rightarrow> string \<Rightarrow> (string, pyval) dict" where
  "generate_scalp_signal ind symb =
     [(''symbol'', PStr symb), (''price'', py_get ind ''price_current''),
      (''price_change_pct'', py_get ind ''price_change_pct''), (''rsi'', py_get ind ''momentum_rsi_14''),
      (''stoch_k'', py_get ind ''momentum_stoch_k''), (''stoch_d'', py_get ind ''momentum_stoch_d''),
      (''bb_position'', py_get ind ''volatility_bb_position''), (''atr_pct'', py_get ind ''volatility_atr_pct''),
      (''volume_ratio'', py_get ind ''volume_sma_20_ratio''),
      (''volume_spike'', PBool (truthy (get_or ind ''volume_spike'' (PBool False)))), (''setup'', PStr ''scalp_reversion''),
      (''local_direction'', PStr (direction_name (scalp_direction (scalp_score ind)))),
      (''local_strength'', PFloat (fround_places 3 (scalp_strength (scalp_score ind))))]"

section \<open>What compute_indicators puts under each key\<close>

lemma map_of_opt_tail: "k \<noteq> n \<Longrightarrow> map_of (xs @ (case v of None \<Rightarrow> [] | Some r \<Rightarrow> [(n, f r)]) @ ys) k = map_of (xs @ ys) k"
  by (cases v) (auto simp: map_add_def split: option.split)

lemma py_get_append: "py_get (xs @ ys) k = (if map_of xs k = None then py_get ys k else py_get xs k)"
  by (auto simp: py_get_def map_add_def split: option.split)

lemma trend_values:
  "py_get (trend_fields cs) ''trend_ema_20'' = opt_num (compute_ema (closes cs) 20)"
  "py_get (trend_fields cs) ''trend_ema_50'' = opt_num (compute_ema (closes cs) 50)"
  "py_get (trend_fields cs) ''trend_adx'' = opt_num (fst (compute_adx (highs cs) (lows cs) (closes cs) 14))"
  "py_get (trend_fields cs) ''trend_regime'' = PStr (detect_trend_regime (closes cs)
     (compute_ema (closes cs) 20) (compute_ema (closes cs) 50) (compute_ema (closes cs) 200))"
  by (simp_all add: trend_fields_def py_get_def Let_def split: prod.split)

lemma trend_keys: "fst ` set (trend_fields cs) = {''trend_ema_20'', ''trend_ema_50'', ''trend_ema_200'', ''trend_adx'',
    ''trend_plus_di'', ''trend_minus_di'', ''trend_regime'', ''trend_price_vs_ema20''}"
  by (cases "compute_adx (highs cs) (lows cs) (closes cs) 14" rule: prod_cases3) (simp add: trend_fields_def Let_def)

lemma momentum_values:
  "py_get (momentum_fields cs) ''momentum_rsi_14'' = opt_num (compute_rsi (closes cs) 14)"
  "py_get (momentum_fields cs) ''momentum_stoch_k'' = opt_num (fst (compute_stochastic (highs cs) (lows cs) (closes cs) 14 3))"
  by (simp_all add: momentum_fields_def py_get_append Let_def split: prod.split) (simp_all add: py_get_def)

lemma momentum_keys: "fst ` set (momentum_fields cs) \<subseteq> {''momentum_rsi_14'', ''momentum_macd'', ''momentum_macd_signal'',
    ''momentum_macd_histogram'', ''momentum_macd_cross'', ''momentum_stoch_k'', ''momentum_stoch_d'', ''momentum_rsi_regime''}"
  by (auto simp: momentum_fields_def Let_def split: prod.splits option.splits)

lemma volatility_values:
  "py_get (volatility_fields cs) ''volatility_bb_middle'' = opt_num (bb_middle (compute_bollinger_bands (closes cs) 20 2))"
  "py_get (volatility_fields cs) ''volatility_bb_upper'' = opt_num (bb_upper (compute_bollinger_bands (closes cs) 20 2))"
  "py_get (volatility_fields cs) ''volatility_bb_lower'' = opt_num (bb_lower (compute_bollinger_bands (closes cs) 20 2))"
  "py_get (volatility_fields cs) ''volatility_atr_14'' = opt_num (compute_atr (highs cs) (lows cs) (closes cs) 14)"
  by (simp_all add: volatility_fields_def py_get_append Let_def) (simp_all add: py_get_def)

lemma py_get_absent: "k \<notin> fst ` set xs \<Longrightarrow> py_get (xs @ ys) k = py_get ys k"
  by (simp add: py_get_append map_of_eq_None_iff)

lemma py_get_present: "k \<in> fst ` set xs \<Longrightarrow> py_get (xs @ ys) k = py_get xs k"
  by (simp add: py_get_append map_of_eq_None_iff)

lemma compute_indicators_parts:
  assumes "compute_indicators cs = Inr ind" "14 \<le> length cs"
  obtains rest where "ind = (''_candle_count'', PInt (int (length cs))) # trend_fields cs @ momentum_fields cs @ volatility_fields cs @ rest"
  using assms by (auto simp: compute_indicators_def bindE_Inr_iff)

lemma py_get_Cons: "py_get ((k', v) # xs) k = (if k = k' then v else py_get xs k)"
  by (simp add: py_get_def)

lemma indicator_values:
  assumes "compute_indicators cs = Inr ind" "14 \<le> length cs"
  shows "py_get ind ''trend_ema_20'' = opt_num (compute_ema (closes cs) 20)"
    "py_get ind ''trend_ema_50'' = opt_num (compute_ema (closes cs) 50)"
    "py_get ind ''trend_regime'' = PStr (detect_trend_regime (closes cs)
       (compute_ema (closes cs) 20) (compute_ema (closes cs) 50) (compute_ema (closes cs) 200))"
    "py_get ind ''momentum_rsi_14'' = opt_num (compute_rsi (closes cs) 14)"
    "py_get ind ''momentum_stoch_k'' = opt_num (fst (compute_stochastic (highs cs) (lows cs) (closes cs) 14 3))"
    "py_get ind ''volatility_bb_middle'' = opt_num (bb_middle (compute_bollinger_bands (closes cs) 20 2))"
    "py_get ind ''volatility_bb_upper'' = opt_num (bb_upper (compute_bollinger_bands (closes cs) 20 2))"
    "py_get ind ''volatility_bb_lower'' = opt_num (bb_lower (compute_bollinger_bands (closes cs) 20 2))"
    "py_get ind ''volatility_atr_14'' = opt_num (compute_atr (highs cs) (lows cs) (closes cs) 14)"
proof -
  from assms obtain rest where ind: "ind = (''_candle_count'', PInt (int (length cs))) # trend_fields cs @ momentum_fields cs @ volatility_fields cs @ rest"
    by (rule compute_indicators_parts)
  have m: "k \<in> fst ` set (momentum_fields cs)" if "k \<in> {''momentum_rsi_14'', ''momentum_stoch_k''}" for k
    using that by (cases "compute_stochastic (highs cs) (lows cs) (closes cs) 14 3") (auto simp: momentum_fields_def Let_def)
  have v: "k \<in> fst ` set (volatility_fields cs)"
    if "k \<in> {''volatility_bb_middle'', ''volatility_bb_upper'', ''volatility_bb_lower'', ''volatility_atr_14''}" for k
    using that by (auto simp: volatility_fields_def Let_def)
  have mk: "k \<notin> fst ` set (momentum_fields cs)" if "hd k = CHR ''v''" for k
    using that momentum_keys[of cs] by auto
  note g = py_get_Cons py_get_present py_get_absent trend_keys
  show "py_get ind ''trend_ema_20'' = opt_num (compute_ema (closes cs) 20)"
    "py_get ind ''trend_ema_50'' = opt_num (compute_ema (closes cs) 50)"
    "py_get ind ''trend_regime'' = PStr (detect_trend_regime (closes cs)
       (compute_ema (closes cs) 20) (compute_ema (closes cs) 50) (compute_ema (closes cs) 200))"
    unfolding ind by (simp_all add: g trend_values)
  show "py_get ind ''momentum_rsi_14'' = opt_num (compute_rsi (closes cs) 14)"
    "py_get ind ''momentum_stoch_k'' = opt_num (fst (compute_stochastic (highs cs) (lows cs) (closes cs) 14 3))"
    unfolding ind by (simp_all add: g m momentum_values)
  show "py_get ind ''volatility_bb_middle'' = opt_num (bb_middle (compute_bollinger_bands (closes cs) 20 2))"
    "py_get ind ''volatility_bb_upper'' = opt_num (bb_upper (compute_bollinger_bands (closes cs) 20 2))"
    "py_get ind ''volatility_bb_lower'' = opt_num (bb_lower (compute_bollinger_bands (closes cs) 20 2))"
    "py_get ind ''volatility_atr_14'' = opt_num (compute_atr (highs cs) (lows cs) (closes cs) 14)"
    unfolding ind by (simp_all add: g mk v volatility_values)
qed

lemma compute_indicators_total:
  assumes "\<forall>c \<in> set cs. 0 < cd_close c"
  shows "\<exists>ind. compute_indicators cs = Inr ind"
proof (cases "length cs < 14")
  case False
  then have "hd (closes cs) \<noteq> 0" using assms by (cases cs) (auto simp: closes_def)
  then show ?thesis by (simp add: compute_indicators_def price_fields_def Let_def)
qed (simp add: compute_indicators_def)

section \<open>Averages of positive prices\<close>

lemma ema_step_pos:
  assumes "0 < x" "0 < prev" "fround prev = prev" "0 \<le> k" "k \<le> 9 / 10"
  shows "0 < fround (fround (fround (x - prev) * k) + prev)"
proof -
  have e: "feps \<le> 1 / 100" "0 < feps" using feps_small by simp_all
  have "- prev \<le> fround (x - prev)" using assms flt.rep_le_rnd[of "- prev" "x - prev"] by (simp add: flt.rnd_minus)
  then have "- (prev * k) \<le> fround (x - prev) * k" using mult_right_mono[of "- prev" "fround (x - prev)" k] assms(4) by simp
  then have "- fround (prev * k) \<le> fround (fround (x - prev) * k)" using flt.rnd_mono by (metis flt.rnd_minus)
  moreover have "fround (prev * k) < prev"
  proof -
    have "fround (prev * k) \<le> prev * k * (1 + feps)" using assms by (intro flt.rnd_upper) simp
    also have "\<dots> \<le> prev * (9 / 10) * (1 + 1 / 100)" using assms e by (intro mult_mono) auto
    also have "\<dots> < prev" using assms(2) by simp
    finally show ?thesis .
  qed
  ultimately show ?thesis by simp
qed

lemma ema_from_pos:
  "0 < prev \<Longrightarrow> fround prev = prev \<Longrightarrow> \<forall>x \<in> set xs. 0 < x \<Longrightarrow> 0 \<le> k \<Longrightarrow> k \<le> 9 / 10 \<Longrightarrow> y \<in> set (ema_from k prev xs) \<Longrightarrow> 0 < y"
proof (induction xs arbitrary: prev)
  case (Cons x xs)
  let ?e = "fround (fround (fround (x - prev) * k) + prev)"
  have "0 < ?e" using Cons.prems by (intro ema_step_pos) auto
  moreover have "y = ?e \<or> y \<in> set (ema_from k ?e xs)" using Cons.prems(6) by (simp add: Let_def)
  ultimately show ?case using Cons.IH[of ?e] Cons.prems(3-5) by auto
qed simp

lemma ema_pos:
  assumes "\<forall>x \<in> set xs. 0 < x \<and> fround x = x" "length xs \<le> 2 ^ 40" "2 \<le> p" "y \<in> set (ema xs p)"
  shows "0 < y"
proof -
  have len: "p \<le> length xs" using assms(4) by (auto simp: ema_def split: if_splits)
  let ?s = "fround (float_sum (take p xs) / of_nat p)" and ?k = "fround (2 / of_nat (p + 1))"
  have "0 < ?s" using assms(1-3) len by (intro fsum.mean_pos) (auto dest: in_set_takeD)
  moreover have "?k \<le> 9 / 10"
  proof -
    have "(3 :: rat) \<le> of_nat (p + 1)" using assms(3) by simp
    then have "(2 :: rat) / of_nat (p + 1) \<le> 2 / 3" by (intro divide_left_mono) auto
    then have "?k \<le> fround (2 / 3)" by (rule flt.rnd_mono)
    also have "\<dots> \<le> 2 / 3 * (1 + feps)" by (rule flt.rnd_upper) simp
    also have "\<dots> \<le> 9 / 10" using feps_small by simp
    finally show ?thesis .
  qed
  moreover have "0 \<le> ?k" by (intro flt.rnd_nonneg) simp
  moreover have "\<forall>x \<in> set (drop p xs). 0 < x" using assms(1) by (auto dest: in_set_dropD)
  ultimately show ?thesis
    using assms(4) len ema_from_pos[of ?s "drop p xs" ?k y] by (auto simp: ema_def Let_def simp del: of_nat_add of_nat_Suc)
qed

lemma compute_ema_pos:
  assumes "\<forall>c \<in> set cs. 0 < cd_close c" "length cs \<le> 2 ^ 40" "2 \<le> p" "compute_ema (closes cs) p = Some e"
  shows "0 < e"
  using assms ema_pos[of "closes cs" p e] last_opt_set[of "ema (closes cs) p" e]
  by (simp add: compute_ema_def closes_def)

section \<open>Well-formed reports\<close>

lemma opt_num_PFloat [simp]: "opt_num x = PFloat r \<longleftrightarrow> x = Some r" "opt_num x = PNone \<longleftrightarrow> x = None"
  by (auto simp: opt_num_def split: option.splits)

lemma opt_num_cases: "opt_num x = PNone \<or> (\<exists>r. opt_num x = PFloat r)"
  by (auto simp: opt_num_def split: option.split)

lemma number_opt_num [simp]: "number (opt_num x) = x"
  by (cases x) (simp_all add: opt_num_def)

lemma read_float_opt_num [simp]: "read_float (opt_num x) = x"
  by (cases x) (simp_all add: opt_num_def)

lemma ohlc_le:
  assumes "\<forall>c \<in> set cs. cd_low c \<le> cd_close c \<and> cd_close c \<le> cd_high c" "j < length cs"
  shows "lows cs ! j \<le> closes cs ! j \<and> closes cs ! j \<le> highs cs ! j"
  using assms by (auto simp: lows_def closes_def highs_def intro: flt.rnd_mono)

lemma length_series [simp]: "length (lows cs) = length cs" "length (closes cs) = length cs" "length (highs cs) = length cs"
  by (simp_all add: lows_def closes_def highs_def)

lemma true_range_nonneg:
  assumes "\<forall>c \<in> set cs. cd_low c \<le> cd_high c" "cs \<noteq> []" "length cs \<le> 2 ^ 40"
  shows "nonneg_series (true_range (highs cs) (lows cs) (closes cs))"
proof -
  have "0 \<le> fround (hd (highs cs) - hd (lows cs))"
    using assms(1,2) by (cases cs) (auto simp: highs_def lows_def intro!: flt.rnd_nonneg flt.rnd_mono)
  moreover have "0 \<le> range_of hl c \<and> fround (range_of hl c) = range_of hl c" for hl c
    by (auto simp: range_of_def max_def fround_abs)
  ultimately show ?thesis using assms(3) by (auto simp: nonneg_series_def true_range_def)
qed

lemma atr_nonneg:
  assumes "\<forall>c \<in> set cs. cd_low c \<le> cd_high c" "cs \<noteq> []" "length cs \<le> 2 ^ 40"
    and "compute_atr (highs cs) (lows cs) (closes cs) p = Some r" "1 \<le> p"
  shows "0 \<le> r"
proof -
  obtain a where a: "a \<in> set (rma (true_range (highs cs) (lows cs) (closes cs)) p)" "r = fround_places 4 a"
    using assms(4) by (auto simp: compute_atr_def Let_def dest: last_opt_set split: if_splits)
  then have "0 \<le> a" using rma_nonneg[OF true_range_nonneg[OF assms(1-3)] assms(5)] by blast
  then show ?thesis using a(2) fround_places_mono[of 0 a 4] fround_places_int[of 0 4] by simp
qed

definition candle_ok :: "candle \<Rightarrow> bool" where
  "candle_ok c = (0 < cd_low c \<and> cd_low c \<le> cd_close c \<and> cd_close c \<le> cd_high c)"

text \<open>The entries the decision code compares as numbers.\<close>

definition numeric_keys :: "string list" where
  "numeric_keys = [''trend_ema_20'', ''trend_ema_50'', ''momentum_rsi_14'', ''momentum_stoch_k'',
     ''volatility_bb_lower'', ''volatility_bb_middle'', ''volatility_bb_upper'', ''volatility_atr_14'']"


definition example_candle :: candle where
  "example_candle = \<lparr>cd_symbol = ''BTCUSDT'', cd_open = 100, cd_high = 101, cd_low = 99, cd_close = 100,
     cd_volume = 5, cd_timestamp = 0\<rparr>"


section \<open>The local signal\<close>

text \<open>Exchanging the roles of rising and falling in every input.\<close>

definition flip_cross :: "pyval \<Rightarrow> pyval" where
  "flip_cross v = (if v = PStr ''bullish'' then PStr ''bearish'' else if v = PStr ''bearish'' then PStr ''bullish'' else v)"

lemma trend_bias_flip: "trend_bias b a = - trend_bias a b"
  by (auto simp: trend_bias_def split: option.split)

lemma amplify_adx_minus: "amplify_adx adx (- s) = - amplify_adx adx s"
  by (auto simp: amplify_adx_def flt.rnd_minus split: option.split)

lemma fround_minus_diff: "fround (- s - t) = - fround (s + t)" "fround (t - s) = - fround (s - t)"
  using flt.rnd_minus[of "s + t"] flt.rnd_minus[of "s - t"] by simp_all

lemma add_rsi_flip: "add_rsi (map_option (\<lambda>r. 100 - r) rsi) (- s) = - add_rsi rsi s"
  using fround_minus_diff(1)[of s] fround_minus_diff(2)[of _ s]
  by (auto simp: add_rsi_def split: option.split)

lemma add_cross_flip: "add_cross (flip_cross c) (- s) = - add_cross c s"
  using fround_minus_diff(1)[of s] fround_minus_diff(2)[of _ s] by (auto simp: add_cross_def flip_cross_def)

lemma add_histogram_flip: "add_histogram (map_option uminus h) (- s) = - add_histogram h s"
  using fround_minus_diff(1)[of s] fround_minus_diff(2)[of _ s] by (auto simp: add_histogram_def split: option.split)

lemma amplify_volume_minus: "amplify_volume v r (- s) = - amplify_volume v r s"
  by (auto simp: amplify_volume_def flt.rnd_minus)

lemmas score_flip = trend_bias_flip amplify_adx_minus add_rsi_flip add_cross_flip add_histogram_flip amplify_volume_minus

lemma score_down:
  assumes "a \<noteq> 0" "b \<noteq> 0" "a < b" "70 < r"
  shows "amplify_volume spike ratio (add_histogram h (add_cross cross (add_rsi (Some r) (amplify_adx adx (trend_bias (Some a) (Some b)))))) \<le> 0"
proof -
  have "fround (- (3 / 2)) = - (3 / 2)" "fround (7 / 10) \<le> 3 / 4" "0 \<le> fround (7 / 10)" "fround (2 / 10) \<le> 1 / 4"
    "0 \<le> fround (2 / 10)" "fround (- (3 / 4)) = - (3 / 4)" "fround (- (1 / 2)) = - (1 / 2)" by code_simp+
  note c = this
  have "amplify_adx adx (- 1) \<le> - 1"
  proof (cases "\<exists>x. adx = Some x \<and> 25 < x")
    case True
    then obtain x where x: "adx = Some x" "25 < x" by blast
    then have "0 \<le> min (fround (x / 50)) 1" by (simp add: flt.rnd_nonneg)
    then have "1 \<le> fround (1 + min (fround (x / 50)) 1)" by (intro flt.rep_le_rnd) auto
    then show ?thesis using x by (simp add: amplify_adx_def flt.rnd_minus)
  qed (auto simp: amplify_adx_def split: option.split)
  then have "add_rsi (Some r) (amplify_adx adx (- 1)) \<le> - (3 / 2)"
    using assms(4) by (simp add: add_rsi_def flt.rnd_le_rep[OF c(1)])
  then have b: "add_cross cross (add_rsi (Some r) (amplify_adx adx (- 1))) \<le> - (3 / 4)"
    using c(2,3) by (simp add: add_cross_def flt.rnd_le_rep[OF c(6)])
  have "add_histogram h (add_cross cross (add_rsi (Some r) (amplify_adx adx (- 1)))) \<le> - (1 / 2)"
    using b c(4,5) by (cases h) (simp_all add: add_histogram_def flt.rnd_le_rep[OF c(7)])
  then have "add_histogram h (add_cross cross (add_rsi (Some r) (amplify_adx adx (- 1)))) \<le> 0" by simp
  moreover have "0 \<le> fround (12 / 10)" by (intro flt.rnd_nonneg) simp
  ultimately show ?thesis using assms(1-3)
    by (simp add: trend_bias_def amplify_volume_def flt.rnd_nonpos mult_nonpos_nonneg)
qed

lemma score_up:
  assumes "a \<noteq> 0" "b \<noteq> 0" "b < a" "r < 30"
  shows "0 \<le> amplify_volume spike ratio (add_histogram h (add_cross cross (add_rsi (Some r) (amplify_adx adx (trend_bias (Some a) (Some b))))))"
  using score_down[of b a "100 - r" spike ratio "map_option uminus h" "flip_cross cross" adx] assms
    score_flip(3)[of "Some r"] by (simp add: score_flip(1)[of "Some b" "Some a"] score_flip(2,4-6))

lemma local_direction_sign: "local_direction s = LONG \<Longrightarrow> 0 < s" "local_direction s = SHORT \<Longrightarrow> s < 0"
proof -
  have "0 \<le> fround (4 / 10)" by (intro flt.rnd_nonneg) simp
  then show "local_direction s = LONG \<Longrightarrow> 0 < s" "local_direction s = SHORT \<Longrightarrow> s < 0"
    by (auto simp: local_direction_def clamp_score_def split: if_splits)
qed

lemma regime_ordered:
  assumes "lower (strip (detect_trend_regime close e20 e50 e200)) \<in> {''downtrend'', ''weak_downtrend''}"
  shows "\<exists>a b. e20 = Some a \<and> e50 = Some b \<and> a < b"
proof -
  have s: "lower (strip ''ranging'') = ''ranging''" "lower (strip ''uptrend'') = ''uptrend''"
    "lower (strip ''weak_uptrend'') = ''weak_uptrend''" by code_simp+
  show ?thesis using assms by (auto simp: detect_trend_regime_def Let_def s split: option.splits if_splits)
qed

lemma regime_ordered_up:
  assumes "lower (strip (detect_trend_regime close e20 e50 e200)) \<in> {''uptrend'', ''weak_uptrend''}"
  shows "\<exists>a b. e20 = Some a \<and> e50 = Some b \<and> b < a"
proof -
  have s: "lower (strip ''ranging'') = ''ranging''" "lower (strip ''downtrend'') = ''downtrend''"
    "lower (strip ''weak_downtrend'') = ''weak_downtrend''" by code_simp+
  show ?thesis using assms by (auto simp: detect_trend_regime_def Let_def s split: option.splits if_splits)
qed

lemma signal_direction:
  "py_get (generate_local_signal ind symb rate annual) ''local_direction'' = PStr (direction_name (local_direction (local_score ind)))"
  "py_get (generate_local_signal ind symb rate annual) ''local_strength'' = PFloat (local_strength (local_score ind))"
  by (simp_all add: generate_local_signal_def py_get_def)

lemma score_against_trend:
  assumes "ind_num ind ''trend_ema_20'' = Some a" "ind_num ind ''trend_ema_50'' = Some b" "0 < a" "0 < b"
    and "ind_num ind ''momentum_rsi_14'' = Some r"
  shows "a < b \<Longrightarrow> 70 < r \<Longrightarrow> local_direction (local_score ind) \<noteq> LONG"
    and "b < a \<Longrightarrow> r < 30 \<Longrightarrow> local_direction (local_score ind) \<noteq> SHORT"
  using score_down[of a b r] score_up[of a b r] assms local_direction_sign[of "local_score ind"]
  unfolding local_score_def assms(1,2,5) by (fastforce simp: not_le[symmetric])+

text \<open>
  \<^bold>\<open>C24\<close>. The two deterministic checks around the language model agree: the direction of the local signal
  made from any candles with positive prices always passes the plausibility gate on the same indicators,
  so a decision that follows the local signal is never vetoed for fighting the trend.
\<close>

theorem local_signal_plausible:
  assumes "compute_indicators cs = Inr ind" and "\<forall>c \<in> set cs. 0 < cd_close c" and "length cs \<le> 2 ^ 40"
  shows "plausibility_check (py_get (generate_local_signal ind symb rate annual) ''local_direction'') ind"
proof (cases "length cs < 14")
  case True
  then have "ind = [(''_candle_count'', PInt (int (length cs)))]" using assms(1) by (simp add: compute_indicators_def)
  then have "py_get ind ''momentum_rsi_14'' = PNone" by (simp add: py_get_def)
  then show ?thesis by (simp add: plausibility_check_def Let_def)
next
  case False
  then have len: "14 \<le> length cs" by simp
  note v = indicator_values[OF assms(1) len]
  define e20 where "e20 = compute_ema (closes cs) 20"
  define e50 where "e50 = compute_ema (closes cs) 50"
  have n: "ind_num ind ''trend_ema_20'' = e20" "ind_num ind ''trend_ema_50'' = e50"
    "ind_num ind ''momentum_rsi_14'' = compute_rsi (closes cs) 14" by (simp_all add: ind_num_def v e20_def e50_def)
  have pos: "0 < e" if "e20 = Some e \<or> e50 = Some e" for e
    using that compute_ema_pos[OF assms(2,3), of 20 e] compute_ema_pos[OF assms(2,3), of 50 e] by (auto simp: e20_def e50_def)
  show ?thesis
  proof (rule ccontr)
    assume "\<not> ?thesis"
    then obtain r where r: "compute_rsi (closes cs) 14 = Some r"
      and d: "local_direction (local_score ind) = LONG
            \<and> lower (strip (detect_trend_regime (closes cs) e20 e50 (compute_ema (closes cs) 200))) \<in> {''downtrend'', ''weak_downtrend''} \<and> 70 < r
          \<or> local_direction (local_score ind) = SHORT
            \<and> lower (strip (detect_trend_regime (closes cs) e20 e50 (compute_ema (closes cs) 200))) \<in> {''uptrend'', ''weak_uptrend''} \<and> r < 30"
      unfolding plausibility_check_def signal_direction canonical_direction_name v e20_def e50_def
      by (auto simp: Let_def simp del: read_float.simps split: option.splits)
    from d show False
    proof
      assume a: "local_direction (local_score ind) = LONG
            \<and> lower (strip (detect_trend_regime (closes cs) e20 e50 (compute_ema (closes cs) 200))) \<in> {''downtrend'', ''weak_downtrend''} \<and> 70 < r"
      from a regime_ordered obtain x y where xy: "e20 = Some x" "e50 = Some y" "x < y" by metis
      show False using score_against_trend(1)[of ind x y r] a n xy r pos by simp
    next
      assume a: "local_direction (local_score ind) = SHORT
            \<and> lower (strip (detect_trend_regime (closes cs) e20 e50 (compute_ema (closes cs) 200))) \<in> {''uptrend'', ''weak_uptrend''} \<and> r < 30"
      from a regime_ordered_up obtain x y where xy: "e20 = Some x" "e50 = Some y" "y < x" by metis
      show False using score_against_trend(2)[of ind x y r] a n xy r pos by simp
    qed
  qed
qed

theorem local_signal_plausible_witness:
  "\<exists>ind. compute_indicators (replicate 60 example_candle) = Inr ind
    \<and> plausibility_check (py_get (generate_local_signal ind ''BTCUSDT'' None None) ''local_direction'') ind"
proof -
  have c: "\<forall>c \<in> set (replicate 60 example_candle). 0 < cd_close c" by (simp add: example_candle_def)
  have l: "length (replicate 60 example_candle) \<le> 2 ^ 40" unfolding length_replicate by simp
  from compute_indicators_total[OF c] obtain ind where "compute_indicators (replicate 60 example_candle) = Inr ind" by blast
  with local_signal_plausible[OF this c l, of "''BTCUSDT''" None None] show ?thesis by blast
qed

fun opposite :: "direction \<Rightarrow> direction" where
  "opposite LONG = SHORT"
| "opposite SHORT = LONG"
| "opposite NEUTRAL = NEUTRAL"

definition mirrored :: "(string, pyval) dict \<Rightarrow> (string, pyval) dict \<Rightarrow> bool" where
  "mirrored ind ind' =
     (ind_num ind' ''trend_ema_20'' = ind_num ind ''trend_ema_50'' \<and> ind_num ind' ''trend_ema_50'' = ind_num ind ''trend_ema_20''
      \<and> ind_num ind' ''trend_adx'' = ind_num ind ''trend_adx''
      \<and> ind_num ind' ''momentum_rsi_14'' = map_option (\<lambda>r. 100 - r) (ind_num ind ''momentum_rsi_14'')
      \<and> get_or ind' ''momentum_macd_cross'' (PStr ''neutral'') = flip_cross (get_or ind ''momentum_macd_cross'' (PStr ''neutral''))
      \<and> ind_num ind' ''momentum_macd_histogram'' = map_option uminus (ind_num ind ''momentum_macd_histogram'')
      \<and> get_or ind' ''volume_spike'' (PBool False) = get_or ind ''volume_spike'' (PBool False)
      \<and> ind_num ind' ''volume_sma_20_ratio'' = ind_num ind ''volume_sma_20_ratio'')"

lemma local_score_mirror: "mirrored ind ind' \<Longrightarrow> local_score ind' = - local_score ind"
  unfolding local_score_def mirrored_def
  by (simp add: score_flip(2-6) score_flip(1)[of "ind_num ind ''trend_ema_50''" "ind_num ind ''trend_ema_20''"])

text \<open>
  The local signal has no directional bias: on the mirror image of an indicator report (the averages
  exchanged, the RSI reflected at 50, the MACD negated, volume and trend strength unchanged) it points the
  opposite way with the same strength, through every rounding; and its strength lies between 0 and 1.
\<close>

lemma local_signal_mirror:
  assumes "mirrored ind ind'"
  shows "\<exists>d s. py_get (generate_local_signal ind symb rate annual) ''local_direction'' = PStr (direction_name d)
    \<and> py_get (generate_local_signal ind' symb rate annual) ''local_direction'' = PStr (direction_name (opposite d))
    \<and> py_get (generate_local_signal ind symb rate annual) ''local_strength'' = PFloat s
    \<and> py_get (generate_local_signal ind' symb rate annual) ''local_strength'' = PFloat s \<and> 0 \<le> s \<and> s \<le> 1"
proof -
  let ?x = "local_score ind"
  have c: "clamp_score (- ?x) = - clamp_score ?x" by (simp add: clamp_score_def min_def max_def)
  define t where "t = fround (4 / 10)"
  have "0 \<le> t" unfolding t_def by (intro flt.rnd_nonneg) simp
  then have "local_direction (- ?x) = opposite (local_direction ?x)"
    unfolding local_direction_def t_def[symmetric] c by auto
  moreover have "local_strength (- ?x) = local_strength ?x" by (simp add: local_strength_def c)
  moreover have "0 \<le> local_strength ?x \<and> local_strength ?x \<le> 1"
    using fround_places_between[of 0 "min (fround (\<bar>clamp_score ?x\<bar> / 3)) 1" 1 3] by (simp add: local_strength_def flt.rnd_nonneg)
  ultimately show ?thesis using local_score_mirror[OF assms]
    by (intro exI[of _ "local_direction ?x"] exI[of _ "local_strength ?x"]) (simp add: signal_direction)
qed

section \<open>The scalp signal\<close>

definition oversold :: "(string, pyval) dict \<Rightarrow> bool" where
  "oversold ind =
     ((\<exists>r. ind_num ind ''momentum_rsi_14'' = Some r \<and> r < 30)
      \<or> (\<exists>k d. ind_num ind ''momentum_stoch_k'' = Some k \<and> ind_num ind ''momentum_stoch_d'' = Some d \<and> k < 20 \<and> d < k)
      \<or> (\<exists>b. ind_num ind ''volatility_bb_position'' = Some b \<and> b \<le> fround (5 / 100)))"

definition overbought :: "(string, pyval) dict \<Rightarrow> bool" where
  "overbought ind =
     ((\<exists>r. ind_num ind ''momentum_rsi_14'' = Some r \<and> 70 < r)
      \<or> (\<exists>k d. ind_num ind ''momentum_stoch_k'' = Some k \<and> ind_num ind ''momentum_stoch_d'' = Some d \<and> 80 < k \<and> k < d)
      \<or> (\<exists>b. ind_num ind ''volatility_bb_position'' = Some b \<and> fround (95 / 100) \<le> b))"

definition scalp_base :: "(string, pyval) dict \<Rightarrow> rat" where
  "scalp_base ind = add_band (ind_num ind ''volatility_bb_position'')
     (add_stochastic (ind_num ind ''momentum_stoch_k'') (ind_num ind ''momentum_stoch_d'') (scalp_rsi (ind_num ind ''momentum_rsi_14'')))"

lemma scalp_base_sign:
  "\<not> oversold ind \<Longrightarrow> scalp_base ind \<le> 0" "\<not> overbought ind \<Longrightarrow> 0 \<le> scalp_base ind"
proof -
  have c: "0 \<le> fround (4 / 10)" by (intro flt.rnd_nonneg) simp
  assume "\<not> oversold ind"
  then have n: "\<forall>r. ind_num ind ''momentum_rsi_14'' = Some r \<longrightarrow> 30 \<le> r"
    "\<forall>k d. ind_num ind ''momentum_stoch_k'' = Some k \<and> ind_num ind ''momentum_stoch_d'' = Some d \<longrightarrow> 20 \<le> k \<or> k \<le> d"
    "\<forall>b. ind_num ind ''volatility_bb_position'' = Some b \<longrightarrow> fround (5 / 100) < b" by (auto simp: oversold_def not_less)
  have 1: "scalp_rsi (ind_num ind ''momentum_rsi_14'') \<le> 0"
    using n(1) by (fastforce simp: scalp_rsi_def intro: flt.rnd_nonneg split: option.split)
  have 2: "add_stochastic (ind_num ind ''momentum_stoch_k'') (ind_num ind ''momentum_stoch_d'') s \<le> 0" if "s \<le> 0" for s
    using n(2) that by (auto simp: add_stochastic_def intro!: flt.rnd_nonpos split: option.split)
  show "scalp_base ind \<le> 0" unfolding scalp_base_def
    using n(3) 2[OF 1] c by (auto simp: add_band_def intro!: flt.rnd_nonpos split: option.split)
next
  have c: "0 \<le> fround (4 / 10)" by (intro flt.rnd_nonneg) simp
  assume "\<not> overbought ind"
  then have n: "\<forall>r. ind_num ind ''momentum_rsi_14'' = Some r \<longrightarrow> r \<le> 70"
    "\<forall>k d. ind_num ind ''momentum_stoch_k'' = Some k \<and> ind_num ind ''momentum_stoch_d'' = Some d \<longrightarrow> k \<le> 80 \<or> d \<le> k"
    "\<forall>b. ind_num ind ''volatility_bb_position'' = Some b \<longrightarrow> b < fround (95 / 100)" by (auto simp: overbought_def not_less)
  have 1: "0 \<le> scalp_rsi (ind_num ind ''momentum_rsi_14'')"
    using n(1) by (fastforce simp: scalp_rsi_def intro: flt.rnd_nonneg split: option.split)
  have 2: "0 \<le> add_stochastic (ind_num ind ''momentum_stoch_k'') (ind_num ind ''momentum_stoch_d'') s" if "0 \<le> s" for s
    using n(2) that by (auto simp: add_stochastic_def intro!: flt.rnd_nonneg split: option.split)
  show "0 \<le> scalp_base ind" unfolding scalp_base_def
    using n(3) 2[OF 1] c by (auto simp: add_band_def intro!: flt.rnd_nonneg split: option.split)
qed

lemma scalp_score_sign: "0 < scalp_score ind \<Longrightarrow> 0 < scalp_base ind" "scalp_score ind < 0 \<Longrightarrow> scalp_base ind < 0"
proof -
  have neg: "fround x < 0 \<longleftrightarrow> x < 0" for x using flt.rnd_pos_iff[of "- x"] by (simp add: flt.rnd_minus)
  define c where "c = fround (13 / 10)"
  have c: "0 < c" by (simp add: c_def)
  show "0 < scalp_score ind \<Longrightarrow> 0 < scalp_base ind"
    using c unfolding scalp_score_def scalp_base_def[symmetric] Let_def c_def[symmetric]
    by (auto simp: zero_less_mult_iff split: option.splits if_splits)
  show "scalp_score ind < 0 \<Longrightarrow> scalp_base ind < 0"
    using c unfolding scalp_score_def scalp_base_def[symmetric] Let_def c_def[symmetric]
    by (auto simp: mult_less_0_iff neg split: option.splits if_splits)
qed

text \<open>
  A scalp signal always has a stretched market behind it: LONG only with an oversold and SHORT only
  with an overbought RSI, stochastic cross or band tag, so volume and volatility never create a signal; a
  direction comes with a strength of at least \<^verbatim>\<open>0.35\<close>, and the strength lies between 0 and 1.
\<close>

lemma scalp_signal_grounded:
  "\<exists>d s. py_get (generate_scalp_signal ind symb) ''local_direction'' = PStr (direction_name d)
    \<and> py_get (generate_scalp_signal ind symb) ''local_strength'' = PFloat s \<and> 0 \<le> s \<and> s \<le> 1
    \<and> (d = LONG \<longrightarrow> oversold ind) \<and> (d = SHORT \<longrightarrow> overbought ind)
    \<and> (d \<noteq> NEUTRAL \<longrightarrow> fround (35 / 100) \<le> s)"
proof -
  let ?x = "scalp_score ind"
  have "fround_places 3 (fround (35 / 100)) = fround (35 / 100)" by code_simp
  then have s: "0 \<le> fround_places 3 (scalp_strength ?x) \<and> fround_places 3 (scalp_strength ?x) \<le> 1"
      "fround (35 / 100) \<le> scalp_strength ?x \<Longrightarrow> fround (35 / 100) \<le> fround_places 3 (scalp_strength ?x)"
    using fround_places_between[of 0 "scalp_strength ?x" 1 3] fround_places_mono[of "fround (35 / 100)" "scalp_strength ?x" 3]
    by (simp_all add: scalp_strength_def flt.rnd_nonneg)
  have base: "0 < scalp_base ind \<Longrightarrow> oversold ind" "scalp_base ind < 0 \<Longrightarrow> overbought ind"
    using scalp_base_sign[of ind] by force+
  have z: "scalp_strength 0 < fround (35 / 100)" by (simp add: scalp_strength_def)
  have "scalp_direction ?x = LONG \<longrightarrow> oversold ind"
    using scalp_score_sign(1)[of ind] base(1) by (auto simp: scalp_direction_def split: if_splits)
  moreover have "scalp_direction ?x = SHORT \<longrightarrow> overbought ind"
    using scalp_score_sign(2)[of ind] base(2) z
    by (cases "?x = 0") (auto simp: scalp_direction_def split: if_splits)
  moreover have "scalp_direction ?x \<noteq> NEUTRAL \<longrightarrow> fround (35 / 100) \<le> scalp_strength ?x"
    by (auto simp: scalp_direction_def split: if_splits)
  ultimately show ?thesis using s
    by (intro exI[of _ "scalp_direction ?x"] exI[of _ "fround_places 3 (scalp_strength ?x)"])
      (simp add: generate_scalp_signal_def py_get_def)
qed

end
