(* ===== verification/Retry.thy ===== *)
theory Retry
  imports Numerics
begin

text \<open>
  \<^verbatim>\<open>src/quad/common/retry.py\<close>: the backoff arithmetic and the bounded retry loop. The awaited
  operation acts on a world \<open>'w\<close> and returns a value or raises; sleeping is an effect on the same
  world. The logging callback is left out.
\<close>

section \<open>exponential_backoff\<close>

text \<open>
  \<open>u\<close> is the draw of \<^verbatim>\<open>random.uniform(0, jitter)\<close>. The power is the correctly rounded one, which
  for the multiplier 2 every caller uses is exact.
\<close>

definition exponential_backoff :: "int \<Rightarrow> rat \<Rightarrow> rat \<Rightarrow> rat option \<Rightarrow> rat \<Rightarrow> rat \<Rightarrow> rat res" where
  "exponential_backoff attempt base multiplier cap jitter u =
     (if attempt < 1 then Inl ValueError
      else (let delay = fround (base * fround (multiplier ^ nat (attempt - 1)));
                delay = (case cap of None \<Rightarrow> delay | Some c \<Rightarrow> min delay c)
            in Inr (if jitter \<noteq> 0 then fround (delay + u) else delay)))"

section \<open>retry_async\<close>

record 'w retry_policy =
  rp_before_attempt :: "int \<Rightarrow> 'w \<Rightarrow> unit res \<times> 'w"
  rp_is_retryable :: "exc \<Rightarrow> bool"
  rp_delay_for :: "int \<Rightarrow> exc \<Rightarrow> rat"
  rp_sleep :: "rat \<Rightarrow> 'w \<Rightarrow> 'w"

text \<open>The loop from the given attempt on, with \<open>n\<close> attempts left.\<close>

fun retry_from :: "'w retry_policy \<Rightarrow> (int \<Rightarrow> 'w \<Rightarrow> 'a res \<times> 'w) \<Rightarrow> nat \<Rightarrow> int \<Rightarrow> 'w \<Rightarrow> 'a res \<times> 'w" where
  "retry_from rp op 0 attempt w = (Inl RuntimeError, w)"
| "retry_from rp op (Suc n) attempt w =
     (case rp_before_attempt rp attempt w of
        (Inl e, w1) \<Rightarrow> (Inl e, w1)
      | (Inr _, w1) \<Rightarrow>
         (case op attempt w1 of
            (Inr a, w2) \<Rightarrow> (Inr a, w2)
          | (Inl e, w2) \<Rightarrow>
             if \<not> rp_is_retryable rp e then (Inl e, w2)
             else if n = 0 then (Inl e, w2)
             else (let d = rp_delay_for rp attempt e
                   in retry_from rp op n (attempt + 1) (if 0 < d then rp_sleep rp d w2 else w2))))"

definition retry_async :: "'w retry_policy \<Rightarrow> (int \<Rightarrow> 'w \<Rightarrow> 'a res \<times> 'w) \<Rightarrow> int \<Rightarrow> 'w \<Rightarrow> 'a res \<times> 'w" where
  "retry_async rp op attempts w =
     (if attempts < 1 then (Inl ValueError, w) else retry_from rp op (nat attempts) 1 w)"

section \<open>What a caller may rely on\<close>

text \<open>
  \<open>inv k\<close> holds before the k-th attempt; a success of that attempt establishes \<open>post k\<close>, a failure
  \<open>fail k\<close>, and a retryable failure the invariant of the next attempt. Then the loop ends in the
  \<open>post\<close> or \<open>fail\<close> of the attempt it stopped at.
\<close>

locale retried_operation =
  fixes rp :: "'w retry_policy" and op :: "int \<Rightarrow> 'w \<Rightarrow> 'a res \<times> 'w"
    and inv :: "int \<Rightarrow> 'w \<Rightarrow> bool" and post :: "int \<Rightarrow> 'a \<Rightarrow> 'w \<Rightarrow> bool" and fail :: "int \<Rightarrow> exc \<Rightarrow> 'w \<Rightarrow> bool"
  assumes before_keeps: "inv k w \<Longrightarrow> inv k (snd (rp_before_attempt rp k w))"
    and sleep_keeps: "inv k w \<Longrightarrow> inv k (rp_sleep rp d w)"
    and before_never_raises: "inv k w \<Longrightarrow> fst (rp_before_attempt rp k w) = Inr ()"
    and op_ok: "inv k w \<Longrightarrow> op k w = (Inr a, w') \<Longrightarrow> post k a w'"
    and op_fails: "inv k w \<Longrightarrow> op k w = (Inl e, w') \<Longrightarrow> fail k e w' \<and> (rp_is_retryable rp e \<longrightarrow> inv (k + 1) w')"
begin

lemma retry_from_cases:
  "0 < n \<Longrightarrow> inv k w \<Longrightarrow> retry_from rp op n k w = (r, w') \<Longrightarrow>
     \<exists>j. k \<le> j \<and> j < k + int n \<and> (case r of Inr a \<Rightarrow> post j a w' | Inl e \<Rightarrow> fail j e w' \<and>
        (rp_is_retryable rp e \<longrightarrow> j = k + int n - 1))"
proof (induction n arbitrary: k w)
  case (Suc n)
  obtain w1 where b: "rp_before_attempt rp k w = (Inr (), w1)" "inv k w1"
    using before_never_raises[OF Suc.prems(2)] before_keeps[OF Suc.prems(2)]
    by (cases "rp_before_attempt rp k w") auto
  obtain x w2 where o: "op k w1 = (x, w2)" by fastforce
  show ?case
  proof (cases x)
    case (Inr a)
    with Suc.prems b o op_ok[OF b(2)] show ?thesis by (intro exI[of _ k]) auto
  next
    case (Inl e)
    with op_fails[OF b(2)] o have f: "fail k e w2" "rp_is_retryable rp e \<Longrightarrow> inv (k + 1) w2" by auto
    show ?thesis
    proof (cases "rp_is_retryable rp e \<and> n \<noteq> 0")
      case True
      with f have "inv (k + 1) (if 0 < rp_delay_for rp k e then rp_sleep rp (rp_delay_for rp k e) w2 else w2)"
        by (simp add: sleep_keeps)
      from Suc.IH[OF _ this] Suc.prems(3) b o Inl True obtain j where
        "k + 1 \<le> j" "j < k + 1 + int n" "case r of Inr a \<Rightarrow> post j a w' | Inl e \<Rightarrow> fail j e w' \<and>
          (rp_is_retryable rp e \<longrightarrow> j = k + 1 + int n - 1)"
        by (auto simp: Let_def)
      then show ?thesis by (intro exI[of _ j]) (auto split: sum.splits)
    next
      case False
      with Suc.prems(3) b o Inl f show ?thesis by (intro exI[of _ k]) (auto split: if_splits)
    qed
  qed
qed simp

lemma retry_async_cases:
  assumes "1 \<le> attempts" "inv 1 w" "retry_async rp op attempts w = (r, w')"
  shows "\<exists>j. 1 \<le> j \<and> j \<le> attempts \<and> (case r of Inr a \<Rightarrow> post j a w' | Inl e \<Rightarrow> fail j e w' \<and>
     (rp_is_retryable rp e \<longrightarrow> j = attempts))"
  using retry_from_cases[of "nat attempts" 1 w r w'] assms
  by (fastforce simp: retry_async_def split: sum.splits)

end

section \<open>A scripted operation\<close>

text \<open>
  The outcomes an operation will have, in order, and the log of what the loop does: \<open>Call k\<close> for
  the k-th attempt and \<open>Sleep d\<close> for a wait.
\<close>

datatype retry_event = Call int | Sleep rat

type_synonym 'a script = "'a res list \<times> retry_event list"

definition scripted :: "int \<Rightarrow> 'a script \<Rightarrow> 'a res \<times> 'a script" where
  "scripted k w = (hd (fst w), (tl (fst w), snd w @ [Call k]))"

definition scripted_policy :: "(exc \<Rightarrow> bool) \<Rightarrow> (int \<Rightarrow> exc \<Rightarrow> rat) \<Rightarrow> 'a script retry_policy" where
  "scripted_policy retryable delay = \<lparr>rp_before_attempt = (\<lambda>k w. (Inr (), w)), rp_is_retryable = retryable,
     rp_delay_for = delay, rp_sleep = (\<lambda>d w. (fst w, snd w @ [Sleep d]))\<rparr>"

definition retryable_failure :: "(exc \<Rightarrow> bool) \<Rightarrow> 'a res \<Rightarrow> bool" where
  "retryable_failure retryable r = (case r of Inl e \<Rightarrow> retryable e | Inr _ \<Rightarrow> False)"

lemma retry_from_scripted:
  assumes "0 < n" "n \<le> length outs"
  shows "\<exists>lg'. retry_from (scripted_policy retryable delay) scripted n k (outs, lg) =
    (let j = min (length (takeWhile (retryable_failure retryable) (take n outs))) (n - 1)
     in (outs ! j, (drop (Suc j) outs, lg @ lg')))
    \<and> filter (\<lambda>x. case x of Call _ \<Rightarrow> True | _ \<Rightarrow> False) lg' =
        map (\<lambda>i. Call (k + int i)) [0 ..< Suc (min (length (takeWhile (retryable_failure retryable) (take n outs))) (n - 1))]"
  using assms
proof (induction n arbitrary: outs k lg)
  case (Suc n)
  then obtain out outs' where outs: "outs = out # outs'" by (cases outs) auto
  show ?case
  proof (cases "retryable_failure retryable out \<and> n \<noteq> 0")
    case False
    then show ?thesis using outs
      by (intro exI[of _ "[Call k]"])
        (auto simp: scripted_policy_def scripted_def retryable_failure_def Let_def split: sum.splits)
  next
    case True
    then obtain e where e: "out = Inl e" "retryable e" by (auto simp: retryable_failure_def split: sum.splits)
    let ?lg = "if 0 < delay k e then lg @ [Call k, Sleep (delay k e)] else lg @ [Call k]"
    let ?m = "\<lambda>n outs. min (length (takeWhile (retryable_failure retryable) (take n outs))) (n - 1)"
    obtain lg' where l: "retry_from (scripted_policy retryable delay) scripted n (k + 1) (outs', ?lg) =
        (outs' ! ?m n outs', (drop (Suc (?m n outs')) outs', ?lg @ lg'))"
      "filter (\<lambda>x. case x of Call _ \<Rightarrow> True | _ \<Rightarrow> False) lg' = map (\<lambda>i. Call (k + 1 + int i)) [0 ..< Suc (?m n outs')]"
      using Suc.IH[of outs' "k + 1" ?lg] Suc.prems True outs by (auto simp: Let_def)
    have m: "?m (Suc n) outs = Suc (?m n outs')" using True outs by (cases n) auto
    have step: "retry_from (scripted_policy retryable delay) scripted (Suc n) k (outs, lg) =
        retry_from (scripted_policy retryable delay) scripted n (k + 1) (outs', ?lg)"
      using True e outs by (simp add: scripted_policy_def scripted_def Let_def)
    have calls: "map (\<lambda>i. Call (k + int i)) [0 ..< Suc (Suc j)] = Call k # map (\<lambda>i. Call (k + 1 + int i)) [0 ..< Suc j]" for j
      by (simp add: upt_conv_Cons map_Suc_upt[symmetric] comp_def add.assoc del: upt_Suc)
    show ?thesis
      by (rule exI[of _ "(if 0 < delay k e then [Call k, Sleep (delay k e)] else [Call k]) @ lg'"])
        (simp only: step l m calls Let_def, use outs l(2) in auto)
  qed
qed simp

section \<open>Properties\<close>

text \<open>
  \<^bold>\<open>C37\<close>. The retry loop calls the operation until the first outcome that is a success or a
  non-retryable failure, and at most \<open>attempts\<close> times, with the attempt numbers 1, 2, 3, and returns
  exactly that last outcome, so exhaustion re-raises the last exception.
\<close>

theorem retry_outcome:
  assumes "1 \<le> attempts" and "nat attempts \<le> length outs"
  shows "let n = nat attempts;
             j = min (length (takeWhile (retryable_failure retryable) (take n outs))) (n - 1);
             (r, (rest, lg)) = retry_async (scripted_policy retryable delay) scripted attempts (outs, [])
         in r = outs ! j \<and> rest = drop (Suc j) outs
          \<and> filter (\<lambda>x. case x of Call _ \<Rightarrow> True | _ \<Rightarrow> False) lg = map (\<lambda>i. Call (1 + int i)) [0 ..< Suc j]"
  using retry_from_scripted[of "nat attempts" outs retryable delay 1 "[]"] assms
  by (auto simp: retry_async_def Let_def)

definition transient :: "exc \<Rightarrow> bool" where
  "transient e = (e = TimeoutError \<or> e = ConnectionError)"

theorem retry_outcome_witness:
  "fst (retry_async (scripted_policy transient (\<lambda>k e. 1)) scripted 3
     ([Inl TimeoutError, Inl ConnectionError, Inr (7 :: int)], [])) = Inr 7"
proof -
  let ?outs = "[Inl TimeoutError, Inl ConnectionError, Inr (7 :: int)]"
  have "min (length (takeWhile (retryable_failure transient) (take (nat 3) ?outs))) (nat 3 - 1) = 2"
    by (simp add: retryable_failure_def transient_def)
  with retry_outcome[of 3 ?outs transient "\<lambda>k e. 1"] show ?thesis
    by (auto simp: Let_def split: prod.splits)
qed

text \<open>
  The order-submission schedule, doubling from one second with a cap of 30, is defined for every
  attempt, waits exactly \<open>min 30 (2 ^ (attempt - 1))\<close> seconds and so never shrinks.
\<close>

lemma order_backoff_schedule:
  assumes "1 \<le> attempt"
  shows "exponential_backoff attempt 1 2 (Some 30) 0 u = Inr (min 30 (2 ^ nat (attempt - 1)))"
proof -
  have "fround (2 ^ n) = (2 :: rat) ^ n" for n
    using round_sig_exact[of 2 53 1 "int n"] by (simp add: fround_def bpow_def)
  then show ?thesis using assms by (simp add: exponential_backoff_def Let_def min.commute)
qed

end
