(* ===== verification/Gateway.thy ===== *)
theory Gateway
  imports Domain Retry
begin

text \<open>
  \<^verbatim>\<open>src/quad/execution/gateway.py\<close>. The exchange adapter is not modelled here: its operations, acting
  on a world \<open>'w\<close>, are the record \<open>exchange_ops\<close>. The gateway keeps the tracked orders, the ring of
  completed identifiers and the confirmation events; \<open>gw_wire\<close> is a ghost field, the requests handed
  to \<^verbatim>\<open>place_order\<close> in order. The clock and the random identifier are arguments.
\<close>

section \<open>State\<close>

record 'w exchange_ops =
  x_place_order :: "order_request \<Rightarrow> 'w \<Rightarrow> order_result res \<times> 'w"
  x_cancel_order :: "order_id \<Rightarrow> string \<Rightarrow> 'w \<Rightarrow> bool res \<times> 'w"
  x_get_order_status :: "order_id \<Rightarrow> string \<Rightarrow> 'w \<Rightarrow> order option res \<times> 'w"
  x_get_open_orders :: "'w \<Rightarrow> order list res \<times> 'w"
  x_get_symbol_filters :: "string \<Rightarrow> 'w \<Rightarrow> (string, rat) dict res \<times> 'w"
  x_is_order_not_found :: "exc \<Rightarrow> bool"
  x_elapse :: "rat \<Rightarrow> 'w \<Rightarrow> 'w"

record gateway_config =
  gc_confirmation_timeout :: rat
  gc_max_retries :: int
  gc_completed_ids_maxlen :: nat

text \<open>An event is the boolean of \<^verbatim>\<open>asyncio.Event.is_set\<close>.\<close>

record gateway =
  gw_cfg :: gateway_config
  gw_active :: "(string, order) dict"
  gw_completed :: "string list"
  gw_pending :: "(string, bool) dict"
  gw_wire :: "order_request list"

definition init_gateway :: "gateway_config \<Rightarrow> gateway" where
  "init_gateway cfg = \<lparr>gw_cfg = cfg, gw_active = [], gw_completed = [], gw_pending = [], gw_wire = []\<rparr>"

definition TERMINAL_STATUSES :: "string list" where
  "TERMINAL_STATUSES = [''FILLED'', ''CANCELLED'', ''CANCELED'', ''REJECTED'', ''EXPIRED'']"

definition terminal :: "string \<Rightarrow> bool" where
  "terminal s = (s \<in> set TERMINAL_STATUSES)"

section \<open>submit\<close>

definition move_to_completed :: "string \<Rightarrow> gateway \<Rightarrow> gateway" where
  "move_to_completed cid g =
     (if map_of (gw_active g) cid \<noteq> None
      then g\<lparr>gw_active := AList.delete cid (gw_active g),
             gw_completed := deque_append (gc_completed_ids_maxlen (gw_cfg g)) cid (gw_completed g)\<rparr>
      else g)"

text \<open>The request that goes out is built field by field; the two attached bracket prices keep their defaults.\<close>

definition wire_request :: "string \<Rightarrow> order_request \<Rightarrow> order_request" where
  "wire_request cid r =
     \<lparr>req_symbol = req_symbol r, req_side = req_side r, req_order_type = req_order_type r,
      req_quantity = req_quantity r, req_price = req_price r, req_stop_price = req_stop_price r,
      req_time_in_force = req_time_in_force r, req_client_order_id = cid,
      req_reduce_only = req_reduce_only r, req_post_only = req_post_only r,
      req_working_type = req_working_type r, req_position_side = req_position_side r,
      req_price_protect = req_price_protect r, req_take_profit_price = None, req_stop_loss_price = None\<rparr>"

lemma wire_request_id [simp]: "req_client_order_id (wire_request cid req) = cid"
  by (simp add: wire_request_def)

definition is_transient :: "exc \<Rightarrow> bool" where
  "is_transient e = (e = TimeoutError \<or> e = ConnectionError)"

text \<open>One attempt: \<^verbatim>\<open>_submit\<close>.\<close>

definition submit_attempt :: "'w exchange_ops \<Rightarrow> order_request \<Rightarrow> int \<Rightarrow> gateway \<times> 'w
     \<Rightarrow> order_result res \<times> (gateway \<times> 'w)" where
  "submit_attempt x r attempt gw =
     (let g = fst gw; g1 = g\<lparr>gw_wire := gw_wire g @ [r]\<rparr>; cid = req_client_order_id r
      in case x_place_order x r (snd gw) of
        (Inl e, w1) \<Rightarrow>
          if is_transient e then (Inl e, (g1, w1))
          else (Inl OrderRejectedError, (g1\<lparr>gw_pending := AList.delete cid (gw_pending g1)\<rparr>, w1))
      | (Inr res, w1) \<Rightarrow>
          (Inr res, (if terminal (res_status res)
                     then g1\<lparr>gw_pending := AList.update cid True (gw_pending g1)\<rparr> else g1, w1)))"

definition submit_policy :: "'w exchange_ops \<Rightarrow> (gateway \<times> 'w) retry_policy" where
  "submit_policy x = \<lparr>rp_before_attempt = (\<lambda>k w. (Inr (), w)), rp_is_retryable = is_transient,
     rp_delay_for = (\<lambda>k e. case exponential_backoff k 1 2 (Some 30) 0 0 of Inr d \<Rightarrow> d | Inl _ \<Rightarrow> 0),
     rp_sleep = (\<lambda>d (g, w). (g, x_elapse x d w))\<rparr>"

definition order_of_result :: "int \<Rightarrow> string \<Rightarrow> order_result \<Rightarrow> order" where
  "order_of_result now cid res =
     \<lparr>ord_id = Some (res_order_id res), ord_client_order_id = cid, ord_symbol = res_symbol res,
      ord_side = res_side res, ord_order_type = res_order_type res, ord_quantity = res_quantity res,
      ord_filled_qty = res_filled_qty res, ord_price = res_price res, ord_stop_price = None,
      ord_status = res_status res, ord_time_in_force = ''GTC'', ord_created_at = now, ord_updated_at = now,
      ord_working_type = [], ord_position_side = [], ord_price_protect = False\<rparr>"

text \<open>
  Waiting for the confirmation event: it is set already, or it stays unset until the timeout, since
  nothing but an attempt of the same submission sets it.
\<close>

definition submit :: "'w exchange_ops \<Rightarrow> string \<Rightarrow> int \<Rightarrow> order_request \<Rightarrow> gateway \<times> 'w
     \<Rightarrow> order_result res \<times> (gateway \<times> 'w)" where
  "submit x uuid now req gw =
     (let cid = (if req_client_order_id req \<noteq> [] then req_client_order_id req else uuid);
          r = wire_request cid req;
          g0 = (fst gw)\<lparr>gw_pending := AList.update cid False (gw_pending (fst gw))\<rparr>
      in case retry_async (submit_policy x) (submit_attempt x r) (gc_max_retries (gw_cfg g0)) (g0, snd gw) of
        (Inl e, (g1, w1)) \<Rightarrow>
          if is_transient e
          then (Inl OrderRejectedError, (g1\<lparr>gw_pending := AList.delete cid (gw_pending g1)\<rparr>, w1))
          else (Inl e, (g1, w1))
      | (Inr res, (g1, w1)) \<Rightarrow>
         (let confirmed = (terminal (res_status res) \<or> map_of (gw_pending g1) cid = Some True);
              g2 = g1\<lparr>gw_pending := AList.delete cid (gw_pending g1)\<rparr>
          in if \<not> confirmed
             then (Inl OrderTimeoutError, (g2, x_elapse x (gc_confirmation_timeout (gw_cfg g2)) w1))
             else
              (let order = order_of_result now cid res;
                   g3 = g2\<lparr>gw_active := AList.update cid order (gw_active g2)\<rparr>
               in (Inr res, (if terminal (ord_status order) then move_to_completed cid g3 else g3, w1)))))"

section \<open>cancel, get_status, refresh_state\<close>

text \<open>
  \<^verbatim>\<open>cancel\<close> marks the tracked order \<^verbatim>\<open>CANCELLED\<close> and drops it from the active orders.
\<close>

definition cancel :: "'w exchange_ops \<Rightarrow> string \<Rightarrow> gateway \<times> 'w \<Rightarrow> bool \<times> (gateway \<times> 'w)" where
  "cancel x cid gw =
     (case map_of (gw_active (fst gw)) cid of
        None \<Rightarrow> (False, gw)
      | Some o' \<Rightarrow>
         (case ord_id o' of
            None \<Rightarrow> (False, gw)
          | Some i \<Rightarrow>
             (case x_cancel_order x i (ord_symbol o') (snd gw) of
                (Inl e, w1) \<Rightarrow> (False, (fst gw, w1))
              | (Inr cancelled, w1) \<Rightarrow>
                 (cancelled, (if cancelled then move_to_completed cid (fst gw) else fst gw, w1)))))"

definition get_status :: "'w exchange_ops \<Rightarrow> int \<Rightarrow> string \<Rightarrow> gateway \<times> 'w \<Rightarrow> order option \<times> (gateway \<times> 'w)" where
  "get_status x now cid gw =
     (case map_of (gw_active (fst gw)) cid of
        Some o' \<Rightarrow>
         (case ord_id o' of
            None \<Rightarrow> (Some o', gw)
          | Some i \<Rightarrow>
             (case x_get_order_status x i (ord_symbol o') (snd gw) of
                (Inl e, w1) \<Rightarrow> (Some o', (fst gw, w1))
              | (Inr None, w1) \<Rightarrow> (Some o', (fst gw, w1))
              | (Inr (Some refreshed), w1) \<Rightarrow>
                 (let o1 = o'\<lparr>ord_status := ord_status refreshed, ord_filled_qty := ord_filled_qty refreshed,
                        ord_updated_at := now\<rparr>
                  in (Some o1, ((fst gw)\<lparr>gw_active := AList.update cid o1 (gw_active (fst gw))\<rparr>, w1)))))
      | None \<Rightarrow>
         (case x_get_open_orders x (snd gw) of
            (Inl e, w1) \<Rightarrow> (None, (fst gw, w1))
          | (Inr os, w1) \<Rightarrow> (find (\<lambda>o'. ord_client_order_id o' = cid) os, (fst gw, w1))))"

definition exchange_map :: "order list \<Rightarrow> (order_id, order) dict" where
  "exchange_map os = foldl (\<lambda>d o'. case ord_id o' of None \<Rightarrow> d | Some i \<Rightarrow> AList.update i o' d) [] os"

text \<open>One tracked order against the exchange: the order afterwards and whether to drop it.\<close>

definition refresh_order :: "'w exchange_ops \<Rightarrow> int \<Rightarrow> (order_id, order) dict \<Rightarrow> order \<Rightarrow> 'w \<Rightarrow> order \<times> bool \<times> 'w" where
  "refresh_order x now ex o' w =
     (case ord_id o' of
        None \<Rightarrow> (o', terminal (ord_status o'), w)
      | Some i \<Rightarrow>
         if terminal (ord_status o') then (o', True, w)
         else (case map_of ex i of
            Some e \<Rightarrow> (o'\<lparr>ord_status := ord_status e, ord_filled_qty := ord_filled_qty e,
                          ord_price := ord_price e, ord_updated_at := now\<rparr>, False, w)
          | None \<Rightarrow>
             (case x_get_order_status x i (ord_symbol o') w of
                (Inl exn, w1) \<Rightarrow>
                  if x_is_order_not_found x exn then (o'\<lparr>ord_status := ''CANCELLED''\<rparr>, True, w1)
                  else (o', False, w1)
              | (Inr None, w1) \<Rightarrow> (o'\<lparr>ord_status := ''CANCELLED''\<rparr>, True, w1)
              | (Inr (Some e), w1) \<Rightarrow>
                  (o'\<lparr>ord_status := ord_status e, ord_filled_qty := ord_filled_qty e, ord_updated_at := now\<rparr>,
                   terminal (ord_status e), w1))))"

fun refresh_orders :: "'w exchange_ops \<Rightarrow> int \<Rightarrow> (order_id, order) dict \<Rightarrow> (string, order) dict \<Rightarrow> 'w
     \<Rightarrow> (string, order) dict \<times> string list \<times> 'w" where
  "refresh_orders x now ex [] w = ([], [], w)"
| "refresh_orders x now ex ((cid, o') # os) w =
     (let (o1, drop1, w1) = refresh_order x now ex o' w;
          (os', to_remove, w2) = refresh_orders x now ex os w1
      in ((cid, o1) # os', (if drop1 then cid # to_remove else to_remove), w2))"

definition refresh_state :: "'w exchange_ops \<Rightarrow> int \<Rightarrow> gateway \<times> 'w \<Rightarrow> gateway \<times> 'w" where
  "refresh_state x now gw =
     (case x_get_open_orders x (snd gw) of
        (Inl e, w1) \<Rightarrow> (fst gw, w1)
      | (Inr os, w1) \<Rightarrow>
         (let (active', to_remove, w2) = refresh_orders x now (exchange_map os) (gw_active (fst gw)) w1
          in (fold move_to_completed to_remove ((fst gw)\<lparr>gw_active := active'\<rparr>), w2)))"

definition get_active_order_count :: "gateway \<Rightarrow> nat" where
  "get_active_order_count g = length (gw_active g)"

definition get_active_orders :: "gateway \<Rightarrow> order list" where
  "get_active_orders g = map snd (gw_active g)"

definition gateway_symbol_filters :: "'w exchange_ops \<Rightarrow> string \<Rightarrow> gateway \<times> 'w \<Rightarrow> (string, rat) dict \<times> (gateway \<times> 'w)" where
  "gateway_symbol_filters x symb gw =
     (case x_get_symbol_filters x symb (snd gw) of
        (Inl e, w1) \<Rightarrow> ([], (fst gw, w1))
      | (Inr f, w1) \<Rightarrow> (f, (fst gw, w1)))"

section \<open>What a submission does to the gateway\<close>

definition sent :: "nat \<Rightarrow> order_request \<Rightarrow> gateway \<Rightarrow> gateway" where
  "sent n r g = g\<lparr>gw_wire := gw_wire g @ replicate n r\<rparr>"

definition submit_inv :: "gateway \<Rightarrow> order_request \<Rightarrow> int \<Rightarrow> gateway \<times> 'w \<Rightarrow> bool" where
  "submit_inv g0 r k gw = (1 \<le> k \<and> fst gw = sent (nat (k - 1)) r g0)"

definition submit_post :: "gateway \<Rightarrow> order_request \<Rightarrow> int \<Rightarrow> order_result \<Rightarrow> gateway \<times> 'w \<Rightarrow> bool" where
  "submit_post g0 r k res gw = (fst gw = (if terminal (res_status res)
     then (sent (nat k) r g0)\<lparr>gw_pending := AList.update (req_client_order_id r) True (gw_pending g0)\<rparr>
     else sent (nat k) r g0))"

definition submit_fail :: "gateway \<Rightarrow> order_request \<Rightarrow> int \<Rightarrow> exc \<Rightarrow> gateway \<times> 'w \<Rightarrow> bool" where
  "submit_fail g0 r k e gw =
     (if is_transient e then fst gw = sent (nat k) r g0
      else e = OrderRejectedError \<and>
        fst gw = (sent (nat k) r g0)\<lparr>gw_pending := AList.delete (req_client_order_id r) (gw_pending g0)\<rparr>)"

lemma sent_fields [simp]:
  "gw_cfg (sent n r g) = gw_cfg g" "gw_active (sent n r g) = gw_active g"
  "gw_completed (sent n r g) = gw_completed g" "gw_pending (sent n r g) = gw_pending g"
  "gw_wire (sent n r g) = gw_wire g @ replicate n r"
  by (simp_all add: sent_def)

lemma nat_attempt: "1 \<le> k \<Longrightarrow> nat k = Suc (nat (k - 1))"
  by simp

interpretation submission: retried_operation "submit_policy x" "submit_attempt x r"
  "submit_inv g0 r" "submit_post g0 r" "submit_fail g0 r" for x r g0
  by unfold_locales
    (auto simp: submit_policy_def submit_attempt_def submit_inv_def submit_post_def submit_fail_def
      Let_def sent_def replicate_append_same nat_attempt is_transient_def
      split: prod.splits sum.splits if_splits)

lemma map_of_delete_update: "map_of (AList.delete k (AList.update k v d)) k' = map_of (AList.delete k d) k'"
  by (simp add: map_of_AList_delete map_of_AList_update)

definition submitted_id :: "string \<Rightarrow> order_request \<Rightarrow> string" where
  "submitted_id uuid req = (if req_client_order_id req \<noteq> [] then req_client_order_id req else uuid)"

lemma submit_cases:
  assumes "submit x uuid now req (g, w) = (out, (g', w'))" "1 \<le> gc_max_retries (gw_cfg g)"
  shows "\<exists>k. 1 \<le> k \<and> k \<le> nat (gc_max_retries (gw_cfg g))
    \<and> gw_wire g' = gw_wire g @ replicate k (wire_request (submitted_id uuid req) req)
    \<and> gw_cfg g' = gw_cfg g \<and> map_of (gw_pending g') = (map_of (gw_pending g))(submitted_id uuid req := None)
    \<and> (case out of
        Inl e \<Rightarrow> e \<in> {OrderRejectedError, OrderTimeoutError} \<and> gw_active g' = gw_active g \<and> gw_completed g' = gw_completed g
      | Inr res \<Rightarrow> terminal (res_status res)
          \<and> gw_active g' = AList.delete (submitted_id uuid req)
              (AList.update (submitted_id uuid req) (order_of_result now (submitted_id uuid req) res) (gw_active g))
          \<and> gw_completed g' = deque_append (gc_completed_ids_maxlen (gw_cfg g)) (submitted_id uuid req) (gw_completed g))"
proof -
  let ?cid = "submitted_id uuid req"
  let ?r = "wire_request ?cid req"
  let ?g0 = "g\<lparr>gw_pending := AList.update ?cid False (gw_pending g)\<rparr>"
  have cid: "req_client_order_id ?r = ?cid" by (simp add: wire_request_def)
  obtain o1 g1 w1 where R: "retry_async (submit_policy x) (submit_attempt x ?r) (gc_max_retries (gw_cfg g)) (?g0, w) = (o1, (g1, w1))"
    by (metis prod_cases3)

  then obtain j where j: "1 \<le> j" "j \<le> gc_max_retries (gw_cfg g)" and
    c: "case o1 of Inr a \<Rightarrow> submit_post ?g0 ?r j a (g1, w1) | Inl e \<Rightarrow> submit_fail ?g0 ?r j e (g1, w1)"
    using submission.retry_async_cases[where ?g0.0 = ?g0, OF assms(2) _ R] by (cases o1) (auto simp: submit_inv_def sent_def)
  note defs = submit_def Let_def submitted_id_def[symmetric] R
  have pend: "map_of (AList.delete ?cid (AList.update ?cid b p)) = (map_of p)(?cid := None)"
    "map_of (AList.delete ?cid p) = (map_of p)(?cid := None)" for b p
    by (auto simp: fun_eq_iff map_of_AList_delete map_of_AList_update)
  have pend2: "(map_of (AList.update ?cid b p))(?cid := None) = (map_of p)(?cid := None)" for b p
    by (auto simp: fun_eq_iff map_of_AList_update)
  have k: "1 \<le> nat j" "nat j \<le> nat (gc_max_retries (gw_cfg g))" using j by auto
  show ?thesis
  proof (cases o1)
    case (Inl e)
    then have g1: "submit_fail ?g0 ?r j e (g1, w1)" using c by simp
    have "out = Inl OrderRejectedError \<and> gw_active g' = gw_active g1 \<and> gw_completed g' = gw_completed g1
        \<and> gw_wire g' = gw_wire g1 \<and> gw_cfg g' = gw_cfg g1
        \<and> map_of (gw_pending g') = (map_of (gw_pending g1))(?cid := None)"
      using assms(1) Inl g1
      by (auto simp: defs submit_fail_def cid pend pend2 split: if_splits)
    then show ?thesis using k g1
      by (intro exI[of _ "nat j"]) (auto simp: submit_fail_def cid pend pend2 split: if_splits)
  next
    case (Inr res)
    then have g1: "submit_post ?g0 ?r j res (g1, w1)" using c by simp
    then have m: "map_of (gw_pending g1) ?cid = Some (terminal (res_status res))"
      "(map_of (gw_pending g1))(?cid := None) = (map_of (gw_pending g))(?cid := None)"
      "gw_active g1 = gw_active g" "gw_completed g1 = gw_completed g" "gw_cfg g1 = gw_cfg g"
      "gw_wire g1 = gw_wire g @ replicate (nat j) ?r"
      by (auto simp: submit_post_def cid map_of_AList_update pend2)
    show ?thesis
    proof (cases "terminal (res_status res)")
      case False
      then have "out = Inl OrderTimeoutError \<and> g' = g1\<lparr>gw_pending := AList.delete ?cid (gw_pending g1)\<rparr>"
        using assms(1) Inr m(1) by (auto simp: defs)
      then show ?thesis using k m by (intro exI[of _ "nat j"]) (auto simp: pend)
    next
      case True
      then have "out = Inr res \<and> g' = move_to_completed ?cid (g1\<lparr>gw_pending := AList.delete ?cid (gw_pending g1),
          gw_active := AList.update ?cid (order_of_result now ?cid res) (gw_active g1)\<rparr>)"
        using assms(1) Inr m(1) by (auto simp: defs order_of_result_def)
      then show ?thesis using k m True
        by (intro exI[of _ "nat j"]) (auto simp: pend move_to_completed_def map_of_AList_update)
    qed
  qed
qed

lemma submit_idempotent_id: "uuid \<noteq> [] \<Longrightarrow> submitted_id uuid req \<noteq> []"
  by (simp add: submitted_id_def)

lemma submit_unconfirmed:
  assumes "x_place_order x (wire_request (submitted_id uuid req) req) w = (Inr res, w1)"
    and "\<not> terminal (res_status res)" and "1 \<le> gc_max_retries (gw_cfg g)"
  shows "let (out, (g', w')) = submit x uuid now req (g, w)
    in out = Inl OrderTimeoutError \<and> w' = x_elapse x (gc_confirmation_timeout (gw_cfg g)) w1
     \<and> gw_wire g' = gw_wire g @ [wire_request (submitted_id uuid req) req]
     \<and> gw_active g' = gw_active g \<and> gw_completed g' = gw_completed g"
proof -
  obtain n where "nat (gc_max_retries (gw_cfg g)) = Suc n" using assms(3) by (cases "nat (gc_max_retries (gw_cfg g))") auto
  then show ?thesis using assms
    by (simp add: submit_def Let_def submitted_id_def[symmetric] retry_async_def submit_policy_def submit_attempt_def
        map_of_AList_update)
qed

text \<open>A result comes from one call of \<^verbatim>\<open>place_order\<close>.\<close>

lemma retry_from_result:
  "retry_from rp op n k w = (Inr a, w') \<Longrightarrow> \<exists>j v v'. op j v = (Inr a, v')"
  by (induction n arbitrary: k w) (auto simp: Let_def split: prod.splits sum.splits if_splits)

lemma submit_result_placed:
  assumes "submit x uuid now req (g, w) = (Inr res, s')"
  shows "\<exists>v v'. x_place_order x (wire_request (submitted_id uuid req) req) v = (Inr res, v')"
proof -
  let ?r = "wire_request (submitted_id uuid req) req"
  obtain o1 s1 where R: "retry_async (submit_policy x) (submit_attempt x ?r) (gc_max_retries (gw_cfg g))
      (g\<lparr>gw_pending := AList.update (submitted_id uuid req) False (gw_pending g)\<rparr>, w) = (o1, s1)" by (metis surj_pair)
  have "o1 = Inr res" using assms by (auto simp: submit_def Let_def submitted_id_def[symmetric] R split: sum.splits if_splits prod.splits)
  with R obtain j v v' where "submit_attempt x ?r j v = (Inr res, v')"
    by (auto simp: retry_async_def dest!: retry_from_result split: if_splits)
  then show ?thesis by (auto simp: submit_attempt_def Let_def split: prod.splits sum.splits if_splits)
qed

section \<open>The port the execution code relies on\<close>

text \<open>
  What a client of the gateway may assume of a submission: it puts between one and \<open>bound\<close> copies of
  one request on the wire, under the client identifier the caller gave, if any; it raises nothing but
  the two order errors, and returns only terminal results.
\<close>

locale order_port =
  fixes send :: "order_request \<Rightarrow> 's \<Rightarrow> order_result res \<times> 's"
    and wire :: "'s \<Rightarrow> order_request list" and ok :: "'s \<Rightarrow> bool" and bound :: nat
  assumes ok_send: "ok s \<Longrightarrow> ok (snd (send r s))"
    and send_wire: "ok s \<Longrightarrow> \<exists>k cid. 1 \<le> k \<and> k \<le> bound \<and> (req_client_order_id r \<noteq> [] \<longrightarrow> cid = req_client_order_id r)
          \<and> wire (snd (send r s)) = wire s @ replicate k (wire_request cid r)"
    and send_errors: "ok s \<Longrightarrow> send r s = (Inl e, s') \<Longrightarrow> e \<in> {OrderRejectedError, OrderTimeoutError}"
    and send_terminal: "ok s \<Longrightarrow> send r s = (Inr res, s') \<Longrightarrow> terminal (res_status res)"
begin

text \<open>A submission never leaves the wire as it was.\<close>

lemma send_sends: "ok s \<Longrightarrow> wire (snd (send r s)) \<noteq> wire s"
  using send_wire[of s r] by fastforce

lemma send_last: "ok s \<Longrightarrow> \<exists>cid. last (wire (snd (send r s))) = wire_request cid r"
proof -
  assume "ok s"
  then obtain k cid where "1 \<le> k" "wire (snd (send r s)) = wire s @ replicate k (wire_request cid r)"
    using send_wire[of s r] by blast
  then show ?thesis by (cases k) (auto simp: last_append intro!: exI[of _ cid])
qed

end

definition gateway_ok :: "nat \<Rightarrow> gateway \<times> 'w \<Rightarrow> bool" where
  "gateway_ok n s = (1 \<le> gc_max_retries (gw_cfg (fst s)) \<and> nat (gc_max_retries (gw_cfg (fst s))) \<le> n)"

interpretation gateway_port: order_port "submit x uuid now" "\<lambda>s. gw_wire (fst s)" "gateway_ok n" n
  for x :: "'w exchange_ops" and uuid now n
proof unfold_locales
  fix s s' :: "gateway \<times> 'w" and r e res
  obtain g w where s: "s = (g, w)" by fastforce
  obtain out g' w' where o: "submit x uuid now r (g, w) = (out, (g', w'))" by (metis prod_cases3)
  assume ok: "gateway_ok n s"
  then have m: "1 \<le> gc_max_retries (gw_cfg g)" by (simp add: gateway_ok_def s)
  note c = submit_cases[OF o m]
  show "gateway_ok n (snd (submit x uuid now r s))" using c ok by (auto simp: s o gateway_ok_def)
  show "\<exists>k cid. 1 \<le> k \<and> k \<le> n \<and> (req_client_order_id r \<noteq> [] \<longrightarrow> cid = req_client_order_id r)
      \<and> gw_wire (fst (snd (submit x uuid now r s))) = gw_wire (fst s) @ replicate k (wire_request cid r)"
    using c ok by (auto simp: s o gateway_ok_def submitted_id_def intro: order_trans)
  show "submit x uuid now r s = (Inl e, s') \<Longrightarrow> e \<in> {OrderRejectedError, OrderTimeoutError}"
    using c by (auto simp: s o)
  show "submit x uuid now r s = (Inr res, s') \<Longrightarrow> terminal (res_status res)" using c by (auto simp: s o)
qed

section \<open>Reachable gateways\<close>

inductive gateway_run :: "'w exchange_ops \<Rightarrow> gateway \<times> 'w \<Rightarrow> gateway \<times> 'w \<Rightarrow> bool" for x where
  gw_start: "gateway_run x s s"
| gw_submit: "gateway_run x s s1 \<Longrightarrow> gateway_run x s (snd (submit x uuid now req s1))"
| gw_cancel: "gateway_run x s s1 \<Longrightarrow> gateway_run x s (snd (cancel x cid s1))"
| gw_status: "gateway_run x s s1 \<Longrightarrow> gateway_run x s (snd (get_status x now cid s1))"
| gw_refresh: "gateway_run x s s1 \<Longrightarrow> gateway_run x s (refresh_state x now s1)"
| gw_filters: "gateway_run x s s1 \<Longrightarrow> gateway_run x s (snd (gateway_symbol_filters x symb s1))"

definition quiet :: "gateway_config \<Rightarrow> gateway \<Rightarrow> bool" where
  "quiet cfg g = (gw_cfg g = cfg \<and> gw_active g = [] \<and> length (gw_completed g) \<le> gc_completed_ids_maxlen cfg
     \<and> map_of (gw_pending g) = Map.empty)"

lemma quiet_submit:
  assumes "quiet cfg (fst s)" "1 \<le> gc_max_retries cfg"
  shows "quiet cfg (fst (snd (submit x uuid now req s)))"
proof -
  obtain g w where s: "s = (g, w)" by fastforce
  obtain out g' w' where o: "submit x uuid now req (g, w) = (out, (g', w'))" by (metis prod_cases3)
  from assms s have q: "gw_cfg g = cfg" "gw_active g = []" "length (gw_completed g) \<le> gc_completed_ids_maxlen cfg"
    "map_of (gw_pending g) = Map.empty" "1 \<le> gc_max_retries (gw_cfg g)" by (auto simp: quiet_def)
  from submit_cases[OF o q(5)] q have "quiet cfg g'"
    by (auto simp: quiet_def deque_append_def split: sum.splits)
  then show ?thesis by (simp add: s o)
qed

lemma quiet_others:
  assumes "quiet cfg (fst s)"
  shows "quiet cfg (fst (snd (cancel x cid s)))" "quiet cfg (fst (snd (get_status x now cid s)))"
    "quiet cfg (fst (refresh_state x now s))" "quiet cfg (fst (snd (gateway_symbol_filters x symb s)))"
  using assms by (auto simp: quiet_def cancel_def get_status_def refresh_state_def gateway_symbol_filters_def
      split: prod.splits sum.splits)

lemma quiet_run: "gateway_run x s s' \<Longrightarrow> quiet cfg (fst s) \<Longrightarrow> 1 \<le> gc_max_retries cfg \<Longrightarrow> quiet cfg (fst s')"
  by (induction rule: gateway_run.induct) (auto intro: quiet_submit quiet_others)

section \<open>Refreshing\<close>

lemma active_fold_move: "gw_active (fold move_to_completed cs g) = filter (\<lambda>(c, _). c \<notin> set cs) (gw_active g)"
proof (induction cs arbitrary: g)
  case (Cons c cs)
  have "gw_active (move_to_completed c g) = filter (\<lambda>(c', _). c' \<noteq> c) (gw_active g)"
    by (force simp: move_to_completed_def AList.delete_eq map_of_eq_None_iff intro!: filter_cong filter_True[symmetric])
  then show ?case by (auto simp: Cons.IH intro!: filter_cong)
qed simp

lemma exchange_map_sound: "map_of (exchange_map os) i = Some e \<Longrightarrow> e \<in> set os \<and> ord_id e = Some i"
  unfolding exchange_map_def
  by (induction os rule: rev_induct) (auto simp: map_of_AList_update split: option.splits if_splits)

lemma refresh_order_kept:
  "refresh_order x now ex o' w = (o1, False, w') \<Longrightarrow>
     (terminal (ord_status o1) \<longrightarrow> (\<exists>i e. ord_id o1 = Some i \<and> map_of ex i = Some e \<and> ord_status e = ord_status o1))"
  by (auto simp: refresh_order_def split: option.splits if_splits prod.splits sum.splits)

lemma refresh_orders_kept:
  "refresh_orders x now ex os w = (os', rem, w') \<Longrightarrow> (cid, o1) \<in> set os' \<Longrightarrow> cid \<notin> set rem \<Longrightarrow>
     (terminal (ord_status o1) \<longrightarrow> (\<exists>i e. ord_id o1 = Some i \<and> map_of ex i = Some e \<and> ord_status e = ord_status o1))"
proof (induction os arbitrary: w os' rem)
  case (Cons co os)
  then show ?case by (cases co) (auto split: prod.splits if_splits dest!: refresh_order_kept)
qed simp

lemma refresh_orders_keys: "refresh_orders x now ex os w = (os', rem, w') \<Longrightarrow> map fst os' = map fst os"
proof (induction os arbitrary: w os' rem)
  case (Cons co os)
  then show ?case by (cases co) (auto split: prod.splits)
qed simp

lemma refresh_orders_gone:
  assumes "refresh_orders x now ex os w = (os', rem, w')" "(cid, o0) \<in> set os" "ord_id o0 = Some i"
    "terminal (ord_status o0) \<or> (map_of ex i = None \<and> (\<forall>w. \<exists>w1. x_get_order_status x i (ord_symbol o0) w = (Inr None, w1)))"
  shows "cid \<in> set rem"
  using assms(1,2)
proof (induction os arbitrary: w os' rem w')
  case (Cons co os)
  obtain c o' where co: "co = (c, o')" by fastforce
  obtain o1 d w1 where r: "refresh_order x now ex o' w = (o1, d, w1)" by (metis prod_cases3)
  obtain os1 rem1 w2 where rs: "refresh_orders x now ex os w1 = (os1, rem1, w2)" by (metis prod_cases3)
  have rem: "rem = (if d then c # rem1 else rem1)" using Cons.prems(1) by (simp add: co r rs)
  show ?case
  proof (cases "(cid, o0) = co")
    case True
    then have "d" using assms(3,4) r
      by (auto simp: co refresh_order_def split: if_splits option.splits prod.splits sum.splits; metis prod.inject sum.inject(2) option.distinct(1) sum.distinct(1))
    with True rem co show ?thesis by simp
  next
    case False
    with Cons.prems(2) Cons.IH[OF rs] rem show ?thesis by (auto split: if_splits)
  qed
qed simp

section \<open>Properties\<close>

text \<open>
  \<^bold>\<open>C17\<close>. One submission puts one order on the wire: it calls \<^verbatim>\<open>place_order\<close> between once and
  \<open>max_retries\<close> times, always with the same request under the same non-empty client identifier, and
  that request has the caller's symbol, side, type, quantity, prices and flags.
\<close>

theorem submit_wire_idempotent:
  assumes "submit x uuid now req (g, w) = (out, (g', w'))" and "1 \<le> gc_max_retries (gw_cfg g)" and "uuid \<noteq> []"
  shows "\<exists>n r. gw_wire g' = gw_wire g @ replicate n r \<and> 1 \<le> n \<and> int n \<le> gc_max_retries (gw_cfg g)
    \<and> req_client_order_id r \<noteq> [] \<and> (req_client_order_id req \<noteq> [] \<longrightarrow> req_client_order_id r = req_client_order_id req)
    \<and> r = req\<lparr>req_client_order_id := req_client_order_id r, req_take_profit_price := None, req_stop_loss_price := None\<rparr>"
proof -
  let ?r = "wire_request (submitted_id uuid req) req"
  from submit_cases[OF assms(1,2)] obtain k where k: "1 \<le> k" "k \<le> nat (gc_max_retries (gw_cfg g))"
    "gw_wire g' = gw_wire g @ replicate k ?r" by blast
  have "req_client_order_id ?r = submitted_id uuid req"
    "?r = req\<lparr>req_client_order_id := submitted_id uuid req, req_take_profit_price := None, req_stop_loss_price := None\<rparr>"
    by (simp_all add: wire_request_def)
  with k show ?thesis using submit_idempotent_id[OF assms(3)] assms(2)
    by (intro exI[of _ k] exI[of _ ?r]) (auto simp: submitted_id_def)
qed

text \<open>An exchange whose answers to \<^verbatim>\<open>place_order\<close> are scripted.\<close>

definition scripted_exchange :: "order_result res list exchange_ops" where
  "scripted_exchange = \<lparr>x_place_order = (\<lambda>r w. (hd w, tl w)), x_cancel_order = (\<lambda>i s w. (Inr True, w)),
     x_get_order_status = (\<lambda>i s w. (Inr None, w)), x_get_open_orders = (\<lambda>w. (Inr [], w)),
     x_get_symbol_filters = (\<lambda>s w. (Inr [], w)), x_is_order_not_found = (\<lambda>e. e = ExchangeError True),
     x_elapse = (\<lambda>d w. w)\<rparr>"

definition example_gateway_config :: gateway_config where
  "example_gateway_config = \<lparr>gc_confirmation_timeout = 30, gc_max_retries = 3, gc_completed_ids_maxlen = 1000\<rparr>"

definition example_request :: order_request where
  "example_request = default_order_request\<lparr>req_symbol := ''BTCUSDT'', req_side := ''BUY'',
     req_order_type := ''MARKET'', req_quantity := 1, req_take_profit_price := Some 120, req_stop_loss_price := Some 90\<rparr>"

definition example_ack :: "string \<Rightarrow> order_result" where
  "example_ack st = \<lparr>res_order_id = StrId ''0f4a'', res_client_order_id = [], res_symbol = ''BTCUSDT'',
     res_side = ''BUY'', res_order_type = ''MARKET'', res_quantity = 1, res_filled_qty = 1, res_price = Some 100,
     res_status = st, res_fills = []\<rparr>"

lemma example_config_retries: "1 \<le> gc_max_retries (gw_cfg (init_gateway example_gateway_config))"
  by (simp add: init_gateway_def example_gateway_config_def)

theorem submit_wire_idempotent_witness:
  "\<exists>n r. gw_wire (fst (snd (submit scripted_exchange ''u1'' 0 example_request
        (init_gateway example_gateway_config, [Inl TimeoutError, Inr (example_ack ''FILLED'')])))) = replicate n r
     \<and> 1 \<le> n \<and> int n \<le> 3 \<and> req_symbol r = ''BTCUSDT''"
proof -
  obtain out g' w' where s: "submit scripted_exchange ''u1'' 0 example_request
      (init_gateway example_gateway_config, [Inl TimeoutError, Inr (example_ack ''FILLED'')]) = (out, (g', w'))"
    by (metis prod_cases3)
  from submit_wire_idempotent[OF s example_config_retries] obtain n r where
    "gw_wire g' = replicate n r" "1 \<le> n" "int n \<le> 3"
    "r = example_request\<lparr>req_client_order_id := req_client_order_id r, req_take_profit_price := None, req_stop_loss_price := None\<rparr>"
    by (auto simp: init_gateway_def example_gateway_config_def)
  moreover from arg_cong[OF this(4), of req_symbol] have "req_symbol r = ''BTCUSDT''"
    by (simp add: example_request_def del: order_request.ext_inject)
  ultimately show ?thesis by (auto simp: s)
qed

text \<open>
  \<^bold>\<open>C18\<close>. A submission reports success only for an order in a terminal state, which it then records as
  completed and not as active; otherwise it raises \<^verbatim>\<open>OrderRejectedError\<close> or \<^verbatim>\<open>OrderTimeoutError\<close> and
  leaves the tracked orders alone. On every path the confirmation event of the order is gone.
\<close>

theorem submit_outcome:
  assumes "submit x uuid now req (g, w) = (out, (g', w'))" and "1 \<le> gc_max_retries (gw_cfg g)"
    and "0 < gc_completed_ids_maxlen (gw_cfg g)"
  shows "map_of (gw_pending g') (submitted_id uuid req) = None
    \<and> (case out of
        Inl e \<Rightarrow> e \<in> {OrderRejectedError, OrderTimeoutError} \<and> gw_active g' = gw_active g \<and> gw_completed g' = gw_completed g
      | Inr res \<Rightarrow> terminal (res_status res) \<and> map_of (gw_active g') (submitted_id uuid req) = None
          \<and> last (gw_completed g') = submitted_id uuid req)"
proof -
  have "last (deque_append n c q) = c" if "0 < n" for n and c :: string and q
    using deque.last_push[OF that, of c q] by simp
  then show ?thesis using submit_cases[OF assms(1,2)] assms(3)
    by (auto simp: map_of_AList_delete split: sum.splits)
qed

theorem submit_outcome_witness:
  "last (gw_completed (fst (snd (submit scripted_exchange ''u1'' 0 example_request
      (init_gateway example_gateway_config, [Inr (example_ack ''FILLED'')]))))) = ''u1''"
proof -
  obtain out g' w' where s: "submit scripted_exchange ''u1'' 0 example_request
      (init_gateway example_gateway_config, [Inr (example_ack ''FILLED'')]) = (out, (g', w'))"
    by (metis prod_cases3)
  then have "out = Inr (example_ack ''FILLED'')"
    by (simp add: submit_def Let_def retry_async_def init_gateway_def example_gateway_config_def numeral_3_eq_3
        submit_policy_def submit_attempt_def scripted_exchange_def example_ack_def terminal_def TERMINAL_STATUSES_def)
  with submit_outcome[OF s example_config_retries] s show ?thesis
    by (simp add: init_gateway_def example_gateway_config_def submitted_id_def example_request_def default_order_request_def)
qed

text \<open>
  An order the exchange accepts without a terminal status is lost: when the first call of
  \<^verbatim>\<open>place_order\<close> answers with a status such as \<^verbatim>\<open>NEW\<close>, the submission raises \<^verbatim>\<open>OrderTimeoutError\<close> after
  the confirmation timeout, because nothing sets the event it waits for, and the live order is on the
  wire but among neither the active nor the completed orders.
\<close>

lemma unconfirmed_order_untracked:
  assumes "x_place_order x (wire_request (submitted_id uuid req) req) w = (Inr res, w1)"
    and "\<not> terminal (res_status res)" and "1 \<le> gc_max_retries (gw_cfg g)"
  shows "let (out, (g', w')) = submit x uuid now req (g, w)
    in out = Inl OrderTimeoutError \<and> w' = x_elapse x (gc_confirmation_timeout (gw_cfg g)) w1
     \<and> gw_wire g' = gw_wire g @ [wire_request (submitted_id uuid req) req]
     \<and> gw_active g' = gw_active g \<and> gw_completed g' = gw_completed g"
  using assms by (rule submit_unconfirmed)

text \<open>
  In every gateway reachable from a fresh one by submissions, cancellations, status queries and
  refreshes, no order is tracked as active, the ring of completed orders stays within its size, and no
  confirmation event is left behind. So \<^verbatim>\<open>cancel\<close> never finds an order, and \<^verbatim>\<open>refresh_state\<close> never has one
  to refresh.
\<close>

lemma gateway_tracks_nothing:
  assumes "gateway_run x (init_gateway cfg, w0) (g, w)" and "1 \<le> gc_max_retries cfg"
  shows "gw_active g = [] \<and> get_active_order_count g = 0
    \<and> length (gw_completed g) \<le> gc_completed_ids_maxlen cfg \<and> map_of (gw_pending g) = Map.empty
    \<and> cancel x cid (g, w) = (False, (g, w))"
proof -
  have "quiet cfg (fst (init_gateway cfg, w0))" by (simp add: quiet_def init_gateway_def)
  from quiet_run[OF assms(1) this assms(2)] show ?thesis
    by (simp add: quiet_def get_active_order_count_def cancel_def)
qed

text \<open>
  Refreshing leaves no ghosts: afterwards a tracked order has a terminal status only if the
  exchange itself lists it as open with that status; an order that was terminal already, or that the
  exchange neither lists nor knows, is no longer tracked; and no order appears that was not tracked.
\<close>

lemma refresh_state_resolves:
  assumes "x_get_open_orders x w = (Inr os, w1)" and "refresh_state x now (g, w) = (g', w')"
  shows "(\<forall>(cid, o1) \<in> set (gw_active g'). terminal (ord_status o1) \<longrightarrow>
            (\<exists>e \<in> set os. ord_id e = ord_id o1 \<and> ord_status e = ord_status o1))
    \<and> (\<forall>(cid, o0) \<in> set (gw_active g). \<forall>i. ord_id o0 = Some i \<and>
          (terminal (ord_status o0) \<or> (map_of (exchange_map os) i = None
             \<and> (\<forall>v. \<exists>v1. x_get_order_status x i (ord_symbol o0) v = (Inr None, v1))))
          \<longrightarrow> map_of (gw_active g') cid = None)
    \<and> fst ` set (gw_active g') \<subseteq> fst ` set (gw_active g)"
proof -
  obtain os' rem w2 where r: "refresh_orders x now (exchange_map os) (gw_active g) w1 = (os', rem, w2)" by (metis prod_cases3)
  have g': "gw_active g' = filter (\<lambda>(c, _). c \<notin> set rem) os'"
    using assms r by (auto simp: refresh_state_def active_fold_move)
  have kept: "\<exists>e \<in> set os. ord_id e = ord_id o1 \<and> ord_status e = ord_status o1"
    if "(cid, o1) \<in> set (gw_active g')" "terminal (ord_status o1)" for cid o1
    using refresh_orders_kept[OF r, of cid o1] that by (auto simp: g' dest!: exchange_map_sound)
  have gone: "map_of (gw_active g') cid = None"
    if "(cid, o0) \<in> set (gw_active g)" "ord_id o0 = Some i"
      "terminal (ord_status o0) \<or> (map_of (exchange_map os) i = None
        \<and> (\<forall>v. \<exists>v1. x_get_order_status x i (ord_symbol o0) v = (Inr None, v1)))" for cid o0 i
    using refresh_orders_gone[OF r that] by (auto simp: g' map_of_eq_None_iff)
  have "fst ` set (gw_active g') \<subseteq> set (map fst os')" by (auto simp: g')
  then have keys: "fst ` set (gw_active g') \<subseteq> fst ` set (gw_active g)"
    unfolding refresh_orders_keys[OF r] by simp
  show ?thesis using kept gone keys by blast
qed

definition ghost_order :: order where
  "ghost_order = (order_of_result 0 ''u9'' (example_ack ''NEW''))\<lparr>ord_status := ''NEW''\<rparr>"

text \<open>
  The attached take-profit and stop-loss prices of an entry never reach the exchange: whatever the
  caller asked for, the request on the wire has neither.
\<close>

lemma wire_request_drops_brackets:
  "req_take_profit_price (wire_request cid req) = None \<and> req_stop_loss_price (wire_request cid req) = None"
  by (simp add: wire_request_def)

end
