(* ===== verification/Twap.thy ===== *)
theory Twap
  imports Gateway
begin

text \<open>
  \<^verbatim>\<open>src/quad/execution/twap.py\<close>: splitting an order into slices and submitting them over a window.
  The gateway is reached through a \<open>send\<close> function on a state \<open>'s\<close> (locale \<open>order_port\<close>); the clock,
  the jitter draws, sleeping and the fill callback are the rest of the environment.
\<close>

section \<open>Configuration\<close>

record twap_config =
  tw_min_slices :: int
  tw_max_slices :: int
  tw_default_window :: int
  tw_jitter_seconds :: rat
  tw_min_slice_qty :: pyval
  tw_urgency_threshold :: rat

definition cfg_get :: "(string, pyval) dict \<Rightarrow> string \<Rightarrow> pyval \<Rightarrow> pyval" where
  "cfg_get d k z = (case map_of d k of None \<Rightarrow> z | Some v \<Rightarrow> v)"

definition init_twap :: "(string, pyval) dict \<Rightarrow> twap_config res" where
  "init_twap d =
     bindE (to_int (cfg_get d ''min_slices'' (PInt 1))) (\<lambda>mn.
     bindE (to_int (cfg_get d ''max_slices'' (PInt 10))) (\<lambda>mx.
     bindE (to_int (cfg_get d ''default_window_seconds'' (PInt 300))) (\<lambda>win.
     bindE (to_float (cfg_get d ''jitter_seconds'' (PFloat 5))) (\<lambda>jit.
     bindE (to_float (cfg_get d ''fill_urgency_threshold'' (PFloat (fround (8 / 10))))) (\<lambda>urg. Inr
       \<lparr>tw_min_slices = mn, tw_max_slices = mx, tw_default_window = win, tw_jitter_seconds = jit,
        tw_min_slice_qty = cfg_get d ''min_slice_quantity'' (PDec (1 / 1000)),
        tw_urgency_threshold = urg\<rparr>)))))"

section \<open>plan\<close>

text \<open>The divisor of \<^verbatim>\<open>qty / min_slice_qty\<close>: a Decimal divides by a Decimal or an int, not by a float.\<close>

fun decimal_operand :: "pyval \<Rightarrow> rat res" where
  "decimal_operand (PDec x) = Inr x"
| "decimal_operand (PInt n) = Inr (of_int n)"
| "decimal_operand (PBool b) = Inr (if b then 1 else 0)"
| "decimal_operand _ = Inl TypeError"

text \<open>Fewer slices until each clears the minimum notional.\<close>

fun fit_notional :: "rat \<Rightarrow> rat \<Rightarrow> rat \<Rightarrow> nat \<Rightarrow> nat" where
  "fit_notional qty price floor_usd 0 = 0"
| "fit_notional qty price floor_usd (Suc n) =
     (if n = 0 then 1
      else if floor_usd \<le> dround (dround (qty / of_nat (Suc n)) * price) then Suc n
      else fit_notional qty price floor_usd n)"

definition slice_count :: "twap_config \<Rightarrow> order_request \<Rightarrow> rat option \<Rightarrow> int \<Rightarrow> int" where
  "slice_count tw r min_notional total_units =
     (let c = min (max total_units (tw_min_slices tw)) (tw_max_slices tw)
      in case (min_notional, req_price r) of
           (Some mn, Some px) \<Rightarrow>
             if 0 < mn \<and> 0 < px \<and> 0 < c then int (fit_notional (req_quantity r) px mn (nat c)) else c
         | _ \<Rightarrow> c)"

text \<open>The units of each slice: the remainder goes to the first ones.\<close>

definition slice_units :: "int \<Rightarrow> int \<Rightarrow> int list" where
  "slice_units units c =
     filter (\<lambda>u. 1 \<le> u) (map (\<lambda>i. units div c + (if int i < units mod c then 1 else 0)) [0 ..< nat c])"

text \<open>
  All slices but the last are cut down to the step, unless that leaves nothing; the last one takes
  what is left of the whole quantity.
\<close>

fun align_slices :: "rat \<Rightarrow> rat \<Rightarrow> rat \<Rightarrow> rat list \<Rightarrow> rat list res" where
  "align_slices qty step assigned [] = Inr []"
| "align_slices qty step assigned [q] = Inr [dround (qty - assigned)]"
| "align_slices qty step assigned (q # q' # qs) =
     bindE (dfloordiv q step) (\<lambda>k.
       (let aq = (if dround (k * step) \<le> 0 then q else dround (k * step))
        in bindE (align_slices qty step (dround (assigned + aq)) (q' # qs)) (\<lambda>rest. Inr (aq # rest))))"

definition slice_id :: "string \<Rightarrow> nat \<Rightarrow> string" where
  "slice_id parent i = parent @ ''-slice-'' @ str_nat i"

definition child_request :: "order_request \<Rightarrow> string \<Rightarrow> rat \<Rightarrow> order_request" where
  "child_request r cid q = r\<lparr>req_quantity := q, req_client_order_id := cid,
     req_take_profit_price := None, req_stop_loss_price := None\<rparr>"

text \<open>The attached bracket prices ride on the final slice.\<close>

fun attach_last :: "order_request \<Rightarrow> order_request list \<Rightarrow> order_request list" where
  "attach_last r [] = []"
| "attach_last r [c] = [c\<lparr>req_take_profit_price := req_take_profit_price r, req_stop_loss_price := req_stop_loss_price r\<rparr>]"
| "attach_last r (c # c' # cs) = c # attach_last r (c' # cs)"

definition parent_id :: "order_request \<Rightarrow> string" where
  "parent_id r = (if req_client_order_id r \<noteq> [] then req_client_order_id r else ''twap'')"

definition slice_quantities :: "twap_config \<Rightarrow> order_request \<Rightarrow> rat option \<Rightarrow> rat option \<Rightarrow> rat list res" where
  "slice_quantities tw r step min_notional =
     (let qty = req_quantity r
      in if qty \<le> 0 then Inr []
         else bindE (decimal_operand (tw_min_slice_qty tw)) (\<lambda>m. bindE (decimal_div qty m) (\<lambda>u.
           (let units = dtrunc u
            in if units < 1 then Inr []
               else (let c = slice_count tw r min_notional units
                     in if c = 0 then Inl ZeroDivisionError
                        else (let raw = map (\<lambda>n. dround (m * of_int n)) (slice_units units c)
                              in case step of
                                   Some s \<Rightarrow> if 0 < s \<and> 1 < length raw then align_slices qty s 0 raw else Inr raw
                                 | None \<Rightarrow> Inr raw))))))"

definition number_slices :: "order_request \<Rightarrow> rat list \<Rightarrow> order_request list" where
  "number_slices r qs = map (\<lambda>(i, q). child_request r (slice_id (parent_id r) i) q)
     (filter (\<lambda>(i, q). 0 < q) (zip [0 ..< length qs] qs))"

definition plan :: "twap_config \<Rightarrow> order_request \<Rightarrow> rat option \<Rightarrow> rat option \<Rightarrow> order_request list res" where
  "plan tw r step min_notional = bindE (slice_quantities tw r step min_notional) (\<lambda>qs. Inr (attach_last r (number_slices r qs)))"

section \<open>execute\<close>

record 's twap_env =
  te_send :: "order_request \<Rightarrow> 's \<Rightarrow> order_result res \<times> 's"
  te_filters :: "string \<Rightarrow> 's \<Rightarrow> (string, rat) dict \<times> 's"
  te_on_fill :: "order_result \<Rightarrow> 's \<Rightarrow> 's"
  te_sleep :: "rat \<Rightarrow> 's \<Rightarrow> 's"
  te_elapsed :: "'s \<Rightarrow> rat"
  te_jitter :: "nat \<Rightarrow> rat"

definition urgent_request :: "order_request \<Rightarrow> order_request \<Rightarrow> nat \<Rightarrow> rat \<Rightarrow> order_request" where
  "urgent_request r slice i remaining =
     (child_request slice (parent_id r @ ''-urgent-'' @ str_nat i) remaining)\<lparr>req_price := req_price r\<rparr>"

definition urgent :: "twap_config \<Rightarrow> order_request \<Rightarrow> int \<Rightarrow> rat \<Rightarrow> rat \<Rightarrow> bool" where
  "urgent tw r win elapsed filled =
     (let time_frac = (if 0 < win then fround (elapsed / of_int win) else 1);
          fill_frac = (if 0 < req_quantity r then dround (filled / req_quantity r) else 1)
      in tw_urgency_threshold tw < time_frac \<and> fill_frac < 1 / 2)"

definition notify_fill :: "'s twap_env \<Rightarrow> order_result \<Rightarrow> 's \<Rightarrow> 's" where
  "notify_fill te res s = (if res_status res = ''FILLED'' then te_on_fill te res s else s)"

definition send_urgent :: "'s twap_env \<Rightarrow> order_request \<Rightarrow> order_result list \<Rightarrow> 's \<Rightarrow> order_result list res \<times> 's" where
  "send_urgent te u results s =
     (case te_send te u s of
        (Inl e, s1) \<Rightarrow> if e = OrderRejectedError then (Inr results, s1) else (Inl e, s1)
      | (Inr res, s1) \<Rightarrow> (Inr (results @ [res]), notify_fill te res s1))"

text \<open>
  The loop over the slices from number \<open>i\<close> on. Only \<^verbatim>\<open>OrderRejectedError\<close> is caught, and it skips
  the urgency check and the sleep.
\<close>

fun twap_loop :: "'s twap_env \<Rightarrow> twap_config \<Rightarrow> order_request \<Rightarrow> int \<Rightarrow> rat \<Rightarrow> nat \<Rightarrow> order_request list
     \<Rightarrow> rat \<Rightarrow> order_result list \<Rightarrow> 's \<Rightarrow> order_result list res \<times> 's" where
  "twap_loop te tw r win interval i [] filled results s = (Inr results, s)"
| "twap_loop te tw r win interval i (slice # slices) filled results s =
     (case te_send te slice s of
        (Inl e, s1) \<Rightarrow>
          if e = OrderRejectedError then twap_loop te tw r win interval (Suc i) slices filled results s1
          else (Inl e, s1)
      | (Inr res, s1) \<Rightarrow>
         (let filled' = dround (filled + res_filled_qty res); s2 = notify_fill te res s1
          in if slices = [] then (Inr (results @ [res]), s2)
             else if urgent tw r win (te_elapsed te s2) filled' then
               (if 0 < dround (req_quantity r - filled')
                then send_urgent te (urgent_request r slice i (dround (req_quantity r - filled'))) (results @ [res]) s2
                else (Inr (results @ [res]), s2))
             else twap_loop te tw r win interval (Suc i) slices filled' (results @ [res])
                    (te_sleep te (max 0 (fround (interval + te_jitter te i))) s2)))"

definition filter_or :: "(string, rat) dict \<Rightarrow> string \<Rightarrow> string \<Rightarrow> rat option" where
  "filter_or f a b = (case map_of f a of Some x \<Rightarrow> if x \<noteq> 0 then Some x else map_of f b | None \<Rightarrow> map_of f b)"

definition twap_execute :: "'s twap_env \<Rightarrow> twap_config \<Rightarrow> order_request \<Rightarrow> int option \<Rightarrow> 's \<Rightarrow> order_result list res \<times> 's" where
  "twap_execute te tw r window s =
     (let win = (case window of None \<Rightarrow> tw_default_window tw | Some w \<Rightarrow> w);
          (f, s1) = te_filters te (req_symbol r) s
      in case plan tw r (filter_or f ''step_size'' ''stepSize'') (filter_or f ''min_notional'' ''minNotional'') of
           Inl e \<Rightarrow> (Inl e, s1)
         | Inr slices \<Rightarrow>
             if slices = [] then (Inr [], s1)
             else twap_loop te tw r win (fround (of_int win / of_nat (length slices))) 0 slices 0 [] s1)"

section \<open>Slices\<close>

lemma slice_units_sum_aux:
  "sum_list (map (\<lambda>i. b + (if int i < m then 1 else 0)) [0 ..< n]) = int n * b + min (int n) (max 0 m)" for b m :: int
  by (induction n) (auto simp: algebra_simps min_def max_def)

lemma sum_list_filter_pos: "\<forall>x \<in> set xs. 0 \<le> x \<Longrightarrow> sum_list (filter (\<lambda>u. 1 \<le> u) xs) = sum_list xs" for xs :: "int list"
  by (induction xs) (auto simp: not_le)

lemma slice_units_sum:
  assumes "0 < c" "0 \<le> u"
  shows "sum_list (slice_units u c) = u \<and> int (length (slice_units u c)) \<le> c \<and> (\<forall>x \<in> set (slice_units u c). 1 \<le> x)"
proof -
  have "0 \<le> u div c" "0 \<le> u mod c" "u mod c < c" using assms by (auto simp: pos_imp_zdiv_nonneg_iff)
  then have "sum_list (slice_units u c) = int (nat c) * (u div c) + min (int (nat c)) (max 0 (u mod c))"
    unfolding slice_units_def
    by (subst sum_list_filter_pos) (auto simp only: slice_units_sum_aux, auto)
  also have "\<dots> = u" using assms \<open>0 \<le> u mod c\<close> \<open>u mod c < c\<close> by simp
  finally have "sum_list (slice_units u c) = u" .
  moreover have "length (slice_units u c) \<le> nat c"
    unfolding slice_units_def by (rule order_trans[OF length_filter_le]) simp
  ultimately show ?thesis using assms by (auto simp: slice_units_def)
qed

lemma fit_notional_bounds: "fit_notional q px f n \<le> n \<and> (0 < n \<longrightarrow> 0 < fit_notional q px f n)"
  by (induction n) auto

lemma slice_count_bounds:
  assumes "1 \<le> u" "1 \<le> tw_max_slices tw"
  shows "1 \<le> slice_count tw r mn u \<and> slice_count tw r mn u \<le> tw_max_slices tw"
proof -
  define c where "c = min (max u (tw_min_slices tw)) (tw_max_slices tw)"
  have c: "1 \<le> c" "c \<le> tw_max_slices tw" using assms by (auto simp: c_def)
  have "1 \<le> int (fit_notional (req_quantity r) px f (nat c)) \<and> int (fit_notional (req_quantity r) px f (nat c)) \<le> c" for px f
    using fit_notional_bounds[of "req_quantity r" px f "nat c"] c by auto
  then show ?thesis using c
    by (auto simp: slice_count_def c_def[symmetric] Let_def split: option.splits intro: order_trans)
qed

text \<open>On the grid, aligning keeps the sum: the last slice absorbs what the cuts left over.\<close>

lemma align_slices_sum:
  assumes "1 \<le> S" "ks \<noteq> []" "\<forall>k \<in> set ks. 1 \<le> k" "0 \<le> A" "A + sum_list ks \<le> Q" "Q < 10 ^ 27"
  shows "\<exists>qs. align_slices (of_int Q / 10 ^ p) (of_int S / 10 ^ p) (of_int A / 10 ^ p) (map (\<lambda>k. of_int k / 10 ^ p) ks) = Inr qs
    \<and> length qs = length ks \<and> sum_list qs = of_int (Q - A) / 10 ^ p \<and> (\<forall>q \<in> set qs. 0 < q)"
  using assms(2-5)
proof (induction ks arbitrary: A)
  case (Cons k ks)
  have pos: "\<forall>x \<in> set ks. 0 \<le> x" using Cons.prems by auto
  have S0: "(of_int S :: rat) / 10 ^ p \<noteq> 0" using assms(1) by simp
  show ?case
  proof (cases ks)
    case Nil
    have "dround (of_int Q / 10 ^ p - of_int A / 10 ^ p) = of_int (Q - A) / 10 ^ p"
      using Cons.prems Nil assms(6) dround_grid[of "Q - A" p] by (simp add: diff_divide_distrib)
    moreover have "0 < Q - A" using Cons.prems Nil by auto
    ultimately show ?thesis using Nil by simp
  next
    case (Cons k' ks')
    let ?d = "k div S"
    have k: "1 \<le> k" "k \<le> Q" "A + k + sum_list ks \<le> Q" "0 \<le> sum_list ks"
      using Cons.prems sum_list_nonneg[of ks] pos by auto
    have d: "0 \<le> ?d" "?d * S \<le> k" and dk: "?d \<le> k" using int_div_bounds[OF assms(1), of k] k by auto
    have "dtrunc (of_int k / of_int S :: rat) = ?d"
      using assms(1) k by (simp add: dtrunc_def floor_divide_of_int_eq)
    then have f: "dfloordiv (of_int k / 10 ^ p) (of_int S / 10 ^ p) = Inr (of_int ?d)"
      using d dk k assms(1,6) S0 grid_div[of S k p] by (simp add: dfloordiv_def Let_def)
    have m: "dround (of_int ?d * (of_int S / 10 ^ p)) = of_int (?d * S) / 10 ^ p"
      using dround_grid[of "?d * S" p] d k assms(1,6) by simp
    define a where "a = (if ?d * S \<le> 0 then k else ?d * S)"
    have a: "1 \<le> a" "a \<le> k" using d k by (auto simp: a_def)
    have aq: "(if dround (of_int ?d * (of_int S / 10 ^ p)) \<le> 0 then of_int k / 10 ^ p
        else dround (of_int ?d * (of_int S / 10 ^ p))) = of_int a / 10 ^ p"
      unfolding m a_def grid_le_0 by simp
    have s: "dround (of_int A / 10 ^ p + of_int a / 10 ^ p) = of_int (A + a) / 10 ^ p"
      using dround_grid[of "A + a" p] Cons.prems a k assms(6) by (simp add: add_divide_distrib)
    obtain qs where qs: "align_slices (of_int Q / 10 ^ p) (of_int S / 10 ^ p) (of_int (A + a) / 10 ^ p)
        (map (\<lambda>k. of_int k / 10 ^ p) ks) = Inr qs" "length qs = length ks"
      "sum_list qs = of_int (Q - (A + a)) / 10 ^ p" "\<forall>q \<in> set qs. 0 < q"
      using Cons.IH[of "A + a"] Cons.prems a k Cons by fastforce
    have "align_slices (of_int Q / 10 ^ p) (of_int S / 10 ^ p) (of_int A / 10 ^ p) (map (\<lambda>k. of_int k / 10 ^ p) (k # ks))
        = Inr (of_int a / 10 ^ p # qs)"
      using qs(1) by (simp only: Cons list.map align_slices.simps f bindE.simps Let_def aq s)
    moreover have "of_int a / 10 ^ p + sum_list qs = (of_int (Q - A) / 10 ^ p :: rat)"
      unfolding qs(3) by (simp add: diff_divide_distrib add_divide_distrib)
    ultimately show ?thesis using qs a by auto
  qed
qed simp

lemma map_units_grid:
  "\<forall>n \<in> set ns. 0 \<le> n \<Longrightarrow> M * sum_list ns < 10 ^ 27 \<Longrightarrow> 1 \<le> M \<Longrightarrow>
     map (\<lambda>n. dround (of_int M / 10 ^ p * of_int n)) ns = map (\<lambda>k. of_int k / 10 ^ p) (map (\<lambda>n. M * n) ns)"
proof (induction ns)
  case (Cons n ns)
  have s: "0 \<le> sum_list ns" "0 \<le> n" using Cons.prems by (auto intro: sum_list_nonneg)
  then have nn: "0 \<le> M * n" "0 \<le> M * sum_list ns" using Cons.prems by (auto intro!: mult_nonneg_nonneg)
  moreover have "M * n + M * sum_list ns < 10 ^ 27" using Cons.prems by (simp add: distrib_left)
  ultimately have "M * n < 10 ^ 27" "M * sum_list ns < 10 ^ 27" "0 \<le> M * n" by linarith+
  then show ?case using Cons dround_grid[of "M * n" p] by simp
qed simp

lemma sum_list_scaled: "sum_list (map (\<lambda>k. of_int k / c) ks) = of_int (sum_list ks) / (c :: rat)"
  by (induction ks) (auto simp: add_divide_distrib)

section \<open>The plan\<close>

lemma slice_quantities_grid:
  assumes "tw_min_slice_qty tw = PDec (of_int M / 10 ^ p)" "1 \<le> M" "1 \<le> tw_max_slices tw"
    and "req_quantity r = of_int Q / 10 ^ p" "0 < Q" "Q < 10 ^ 27"
    and "step = None \<or> (\<exists>S. 1 \<le> S \<and> step = Some (of_int S / 10 ^ p))"
  shows "\<exists>qs. slice_quantities tw r step mn = Inr qs \<and> (\<forall>q \<in> set qs. 0 < q) \<and> int (length qs) \<le> tw_max_slices tw
    \<and> sum_list qs = (if Q < M then 0 else if step \<noteq> None \<and> 1 < length qs then req_quantity r
                     else of_int (M * (Q div M)) / 10 ^ p)"
proof (cases "Q < M")
  case True
  then have "Q div M = 0" using assms(5) by simp
  then have "slice_quantities tw r step mn = Inr []"
    using dtrunc_dround_div[of M Q] assms grid_div[of M Q p]
    by (simp add: slice_quantities_def Let_def decimal_div_def grid_le_0 divide_le_0_iff)
  then show ?thesis using True assms(3) by simp
next
  case False
  define u where "u = Q div M"
  define c where "c = slice_count tw r mn u"
  define ks where "ks = map (\<lambda>n. M * n) (slice_units u c)"
  have u: "1 \<le> u" "M * u \<le> Q" using False assms(2) int_div_bounds[OF assms(2), of Q] assms(5)
      pos_imp_zdiv_pos_iff[of M Q] by (auto simp: u_def mult.commute)
  have c: "1 \<le> c" "c \<le> tw_max_slices tw" using slice_count_bounds[OF u(1) assms(3)] by (auto simp: c_def)
  have su: "sum_list (slice_units u c) = u" "int (length (slice_units u c)) \<le> c" "\<forall>x \<in> set (slice_units u c). 1 \<le> x"
    using slice_units_sum[of c u] c u by auto
  have mu: "M * u < 10 ^ 27" using u assms(6) by linarith
  have raw: "map (\<lambda>n. dround (of_int M / 10 ^ p * of_int n)) (slice_units u c) = map (\<lambda>k. of_int k / 10 ^ p) ks"
    unfolding ks_def
  proof (rule map_units_grid)
    show "\<forall>n \<in> set (slice_units u c). 0 \<le> n" using su(3) by (auto intro: order_trans[of 0 1])
  qed (use su(1) mu assms(2) in auto)
  have ks: "sum_list ks = M * u" "\<forall>k \<in> set ks. 1 \<le> k" "length ks = length (slice_units u c)"
    using su assms(2) mult_mono[of 1 M 1] by (auto simp: ks_def sum_list_const_mult intro: order_trans[OF _ mult_mono[of 1 M 1]])
  have main: "slice_quantities tw r step mn = (case step of
      Some s \<Rightarrow> if 0 < s \<and> 1 < length ks then align_slices (req_quantity r) s 0 (map (\<lambda>k. of_int k / 10 ^ p) ks)
                else Inr (map (\<lambda>k. of_int k / 10 ^ p) ks)
    | None \<Rightarrow> Inr (map (\<lambda>k. of_int k / 10 ^ p) ks))"
    using dtrunc_dround_div[of M Q] assms(1,2,4,5,6) grid_div[of M Q p] u c raw ks(3)
    by (auto simp: slice_quantities_def Let_def decimal_div_def grid_le_0 u_def[symmetric] c_def[symmetric] split: option.split)
  have plain: ?thesis if "slice_quantities tw r step mn = Inr (map (\<lambda>k. of_int k / 10 ^ p) ks)" "step = None \<or> length ks \<le> 1"
    using that False ks c(2) su(2) by (auto simp: sum_list_scaled u_def)
  show ?thesis
  proof (cases "step = None \<or> length ks \<le> 1")
    case True
    then show ?thesis by (intro plain) (auto simp: main split: option.split)
  next
    case long: False
    then obtain S where S: "1 \<le> S" "step = Some (of_int S / 10 ^ p)" using assms(7) by auto
    have "ks \<noteq> []" using long by auto
    from align_slices_sum[OF S(1) this ks(2), of 0 Q p] ks(1) u(2) assms(6) obtain qs where
      "align_slices (of_int Q / 10 ^ p) (of_int S / 10 ^ p) 0 (map (\<lambda>k. of_int k / 10 ^ p) ks) = Inr qs"
      "length qs = length ks" "sum_list qs = of_int Q / 10 ^ p" "\<forall>q \<in> set qs. 0 < q" by auto
    then show ?thesis using main S long False ks(3) c(2) su(2) assms(4)
      by (intro exI[of _ qs]) auto
  qed
qed

lemma attach_last_map: "(\<And>c. f (c\<lparr>req_take_profit_price := req_take_profit_price r, req_stop_loss_price := req_stop_loss_price r\<rparr>) = f c)
    \<Longrightarrow> map f (attach_last r cs) = map f cs"
  by (induction r cs rule: attach_last.induct) auto

lemma number_slices_pos: "\<forall>q \<in> set qs. 0 < q \<Longrightarrow> number_slices r qs =
    map (\<lambda>(i, q). child_request r (slice_id (parent_id r) i) q) (zip [0 ..< length qs] qs)"
  by (simp add: number_slices_def filter_True split: prod.split) (metis (mono_tags, lifting) case_prodI2 filter_True in_set_zipE)

lemma slice_id_inject: "slice_id a i = slice_id a j \<longleftrightarrow> i = j"
  by (simp add: slice_id_def str_nat_inject)

lemma map_zip_upt: "map (\<lambda>(i, q). f i) (zip [0 ..< length qs] qs) = map f [0 ..< length qs]"
  by (rule nth_equalityI) auto

lemma map_zip_upt_snd: "map (\<lambda>(i, q). f q) (zip [0 ..< length qs] qs) = map f qs"
  by (rule nth_equalityI) auto

section \<open>What every step of an execution keeps\<close>

lemma twap_loop_keeps:
  assumes "\<And>r s. P s \<Longrightarrow> P (snd (te_send te r s))" "\<And>res s. P s \<Longrightarrow> P (te_on_fill te res s)"
    and "\<And>d s. P s \<Longrightarrow> P (te_sleep te d s)" "P s"
  shows "P (snd (twap_loop te tw r win interval i slices filled results s))"
  using assms(4)
proof (induction slices arbitrary: i filled results s)
  case (Cons c slices)
  have n: "P (notify_fill te res s)" if "P s" for res s using that assms(2) by (simp add: notify_fill_def)
  have u: "P (snd (send_urgent te x results s))" if "P s" for x results s
    using assms(1)[OF that, of x] n by (auto simp: send_urgent_def split: prod.splits sum.splits)
  show ?case
    using assms(1)[OF Cons.prems, of c] Cons.IH n u assms(3)
    by (auto simp: Let_def split: prod.splits sum.splits)
qed simp

lemma twap_execute_keeps:
  assumes "\<And>r s. P s \<Longrightarrow> P (snd (te_send te r s))" "\<And>res s. P s \<Longrightarrow> P (te_on_fill te res s)"
    and "\<And>d s. P s \<Longrightarrow> P (te_sleep te d s)" "\<And>symb s. P s \<Longrightarrow> P (snd (te_filters te symb s))" "P s"
  shows "P (snd (twap_execute te tw r window s))"
proof -
  obtain f s1 where f: "te_filters te (req_symbol r) s = (f, s1)" by fastforce
  then have "P s1" using assms(4)[OF assms(5), of "req_symbol r"] by simp
  then show ?thesis using twap_loop_keeps[of P te, OF assms(1-3)]
    by (auto simp: twap_execute_def f Let_def split: sum.splits)
qed

section \<open>What the slicer puts on the wire\<close>

text \<open>Requests that are tried in turn, each up to \<open>bound\<close> times.\<close>

definition tried :: "nat \<Rightarrow> order_request list \<Rightarrow> order_request list \<Rightarrow> bool" where
  "tried bound rs ws = (\<exists>ks. length ks = length rs \<and> (\<forall>k \<in> set ks. 1 \<le> k \<and> k \<le> bound)
     \<and> ws = concat (map (\<lambda>(k, r). replicate k (wire_request (req_client_order_id r) r)) (zip ks rs)))"

lemma tried_Nil: "tried bound [] []"
  by (simp add: tried_def)

lemma tried_Cons: "1 \<le> k \<Longrightarrow> k \<le> bound \<Longrightarrow> tried bound rs ws
    \<Longrightarrow> tried bound (r # rs) (replicate k (wire_request (req_client_order_id r) r) @ ws)"
  unfolding tried_def by (elim exE conjE, rule_tac x = "k # ks" in exI) auto

lemma tried_one: "1 \<le> k \<Longrightarrow> k \<le> bound \<Longrightarrow> tried bound [r] (replicate k (wire_request (req_client_order_id r) r))"
  using tried_Cons[OF _ _ tried_Nil, of k bound r] by simp

text \<open>
  A slicer's environment over an order port: submissions go to the port, and sleeping and the fill
  callback neither submit nor break the port.
\<close>

locale twap_port = order_port send wire ok bound
  for send :: "order_request \<Rightarrow> 's \<Rightarrow> order_result res \<times> 's" and wire ok bound +
  fixes te :: "'s twap_env"
  assumes sends: "te_send te = send"
    and quiet_fill: "wire (te_on_fill te res s) = wire s" "ok s \<Longrightarrow> ok (te_on_fill te res s)"
    and quiet_sleep: "wire (te_sleep te d s) = wire s" "ok s \<Longrightarrow> ok (te_sleep te d s)"
    and quiet_filters: "wire (snd (te_filters te symb s)) = wire s" "ok s \<Longrightarrow> ok (snd (te_filters te symb s))"
begin

lemma quiet_notify: "wire (notify_fill te res s) = wire s" "ok s \<Longrightarrow> ok (notify_fill te res s)"
  by (simp_all add: notify_fill_def quiet_fill)

lemma send_tried:
  assumes "ok s" "req_client_order_id r \<noteq> []" "te_send te r s = (out, s')"
  shows "ok s' \<and> (\<exists>k. 1 \<le> k \<and> k \<le> bound \<and> wire s' = wire s @ replicate k (wire_request (req_client_order_id r) r))
    \<and> (\<forall>e. out = Inl e \<longrightarrow> e \<in> {OrderRejectedError, OrderTimeoutError})"
  using send_wire[OF assms(1), of r] ok_send[OF assms(1), of r] send_errors[OF assms(1), of r] assms(2,3)
  by (cases out) (auto simp: sends)

lemma twap_loop_wire:
  assumes "ok s" "\<forall>c \<in> set slices. req_client_order_id c \<noteq> []"
    and "twap_loop te tw r win interval i slices filled results s = (out, s')"
  shows "\<exists>n us ws. n \<le> length slices \<and> wire s' = wire s @ ws \<and> tried bound (take n slices @ us) ws
    \<and> (us = [] \<or> (\<exists>j q. 0 < n \<and> us = [urgent_request r (slices ! (n - 1)) j q] \<and> 0 < q))
    \<and> (out = Inl OrderTimeoutError \<or> (\<exists>rs. out = Inr rs))"
  using assms
proof (induction slices arbitrary: i filled results s)
  case Nil
  then show ?case using tried_Nil by auto
next
  case (Cons c slices)
  obtain o1 s1 where o1: "te_send te c s = (o1, s1)" by fastforce
  from send_tried[OF Cons.prems(1) _ o1] Cons.prems(2) obtain k where
    k: "ok s1" "1 \<le> k" "k \<le> bound" "wire s1 = wire s @ replicate k (wire_request (req_client_order_id c) c)"
    "\<forall>e. o1 = Inl e \<longrightarrow> e \<in> {OrderRejectedError, OrderTimeoutError}" by auto
  note one = tried_one[OF k(2,3), of c]
  have continue: ?case
    if t: "twap_loop te tw r win interval i' slices filled' results' s2 = (out, s')"
      and s2: "ok s2" "wire s2 = wire s1" for i' filled' results' s2
  proof -
    have "\<forall>c \<in> set slices. req_client_order_id c \<noteq> []" using Cons.prems(2) by simp
    from Cons.IH[OF s2(1) this t] obtain n us ws where
      h: "n \<le> length slices" "wire s' = wire s2 @ ws" "tried bound (take n slices @ us) ws"
      "us = [] \<or> (\<exists>j q. 0 < n \<and> us = [urgent_request r (slices ! (n - 1)) j q] \<and> 0 < q)"
      "out = Inl OrderTimeoutError \<or> (\<exists>rs. out = Inr rs)" by blast
    show ?case
      by (rule exI[of _ "Suc n"], rule exI[of _ us],
          rule exI[of _ "replicate k (wire_request (req_client_order_id c) c) @ ws"])
        (use h k s2 tried_Cons[OF k(2,3) h(3), of c] in \<open>auto simp: nth_Cons'\<close>)
  qed
  have stop: ?case if "out = Inl OrderTimeoutError \<or> (\<exists>rs. out = Inr rs)" "wire s' = wire s1"
    by (rule exI[of _ 1], rule exI[of _ "[]"], rule exI[of _ "replicate k (wire_request (req_client_order_id c) c)"])
      (use that one k in auto)
  show ?case
  proof (cases o1)
    case (Inl e)
    then show ?thesis using continue[of "Suc i" filled results s1] stop k Cons.prems(3) o1
      by (auto split: if_splits)
  next
    case (Inr res)
    define f where "f = dround (filled + res_filled_qty res)"
    define s2 where "s2 = notify_fill te res s1"
    have s2: "ok s2" "wire s2 = wire s1" using k quiet_notify by (auto simp: s2_def)
    define d where "d = dround (req_quantity r - f)"
    define u where "u = urgent_request r c i d"
    let ?rest = "twap_loop te tw r win interval (Suc i) slices f (results @ [res])
        (te_sleep te (max 0 (fround (interval + te_jitter te i))) s2)"
    have run: "(out, s') = (if slices = [] then (Inr (results @ [res]), s2)
        else if urgent tw r win (te_elapsed te s2) f then
          (if 0 < d then send_urgent te u (results @ [res]) s2 else (Inr (results @ [res]), s2))
        else ?rest)"
      using Cons.prems(3)[symmetric] by (simp only: twap_loop.simps o1 Inr Let_def f_def d_def u_def s2_def prod.case sum.case)
    consider "(out, s') = (Inr (results @ [res]), s2)" | "?rest = (out, s')"
      | "0 < d" "send_urgent te u (results @ [res]) s2 = (out, s')"
      using run by (metis (full_types))
    then show ?thesis
    proof cases
      case 1
      then show ?thesis using stop s2 by auto
    next
      case 2
      then show ?thesis using s2 quiet_sleep by (intro continue[OF 2]) auto
    next
      case 3
      obtain o3 s3 where o3: "te_send te u s2 = (o3, s3)" by fastforce
      have "req_client_order_id u \<noteq> []" by (simp add: u_def urgent_request_def child_request_def)
      from send_tried[OF s2(1) this o3] obtain k' where k': "ok s3" "1 \<le> k'" "k' \<le> bound"
        "wire s3 = wire s2 @ replicate k' (wire_request (req_client_order_id u) u)"
        "\<forall>e. o3 = Inl e \<longrightarrow> e \<in> {OrderRejectedError, OrderTimeoutError}" by auto
      have "wire s' = wire s3" "out = Inl OrderTimeoutError \<or> (\<exists>rs. out = Inr rs)"
        using 3(2) k'(5) by (auto simp: send_urgent_def o3 quiet_notify split: sum.splits if_splits)
      then show ?thesis using 3(1) k k' s2 tried_Cons[OF k(2,3) tried_one[OF k'(2,3), of u], of c]
        by (intro exI[of _ 1] exI[of _ "[u]"] exI[of _ "replicate k (wire_request (req_client_order_id c) c)
            @ replicate k' (wire_request (req_client_order_id u) u)"]) (auto simp: u_def)
    qed
  qed
qed

text \<open>
  An execution tries a prefix of the planned slices, in order and each under its own id, and at most
  one urgent order after the last of them; the only exception that leaves it once the plan is made is
  \<^verbatim>\<open>OrderTimeoutError\<close>.
\<close>

lemma execute_wire:
  assumes "ok s" "plan tw r (filter_or f ''step_size'' ''stepSize'') (filter_or f ''min_notional'' ''minNotional'') = Inr slices"
    and "fst (te_filters te (req_symbol r) s) = f" "twap_execute te tw r window s = (out, s')"
    and "\<forall>c \<in> set slices. req_client_order_id c \<noteq> []"
  shows "\<exists>n us ws. n \<le> length slices \<and> wire s' = wire s @ ws \<and> tried bound (take n slices @ us) ws
    \<and> (us = [] \<or> (\<exists>j q. 0 < n \<and> us = [urgent_request r (slices ! (n - 1)) j q] \<and> 0 < q))
    \<and> (out = Inl OrderTimeoutError \<or> (\<exists>rs. out = Inr rs))"
proof -
  obtain s1 where s1: "te_filters te (req_symbol r) s = (f, s1)" using assms(3) by (metis prod.collapse)
  have q: "ok s1" "wire s1 = wire s" using quiet_filters[where symb = "req_symbol r" and s = s] assms(1) by (auto simp: s1)
  show ?thesis
  proof (cases "slices = []")
    case True
    then show ?thesis using assms(2,4) q(2) tried_Nil by (auto simp: twap_execute_def s1 Let_def split: option.splits)
  next
    case False
    then show ?thesis using assms(2,4) q(2) twap_loop_wire[OF q(1) assms(5)]
      by (auto simp: twap_execute_def s1 Let_def split: option.splits)
  qed
qed

end

section \<open>The slicer on the gateway\<close>

text \<open>
  \<^verbatim>\<open>TwapSlicer.execute\<close> on the gateway: the fill callback, the clock and the jitter draws are arguments.
\<close>

definition gateway_twap_env :: "'w exchange_ops \<Rightarrow> string \<Rightarrow> int \<Rightarrow> (order_result \<Rightarrow> 'w \<Rightarrow> 'w) \<Rightarrow> ('w \<Rightarrow> rat)
     \<Rightarrow> (nat \<Rightarrow> rat) \<Rightarrow> (gateway \<times> 'w) twap_env" where
  "gateway_twap_env x uuid now on_fill elapsed jitter =
     \<lparr>te_send = submit x uuid now, te_filters = gateway_symbol_filters x,
      te_on_fill = (\<lambda>res gw. (fst gw, on_fill res (snd gw))), te_sleep = (\<lambda>d gw. (fst gw, x_elapse x d (snd gw))),
      te_elapsed = (\<lambda>gw. elapsed (snd gw)), te_jitter = jitter\<rparr>"

interpretation gateway_twap: twap_port "submit x uuid now" "\<lambda>s. gw_wire (fst s)" "gateway_ok n" n
    "gateway_twap_env x uuid now on_fill elapsed jitter"
  for x :: "'w exchange_ops" and uuid now n on_fill elapsed jitter
  by unfold_locales (auto simp: gateway_twap_env_def gateway_ok_def gateway_symbol_filters_def split: prod.splits sum.splits)

lemma plan_ids:
  assumes "plan tw r step mn = Inr slices" "c \<in> set slices"
  shows "req_client_order_id c \<noteq> []"
proof -
  obtain qs where "slices = attach_last r (number_slices r qs)" using assms(1)
    by (cases "slice_quantities tw r step mn") (auto simp: plan_def)
  then have "set (map req_client_order_id slices) = set (map req_client_order_id (number_slices r qs))"
    using attach_last_map[of req_client_order_id r "number_slices r qs"] by simp
  then have "req_client_order_id c \<in> req_client_order_id ` set (number_slices r qs)"
    using assms(2) by (simp only: list.set_map) blast
  then show ?thesis by (auto simp: number_slices_def child_request_def slice_id_def)
qed

lemma plan_attach_last:
  assumes "\<forall>q \<in> set qs. 0 < q" "slices = attach_last r (number_slices r qs)"
  shows "map req_quantity slices = qs" "map req_symbol slices = map (\<lambda>_. req_symbol r) qs"
    "map req_side slices = map (\<lambda>_. req_side r) qs" "map req_reduce_only slices = map (\<lambda>_. req_reduce_only r) qs"
    "map req_client_order_id slices = map (slice_id (parent_id r)) [0 ..< length qs]"
  by (simp_all add: assms(2) attach_last_map number_slices_pos[OF assms(1)] child_request_def
      map_zip_upt[symmetric] map_zip_upt_snd[symmetric, of id, simplified] split_def comp_def map_replicate_const)

text \<open>
  Planning loses nothing on the exchange's grid: when the quantity, the minimum slice and the
  step are multiples of \<open>1 / 10 ^ p\<close>, a plan exists, has at most \<^verbatim>\<open>max_slices\<close> slices, all positive and
  on the parent's symbol and side, with the identifiers \<^verbatim>\<open><parent>-slice-0\<close>, \<^verbatim>\<open>-1\<close>, and so on, no two
  equal. The slices add up to the whole quantity when they are aligned to a step, and otherwise to the
  quantity without the part below one minimum slice.
\<close>

lemma twap_plan_conserves:
  assumes "tw_min_slice_qty tw = PDec (of_int M / 10 ^ p)" "1 \<le> M" "1 \<le> tw_max_slices tw"
    and "req_quantity r = of_int Q / 10 ^ p" "0 < Q" "Q < 10 ^ 27"
    and "step = None \<or> (\<exists>S. 1 \<le> S \<and> step = Some (of_int S / 10 ^ p))"
  shows "\<exists>slices. plan tw r step mn = Inr slices \<and> int (length slices) \<le> tw_max_slices tw
    \<and> sum_list (map req_quantity slices) =
        (if Q < M then 0 else if step \<noteq> None \<and> 1 < length slices then req_quantity r
         else of_int (M * (Q div M)) / 10 ^ p)
    \<and> (\<forall>c \<in> set slices. 0 < req_quantity c \<and> req_symbol c = req_symbol r \<and> req_side c = req_side r)
    \<and> map req_client_order_id slices = map (slice_id (parent_id r)) [0 ..< length slices]
    \<and> distinct (map req_client_order_id slices)"
proof -
  from slice_quantities_grid[OF assms, of mn] obtain qs where
    qs: "slice_quantities tw r step mn = Inr qs" "\<forall>q \<in> set qs. 0 < q" "int (length qs) \<le> tw_max_slices tw"
      "sum_list qs = (if Q < M then 0 else if step \<noteq> None \<and> 1 < length qs then req_quantity r
         else of_int (M * (Q div M)) / 10 ^ p)" by blast
  define slices where "slices = attach_last r (number_slices r qs)"
  note s = plan_attach_last[OF qs(2) slices_def]
  have len: "length slices = length qs" using arg_cong[OF s(1), of length] by simp
  have "plan tw r step mn = Inr slices" using qs(1) by (simp add: plan_def slices_def)
  moreover have "req_symbol c = req_symbol r \<and> req_side c = req_side r \<and> 0 < req_quantity c" if c: "c \<in> set slices" for c
    using imageI[OF c, of req_symbol] imageI[OF c, of req_side] imageI[OF c, of req_quantity] qs(2)
    unfolding list.set_map[symmetric] s by auto
  moreover have "distinct (map req_client_order_id slices)"
    unfolding s by (simp add: distinct_map inj_on_def slice_id_inject)
  ultimately show ?thesis using qs(3,4) s(1,5) len by auto
qed

definition example_twap :: twap_config where
  "example_twap = \<lparr>tw_min_slices = 1, tw_max_slices = 10, tw_default_window = 300, tw_jitter_seconds = 5,
     tw_min_slice_qty = PDec (of_int 1 / 10 ^ 3), tw_urgency_threshold = 4 / 5\<rparr>"


definition example_parent :: order_request where
  "example_parent = default_order_request\<lparr>req_quantity := 2 / 1000\<rparr>"

lemma example_plan: "case plan example_twap example_parent None None of Inr s \<Rightarrow> length s = 2 | Inl e \<Rightarrow> False"
  by code_simp


end
