(* ===== verification/Reconciler.thy ===== *)
theory Reconciler
  imports Gateway "HOL-Library.Sublist"
begin

text \<open>
  \<^verbatim>\<open>src/quad/execution/reconciler.py\<close>: comparing the tracked orders with what the exchange reports, and
  keeping the latest discrepancies. The exchange is the gateway's \<open>exchange_ops\<close>; the clock is an
  argument, in milliseconds.
\<close>

section \<open>State\<close>

text \<open>
  A discrepancy is a dict; \<open>disc_details\<close> keeps the numbers the code prints into it as numbers. A missed
  fill found among the trades has the trade's fields instead of the order's.
\<close>

record order_discrepancy =
  disc_type :: string
  disc_client_order_id :: string
  disc_exchange_order_id :: "order_id option"
  disc_symbol :: string
  disc_local_status :: string
  disc_exchange_status :: string
  disc_timestamp :: rat
  disc_details :: "(string, pyval) dict"

text \<open>The texts \<^verbatim>\<open>str(t.quantity)\<close> and \<^verbatim>\<open>str(t.price)\<close> depend on the Decimals' exponents, so a trade brings them along.\<close>

record text_trade = trade +
  tt_quantity :: string
  tt_price :: string

datatype discrepancy = OrderDisc order_discrepancy | TradeDisc text_trade rat

fun disc_kind :: "discrepancy \<Rightarrow> string" where
  "disc_kind (OrderDisc d) = disc_type d"
| "disc_kind (TradeDisc t ts) = ''MISSED_FILL''"

fun disc_time :: "discrepancy \<Rightarrow> rat" where
  "disc_time (OrderDisc d) = disc_timestamp d"
| "disc_time (TradeDisc t ts) = ts"

record reconciler =
  rc_config :: "(string, pyval) dict"
  rc_maxlen :: nat
  rc_history :: "discrepancy list"

definition max_discrepancy_history :: "(string, pyval) dict \<Rightarrow> int res" where
  "max_discrepancy_history cfg = (case map_of cfg ''max_discrepancy_history'' of None \<Rightarrow> Inr 100 | Some v \<Rightarrow> to_int v)"

definition stale_order_ms :: "reconciler \<Rightarrow> int res" where
  "stale_order_ms rc = (case map_of (rc_config rc) ''stale_order_hours'' of
     None \<Rightarrow> Inl KeyError | Some v \<Rightarrow> bindE (to_int v) (\<lambda>h. Inr (h * 3600 * 1000)))"

definition init_reconciler :: "(string, pyval) dict \<Rightarrow> reconciler res" where
  "init_reconciler cfg = bindE (max_discrepancy_history cfg) (\<lambda>n.
     if n < 0 then Inl ValueError else Inr \<lparr>rc_config = cfg, rc_maxlen = nat n, rc_history = []\<rparr>)"

section \<open>reconcile_pending_orders\<close>

definition new_discrepancy :: "string \<Rightarrow> order \<Rightarrow> string \<Rightarrow> int \<Rightarrow> (string, pyval) dict \<Rightarrow> order_discrepancy" where
  "new_discrepancy t o' ex_status now dts =
     \<lparr>disc_type = t, disc_client_order_id = ord_client_order_id o', disc_exchange_order_id = ord_id o',
      disc_symbol = ord_symbol o', disc_local_status = ord_status o', disc_exchange_status = ex_status,
      disc_timestamp = fround (of_int now / 1000), disc_details = dts\<rparr>"

definition record_discrepancy :: "string \<Rightarrow> order \<Rightarrow> string \<Rightarrow> int \<Rightarrow> (string, pyval) dict \<Rightarrow> reconciler
     \<Rightarrow> order_discrepancy \<times> reconciler" where
  "record_discrepancy t o' ex_status now dts rc =
     (let d = new_discrepancy t o' ex_status now dts
      in (d, rc\<lparr>rc_history := deque_append (rc_maxlen rc) (OrderDisc d) (rc_history rc)\<rparr>))"

lemma new_discrepancy_fields [simp]:
  "disc_type (new_discrepancy t o' s now dts) = t"
  "disc_client_order_id (new_discrepancy t o' s now dts) = ord_client_order_id o'"
  by (simp_all add: new_discrepancy_def)

text \<open>The discrepancies found so far and the reconciler.\<close>

type_synonym findings = "order_discrepancy list \<times> reconciler"

definition report :: "string \<Rightarrow> order \<Rightarrow> order \<Rightarrow> int \<Rightarrow> (string, pyval) dict \<Rightarrow> findings \<Rightarrow> findings" where
  "report t o' e now dts a =
     (let (d, rc) = record_discrepancy t o' (ord_status e) now dts (snd a) in (fst a @ [d], rc))"

text \<open>What a difference between the local and the exchange's status means, if anything.\<close>

definition status_discrepancy :: "string \<Rightarrow> string \<Rightarrow> string option" where
  "status_discrepancy loc ex =
     (if ex = loc then None
      else if ex = ''FILLED'' \<and> loc \<in> {''NEW'', ''PARTIALLY_FILLED''} \<or> ex = ''PARTIALLY_FILLED'' \<and> loc = ''NEW''
      then Some ''MISSED_FILL''
      else if ex \<in> {''REJECTED'', ''EXPIRED''} \<and> loc \<in> {''NEW'', ''PARTIALLY_FILLED''} then Some ''MISSED_REJECTION''
      else if ex \<in> {''CANCELLED'', ''CANCELED''} \<and> loc \<in> {''NEW'', ''PARTIALLY_FILLED''} then Some ''MISSED_CANCELLATION''
      else None)"

definition check_status :: "int \<Rightarrow> order \<Rightarrow> order \<Rightarrow> findings \<Rightarrow> findings" where
  "check_status now o' e a =
     (case status_discrepancy (ord_status o') (ord_status e) of
        None \<Rightarrow> a
      | Some t \<Rightarrow> report t o' e now
          (if t = ''MISSED_FILL'' then [(''exchange_filled_qty'', PDec (ord_filled_qty e))] else []) a)"

definition age_hours :: "int \<Rightarrow> pyval" where
  "age_hours age = PFloat (fround_places 1 (fround (of_int age / 3600000)))"

text \<open>
  The two age checks; the second records its discrepancy before it looks for one already reported.
  Reading the age limit can raise, which leaves the checks and the whole reconciliation.
\<close>

definition check_stale_local :: "int \<Rightarrow> order \<Rightarrow> order \<Rightarrow> findings \<Rightarrow> exc option \<times> findings" where
  "check_stale_local now o' e a =
     (if 0 < ord_created_at o' then
        (case stale_order_ms (snd a) of
           Inl x \<Rightarrow> (Some x, a)
         | Inr limit \<Rightarrow> (None, if limit < now - ord_created_at o'
             then report ''STALE_ORDER'' o' e now [(''age_hours'', age_hours (now - ord_created_at o'))] a else a))
      else (None, a))"

definition check_stale_exchange :: "int \<Rightarrow> order \<Rightarrow> order \<Rightarrow> findings \<Rightarrow> exc option \<times> findings" where
  "check_stale_exchange now o' e a =
     (if 0 < ord_created_at e then
        (case stale_order_ms (snd a) of
           Inl x \<Rightarrow> (Some x, a)
         | Inr limit \<Rightarrow> (None, if limit < now - ord_created_at e
             then (let a' = report ''STALE_ORDER'' o' e now
                       [(''age_hours'', age_hours (now - ord_created_at e)), (''source'', PStr ''exchange'')] a
                   in if \<exists>d \<in> set (fst a). disc_client_order_id d = ord_client_order_id o' \<and> disc_type d = ''STALE_ORDER''
                      then (fst a, snd a') else a')
             else a))
      else (None, a))"

definition check_stale :: "int \<Rightarrow> order \<Rightarrow> order \<Rightarrow> findings \<Rightarrow> exc option \<times> findings" where
  "check_stale now o' e a =
     (if ord_status o' \<in> {''NEW'', ''PARTIALLY_FILLED''} then
        (case check_stale_local now o' e a of
           (Some x, a1) \<Rightarrow> (Some x, a1)
         | (None, a1) \<Rightarrow> check_stale_exchange now o' e a1)
      else (None, a))"

definition check_price :: "int \<Rightarrow> order \<Rightarrow> order \<Rightarrow> findings \<Rightarrow> findings" where
  "check_price now o' e a =
     (case (ord_price e, ord_price o') of
        (Some p, Some q) \<Rightarrow>
          if p \<noteq> q then report ''PRICE_MISMATCH'' o' e now [(''local_price'', PDec q), (''exchange_price'', PDec p)] a else a
      | _ \<Rightarrow> a)"

definition compare_order :: "int \<Rightarrow> order \<Rightarrow> order \<Rightarrow> findings \<Rightarrow> exc option \<times> findings" where
  "compare_order now o' e a =
     (case check_stale now o' e (check_status now o' e a) of
        (Some x, a1) \<Rightarrow> (Some x, a1)
      | (None, a1) \<Rightarrow> (None, check_price now o' e a1))"

fun reconcile_orders :: "'w exchange_ops \<Rightarrow> int \<Rightarrow> order list \<Rightarrow> findings \<Rightarrow> 'w
     \<Rightarrow> exc option \<times> findings \<times> 'w" where
  "reconcile_orders x now [] a w = (None, a, w)"
| "reconcile_orders x now (o' # os) a w =
     (case ord_id o' of
        None \<Rightarrow> reconcile_orders x now os a w
      | Some i \<Rightarrow>
         (case x_get_order_status x i (ord_symbol o') w of
            (Inr (Some e), w1) \<Rightarrow>
              (case compare_order now o' e a of
                 (Some ex, a1) \<Rightarrow> (Some ex, a1, w1)
               | (None, a1) \<Rightarrow> reconcile_orders x now os a1 w1)
          | (_, w1) \<Rightarrow> reconcile_orders x now os a w1))"

definition reconcile_pending_orders :: "'w exchange_ops \<Rightarrow> int \<Rightarrow> order list \<Rightarrow> reconciler \<times> 'w
     \<Rightarrow> order_discrepancy list res \<times> (reconciler \<times> 'w)" where
  "reconcile_pending_orders x now os s =
     (case reconcile_orders x now os ([], fst s) (snd s) of
        (Some ex, a, w1) \<Rightarrow> (Inl ex, (snd a, w1))
      | (None, a, w1) \<Rightarrow> (Inr (fst a), (snd a, w1)))"

section \<open>Missed fills, reports\<close>

fun str_order_id :: "order_id option \<Rightarrow> string" where
  "str_order_id None = ''None''"
| "str_order_id (Some (StrId s)) = s"
| "str_order_id (Some (IntId n)) = (if n < 0 then CHR ''-'' # str_nat (nat (- n)) else str_nat (nat n))"

definition dedup_key :: "text_trade \<Rightarrow> string \<times> int \<times> string \<times> string \<times> string \<times> string" where
  "dedup_key t = (str_order_id (trd_order_id t), trd_timestamp t, tt_quantity t, tt_price t, trd_side t, trd_symbol t)"

definition detect_missed_fills :: "rat \<Rightarrow> text_trade list \<Rightarrow> text_trade list \<Rightarrow> reconciler \<Rightarrow> text_trade list \<times> reconciler" where
  "detect_missed_fills now local_trades exchange_trades rc =
     (let missed = filter (\<lambda>t. dedup_key t \<notin> dedup_key ` set local_trades) exchange_trades
      in (missed, rc\<lparr>rc_history := foldl (\<lambda>q t. deque_append (rc_maxlen rc) (TradeDisc t now) q) (rc_history rc) missed\<rparr>))"

record reconciliation_report =
  rep_total :: nat
  rep_missed_fills :: nat
  rep_missed_rejections :: nat
  rep_stale_orders :: nat
  rep_price_mismatches :: nat
  rep_discrepancies :: "discrepancy list"

definition generate_report :: "rat \<Rightarrow> rat \<Rightarrow> reconciler \<Rightarrow> reconciliation_report" where
  "generate_report start_ts end_ts rc =
     (let filtered = filter (\<lambda>d. start_ts \<le> disc_time d \<and> disc_time d \<le> end_ts) (rc_history rc);
          count = (\<lambda>t. length (filter (\<lambda>d. disc_kind d = t) filtered))
      in \<lparr>rep_total = length filtered, rep_missed_fills = count ''MISSED_FILL'',
          rep_missed_rejections = count ''MISSED_REJECTION'', rep_stale_orders = count ''STALE_ORDER'',
          rep_price_mismatches = count ''PRICE_MISMATCH'', rep_discrepancies = filtered\<rparr>)"

definition get_recent_discrepancies :: "int option \<Rightarrow> reconciler \<Rightarrow> discrepancy list res" where
  "get_recent_discrepancies cnt rc =
     bindE (case cnt of Some c \<Rightarrow> Inr c
            | None \<Rightarrow> (case map_of (rc_config rc) ''recent_discrepancies_default_count'' of
                None \<Rightarrow> Inl KeyError | Some v \<Rightarrow> to_int v))
       (\<lambda>c. Inr (slice_from (- (min c (int (length (rc_history rc))))) (rc_history rc)))"

section \<open>What a reconciliation reports\<close>

text \<open>The specification: the kinds of discrepancy one order has, given what the exchange says of it.\<close>

definition older_than :: "int \<Rightarrow> int \<Rightarrow> int \<Rightarrow> bool" where
  "older_than limit now created = (0 < created \<and> limit < now - created)"

text \<open>The specification's own table: what a pair of a local and an exchange status means.\<close>

definition status_table :: "((string \<times> string) \<times> string) list" where
  "status_table =
     [((''NEW'', ''PARTIALLY_FILLED''), ''MISSED_FILL''), ((''NEW'', ''FILLED''), ''MISSED_FILL''),
      ((''NEW'', ''REJECTED''), ''MISSED_REJECTION''), ((''NEW'', ''EXPIRED''), ''MISSED_REJECTION''),
      ((''NEW'', ''CANCELLED''), ''MISSED_CANCELLATION''), ((''NEW'', ''CANCELED''), ''MISSED_CANCELLATION''),
      ((''PARTIALLY_FILLED'', ''FILLED''), ''MISSED_FILL''),
      ((''PARTIALLY_FILLED'', ''REJECTED''), ''MISSED_REJECTION''), ((''PARTIALLY_FILLED'', ''EXPIRED''), ''MISSED_REJECTION''),
      ((''PARTIALLY_FILLED'', ''CANCELLED''), ''MISSED_CANCELLATION''), ((''PARTIALLY_FILLED'', ''CANCELED''), ''MISSED_CANCELLATION'')]"

lemma status_discrepancy_table: "status_discrepancy loc ex = map_of status_table (loc, ex)"
proof -
  consider "loc = ''NEW''" | "loc = ''PARTIALLY_FILLED''" | "loc \<noteq> ''NEW''" "loc \<noteq> ''PARTIALLY_FILLED''" by blast
  then show ?thesis by cases (auto simp: status_discrepancy_def status_table_def)
qed

definition expected_types :: "int \<Rightarrow> int \<Rightarrow> order \<Rightarrow> order \<Rightarrow> string list" where
  "expected_types limit now o' e =
     (case map_of status_table (ord_status o', ord_status e) of None \<Rightarrow> [] | Some t \<Rightarrow> [t])
     @ (if ord_status o' \<in> {''NEW'', ''PARTIALLY_FILLED''} \<and>
           (older_than limit now (ord_created_at o') \<or> older_than limit now (ord_created_at e)) then [''STALE_ORDER''] else [])
     @ (if ord_price e \<noteq> None \<and> ord_price o' \<noteq> None \<and> ord_price e \<noteq> ord_price o' then [''PRICE_MISMATCH''] else [])"

definition recorded :: "reconciler \<Rightarrow> order_discrepancy list \<Rightarrow> reconciler" where
  "recorded rc rs = rc\<lparr>rc_history := foldl (\<lambda>q d. deque_append (rc_maxlen rc) d q) (rc_history rc) (map OrderDisc rs)\<rparr>"

lemma recorded_simps [simp]:
  "rc_config (recorded rc rs) = rc_config rc" "rc_maxlen (recorded rc rs) = rc_maxlen rc"
  "recorded rc [] = rc" "recorded (recorded rc rs) rs' = recorded rc (rs @ rs')"
  "stale_order_ms (recorded rc rs) = stale_order_ms rc"
  by (simp_all add: recorded_def stale_order_ms_def)

lemma recorded_history: "rs \<noteq> [] \<Longrightarrow> rc_history (recorded rc rs) = take_last (rc_maxlen rc) (rc_history rc @ map OrderDisc rs)"
  by (simp add: recorded_def deque.items_pushes)

text \<open>\<open>found a a' o' ts\<close>: \<open>a'\<close> reports, after \<open>a\<close>, one discrepancy of \<open>o'\<close> for each kind in \<open>ts\<close>, and has recorded them.\<close>

definition found :: "findings \<Rightarrow> findings \<Rightarrow> order \<Rightarrow> string list \<Rightarrow> bool" where
  "found a a' o' ts = (\<exists>ds rs. fst a' = fst a @ ds \<and> snd a' = recorded (snd a) rs \<and> subseq ds rs
     \<and> map (\<lambda>d. (disc_client_order_id d, disc_type d)) ds = map (Pair (ord_client_order_id o')) ts)"

lemma found_none: "found a a o' []"
  unfolding found_def by (rule exI[of _ "[]"], rule exI[of _ "[]"]) simp

lemma found_trans: "found a b o' ts \<Longrightarrow> found b c o' us \<Longrightarrow> found a c o' (ts @ us)"
  unfolding found_def
proof (elim exE conjE)
  fix ds rs es qs
  assume "fst b = fst a @ ds" "snd b = recorded (snd a) rs" "subseq ds rs" "fst c = fst b @ es"
    "snd c = recorded (snd b) qs" "subseq es qs"
    "map (\<lambda>d. (disc_client_order_id d, disc_type d)) ds = map (Pair (ord_client_order_id o')) ts"
    "map (\<lambda>d. (disc_client_order_id d, disc_type d)) es = map (Pair (ord_client_order_id o')) us"
  then show "\<exists>ds rs. fst c = fst a @ ds \<and> snd c = recorded (snd a) rs \<and> subseq ds rs
      \<and> map (\<lambda>d. (disc_client_order_id d, disc_type d)) ds = map (Pair (ord_client_order_id o')) (ts @ us)"
    by (intro exI[of _ "ds @ es"] exI[of _ "rs @ qs"]) (simp add: list_emb_append_mono)
qed

lemma report_recorded: "report t o' e now dts a =
    (fst a @ [new_discrepancy t o' (ord_status e) now dts], recorded (snd a) [new_discrepancy t o' (ord_status e) now dts])"
  by (simp add: report_def record_discrepancy_def recorded_def Let_def)

lemma found_report: "found a (report t o' e now dts a) o' [t]"
  unfolding found_def report_recorded
  by (rule exI[of _ "[new_discrepancy t o' (ord_status e) now dts]"])
    (rule exI[of _ "[new_discrepancy t o' (ord_status e) now dts]"], simp)

lemma found_recorded_only: "found a (fst a, snd (report t o' e now dts a)) o' []"
  unfolding found_def report_recorded
  by (rule exI[of _ "[]"]) (rule exI[of _ "[new_discrepancy t o' (ord_status e) now dts]"], simp)

lemma found_stale_ms: "found a b o' ts \<Longrightarrow> stale_order_ms (snd b) = stale_order_ms (snd a)"
  by (auto simp: found_def)

lemma found_ids: "found a b o' ts \<Longrightarrow> disc_client_order_id ` set (fst b) \<subseteq> disc_client_order_id ` set (fst a) \<union> {ord_client_order_id o'}"
proof (unfold found_def, elim exE conjE)
  fix ds rs
  assume f: "fst b = fst a @ ds" and m: "map (\<lambda>d. (disc_client_order_id d, disc_type d)) ds = map (Pair (ord_client_order_id o')) ts"
  have "map disc_client_order_id ds = map (\<lambda>_. ord_client_order_id o') ts"
    using arg_cong[OF m, of "map fst"] by (simp add: comp_def)
  then have "set (map disc_client_order_id ds) \<subseteq> {ord_client_order_id o'}" by auto
  then show ?thesis by (auto simp: f)
qed

lemma check_status_found:
  "found a (check_status now o' e a) o' (case status_discrepancy (ord_status o') (ord_status e) of None \<Rightarrow> [] | Some t \<Rightarrow> [t])"
  by (simp add: check_status_def found_none found_report split: option.split)

lemma check_price_found:
  "found a (check_price now o' e a) o'
     (if ord_price e \<noteq> None \<and> ord_price o' \<noteq> None \<and> ord_price e \<noteq> ord_price o' then [''PRICE_MISMATCH''] else [])"
  by (simp add: check_price_def found_none found_report split: option.split)

lemma check_stale_found:
  assumes "stale_order_ms (snd a) = Inr limit"
    and "\<forall>d \<in> set (fst a). disc_client_order_id d = ord_client_order_id o' \<longrightarrow> disc_type d \<noteq> ''STALE_ORDER''"
  shows "\<exists>a'. check_stale now o' e a = (None, a') \<and> found a a' o'
    (if ord_status o' \<in> {''NEW'', ''PARTIALLY_FILLED''} \<and>
        (older_than limit now (ord_created_at o') \<or> older_than limit now (ord_created_at e)) then [''STALE_ORDER''] else [])"
proof (cases "ord_status o' \<in> {''NEW'', ''PARTIALLY_FILLED''}")
  case True
  let ?loc = "report ''STALE_ORDER'' o' e now [(''age_hours'', age_hours (now - ord_created_at o'))] a"
  define a1 where "a1 = (if older_than limit now (ord_created_at o') then ?loc else a)"
  have l: "check_stale_local now o' e a = (None, a1)"
    using assms(1) by (simp add: check_stale_local_def a1_def older_than_def)
  have f1: "found a a1 o' (if older_than limit now (ord_created_at o') then [''STALE_ORDER''] else [])"
    by (simp add: a1_def found_report found_none)
  have ms: "stale_order_ms (snd a1) = Inr limit" using found_stale_ms[OF f1] assms(1) by simp
  let ?dup = "\<exists>d \<in> set (fst a1). disc_client_order_id d = ord_client_order_id o' \<and> disc_type d = ''STALE_ORDER''"
  have dup: "?dup \<longleftrightarrow> older_than limit now (ord_created_at o')"
    using assms(2) by (auto simp: a1_def report_recorded)
  let ?dts = "[(''age_hours'', age_hours (now - ord_created_at e)), (''source'', PStr ''exchange'')]"
  define a2 where "a2 = (if older_than limit now (ord_created_at e) then
      (if older_than limit now (ord_created_at o') then (fst a1, snd (report ''STALE_ORDER'' o' e now ?dts a1))
       else report ''STALE_ORDER'' o' e now ?dts a1) else a1)"
  have e2: "check_stale_exchange now o' e a1 = (None, a2)"
    unfolding check_stale_exchange_def dup a2_def older_than_def[of limit now "ord_created_at e"] Let_def using ms by simp
  have f2: "found a1 a2 o' (if older_than limit now (ord_created_at e) \<and> \<not> older_than limit now (ord_created_at o') then [''STALE_ORDER''] else [])"
    by (simp add: a2_def found_recorded_only found_report found_none)
  have "check_stale now o' e a = (None, a2)" using True l e2 by (simp add: check_stale_def)
  moreover have "found a a2 o' (if older_than limit now (ord_created_at o') \<or> older_than limit now (ord_created_at e) then [''STALE_ORDER''] else [])"
    using found_trans[OF f1 f2] by (auto split: if_splits)
  ultimately show ?thesis using True by simp
qed (simp add: check_stale_def found_none)

lemma status_not_stale: "status_discrepancy l x = Some t \<Longrightarrow> t \<noteq> ''STALE_ORDER''"
  by (auto simp: status_discrepancy_def split: if_splits)

lemma compare_order_found:
  assumes "stale_order_ms (snd a) = Inr limit" "ord_client_order_id o' \<notin> disc_client_order_id ` set (fst a)"
  shows "\<exists>a'. compare_order now o' e a = (None, a') \<and> found a a' o' (expected_types limit now o' e)"
proof -
  let ?a1 = "check_status now o' e a"
  note f1 = check_status_found[of a now o' e]
  have ms: "stale_order_ms (snd ?a1) = Inr limit" using found_stale_ms[OF f1] assms(1) by simp
  have "\<forall>d \<in> set (fst ?a1). disc_client_order_id d = ord_client_order_id o' \<longrightarrow> disc_type d \<noteq> ''STALE_ORDER''"
  proof -
    have "\<forall>d \<in> set (fst a). disc_client_order_id d \<noteq> ord_client_order_id o'" using assms(2) by (auto simp: image_iff)
    then show ?thesis
      by (auto simp: check_status_def report_recorded dest: status_not_stale split: option.splits)
  qed
  from check_stale_found[OF ms this, of now e] obtain a2 where
    a2: "check_stale now o' e ?a1 = (None, a2)" and f2: "found ?a1 a2 o' (if ord_status o' \<in> {''NEW'', ''PARTIALLY_FILLED''} \<and>
        (older_than limit now (ord_created_at o') \<or> older_than limit now (ord_created_at e)) then [''STALE_ORDER''] else [])" by blast
  show ?thesis
    unfolding compare_order_def a2 expected_types_def status_discrepancy_table[symmetric]
    using found_trans[OF found_trans[OF f1 f2] check_price_found[of a2 now o' e]] by auto
qed

definition known :: "(order_id \<Rightarrow> string \<Rightarrow> order option res) \<Rightarrow> order \<Rightarrow> order option" where
  "known ans o' = (case ord_id o' of None \<Rightarrow> None | Some i \<Rightarrow> (case ans i (ord_symbol o') of Inr r \<Rightarrow> r | Inl _ \<Rightarrow> None))"

lemma reconcile_orders_found:
  assumes "\<And>i s w. x_get_order_status x i s w = (ans i s, w)" "stale_order_ms (snd a) = Inr limit"
    and "distinct (map ord_client_order_id os)"
    and "\<forall>o' \<in> set os. ord_client_order_id o' \<notin> disc_client_order_id ` set (fst a)"
  shows "\<exists>ds rs. reconcile_orders x now os a w = (None, (fst a @ ds, recorded (snd a) rs), w) \<and> subseq ds rs
    \<and> map (\<lambda>d. (disc_client_order_id d, disc_type d)) ds = concat (map (\<lambda>o'. map (Pair (ord_client_order_id o'))
        (case known ans o' of None \<Rightarrow> [] | Some e \<Rightarrow> expected_types limit now o' e)) os)"
  using assms(2-4)
proof (induction os arbitrary: a)
  case Nil
  show ?case by (intro exI[of _ "[]"]) simp
next
  case (Cons o' os)
  have d: "distinct (map ord_client_order_id os)" "ord_client_order_id o' \<notin> ord_client_order_id ` set os" using Cons.prems(2) by auto
  show ?case
  proof (cases "known ans o'")
    case None
    then have "reconcile_orders x now (o' # os) a w = reconcile_orders x now os a w"
      by (auto simp: known_def assms(1) split: option.splits sum.splits)
    then show ?thesis using Cons.IH[OF Cons.prems(1) d(1)] Cons.prems(3) None by simp
  next
    case (Some e)
    obtain a1 where c: "compare_order now o' e a = (None, a1)" and f: "found a a1 o' (expected_types limit now o' e)"
      using compare_order_found[OF Cons.prems(1), of o' now e] Cons.prems(3) by auto
    have "reconcile_orders x now (o' # os) a w = reconcile_orders x now os a1 w"
      using Some c by (auto simp: known_def assms(1) split: option.splits sum.splits)
    moreover have "\<forall>o' \<in> set os. ord_client_order_id o' \<notin> disc_client_order_id ` set (fst a1)"
    proof
      fix p assume p: "p \<in> set os"
      have "ord_client_order_id p \<notin> disc_client_order_id ` set (fst a)" using Cons.prems(3) p by (meson list.set_intros(2))
      moreover have "ord_client_order_id p \<noteq> ord_client_order_id o'" using d(2) p by (metis imageI)
      ultimately show "ord_client_order_id p \<notin> disc_client_order_id ` set (fst a1)" using found_ids[OF f] by blast
    qed
    moreover have "stale_order_ms (snd a1) = Inr limit" using found_stale_ms[OF f] Cons.prems(1) by simp
    ultimately obtain ds rs where h: "reconcile_orders x now (o' # os) a w = (None, (fst a1 @ ds, recorded (snd a1) rs), w)"
      "subseq ds rs" "map (\<lambda>d. (disc_client_order_id d, disc_type d)) ds = concat (map (\<lambda>o'. map (Pair (ord_client_order_id o'))
        (case known ans o' of None \<Rightarrow> [] | Some e \<Rightarrow> expected_types limit now o' e)) os)"
      using Cons.IH[of a1] d(1) by auto
    from f obtain es qs where "fst a1 = fst a @ es" "snd a1 = recorded (snd a) qs" "subseq es qs"
      "map (\<lambda>d. (disc_client_order_id d, disc_type d)) es = map (Pair (ord_client_order_id o')) (expected_types limit now o' e)"
      by (auto simp: found_def)
    moreover from this(3) h(2) have "subseq (es @ ds) (qs @ rs)" by (rule list_emb_append_mono)
    ultimately show ?thesis using h(1,3) Some
      by (intro exI[of _ "es @ ds"] exI[of _ "qs @ rs"]) simp
  qed
qed

section \<open>Properties\<close>

text \<open>
  \<^bold>\<open>C31\<close>. Reconciliation reports exactly what is wrong: for tracked orders with distinct client identifiers
  it reports, in order and once each, the kinds of discrepancy each order has with the order the exchange
  returns for it, nothing for an order the exchange does not return, and records every reported
  discrepancy in the bounded history, with nothing between two reports but repeated stale-order records.
\<close>

theorem reconcile_reports_exactly:
  assumes "\<And>i s v. x_get_order_status x i s v = (ans i s, v)" and "stale_order_ms rc = Inr limit"
    and "distinct (map ord_client_order_id os)"
  shows "\<exists>ds rs. reconcile_pending_orders x now os (rc, w) = (Inr ds, (recorded rc rs, w)) \<and> subseq ds rs
    \<and> map (\<lambda>d. (disc_client_order_id d, disc_type d)) ds = concat (map (\<lambda>o'. map (Pair (ord_client_order_id o'))
        (case known ans o' of None \<Rightarrow> [] | Some e \<Rightarrow> expected_types limit now o' e)) os)
    \<and> (rs \<noteq> [] \<longrightarrow> rc_history (recorded rc rs) = take_last (rc_maxlen rc) (rc_history rc @ map OrderDisc rs))"
  using reconcile_orders_found[OF assms(1), of "([], rc)" limit os now w] assms(2,3) recorded_history[of _ rc]
  by (auto simp: reconcile_pending_orders_def)

definition example_order :: order where
  "example_order = order_of_result 1000 ''c1'' (example_ack ''NEW'')"

definition filled_exchange :: "unit exchange_ops" where
  "filled_exchange = \<lparr>x_place_order = (\<lambda>r w. (Inl ConnectionError, w)), x_cancel_order = (\<lambda>i s w. (Inr True, w)),
     x_get_order_status = (\<lambda>i s w. (Inr (Some (example_order\<lparr>ord_status := ''FILLED''\<rparr>)), w)),
     x_get_open_orders = (\<lambda>w. (Inr [], w)), x_get_symbol_filters = (\<lambda>s w. (Inr [], w)),
     x_is_order_not_found = (\<lambda>e. False), x_elapse = (\<lambda>d w. w)\<rparr>"

theorem reconcile_reports_exactly_witness:
  "\<exists>ds rc'. reconcile_pending_orders filled_exchange 2000 [example_order]
      (\<lparr>rc_config = [(''stale_order_hours'', PInt 24)], rc_maxlen = 500, rc_history = []\<rparr>, ()) = (Inr ds, (rc', ()))
    \<and> map disc_type ds = [''MISSED_FILL'']"
proof -
  let ?rc = "\<lparr>rc_config = [(''stale_order_hours'', PInt 24)], rc_maxlen = 500, rc_history = []\<rparr>"
  have x: "x_get_order_status filled_exchange i s v = ((\<lambda>i s. Inr (Some (example_order\<lparr>ord_status := ''FILLED''\<rparr>))) i s, v)" for i s v
    by (simp add: filled_exchange_def)
  have h: "stale_order_ms ?rc = Inr 86400000" by (simp add: stale_order_ms_def)
  have d: "distinct (map ord_client_order_id [example_order])" by simp
  have "known (\<lambda>i s. Inr (Some (example_order\<lparr>ord_status := ''FILLED''\<rparr>))) example_order = Some (example_order\<lparr>ord_status := ''FILLED''\<rparr>)"
    by (simp add: known_def example_order_def order_of_result_def)
  moreover have "expected_types 86400000 2000 example_order (example_order\<lparr>ord_status := ''FILLED''\<rparr>) = [''MISSED_FILL'']"
    by (simp add: expected_types_def example_order_def order_of_result_def example_ack_def status_table_def older_than_def)
  ultimately obtain ds rs where "reconcile_pending_orders filled_exchange 2000 [example_order] (?rc, ()) = (Inr ds, (recorded ?rc rs, ()))"
    and m: "map (\<lambda>d. (disc_client_order_id d, disc_type d)) ds = [(ord_client_order_id example_order, ''MISSED_FILL'')]"
    using reconcile_reports_exactly[OF x h d, of 2000 "()"] by auto
  moreover have "map disc_type ds = [''MISSED_FILL'']" using arg_cong[OF m, of "map snd"] by (simp add: comp_def)
  ultimately show ?thesis by (intro exI conjI)
qed

text \<open>
  A trade the exchange lists is reported as missed when its quantity or price is only written
  differently, such as \<^verbatim>\<open>0.50\<close> for \<^verbatim>\<open>0.5\<close>: the keys compare the texts.
\<close>

lemma missed_by_spelling:
  assumes "tt_quantity t \<noteq> tt_quantity u" "\<forall>t' \<in> set ts. t' = u"
  shows "fst (detect_missed_fills now ts [t] rc) = [t]"
  using assms by (auto simp: detect_missed_fills_def dedup_key_def)

end
