(* ===== verification/Bybit.thy ===== *)
theory Bybit
  imports Gateway
begin

text \<open>
  The exchange adapter: \<^verbatim>\<open>src/quad/exchange/bybit.py\<close> with the quantity and price normalisation it
  inherits from \<^verbatim>\<open>exchange/base.py\<close>. The REST layer below (\<^verbatim>\<open>pybit\<close>, throttling and its retries) is the
  record \<open>rest\<close>: a POST answers with one object, a GET with the rows under \<^verbatim>\<open>list\<close>; both raise nothing but
  the adapter's \<^verbatim>\<open>ExchangeError\<close>. Amounts the adapter prints into a request stay numbers.
\<close>

section \<open>State\<close>

type_synonym row = "(string, pyval) dict"

record instrument =
  ins_symbol :: string
  ins_lot :: row
  ins_price :: row

record 'w rest =
  r_post :: "string \<Rightarrow> row \<Rightarrow> 'w \<Rightarrow> row res \<times> 'w"
  r_get :: "string \<Rightarrow> row \<Rightarrow> 'w \<Rightarrow> row list res \<times> 'w"
  r_instruments :: "'w \<Rightarrow> instrument list res \<times> 'w"
  r_monotonic :: "'w \<Rightarrow> rat"
  r_elapse :: "rat \<Rightarrow> 'w \<Rightarrow> 'w"
  r_not_found :: "exc \<Rightarrow> bool"

record adapter =
  ad_dry_run :: bool
  ad_testnet :: bool
  ad_ttl :: rat
  ad_lots :: "(string, rat \<times> rat \<times> rat \<times> rat) dict"
  ad_ticks :: "(string, rat \<times> rat) dict"

section \<open>Reading rows\<close>

text \<open>\<^verbatim>\<open>Decimal(str(entry.get(k, "0") or "0"))\<close>, \<^verbatim>\<open>int(entry.get(k, 0) or 0)\<close> and a text field.\<close>

definition dec_field :: "row \<Rightarrow> string \<Rightarrow> rat res" where
  "dec_field d k = (if truthy (py_get d k) then to_decimal (py_get d k) else Inr 0)"

definition int_field :: "row \<Rightarrow> string \<Rightarrow> int res" where
  "int_field d k = (if truthy (py_get d k) then to_int (py_get d k) else Inr 0)"

definition text_field :: "row \<Rightarrow> string \<Rightarrow> string \<Rightarrow> string" where
  "text_field d k z = (case py_get d k of PStr s \<Rightarrow> s | _ \<Rightarrow> z)"

text \<open>A price field counts as absent when it is missing, empty or the text \<^verbatim>\<open>"0"\<close>.\<close>

definition price_field :: "row \<Rightarrow> string \<Rightarrow> rat option res" where
  "price_field d k =
     (let v = py_get d k in if v = PNone \<or> v = PStr '''' \<or> v = PStr ''0'' then Inr None
      else bindE (to_decimal v) (\<lambda>p. Inr (Some p)))"

definition id_field :: "row \<Rightarrow> string \<Rightarrow> order_id \<Rightarrow> order_id" where
  "id_field d k z = (case py_get d k of
     PStr s \<Rightarrow> if s = [] then z else StrId s | PInt n \<Rightarrow> if n = 0 then z else IntId n | _ \<Rightarrow> z)"

definition status_map :: "(string \<times> string) list" where
  "status_map =
    [(''CREATED'', ''NEW''), (''NEW'', ''NEW''), (''PARTIALLYFILLED'', ''PARTIALLY_FILLED''),
     (''PARTIALLY_FILLED'', ''PARTIALLY_FILLED''), (''FILLED'', ''FILLED''), (''CANCELLED'', ''CANCELLED''),
     (''REJECTED'', ''REJECTED''), (''EXPIRED'', ''EXPIRED''), (''UNTRIGGERED'', ''NEW''), (''TRIGGERED'', ''NEW''),
     (''DEACTIVATED'', ''CANCELLED'')]"

definition normalize_order_status :: "string \<Rightarrow> string" where
  "normalize_order_status raw =
     (case map_of status_map (upper (filter (\<lambda>c. c \<noteq> CHR ''_'' \<and> c \<noteq> CHR '' '') raw)) of
        Some s \<Rightarrow> s | None \<Rightarrow> upper raw)"

section \<open>Filters\<close>

definition ttl_fresh :: "rat \<Rightarrow> rat \<Rightarrow> (string, rat \<times> 'v) dict \<Rightarrow> string \<Rightarrow> 'v option" where
  "ttl_fresh now ttl cache k =
     (case map_of cache k of None \<Rightarrow> None
      | Some (stored_at, v) \<Rightarrow> if ttl \<le> fround (now - stored_at) then None else Some v)"

definition get_mark_price :: "'w rest \<Rightarrow> string \<Rightarrow> 'w \<Rightarrow> rat res \<times> 'w" where
  "get_mark_price r symb w =
     (case r_get r ''/v5/market/tickers'' [(''category'', PStr ''linear''), (''symbol'', PStr symb)] w of
        (Inl e, w1) \<Rightarrow> (Inl e, w1)
      | (Inr rows, w1) \<Rightarrow> (dec_field (case rows of [] \<Rightarrow> [] | e # es \<Rightarrow> e) ''markPrice'', w1))"

definition find_instrument :: "string \<Rightarrow> instrument list \<Rightarrow> instrument option" where
  "find_instrument symb ins = find (\<lambda>i. ins_symbol i = symb) ins"

text \<open>
  The minimum notional: the first of three keys that is set, or else the minimum quantity at the mark
  price, which is the quantity itself when the price is not known.
\<close>

definition raw_notional :: "row \<Rightarrow> pyval" where
  "raw_notional lot =
     (if truthy (py_get lot ''minNotionalValue'') then py_get lot ''minNotionalValue''
      else if truthy (py_get lot ''minOrderValue'') then py_get lot ''minOrderValue''
      else py_get lot ''minNotional'')"

definition min_notional_of :: "'w rest \<Rightarrow> string \<Rightarrow> row \<Rightarrow> rat \<Rightarrow> 'w \<Rightarrow> rat \<times> 'w" where
  "min_notional_of r symb lot min_qty w =
     (let v = raw_notional lot
      in if v \<noteq> PNone \<and> v \<noteq> PStr ''''
         then ((case to_decimal v of Inl e \<Rightarrow> 0 | Inr x \<Rightarrow> x), w)
         else (case get_mark_price r symb w of
             (Inl e, w1) \<Rightarrow> (min_qty, w1)
           | (Inr mark, w1) \<Rightarrow> (if 0 < mark then dround (min_qty * mark) else min_qty, w1)))"

definition get_lot_filters :: "'w rest \<Rightarrow> string \<Rightarrow> adapter \<times> 'w \<Rightarrow> (rat \<times> rat \<times> rat) res \<times> (adapter \<times> 'w)" where
  "get_lot_filters r symb s =
     (case ttl_fresh (r_monotonic r (snd s)) (ad_ttl (fst s)) (ad_lots (fst s)) symb of
        Some f \<Rightarrow> (Inr f, s)
      | None \<Rightarrow>
         (case r_instruments r (snd s) of
            (Inl e, w1) \<Rightarrow> (Inl e, (fst s, w1))
          | (Inr ins, w1) \<Rightarrow>
             (case find_instrument symb ins of
                None \<Rightarrow> (Inl RuntimeError, (fst s, w1))
              | Some i \<Rightarrow>
                 (case bindE (dec_field (ins_lot i) ''qtyStep'') (\<lambda>a. bindE (dec_field (ins_lot i) ''minOrderQty'') (\<lambda>b. Inr (a, b))) of
                    Inl e \<Rightarrow> (Inl e, (fst s, w1))
                  | Inr (step, min_qty) \<Rightarrow>
                     (let (mn, w2) = min_notional_of r symb (ins_lot i) min_qty w1
                      in (Inr (step, min_qty, mn),
                          ((fst s)\<lparr>ad_lots := AList.update symb (r_monotonic r w2, step, min_qty, mn) (ad_lots (fst s))\<rparr>, w2)))))))"

definition get_tick_size :: "'w rest \<Rightarrow> string \<Rightarrow> adapter \<times> 'w \<Rightarrow> rat res \<times> (adapter \<times> 'w)" where
  "get_tick_size r symb s =
     (case ttl_fresh (r_monotonic r (snd s)) (ad_ttl (fst s)) (ad_ticks (fst s)) symb of
        Some t \<Rightarrow> (Inr t, s)
      | None \<Rightarrow>
         (case r_instruments r (snd s) of
            (Inl e, w1) \<Rightarrow> (Inl e, (fst s, w1))
          | (Inr ins, w1) \<Rightarrow>
             (case (case find_instrument symb ins of None \<Rightarrow> Inr 0 | Some i \<Rightarrow> dec_field (ins_price i) ''tickSize'') of
                Inl e \<Rightarrow> (Inl e, (fst s, w1))
              | Inr t \<Rightarrow> (Inr t, ((fst s)\<lparr>ad_ticks := AList.update symb (r_monotonic r w1, t) (ad_ticks (fst s))\<rparr>, w1)))))"

definition symbol_filters :: "'w rest \<Rightarrow> string \<Rightarrow> adapter \<times> 'w \<Rightarrow> (string, rat) dict res \<times> (adapter \<times> 'w)" where
  "symbol_filters r symb s =
     (case get_lot_filters r symb s of
        (Inl e, s1) \<Rightarrow> (Inl e, s1)
      | (Inr (step, min_qty, mn), s1) \<Rightarrow>
         (case get_tick_size r symb s1 of
            (Inl e, s2) \<Rightarrow> (Inl e, s2)
          | (Inr t, s2) \<Rightarrow> (Inr [(''step_size'', step), (''min_qty'', min_qty), (''min_notional'', mn), (''tick_size'', t)], s2)))"

section \<open>Normalisation\<close>

text \<open>\<^verbatim>\<open>(q / tick).to_integral_value(ROUND_HALF_UP) * tick\<close>.\<close>

definition normalize_price :: "'w rest \<Rightarrow> string \<Rightarrow> rat \<Rightarrow> adapter \<times> 'w \<Rightarrow> rat res \<times> (adapter \<times> 'w)" where
  "normalize_price r symb q s =
     (case get_tick_size r symb s of
        (Inl e, s1) \<Rightarrow> (Inl e, s1)
      | (Inr t, s1) \<Rightarrow> (Inr (if t \<le> 0 then q else dround (of_int (half_up (dround (q / t))) * t)), s1))"

text \<open>
  Rounding down to the step. The product has the step's exponent, so the \<^verbatim>\<open>quantize\<close> to it that follows
  in the code changes nothing.
\<close>

definition floor_to_step :: "rat \<Rightarrow> rat \<Rightarrow> rat" where
  "floor_to_step q step = (if 0 < step then dround (of_int (dtrunc (dround (q / step))) * step) else q)"

text \<open>The reference price is \<^verbatim>\<open>None\<close> at every call, so the mark price is asked for; without one the notional is not checked.\<close>

definition normalize_quantity :: "'w rest \<Rightarrow> string \<Rightarrow> rat \<Rightarrow> adapter \<times> 'w \<Rightarrow> rat res \<times> (adapter \<times> 'w)" where
  "normalize_quantity r symb qty s =
     (if qty \<le> 0 then (Inr qty, s)
      else (case get_lot_filters r symb s of
        (Inl e, s1) \<Rightarrow> (Inl e, s1)
      | (Inr (step, min_qty, mn), s1) \<Rightarrow>
         (let q = floor_to_step qty step
          in if q < min_qty then (Inl RuntimeError, s1)
             else if 0 < mn then
               (case get_mark_price r symb (snd s1) of
                  (Inl e, w2) \<Rightarrow> (Inr q, (fst s1, w2))
                | (Inr px, w2) \<Rightarrow>
                    (if 0 < px \<and> dround (q * px) < mn then Inl RuntimeError else Inr q, (fst s1, w2)))
             else (Inr q, s1))))"

section \<open>place_order\<close>

definition bybit_side :: "string \<Rightarrow> string" where
  "bybit_side s = (if upper s \<in> {''BUY'', ''LONG''} then ''Buy'' else if upper s \<in> {''SELL'', ''SHORT''} then ''Sell'' else s)"

definition position_idx :: "string \<Rightarrow> string \<Rightarrow> int" where
  "position_idx position_side side =
     (let h = upper (strip position_side)
      in if h \<in> {''LONG'', ''BUY''} then 1
         else if h \<in> {''SHORT'', ''SELL''} then 2
         else if h \<in> {''HEDGE'', ''BOTH''} then (if side = ''Buy'' then 1 else 2)
         else 0)"

definition order_kind :: "order_request \<Rightarrow> string" where
  "order_kind req = upper (if req_order_type req = [] then ''MARKET'' else req_order_type req)"

definition is_conditional :: "order_request \<Rightarrow> bool" where
  "is_conditional req = (order_kind req \<in> {''STOP_MARKET'', ''TAKE_PROFIT_MARKET''})"

definition bybit_order_type :: "order_request \<Rightarrow> string" where
  "bybit_order_type req = (if order_kind req = ''MARKET'' \<or> is_conditional req then ''Market'' else order_kind req)"

text \<open>The optional price parameter \<open>k\<close>, normalised, with the parameters \<open>extra\<close> that go with it.\<close>

definition put_price :: "'w rest \<Rightarrow> string \<Rightarrow> string \<Rightarrow> row \<Rightarrow> rat option \<Rightarrow> row \<Rightarrow> adapter \<times> 'w \<Rightarrow> row res \<times> (adapter \<times> 'w)" where
  "put_price r symb k extra p d s =
     (case p of
        None \<Rightarrow> (Inr d, s)
      | Some q \<Rightarrow> bindS (normalize_price r symb q s)
          (\<lambda>n s1. (Inr (fold (\<lambda>kv. AList.update (fst kv) (snd kv)) extra (AList.update k (PDec n) d)), s1)))"

definition trigger_by :: "order_request \<Rightarrow> string" where
  "trigger_by req = (if upper (if req_working_type req = [] then ''MARK_PRICE'' else req_working_type req) = ''MARK_PRICE''
     then ''MarkPrice'' else ''LastPrice'')"

definition base_params :: "order_request \<Rightarrow> rat \<Rightarrow> row" where
  "base_params req quantity =
     [(''category'', PStr ''linear''), (''symbol'', PStr (req_symbol req)), (''side'', PStr (bybit_side (req_side req))),
      (''orderType'', PStr (bybit_order_type req)), (''qty'', PDec quantity),
      (''positionIdx'', PInt (position_idx (req_position_side req) (bybit_side (req_side req))))]"

definition flag_params :: "order_request \<Rightarrow> row \<Rightarrow> row" where
  "flag_params req d =
     (let d1 = (if req_price_protect req then AList.update ''priceProtect'' (PBool True) d else d);
          d2 = (if req_time_in_force req \<noteq> [] \<and> bybit_order_type req \<noteq> ''Market''
                then AList.update ''timeInForce'' (PStr (upper (req_time_in_force req))) d1 else d1);
          d3 = (if req_reduce_only req then AList.update ''reduceOnly'' (PBool True) d2 else d2)
      in if req_client_order_id req \<noteq> [] then AList.update ''orderLinkId'' (PStr (take 36 (req_client_order_id req))) d3 else d3)"

text \<open>The attached brackets go out with every order that is no conditional order itself.\<close>

definition bracket_params :: "'w rest \<Rightarrow> order_request \<Rightarrow> row \<Rightarrow> adapter \<times> 'w \<Rightarrow> row res \<times> (adapter \<times> 'w)" where
  "bracket_params r req d s =
     (if is_conditional req then (Inr d, s)
      else bindS (put_price r (req_symbol req) ''takeProfit'' [(''tpTriggerBy'', PStr ''MarkPrice'')] (req_take_profit_price req) d s) (\<lambda>d1 s1.
           bindS (put_price r (req_symbol req) ''stopLoss'' [(''slTriggerBy'', PStr ''MarkPrice'')] (req_stop_loss_price req) d1 s1) (\<lambda>d2 s2.
           (Inr (if req_take_profit_price req \<noteq> None \<or> req_stop_loss_price req \<noteq> None
                 then AList.update ''tpslMode'' (PStr ''Full'') d2 else d2), s2))))"

definition order_params :: "'w rest \<Rightarrow> order_request \<Rightarrow> adapter \<times> 'w \<Rightarrow> (row \<times> rat) res \<times> (adapter \<times> 'w)" where
  "order_params r req s =
     bindS (normalize_quantity r (req_symbol req) (req_quantity req) s) (\<lambda>quantity s1.
     bindS (put_price r (req_symbol req) ''price'' [] (req_price req) (base_params req quantity) s1) (\<lambda>d1 s2.
     bindS (put_price r (req_symbol req) ''triggerPrice'' [(''triggerBy'', PStr (trigger_by req))] (req_stop_price req) d1 s2) (\<lambda>d2 s3.
     bindS (bracket_params r req (flag_params req d2) s3) (\<lambda>d3 s4. (Inr (d3, quantity), s4)))))"

definition result_of_response :: "order_request \<Rightarrow> rat \<Rightarrow> row \<Rightarrow> order_result res" where
  "result_of_response req quantity d =
     bindE (case map_of d ''qty'' of None \<Rightarrow> Inr quantity | Some v \<Rightarrow> to_decimal v) (\<lambda>q.
     bindE (dec_field d ''cumExecQty'') (\<lambda>filled.
     bindE (price_field d ''price'') (\<lambda>p. Inr
       \<lparr>res_order_id = id_field d ''orderId'' (IntId 0),
        res_client_order_id = text_field d ''orderLinkId'' (req_client_order_id req),
        res_symbol = text_field d ''symbol'' (req_symbol req), res_side = text_field d ''side'' (req_side req),
        res_order_type = text_field d ''orderType'' (req_order_type req), res_quantity = q, res_filled_qty = filled,
        res_price = (case p of None \<Rightarrow> req_price req | Some x \<Rightarrow> Some x),
        res_status = normalize_order_status (text_field d ''orderStatus'' ''Created''), res_fills = []\<rparr>)))"

definition bybit_place_order :: "'w rest \<Rightarrow> order_request \<Rightarrow> adapter \<times> 'w \<Rightarrow> order_result res \<times> (adapter \<times> 'w)" where
  "bybit_place_order r req s =
     (if ad_dry_run (fst s) \<and> \<not> ad_testnet (fst s) then (Inl RuntimeError, s)
      else bindS (order_params r req s) (\<lambda>pq s1.
        (case r_post r ''/v5/order/create'' (fst pq) (snd s1) of
           (Inl e, w2) \<Rightarrow> (Inl e, (fst s1, w2))
         | (Inr d, w2) \<Rightarrow> (result_of_response req (snd pq) d, (fst s1, w2)))))"

section \<open>Other order operations\<close>

definition id_text :: "order_id \<Rightarrow> pyval" where
  "id_text i = (case i of IntId n \<Rightarrow> PInt n | StrId s \<Rightarrow> PStr s)"

definition is_exchange_error :: "exc \<Rightarrow> bool" where
  "is_exchange_error e = (case e of ExchangeError b \<Rightarrow> True | _ \<Rightarrow> False)"

definition id_params :: "order_id \<Rightarrow> string \<Rightarrow> row" where
  "id_params i symb = [(''category'', PStr ''linear''), (''orderId'', id_text i)]
     @ (if symb = [] then [] else [(''symbol'', PStr symb)])"

definition bybit_cancel_order :: "'w rest \<Rightarrow> order_id \<Rightarrow> string \<Rightarrow> adapter \<times> 'w \<Rightarrow> bool res \<times> (adapter \<times> 'w)" where
  "bybit_cancel_order r i symb s =
     (case r_post r ''/v5/order/cancel'' (id_params i symb) (snd s) of
        (Inl e, w1) \<Rightarrow> (if is_exchange_error e then Inr False else Inl e, (fst s, w1))
      | (Inr d, w1) \<Rightarrow> (Inr True, (fst s, w1)))"

definition order_from_entry :: "row \<Rightarrow> order_id \<Rightarrow> order res" where
  "order_from_entry d i =
     bindE (dec_field d ''qty'') (\<lambda>q. bindE (dec_field d ''cumExecQty'') (\<lambda>filled.
     bindE (price_field d ''price'') (\<lambda>p. bindE (price_field d ''triggerPrice'') (\<lambda>sp.
     bindE (int_field d ''createdTime'') (\<lambda>c. bindE (int_field d ''updatedTime'') (\<lambda>u. Inr
       \<lparr>ord_id = Some (id_field d ''orderId'' i), ord_client_order_id = text_field d ''orderLinkId'' [],
        ord_symbol = text_field d ''symbol'' [], ord_side = text_field d ''side'' [],
        ord_order_type = text_field d ''orderType'' [], ord_quantity = q, ord_filled_qty = filled,
        ord_price = p, ord_stop_price = sp,
        ord_status = normalize_order_status (text_field d ''orderStatus'' []),
        ord_time_in_force = text_field d ''timeInForce'' ''GTC'', ord_created_at = c, ord_updated_at = u,
        ord_working_type = [], ord_position_side = [], ord_price_protect = False\<rparr>))))))"

fun query_endpoints :: "'w rest \<Rightarrow> row \<Rightarrow> order_id \<Rightarrow> string list \<Rightarrow> 'w \<Rightarrow> order option res \<times> 'w" where
  "query_endpoints r params i [] w = (Inr None, w)"
| "query_endpoints r params i (ep # eps) w =
     (case r_get r ep params w of
        (Inl e, w1) \<Rightarrow> if is_exchange_error e then query_endpoints r params i eps w1 else (Inl e, w1)
      | (Inr [], w1) \<Rightarrow> query_endpoints r params i eps w1
      | (Inr (d # ds), w1) \<Rightarrow> (bindE (order_from_entry d i) (\<lambda>o'. Inr (Some o')), w1))"

definition bybit_order_status :: "'w rest \<Rightarrow> order_id \<Rightarrow> string \<Rightarrow> adapter \<times> 'w \<Rightarrow> order option res \<times> (adapter \<times> 'w)" where
  "bybit_order_status r i symb s =
     (let (res, w1) = query_endpoints r (id_params i symb) i [''/v5/order/realtime'', ''/v5/order/history''] (snd s)
      in (res, (fst s, w1)))"

fun map_res :: "('a \<Rightarrow> 'b res) \<Rightarrow> 'a list \<Rightarrow> 'b list res" where
  "map_res f [] = Inr []"
| "map_res f (x # xs) = bindE (f x) (\<lambda>y. bindE (map_res f xs) (\<lambda>ys. Inr (y # ys)))"

text \<open>The gateway asks for the open orders of all symbols.\<close>

definition bybit_open_orders :: "'w rest \<Rightarrow> adapter \<times> 'w \<Rightarrow> order list res \<times> (adapter \<times> 'w)" where
  "bybit_open_orders r s =
     (case r_get r ''/v5/order/realtime''
         [(''category'', PStr ''linear''), (''openOnly'', PInt 1), (''settleCoin'', PStr ''USDT'')] (snd s) of
        (Inl e, w1) \<Rightarrow> (Inl e, (fst s, w1))
      | (Inr rows, w1) \<Rightarrow> (map_res (\<lambda>d. order_from_entry d (IntId 0)) rows, (fst s, w1)))"

text \<open>The adapter as the gateway sees it.\<close>

definition bybit_ops :: "'w rest \<Rightarrow> (adapter \<times> 'w) exchange_ops" where
  "bybit_ops r =
     \<lparr>x_place_order = bybit_place_order r, x_cancel_order = bybit_cancel_order r,
      x_get_order_status = bybit_order_status r, x_get_open_orders = bybit_open_orders r,
      x_get_symbol_filters = symbol_filters r, x_is_order_not_found = r_not_found r,
      x_elapse = (\<lambda>d s. (fst s, r_elapse r d (snd s)))\<rparr>"

section \<open>Positions and fills\<close>

fun flag_text :: "pyval \<Rightarrow> string" where
  "flag_text (PStr s) = lower s"
| "flag_text (PBool b) = (if b then ''true'' else ''false'')"
| "flag_text _ = []"

definition leverage_field :: "row \<Rightarrow> int" where
  "leverage_field d =
     (let v = get_or d ''leverage'' (PInt 1)
      in case to_float (if truthy v then v else PInt 1) of Inl e \<Rightarrow> 1 | Inr x \<Rightarrow> dtrunc x)"

definition parse_position :: "row \<Rightarrow> position option res" where
  "parse_position d =
     (if text_field d ''symbol'' [] = [] then Inr None
      else bindE (dec_field d ''size'') (\<lambda>sz.
        if sz = 0 then Inr None
        else bindE (dec_field d ''avgPrice'') (\<lambda>entry. bindE (dec_field d ''markPrice'') (\<lambda>mark.
          bindE (dec_field d ''unrealisedPnl'') (\<lambda>upnl. bindE (dec_field d ''realisedPnl'') (\<lambda>rpnl.
          bindE (dec_field d ''liqPrice'') (\<lambda>liq. bindE (int_field d ''updatedTime'') (\<lambda>upd.
            (let side = text_field d ''side'' [];
                 idx = (case to_int (get_or d ''positionIdx'' (PInt 0)) of Inl e \<Rightarrow> 0 | Inr n \<Rightarrow> n)
             in Inr (Some
              \<lparr>pos_id = None, pos_strategy = [], pos_symbol = text_field d ''symbol'' [],
               pos_side = (if side = ''Buy'' then Long else if side = ''Sell'' then Short else if 0 < sz then Long else Short),
               pos_quantity = dround \<bar>sz\<bar>, pos_entry_price = entry, pos_current_price = mark, pos_unrealized_pnl = upnl,
               pos_realized_pnl = rpnl, pos_leverage = leverage_field d,
               pos_margin_type = (if flag_text (get_or d ''isIsolated'' (PStr ''false'')) = ''true'' then Isolated else Cross),
               pos_position_side = (if idx = 1 then FLong else if idx = 2 then FShort else FBoth),
               pos_liquidation_price = liq, pos_initial_margin = 0, pos_maintenance_margin = 0, pos_funding_paid = 0,
               pos_status = Open, pos_opened_at = 0, pos_updated_at = upd, pos_stop_loss_order_id = [],
               pos_take_profit_order_id = [], pos_stop_loss_price = 0, pos_take_profit_price = 0\<rparr>))))))))))"

definition get_positions :: "'w rest \<Rightarrow> 'w \<Rightarrow> position list res \<times> 'w" where
  "get_positions r w =
     (case r_get r ''/v5/position/list'' [(''category'', PStr ''linear''), (''settleCoin'', PStr ''USDT'')] w of
        (Inl e, w1) \<Rightarrow> (Inl e, w1)
      | (Inr rows, w1) \<Rightarrow> (bindE (map_res parse_position rows) (\<lambda>ps. Inr (List.map_filter (\<lambda>p. p) ps)), w1))"

definition trade_of_entry :: "string \<Rightarrow> row \<Rightarrow> trade res" where
  "trade_of_entry symb d =
     bindE (dec_field d ''execQty'') (\<lambda>q. bindE (dec_field d ''execPrice'') (\<lambda>p.
     bindE (dec_field d ''execFee'') (\<lambda>fee. bindE (dec_field d ''realizedPnl'') (\<lambda>pnl.
     bindE (int_field d ''execTime'') (\<lambda>ts. Inr
       \<lparr>trd_id = None, trd_position_id = None, trd_order_id = Some (id_field d ''orderId'' (IntId 0)),
        trd_symbol = symb, trd_side = upper (text_field d ''side'' []), trd_quantity = q, trd_price = p, trd_fee = fee,
        trd_pnl = Some pnl, trd_timestamp = ts\<rparr>)))))"

text \<open>A row that cannot be read is skipped.\<close>

definition readable_trades :: "string \<Rightarrow> row list \<Rightarrow> trade list" where
  "readable_trades symb rows = List.map_filter (\<lambda>d. case trade_of_entry symb d of Inr t \<Rightarrow> Some t | Inl e \<Rightarrow> None) rows"

fun trades_of_symbols :: "'w rest \<Rightarrow> string list \<Rightarrow> 'w \<Rightarrow> trade list res \<times> 'w" where
  "trades_of_symbols r [] w = (Inr [], w)"
| "trades_of_symbols r (symb # symbs) w =
     (case r_get r ''/v5/execution/list'' [(''category'', PStr ''linear''), (''symbol'', PStr symb), (''limit'', PInt 500)] w of
        (Inl e, w1) \<Rightarrow> if is_exchange_error e then trades_of_symbols r symbs w1 else (Inl e, w1)
      | (Inr rows, w1) \<Rightarrow> bindS (trades_of_symbols r symbs w1) (\<lambda>ts w2. (Inr (readable_trades symb rows @ ts), w2)))"

definition get_user_trades :: "'w rest \<Rightarrow> 'w \<Rightarrow> trade list res \<times> 'w" where
  "get_user_trades r w =
     bindS (get_positions r w) (\<lambda>ps w1. trades_of_symbols r (filter (\<lambda>s. s \<noteq> []) (map pos_symbol ps)) w1)"

section \<open>Lemmas\<close>

text \<open>A normalised status is normal; one Bybit status of a finished order is not recognised as terminal.\<close>

lemma upper_filter: "filter (\<lambda>c. c \<noteq> CHR ''_'' \<and> c \<noteq> CHR '' '') (upper s) = upper (filter (\<lambda>c. c \<noteq> CHR ''_'' \<and> c \<noteq> CHR '' '') s)"
proof -
  have "upper_char c = d \<longleftrightarrow> c = d" if "d \<in> {CHR ''_'', CHR '' ''}" for c d
  proof (cases "97 \<le> code_point c \<and> code_point c \<le> 122")
    case True
    then have "code_point (upper_char c) \<noteq> code_point d \<and> code_point c \<noteq> code_point d"
      using that by (auto simp: upper_char_def code_point_def)
    then show ?thesis by auto
  qed (auto simp: upper_char_def)
  then show ?thesis by (induction s) (simp_all add: upper_def)
qed

lemma normalize_order_status_idem: "normalize_order_status (normalize_order_status s) = normalize_order_status s"
proof (cases "map_of status_map (upper (filter (\<lambda>c. c \<noteq> CHR ''_'' \<and> c \<noteq> CHR '' '') s))")
  case None
  then show ?thesis by (simp add: normalize_order_status_def upper_filter)
next
  case (Some t)
  have "\<forall>t \<in> set (map snd status_map). normalize_order_status t = t" by code_simp
  moreover have "t \<in> set (map snd status_map)" using map_of_SomeD[OF Some] by force
  ultimately have "normalize_order_status t = t" by blast
  moreover have "normalize_order_status s = t" using Some by (simp add: normalize_order_status_def)
  ultimately show ?thesis by simp
qed

lemma partial_cancel_not_terminal: "\<not> terminal (normalize_order_status ''PartiallyFilledCanceled'')"
  by code_simp

lemma created_not_terminal: "\<not> terminal (normalize_order_status ''Created'')"
  by code_simp

lemma put_price_None [simp]: "put_price r symb k extra None d s = (Inr d, s)"
  by (simp add: put_price_def)

text \<open>A price parameter touches its own keys only.\<close>

lemma map_of_fold_update: "k \<notin> set (map fst kvs) \<Longrightarrow> map_of (fold (\<lambda>kv. AList.update (fst kv) (snd kv)) kvs d) k = map_of d k"
  by (induction kvs arbitrary: d) (auto simp: map_of_AList_update)

lemma put_price_keeps:
  assumes "put_price r symb k extra p d s = (Inr d', s')" "k' \<noteq> k" "k' \<notin> set (map fst extra)"
  shows "map_of d' k' = map_of d k'"
  using assms by (cases p) (auto simp: put_price_def bindS_Inr_iff map_of_fold_update map_of_AList_update)

section \<open>Properties\<close>


text \<open>
  What a request from the gateway becomes on the exchange: its symbol, its side, the quantity the
  exchange's filters allow, the first 36 characters of its identifier, and a reduce-only flag exactly
  when the caller asked for one; but never a take profit or a stop loss, whatever brackets the caller
  attached.
\<close>

lemma gateway_order_params:
  assumes "order_params r (wire_request cid req) s = (Inr (d, q), s')" and "cid \<noteq> []"
  shows "(\<exists>s1. normalize_quantity r (req_symbol req) (req_quantity req) s = (Inr q, s1))
    \<and> map_of d ''symbol'' = Some (PStr (req_symbol req)) \<and> map_of d ''side'' = Some (PStr (bybit_side (req_side req)))
    \<and> map_of d ''qty'' = Some (PDec q) \<and> map_of d ''orderLinkId'' = Some (PStr (take 36 cid))
    \<and> map_of d ''reduceOnly'' = (if req_reduce_only req then Some (PBool True) else None)
    \<and> map_of d ''takeProfit'' = None \<and> map_of d ''stopLoss'' = None"
proof -
  let ?w = "wire_request cid req"
  obtain s1 s2 s3 d1 d2 where n: "normalize_quantity r (req_symbol req) (req_quantity req) s = (Inr q, s1)"
    and p: "put_price r (req_symbol req) ''price'' [] (req_price req) (base_params ?w q) s1 = (Inr d1, s2)"
    and t: "put_price r (req_symbol req) ''triggerPrice'' [(''triggerBy'', PStr (trigger_by ?w))] (req_stop_price req) d1 s2 = (Inr d2, s3)"
    and d: "d = flag_params ?w d2"
    using assms(1) by (auto simp: order_params_def bindS_Inr_iff bracket_params_def wire_request_def split: if_splits)
  have b: "map_of d2 k = map_of (base_params ?w q) k" if "k \<notin> {''price'', ''triggerPrice'', ''triggerBy''}" for k
    using put_price_keeps[OF t, of k] put_price_keeps[OF p, of k] that by simp
  show ?thesis
    unfolding d flag_params_def Let_def using n assms(2)
    by (auto simp: update_conv' b base_params_def wire_request_def)
qed


text \<open>An exchange with one instrument, a mark price of 100 and acknowledgements as Bybit documents them.\<close>

definition example_rest :: "unit rest" where
  "example_rest = \<lparr>r_post = (\<lambda>ep ps w. (Inr [(''orderId'', PStr ''0f4a''), (''orderLinkId'', get_or ps ''orderLinkId'' PNone)], w)),
     r_get = (\<lambda>ep ps w. (Inr [[(''markPrice'', PStr ''100'')]], w)),
     r_instruments = (\<lambda>w. (Inr [\<lparr>ins_symbol = ''BTCUSDT'', ins_lot = [(''qtyStep'', PDec (of_int 1 / 10 ^ 3)),
        (''minOrderQty'', PDec (of_int 1 / 10 ^ 3)), (''minNotionalValue'', PInt 5)], ins_price = [(''tickSize'', PDec (1 / 10))]\<rparr>], w)),
     r_monotonic = (\<lambda>w. 0), r_elapse = (\<lambda>d w. w), r_not_found = (\<lambda>e. False)\<rparr>"

definition example_adapter :: adapter where
  "example_adapter = \<lparr>ad_dry_run = False, ad_testnet = True, ad_ttl = 60, ad_lots = [], ad_ticks = []\<rparr>"

lemma example_lot_filters: "\<exists>s1. get_lot_filters example_rest ''BTCUSDT'' (example_adapter, ()) = (Inr (of_int 1 / 10 ^ 3, of_int 1 / 10 ^ 3, 5), s1)"
  by (simp add: get_lot_filters_def ttl_fresh_def example_adapter_def example_rest_def find_instrument_def
      dec_field_def py_get_def min_notional_of_def raw_notional_def)



end
