(* ===== verification/Journal.thy ===== *)
theory Journal
  imports Domain
begin

text \<open>
  The trade journal of \<^verbatim>\<open>src/quad/execution/engine.py\<close>: the row the engine writes for a fill of its own
  (\<^verbatim>\<open>_persist_trade\<close>, \<^verbatim>\<open>_fill_fee\<close>) and the ingestion of the exchange's fills (\<^verbatim>\<open>_ingest_exchange_trades\<close>).
  The table is reached through \<open>trade_store\<close>, whose contract is the locale \<open>trade_table\<close>; its model is the
  list of rows that \<^verbatim>\<open>TradeRepository\<close> keeps. The hash that turns a text order id into a number is a
  parameter.
\<close>

section \<open>Rows and the table\<close>

record trade_row =
  tm_order_id :: int
  tm_symbol :: string
  tm_side :: string
  tm_quantity :: rat
  tm_price :: rat
  tm_fee :: rat
  tm_pnl :: rat
  tm_timestamp :: int

record 'j trade_store =
  st_exists :: "int \<Rightarrow> string \<Rightarrow> 'j \<Rightarrow> bool"
  st_create :: "trade_row \<Rightarrow> 'j \<Rightarrow> unit res \<times> 'j"

text \<open>\<^verbatim>\<open>TradeRepository.exists_for_order\<close> and \<^verbatim>\<open>create\<close> on a table that does not fail: a zero identifier never exists.\<close>

definition exists_for_order :: "int \<Rightarrow> string \<Rightarrow> trade_row list \<Rightarrow> bool" where
  "exists_for_order i side rows = (i \<noteq> 0 \<and> (\<exists>t \<in> set rows. tm_order_id t = i \<and> tm_side t = side))"

definition journal_table :: "trade_row list trade_store" where
  "journal_table = \<lparr>st_exists = exists_for_order, st_create = (\<lambda>t rows. (Inr (), rows @ [t]))\<rparr>"

section \<open>Fees\<close>

definition or_zero :: "pyval \<Rightarrow> pyval" where
  "or_zero v = (if truthy v then v else PInt 0)"

text \<open>The first key of a fill that is present and readable; an unreadable one is passed over.\<close>

fun add_fill_fee :: "string list \<Rightarrow> rat \<Rightarrow> (string, pyval) dict \<Rightarrow> rat" where
  "add_fill_fee [] tot f = tot"
| "add_fill_fee (k # ks) tot f =
     (case map_of f k of
        None \<Rightarrow> add_fill_fee ks tot f
      | Some v \<Rightarrow> (case to_decimal (or_zero v) of Inl e \<Rightarrow> add_fill_fee ks tot f | Inr x \<Rightarrow> dround (tot + x)))"

definition add_funding :: "(string, pyval) dict \<Rightarrow> string \<Rightarrow> rat \<Rightarrow> rat" where
  "add_funding md k tot =
     (case to_decimal (or_zero (case map_of md k of None \<Rightarrow> PInt 0 | Some v \<Rightarrow> v)) of Inl e \<Rightarrow> tot | Inr x \<Rightarrow> dround (tot + x))"

definition fill_fee :: "order_result \<Rightarrow> action_data \<Rightarrow> rat" where
  "fill_fee res a =
     (let fees = foldl (add_fill_fee [''commission'', ''fee'', ''commission_amount'']) 0 (res_fills res)
      in add_funding (act_metadata a) ''funding_fee'' (add_funding (act_metadata a) ''funding''
           (add_funding (act_metadata a) ''funding_paid'' fees)))"

section \<open>_persist_trade\<close>

definition fill_price :: "order_result \<Rightarrow> rat res" where
  "fill_price res =
     bindE (if res_fills res = [] then Inr 0
            else to_decimal (case map_of (last (res_fills res)) ''price'' of None \<Rightarrow> PStr ''0'' | Some v \<Rightarrow> v))
       (\<lambda>p. Inr (case res_price res of Some q \<Rightarrow> if p = 0 \<and> q \<noteq> 0 then q else p | None \<Rightarrow> p))"

fun is_long_text :: "pyval \<Rightarrow> bool" where
  "is_long_text (PStr s) = (upper (strip s) \<in> {''BUY'', ''LONG''})"
| "is_long_text _ = False"

definition realized_pnl :: "action_data \<Rightarrow> rat \<Rightarrow> rat \<Rightarrow> rat" where
  "realized_pnl a price fee =
     (let entry = py_get (act_metadata a) ''entry_price''; side = py_get (act_metadata a) ''position_side''
      in if act_type a = EXIT \<and> truthy entry \<and> truthy side then
           (case to_decimal entry of
              Inl e \<Rightarrow> 0
            | Inr x \<Rightarrow> dround (dround ((if is_long_text side then dround (price - x) else - dround (price - x)) * act_quantity a) - fee))
         else 0)"

definition local_order_id :: "order_id \<Rightarrow> int" where
  "local_order_id i = (case i of IntId n \<Rightarrow> n | StrId s \<Rightarrow> 0)"

definition trade_row_of :: "int \<Rightarrow> action_data \<Rightarrow> order_result \<Rightarrow> rat \<Rightarrow> rat \<Rightarrow> trade_row" where
  "trade_row_of now a res price fee =
     \<lparr>tm_order_id = local_order_id (res_order_id res),
      tm_symbol = (if res_symbol res \<noteq> [] then res_symbol res else act_contract a),
      tm_side = (if act_side a \<noteq> [] then act_side a else res_side res),
      tm_quantity = (if res_quantity res \<noteq> 0 then res_quantity res else act_quantity a),
      tm_price = price, tm_fee = fee, tm_pnl = realized_pnl a price fee, tm_timestamp = now\<rparr>"

text \<open>
  \<open>None\<close> is no connected database. Every exception is swallowed; a last fill whose price is no number
  raises out of the price's own handler, so that nothing is written.
\<close>

definition persist_trade :: "'j trade_store \<Rightarrow> int \<Rightarrow> action_data \<Rightarrow> order_result \<Rightarrow> rat \<Rightarrow> 'j option \<Rightarrow> 'j option" where
  "persist_trade st now a res fee db =
     (case db of
        None \<Rightarrow> None
      | Some j \<Rightarrow> (case fill_price res of
           Inl e \<Rightarrow> Some j
         | Inr price \<Rightarrow> Some (snd (st_create st (trade_row_of now a res price fee) j))))"

section \<open>_ingest_exchange_trades\<close>

definition raw_order_id :: "trade \<Rightarrow> string" where
  "raw_order_id t = (case trd_order_id t of
     None \<Rightarrow> ''0'' | Some (StrId s) \<Rightarrow> if s = [] then ''0'' else s
   | Some (IntId n) \<Rightarrow> if n < 0 then CHR ''-'' # str_nat (nat (- n)) else str_nat (nat n))"

definition leg_order_id :: "(string \<Rightarrow> int) \<Rightarrow> trade \<Rightarrow> int" where
  "leg_order_id digest t = (case parse_int (raw_order_id t) of Some n \<Rightarrow> n | None \<Rightarrow> digest (raw_order_id t))"

definition leg_side :: "trade \<Rightarrow> string" where
  "leg_side t = upper (trd_side t)"

text \<open>The prices of the entries still open, of longs and of shorts, and what a leg does to them.\<close>

type_synonym open_entries = "rat list \<times> rat list"

definition advance_entries :: "string \<Rightarrow> rat \<Rightarrow> open_entries \<Rightarrow> open_entries" where
  "advance_entries side price q =
     (if side = ''BUY'' then (if snd q \<noteq> [] then (fst q, tl (snd q)) else (fst q @ [price], snd q))
      else if side = ''SELL'' then (if fst q \<noteq> [] then (tl (fst q), snd q) else (fst q, snd q @ [price]))
      else q)"

definition leg_pnl :: "trade \<Rightarrow> open_entries \<Rightarrow> rat" where
  "leg_pnl t q =
     (let exchange = (\<lambda>fifo. case trd_pnl t of Some x \<Rightarrow> x | None \<Rightarrow> fifo)
      in if leg_side t = ''BUY'' \<and> snd q \<noteq> [] then exchange (dround (dround (hd (snd q) - trd_price t) * trd_quantity t))
         else if leg_side t = ''SELL'' \<and> fst q \<noteq> [] then exchange (dround (dround (trd_price t - hd (fst q)) * trd_quantity t))
         else 0)"

definition leg_row :: "(string \<Rightarrow> int) \<Rightarrow> string \<Rightarrow> trade \<Rightarrow> open_entries \<Rightarrow> trade_row" where
  "leg_row digest symb t q =
     \<lparr>tm_order_id = leg_order_id digest t, tm_symbol = symb, tm_side = leg_side t, tm_quantity = trd_quantity t,
      tm_price = trd_price t, tm_fee = trd_fee t, tm_pnl = leg_pnl t q, tm_timestamp = trd_timestamp t\<rparr>"

text \<open>The legs of one symbol in order of time; the result counts the rows inserted.\<close>

fun ingest_legs :: "'j trade_store \<Rightarrow> (string \<Rightarrow> int) \<Rightarrow> string \<Rightarrow> trade list \<Rightarrow> open_entries \<Rightarrow> nat \<Rightarrow> 'j \<Rightarrow> nat res \<times> 'j" where
  "ingest_legs st digest symb [] q n j = (Inr n, j)"
| "ingest_legs st digest symb (t # ts) q n j =
     (if st_exists st (leg_order_id digest t) (leg_side t) j
      then ingest_legs st digest symb ts (advance_entries (leg_side t) (trd_price t) q) n j
      else (case st_create st (leg_row digest symb t q) j of
         (Inl e, j1) \<Rightarrow> (Inl e, j1)
       | (Inr _, j1) \<Rightarrow> ingest_legs st digest symb ts (advance_entries (leg_side t) (trd_price t) q) (Suc n) j1))"

definition group_by_symbol :: "trade list \<Rightarrow> (string, trade list) dict" where
  "group_by_symbol fills = foldl (\<lambda>d t. AList.update (trd_symbol t) (dict_get_or [] d (trd_symbol t) @ [t]) d) [] fills"

fun ingest_groups :: "'j trade_store \<Rightarrow> (string \<Rightarrow> int) \<Rightarrow> (string, trade list) dict \<Rightarrow> nat \<Rightarrow> 'j \<Rightarrow> nat res \<times> 'j" where
  "ingest_groups st digest [] n j = (Inr n, j)"
| "ingest_groups st digest ((symb, legs) # gs) n j =
     bindS (ingest_legs st digest symb (sort_key trd_timestamp legs) ([], []) n j) (ingest_groups st digest gs)"

text \<open>An exception anywhere makes the count \<open>0\<close>, whatever was inserted before it.\<close>

definition ingest_trades :: "'j trade_store \<Rightarrow> (string \<Rightarrow> int) \<Rightarrow> trade list \<Rightarrow> 'j \<Rightarrow> nat \<times> 'j" where
  "ingest_trades st digest fills j =
     (case ingest_groups st digest (group_by_symbol fills) 0 j of (Inl e, j1) \<Rightarrow> (0, j1) | (Inr n, j1) \<Rightarrow> (n, j1))"

section \<open>Grouping\<close>

lemma group_by_symbol_accumulate: "group_by_symbol fills = dict_accumulate (@) [] (map (\<lambda>t. (trd_symbol t, [t])) fills) []"
  by (simp add: group_by_symbol_def dict_accumulate_def foldl_map)

lemma group_by_symbol_get: "dict_get_or [] (group_by_symbol fills) s = filter (\<lambda>t. trd_symbol t = s) fills"
proof -
  have "foldl (@) ys (map snd (filter (\<lambda>kv. fst kv = s) (map (\<lambda>t. (trd_symbol t, [t])) fills))) = ys @ filter (\<lambda>t. trd_symbol t = s) fills" for ys
    by (induction fills arbitrary: ys) auto
  from this[of "[]"] show ?thesis by (simp add: group_by_symbol_accumulate get_or_dict_accumulate)
qed

lemma group_by_symbol_distinct: "distinct (map fst (group_by_symbol fills))"
  unfolding group_by_symbol_def by (induction fills rule: rev_induct) (simp_all add: distinct_keys_update)

lemma group_by_symbol_subset: "set (concat (map snd (group_by_symbol fills))) \<subseteq> set fills"
proof
  fix t assume "t \<in> set (concat (map snd (group_by_symbol fills)))"
  then obtain s legs where g: "(s, legs) \<in> set (group_by_symbol fills)" "t \<in> set legs" by auto
  then have "map_of (group_by_symbol fills) s = Some legs" by (simp add: group_by_symbol_distinct)
  then have "legs = filter (\<lambda>t. trd_symbol t = s) fills" using group_by_symbol_get[of fills s] by (simp add: dict_get_or_def)
  with g(2) show "t \<in> set fills" by simp
qed

section \<open>The table's contract\<close>

locale trade_table =
  fixes st :: "'j trade_store"
  assumes create_ok: "fst (st_create st t j) = Inr ()"
    and exists_create: "st_exists st i side (snd (st_create st t j)) \<longleftrightarrow>
          st_exists st i side j \<or> (i \<noteq> 0 \<and> tm_order_id t = i \<and> tm_side t = side)"
begin

text \<open>Every leg with an identifier is in the table afterwards, and nothing that was there is lost.\<close>

lemma ingest_legs_exist:
  "\<exists>m j'. ingest_legs st digest symb ts q n j = (Inr m, j') \<and>
     (\<forall>i side. st_exists st i side j' \<longleftrightarrow> st_exists st i side j \<or>
        (i \<noteq> 0 \<and> (\<exists>t \<in> set ts. leg_order_id digest t = i \<and> leg_side t = side)))"
proof (induction ts arbitrary: q n j)
  case (Cons t ts)
  show ?case
  proof (cases "st_exists st (leg_order_id digest t) (leg_side t) j")
    case True
    with Cons.IH[of "advance_entries (leg_side t) (trd_price t) q" n j] show ?thesis by auto
  next
    case False
    obtain j1 where j1: "st_create st (leg_row digest symb t q) j = (Inr (), j1)"
      using create_ok[of "leg_row digest symb t q" j] by (metis prod.collapse)
    have "st_exists st i side j1 \<longleftrightarrow> st_exists st i side j \<or> (i \<noteq> 0 \<and> leg_order_id digest t = i \<and> leg_side t = side)" for i side
      using exists_create[of i side "leg_row digest symb t q" j] unfolding j1 snd_conv by (simp add: leg_row_def)
    with Cons.IH[of "advance_entries (leg_side t) (trd_price t) q" "Suc n" j1] False show ?thesis by (auto simp: j1)
  qed
qed simp

lemma ingest_groups_exist:
  "\<exists>m j'. ingest_groups st digest gs n j = (Inr m, j') \<and>
     (\<forall>i side. st_exists st i side j' \<longleftrightarrow> st_exists st i side j \<or>
        (i \<noteq> 0 \<and> (\<exists>t \<in> set (concat (map snd gs)). leg_order_id digest t = i \<and> leg_side t = side)))"
proof (induction gs arbitrary: n j)
  case (Cons g gs)
  obtain symb legs where g: "g = (symb, legs)" by fastforce
  obtain m j1 where l: "ingest_legs st digest symb (sort_key trd_timestamp legs) ([], []) n j = (Inr m, j1)"
    "\<And>i side. st_exists st i side j1 \<longleftrightarrow> st_exists st i side j \<or>
        (i \<noteq> 0 \<and> (\<exists>t \<in> set legs. leg_order_id digest t = i \<and> leg_side t = side))"
    using ingest_legs_exist[of digest symb "sort_key trd_timestamp legs" "([], [])" n j] by auto
  obtain m' j' where h: "ingest_groups st digest gs m j1 = (Inr m', j')"
    "\<And>i side. st_exists st i side j' \<longleftrightarrow> st_exists st i side j1 \<or>
        (i \<noteq> 0 \<and> (\<exists>t \<in> set (concat (map snd gs)). leg_order_id digest t = i \<and> leg_side t = side))"
    using Cons.IH[of m j1] by blast
  have "ingest_groups st digest (g # gs) n j = (Inr m', j')" by (simp add: g l(1) h(1))
  moreover have "set (concat (map snd (g # gs))) = set legs \<union> set (concat (map snd gs))" by (simp add: g)
  ultimately show ?case using h(2) l(2) by (metis (no_types, lifting) Un_iff)
qed simp

text \<open>When every leg is in the table already, nothing is inserted.\<close>

lemma ingest_legs_known:
  "\<forall>t \<in> set ts. st_exists st (leg_order_id digest t) (leg_side t) j \<Longrightarrow> ingest_legs st digest symb ts q n j = (Inr n, j)"
  by (induction ts arbitrary: q) auto

lemma ingest_groups_known:
  "\<forall>t \<in> set (concat (map snd gs)). st_exists st (leg_order_id digest t) (leg_side t) j
     \<Longrightarrow> ingest_groups st digest gs n j = (Inr n, j)"
  by (induction gs) (auto simp: ingest_legs_known)

lemma ingest_twice:
  assumes "\<forall>t \<in> set fills. leg_order_id digest t \<noteq> 0"
  shows "ingest_trades st digest fills (snd (ingest_trades st digest fills j)) = (0, snd (ingest_trades st digest fills j))"
proof -
  obtain m j' where 1: "ingest_groups st digest (group_by_symbol fills) 0 j = (Inr m, j')"
    "\<And>i side. st_exists st i side j' \<longleftrightarrow> st_exists st i side j \<or>
        (i \<noteq> 0 \<and> (\<exists>t \<in> set (concat (map snd (group_by_symbol fills))). leg_order_id digest t = i \<and> leg_side t = side))"
    using ingest_groups_exist[of digest "group_by_symbol fills" 0 j] by blast
  then have "\<forall>t \<in> set (concat (map snd (group_by_symbol fills))). st_exists st (leg_order_id digest t) (leg_side t) j'"
    using assms group_by_symbol_subset[of fills] by blast
  from ingest_groups_known[OF this] 1(1) show ?thesis by (simp add: ingest_trades_def)
qed

end

interpretation journal: trade_table journal_table
  by unfold_locales (auto simp: journal_table_def exists_for_order_def)

section \<open>Properties\<close>

definition rows_for :: "int \<Rightarrow> string \<Rightarrow> trade_row list \<Rightarrow> trade_row list" where
  "rows_for i side rows = filter (\<lambda>t. tm_order_id t = i \<and> tm_side t = side) rows"

lemma rows_for_exists: "i \<noteq> 0 \<Longrightarrow> exists_for_order i side rows \<longleftrightarrow> rows_for i side rows \<noteq> []"
  by (auto simp: exists_for_order_def rows_for_def filter_empty_conv)

lemma ingest_legs_rows:
  "ingest_legs journal_table digest symb ts q n rows = (Inr m, rows') \<Longrightarrow> i \<noteq> 0 \<Longrightarrow>
     length (rows_for i side rows') \<le> max 1 (length (rows_for i side rows))"
proof (induction ts arbitrary: q n rows)
  case (Cons t ts)
  show ?case
  proof (cases "exists_for_order (leg_order_id digest t) (leg_side t) rows")
    case True
    then show ?thesis using Cons by (simp add: journal_table_def)
  next
    case False
    let ?rows = "rows @ [leg_row digest symb t q]"
    have "length (rows_for i side ?rows) \<le> max 1 (length (rows_for i side rows))"
      using False rows_for_exists[OF Cons.prems(2), of side rows]
      by (cases "leg_order_id digest t = i \<and> leg_side t = side") (auto simp: rows_for_def leg_row_def)
    moreover have "length (rows_for i side rows') \<le> max 1 (length (rows_for i side ?rows))"
      using Cons.prems False by (intro Cons.IH[of "advance_entries (leg_side t) (trd_price t) q" "Suc n"]) (simp_all add: journal_table_def)
    ultimately show ?thesis by linarith
  qed
qed simp

lemma ingest_groups_rows:
  "ingest_groups journal_table digest gs n rows = (Inr m, rows') \<Longrightarrow> i \<noteq> 0 \<Longrightarrow>
     length (rows_for i side rows') \<le> max 1 (length (rows_for i side rows))"
proof (induction gs arbitrary: n rows)
  case (Cons g gs)
  obtain symb legs where g: "g = (symb, legs)" by fastforce
  from Cons.prems(1) obtain k rows1 where
    1: "ingest_legs journal_table digest symb (sort_key trd_timestamp legs) ([], []) n rows = (Inr k, rows1)"
    and 2: "ingest_groups journal_table digest gs k rows1 = (Inr m, rows')" by (auto simp: g bindS_Inr_iff)
  show ?case using ingest_legs_rows[OF 1 Cons.prems(2), of side] Cons.IH[OF 2 Cons.prems(2)] by linarith
qed simp

text \<open>
  \<^bold>\<open>C34\<close>. Ingesting the same fills again changes nothing: when every fill has an order identifier, a
  second run inserts no row and leaves the journal as the first left it, whatever was in it before.
\<close>

theorem ingest_idempotent:
  assumes "\<forall>t \<in> set fills. leg_order_id digest t \<noteq> 0"
  shows "ingest_trades journal_table digest fills (snd (ingest_trades journal_table digest fills rows))
    = (0, snd (ingest_trades journal_table digest fills rows))"
  using journal.ingest_twice[OF assms] .

definition example_fill :: "string \<Rightarrow> string \<Rightarrow> rat \<Rightarrow> rat \<Rightarrow> rat \<Rightarrow> int \<Rightarrow> trade" where
  "example_fill oid side q p pnl ts = \<lparr>trd_id = None, trd_position_id = None, trd_order_id = Some (StrId oid),
     trd_symbol = ''BTCUSDT'', trd_side = side, trd_quantity = q, trd_price = p, trd_fee = 0, trd_pnl = Some pnl, trd_timestamp = ts\<rparr>"

theorem ingest_idempotent_witness:
  "ingest_trades journal_table (\<lambda>s. 77) [example_fill ''12'' ''BUY'' 2 100 0 1]
     (snd (ingest_trades journal_table (\<lambda>s. 77) [example_fill ''12'' ''BUY'' 2 100 0 1] []))
   = (0, snd (ingest_trades journal_table (\<lambda>s. 77) [example_fill ''12'' ''BUY'' 2 100 0 1] []))"
proof (rule ingest_idempotent)
  show "\<forall>t \<in> set [example_fill ''12'' ''BUY'' 2 100 0 1]. leg_order_id (\<lambda>s. 77) t \<noteq> 0" by code_simp
qed

text \<open>
  The journal keeps one row for each order and side: however many partial fills of an order the
  exchange lists, ingestion leaves at most one row for it, so the quantities and the PnL of all its fills
  but the first are dropped.
\<close>

lemma ingest_one_row_per_order:
  assumes "ingest_trades journal_table digest fills rows = (n, rows')" and "i \<noteq> 0"
  shows "length (rows_for i side rows') \<le> max 1 (length (rows_for i side rows))"
proof -
  obtain m rows'' where g: "ingest_groups journal_table digest (group_by_symbol fills) 0 rows = (Inr m, rows'')"
    using journal.ingest_groups_exist[of digest "group_by_symbol fills" 0 rows] by blast
  then have "rows' = rows''" using assms(1) by (simp add: ingest_trades_def)
  with ingest_groups_rows[OF g assms(2)] show ?thesis by simp
qed

text \<open>
  The exchange's realized PnL of a second partial close is replaced by \<open>0\<close>: the pairing takes it for the
  opening of a short, because it counts legs and not quantities.
\<close>

lemma second_close_loses_pnl:
  "map tm_pnl (snd (ingest_trades journal_table (\<lambda>s. 77)
     [example_fill ''1'' ''BUY'' 2 100 0 1, example_fill ''2'' ''SELL'' 1 110 10 2, example_fill ''3'' ''SELL'' 1 120 20 3] []))
   = [0, 10, 0]"
  by code_simp

text \<open>
  The row of a fill the engine executed itself: an exit with a recorded entry carries the rounded
  price difference in the position's favour times the quantity, less the fee; every other action, and an
  exit without a readable entry price, carries no PnL; and an exchange's text order id is not kept.
\<close>

lemma persisted_row:
  assumes "fill_price res = Inr price" and "persist_trade journal_table now a res fee (Some rows) = Some rows'"
  shows "\<exists>t. rows' = rows @ [t] \<and> tm_price t = price \<and> tm_fee t = fee \<and> tm_timestamp t = now
    \<and> (\<forall>s. res_order_id res = StrId s \<longrightarrow> tm_order_id t = 0)
    \<and> (act_type a \<noteq> EXIT \<longrightarrow> tm_pnl t = 0)
    \<and> (\<forall>x s. act_type a = EXIT \<and> py_get (act_metadata a) ''entry_price'' = PDec x \<and> x \<noteq> 0
          \<and> py_get (act_metadata a) ''position_side'' = PStr s \<and> s \<noteq> [] \<longrightarrow>
        tm_pnl t = dround (dround ((if upper (strip s) \<in> {''BUY'', ''LONG''} then 1 else - 1) * dround (price - x) * act_quantity a) - fee))"
proof -
  have "rows' = rows @ [trade_row_of now a res price fee]" using assms by (simp add: persist_trade_def journal_table_def)
  then show ?thesis
    by (intro exI[of _ "trade_row_of now a res price fee"])
      (auto simp: trade_row_of_def local_order_id_def realized_pnl_def Let_def)
qed

end
