(* ===== verification/Engine.thy ===== *)
theory Engine
  imports RiskManager Twap Reconciler Bybit Journal
begin

text \<open>
  \<^verbatim>\<open>src/quad/execution/engine.py\<close>: from an action to the exchange and back to the journal, composing the
  risk manager, the gateway on the Bybit adapter, the TWAP slicer, the reconciler and the journal. The
  REST layer, the clock, the random identifiers, the jitter draws and the order-id hash are the record
  \<open>engine_env\<close>. The background loop and its task are left out; \<open>reconcile_cycle\<close> is its body.
\<close>

section \<open>State\<close>

record engine_config =
  ec_dry_run :: pyval
  ec_sl :: "(string, pyval) dict"
  ec_tp :: "(string, pyval) dict"
  ec_risk :: "(string, pyval) dict"
  ec_execution :: "(string, pyval) dict"

record engine_stats =
  es_submitted :: int
  es_filled :: int
  es_rejected :: int
  es_active :: int
  es_twap :: int
  es_reconciliations :: int

record 'w engine =
  en_cfg :: engine_config
  en_gateway :: gateway
  en_exchange :: "adapter \<times> 'w"
  en_risk :: risk_manager
  en_reconciler :: reconciler
  en_twap :: twap_config
  en_db :: "trade_row list option"
  en_stats :: engine_stats

record 'w engine_env =
  ee_rest :: "'w rest"
  ee_uuid :: "nat \<Rightarrow> string"
  ee_now :: int
  ee_elapsed :: "'w \<Rightarrow> rat"
  ee_jitter :: "nat \<Rightarrow> rat"
  ee_digest :: "string \<Rightarrow> int"

definition init_stats :: engine_stats where
  "init_stats = \<lparr>es_submitted = 0, es_filled = 0, es_rejected = 0, es_active = 0, es_twap = 0, es_reconciliations = 0\<rparr>"

text \<open>Running a submission, or any gateway operation, inside the engine.\<close>

definition with_gateway :: "(gateway \<times> (adapter \<times> 'w) \<Rightarrow> 'a \<times> (gateway \<times> (adapter \<times> 'w))) \<Rightarrow> 'w engine \<Rightarrow> 'a \<times> 'w engine" where
  "with_gateway f en = (let (a, (g, x)) = f (en_gateway en, en_exchange en) in (a, en\<lparr>en_gateway := g, en_exchange := x\<rparr>))"

definition engine_submit :: "'w engine_env \<Rightarrow> nat \<Rightarrow> order_request \<Rightarrow> 'w engine \<Rightarrow> order_result res \<times> 'w engine" where
  "engine_submit ev i req = with_gateway (submit (bybit_ops (ee_rest ev)) (ee_uuid ev i) (ee_now ev) req)"

definition count_rejected :: "'w engine \<Rightarrow> 'w engine" where
  "count_rejected en = en\<lparr>en_stats := (en_stats en)\<lparr>es_rejected := es_rejected (en_stats en) + 1\<rparr>\<rparr>"

definition count_active :: "'w engine \<Rightarrow> 'w engine" where
  "count_active en = en\<lparr>en_stats := (en_stats en)\<lparr>es_active := int (get_active_order_count (en_gateway en))\<rparr>\<rparr>"

section \<open>Requests\<close>

definition is_dry_run :: "engine_config \<Rightarrow> bool" where
  "is_dry_run cfg = (case ec_dry_run cfg of
     PStr s \<Rightarrow> lower s \<in> {''1'', ''true'', ''yes''} | v \<Rightarrow> truthy v)"

definition rejected_result :: "action_data \<Rightarrow> order_result" where
  "rejected_result a =
     \<lparr>res_order_id = IntId 0, res_client_order_id = [],
      res_symbol = (if act_contract a \<noteq> [] then act_contract a else act_symbol a), res_side = act_side a,
      res_order_type = (if act_order_type a \<noteq> [] then act_order_type a else ''MARKET''),
      res_quantity = act_quantity a, res_filled_qty = 0, res_price = act_price a, res_status = ''REJECTED'', res_fills = []\<rparr>"

definition is_entry_type :: "action_type \<Rightarrow> bool" where
  "is_entry_type t = (t \<in> {Open_long, Open_short, ENTER})"

definition exec_text :: "engine_config \<Rightarrow> string \<Rightarrow> string \<Rightarrow> string" where
  "exec_text cfg k z = text_field (ec_execution cfg) k z"

text \<open>The four parts of \<^verbatim>\<open>_build_request\<close>: the fields, the conditional types, the time in force, the brackets.\<close>

definition request_fields :: "engine_config \<Rightarrow> action_data \<Rightarrow> order_request" where
  "request_fields cfg a = default_order_request
     \<lparr>req_symbol := act_contract a, req_side := act_side a,
      req_order_type := (let t = (if act_order_type a \<noteq> [] then act_order_type a else exec_text cfg ''default_order_type'' ''MARKET'')
        in if t \<in> {''STOP_MARKET'', ''TAKE_PROFIT_MARKET''} then t else ''MARKET''),
      req_quantity := act_quantity a, req_price := act_price a,
      req_reduce_only := truthy (py_get (act_metadata a) ''serial_close'') \<or> truthy (py_get (ec_execution cfg) ''reduce_only''),
      req_post_only := truthy (py_get (ec_execution cfg) ''post_only'')\<rparr>"

definition conditional_fields :: "action_data \<Rightarrow> order_request \<Rightarrow> order_request" where
  "conditional_fields a r =
     (if act_type a = Set_stop_loss then
        r\<lparr>req_order_type := ''STOP_MARKET'', req_stop_price := act_stop_loss_price a, req_reduce_only := True,
          req_working_type := ''MARK_PRICE'', req_price_protect := True\<rparr>
      else if act_type a = Set_take_profit then
        r\<lparr>req_order_type := ''TAKE_PROFIT_MARKET'', req_stop_price := act_take_profit_price a, req_reduce_only := True,
          req_working_type := ''MARK_PRICE'', req_price_protect := True\<rparr>
      else r)"

definition build_request :: "engine_config \<Rightarrow> action_data \<Rightarrow> order_request" where
  "build_request cfg a =
     (let r1 = conditional_fields a (request_fields cfg a);
          r2 = (if req_order_type r1 \<in> {''MARKET'', ''STOP_MARKET'', ''TAKE_PROFIT_MARKET''} then r1\<lparr>req_time_in_force := []\<rparr> else r1)
      in if is_entry_type (act_type a)
         then r2\<lparr>req_take_profit_price := act_take_profit_price a, req_stop_loss_price := act_stop_loss_price a\<rparr>
         else r2)"

definition naked_entry :: "engine_config \<Rightarrow> action_data \<Rightarrow> order_request \<Rightarrow> bool" where
  "naked_entry cfg a r =
     (is_entry_type (act_type a)
      \<and> (truthy (get_or (ec_sl cfg) ''enabled'' (PBool True)) \<and> req_stop_loss_price r = None
         \<or> truthy (get_or (ec_tp cfg) ''enabled'' (PBool True)) \<and> req_take_profit_price r = None))"

definition failed_result :: "order_request \<Rightarrow> order_result" where
  "failed_result r =
     \<lparr>res_order_id = IntId 0, res_client_order_id = req_client_order_id r, res_symbol = req_symbol r,
      res_side = req_side r, res_order_type = req_order_type r, res_quantity = req_quantity r, res_filled_qty = 0,
      res_price = req_price r, res_status = ''REJECTED'', res_fills = []\<rparr>"

section \<open>Quantities\<close>

definition floor_to_compliant :: "rat \<Rightarrow> rat \<Rightarrow> rat \<Rightarrow> rat \<Rightarrow> rat option \<Rightarrow> rat" where
  "floor_to_compliant qty min_qty min_notional step mark =
     (let target = max qty min_qty
      in case mark of
           None \<Rightarrow> target
         | Some m \<Rightarrow>
            if 0 < min_notional \<and> 0 < m then
              (let needed = dround (min_notional / m)
               in if target < needed then
                    (if 0 < step then dround (of_int \<lceil>dround (needed / step)\<rceil> * step) else needed)
                  else target)
            else target)"

definition mark_or_none :: "rat res \<Rightarrow> rat option" where
  "mark_or_none r = (case r of Inl e \<Rightarrow> None | Inr p \<Rightarrow> Some p)"

definition notional_within_cap :: "'w rest \<Rightarrow> engine_config \<Rightarrow> rat \<Rightarrow> string \<Rightarrow> 'w \<Rightarrow> bool \<times> 'w" where
  "notional_within_cap r cfg qty symb w =
     (if qty \<le> 0 then (False, w)
      else if py_get (ec_risk cfg) ''max_position_size_usd'' = PNone then (True, w)
      else (case to_decimal (py_get (ec_risk cfg) ''max_position_size_usd'') of
          Inl e \<Rightarrow> (True, w)
        | Inr max_usd \<Rightarrow>
            if max_usd \<le> 0 then (True, w)
            else (let (p, w1) = get_mark_price r symb w
                  in case mark_or_none p of
                       None \<Rightarrow> (True, w1)
                     | Some price \<Rightarrow> (if price \<le> 0 then True else dround (qty * price) \<le> max_usd, w1))))"

definition pre_cap_of :: "action_data \<Rightarrow> rat option \<Rightarrow> rat option" where
  "pre_cap_of a pre_cap =
     (if pre_cap = None \<or> (\<exists>c \<in> set_option pre_cap. c \<le> 0) then
        (case py_get (act_metadata a) ''pre_size_quantity'' of
           PNone \<Rightarrow> pre_cap
         | v \<Rightarrow> (case to_decimal v of Inl e \<Rightarrow> None | Inr c \<Rightarrow> Some c))
      else pre_cap)"

definition lot_filter :: "(string, rat) dict res \<Rightarrow> string \<Rightarrow> rat" where
  "lot_filter f k = (case f of Inl e \<Rightarrow> 0 | Inr d \<Rightarrow> dict_get_or 0 d k)"

text \<open>Raising a quantity the exchange's filters refuse, up to the cap; \<open>e\<close> is the refusal.\<close>

definition raise_quantity :: "'w rest \<Rightarrow> engine_config \<Rightarrow> string \<Rightarrow> rat \<Rightarrow> rat option \<Rightarrow> exc \<Rightarrow> adapter \<times> 'w \<Rightarrow> rat res \<times> (adapter \<times> 'w)" where
  "raise_quantity r cfg symb qty cap e s =
     (case cap of
        None \<Rightarrow> (Inl e, s)
      | Some c \<Rightarrow>
         if c \<le> 0 then (Inl e, s)
         else (let (f, s1) = symbol_filters r symb s;
                   (m, w2) = get_mark_price r symb (snd s1);
                   target = floor_to_compliant qty (lot_filter f ''min_qty'') (lot_filter f ''min_notional'')
                              (lot_filter f ''step_size'') (mark_or_none m)
               in if target \<le> c then
                    (let (ok, w3) = notional_within_cap r cfg target symb w2
                     in (if ok then Inr target else Inl RuntimeError, (fst s1, w3)))
                  else (Inl e, (fst s1, w2))))"

definition prepare_quantity :: "'w rest \<Rightarrow> engine_config \<Rightarrow> action_data \<Rightarrow> rat option \<Rightarrow> adapter \<times> 'w \<Rightarrow> rat res \<times> (adapter \<times> 'w)" where
  "prepare_quantity r cfg a pre_cap s =
     (if act_quantity a \<le> 0 then (Inl RuntimeError, s)
      else (let symb = (if act_contract a \<noteq> [] then act_contract a else act_symbol a)
            in case normalize_quantity r symb (act_quantity a) s of
                 (Inr q, s1) \<Rightarrow> (Inr q, s1)
               | (Inl e, s1) \<Rightarrow> raise_quantity r cfg symb (act_quantity a) (pre_cap_of a pre_cap) e s1))"

definition bracket_qty :: "rat \<Rightarrow> rat \<Rightarrow> rat" where
  "bracket_qty filled requested =
     (let cap = (if 0 < requested then min filled requested else filled) in if 0 < cap then cap else 0)"

section \<open>execute\<close>

definition approve :: "'w engine \<Rightarrow> action \<Rightarrow> strategy_context \<Rightarrow> risk_result res" where
  "approve en a ctx =
     (case risk_result_of a of
        Some rr \<Rightarrow> Inr rr
      | None \<Rightarrow> if act_risk_checked (data a) then Inr (RiskResult True [] []) else risk_evaluate (en_risk en) a ctx)"

definition sized_action :: "risk_result \<Rightarrow> action \<Rightarrow> action" where
  "sized_action rr a = (case map_of (details rr) ''action'' of Some (DAction a') \<Rightarrow> if passed rr then a' else a | _ \<Rightarrow> a)"

text \<open>The steps up to the submission, the same in \<^verbatim>\<open>execute\<close> and \<^verbatim>\<open>execute_twap\<close>.\<close>

datatype prepared = Raised exc | Refused order_result | Ready action_data order_request

definition prepare_order :: "'w engine_env \<Rightarrow> action \<Rightarrow> strategy_context \<Rightarrow> 'w engine \<Rightarrow> prepared \<times> 'w engine" where
  "prepare_order ev a ctx en =
     (if is_dry_run (en_cfg en) \<and> \<not> ad_testnet (fst (en_exchange en))
      then (Refused (rejected_result (data a)), count_rejected en)
      else (case approve en a ctx of
        Inl e \<Rightarrow> (Raised e, en)
      | Inr rr \<Rightarrow>
         (let d = data (sized_action rr a)
          in if \<not> passed rr then (Refused (rejected_result d), count_rejected en)
             else (case prepare_quantity (ee_rest ev) (en_cfg en) d (Some (act_quantity (data a))) (en_exchange en) of
               (Inl e, x1) \<Rightarrow> (Refused (rejected_result d), count_rejected (en\<lparr>en_exchange := x1\<rparr>))
             | (Inr q, x1) \<Rightarrow>
                 (let d1 = post_init (d\<lparr>act_quantity := q\<rparr>); req = build_request (en_cfg en) d1;
                      en1 = en\<lparr>en_exchange := x1\<rparr>
                  in if naked_entry (en_cfg en) d1 req then (Refused (rejected_result d1), count_rejected en1)
                     else (Ready d1 req, en1))))))"

definition brackets_due :: "action_data \<Rightarrow> order_request \<Rightarrow> bool" where
  "brackets_due d req =
     (is_entry_type (act_type d) \<and> (act_stop_loss_price d \<noteq> None \<or> act_take_profit_price d \<noteq> None)
      \<and> req_take_profit_price req = None \<and> req_stop_loss_price req = None)"

definition bracket_action :: "action_data \<Rightarrow> action_type \<Rightarrow> rat \<Rightarrow> action_data" where
  "bracket_action d t qty = post_init (default_action
     \<lparr>act_type := t, act_strategy := act_strategy d,
      act_symbol := (if act_contract d \<noteq> [] then act_contract d else act_symbol d),
      act_side := (if upper (act_side d) \<in> {''BUY'', ''LONG''} then ''SELL'' else ''BUY''), act_quantity := qty,
      act_stop_loss_price := (if t = Set_stop_loss then act_stop_loss_price d else None),
      act_take_profit_price := (if t = Set_take_profit then act_take_profit_price d else None),
      act_risk_checked := True\<rparr>)"

definition submit_bracket :: "'w engine_env \<Rightarrow> nat \<Rightarrow> rat option \<Rightarrow> action_data \<Rightarrow> 'w engine \<Rightarrow> unit res \<times> 'w engine" where
  "submit_bracket ev i price b en =
     (if price = None then (Inr (), en)
      else (case engine_submit ev i (build_request (en_cfg en) b) en of
        (Inl e, en1) \<Rightarrow> (if e \<in> {OrderRejectedError, OrderTimeoutError} then Inr () else Inl e, en1)
      | (Inr res, en1) \<Rightarrow> (Inr (), en1)))"

definition finish_order :: "'w engine_env \<Rightarrow> action_data \<Rightarrow> order_result \<Rightarrow> 'w engine \<Rightarrow> order_result res \<times> 'w engine" where
  "finish_order ev d res en =
     (let st = en_stats en; filled = (res_status res = ''FILLED'')
      in (Inr res, count_active (en\<lparr>
            en_stats := st\<lparr>es_submitted := es_submitted st + 1, es_filled := es_filled st + (if filled then 1 else 0)\<rparr>,
            en_db := (if filled then persist_trade journal_table (ee_now ev) d res (fill_fee res d) (en_db en) else en_db en)\<rparr>)))"

definition submit_brackets :: "'w engine_env \<Rightarrow> action_data \<Rightarrow> rat \<Rightarrow> order_result \<Rightarrow> 'w engine \<Rightarrow> order_result res \<times> 'w engine" where
  "submit_brackets ev d original_qty res en =
     (let qty = bracket_qty (res_filled_qty res) original_qty;
          (ok, w1) = notional_within_cap (ee_rest ev) (en_cfg en) qty
              (if act_contract d \<noteq> [] then act_contract d else act_symbol d) (snd (en_exchange en));
          en1 = en\<lparr>en_exchange := (fst (en_exchange en), w1)\<rparr>
      in if \<not> ok then (Inr (res\<lparr>res_filled_qty := 0, res_status := ''FILLED''\<rparr>), count_active en1)
         else bindS (submit_bracket ev 1 (act_stop_loss_price d) (bracket_action d Set_stop_loss qty) en1) (\<lambda>_ en2.
              bindS (submit_bracket ev 2 (act_take_profit_price d) (bracket_action d Set_take_profit qty) en2) (\<lambda>_ en3.
              finish_order ev d res en3)))"

definition execute :: "'w engine_env \<Rightarrow> action \<Rightarrow> strategy_context \<Rightarrow> 'w engine \<Rightarrow> order_result res \<times> 'w engine" where
  "execute ev a ctx en =
     (case prepare_order ev a ctx en of
        (Raised e, en1) \<Rightarrow> (Inl e, en1)
      | (Refused res, en1) \<Rightarrow> (Inr res, en1)
      | (Ready d req, en1) \<Rightarrow>
         (case engine_submit ev 0 req en1 of
            (Inl e, en2) \<Rightarrow>
              if e \<in> {OrderRejectedError, OrderTimeoutError} then (Inr (failed_result req), count_rejected en2)
              else (Inl e, en2)
          | (Inr res, en2) \<Rightarrow>
              if brackets_due d req then submit_brackets ev d (act_quantity (data a)) res en2
              else finish_order ev d res en2))"

section \<open>execute_twap\<close>

text \<open>The slicer runs on the gateway and the journal; a fill is written with the whole action.\<close>

type_synonym 'w twap_state = "(gateway \<times> (adapter \<times> 'w)) \<times> trade_row list option"

definition engine_twap_env :: "'w engine_env \<Rightarrow> action_data \<Rightarrow> 'w twap_state twap_env" where
  "engine_twap_env ev d =
     \<lparr>te_send = (\<lambda>req s. let (out, gx) = submit (bybit_ops (ee_rest ev)) (ee_uuid ev 0) (ee_now ev) req (fst s) in (out, (gx, snd s))),
      te_filters = (\<lambda>symb s. let (f, gx) = gateway_symbol_filters (bybit_ops (ee_rest ev)) symb (fst s) in (f, (gx, snd s))),
      te_on_fill = (\<lambda>res s. (fst s, persist_trade journal_table (ee_now ev) d res (fill_fee res d) (snd s))),
      te_sleep = (\<lambda>t s. ((fst (fst s), (fst (snd (fst s)), r_elapse (ee_rest ev) t (snd (snd (fst s))))), snd s)),
      te_elapsed = (\<lambda>s. ee_elapsed ev (snd (snd (fst s)))), te_jitter = ee_jitter ev\<rparr>"

definition set_twap_state :: "'w twap_state \<Rightarrow> 'w engine \<Rightarrow> 'w engine" where
  "set_twap_state s en = en\<lparr>en_gateway := fst (fst s), en_exchange := snd (fst s), en_db := snd s\<rparr>"

text \<open>The caller's window is not handed to the slicer, which takes its own default.\<close>

definition execute_twap :: "'w engine_env \<Rightarrow> action \<Rightarrow> strategy_context \<Rightarrow> int option \<Rightarrow> 'w engine \<Rightarrow> order_result list res \<times> 'w engine" where
  "execute_twap ev a ctx window en =
     (case prepare_order ev a ctx en of
        (Raised e, en1) \<Rightarrow> (Inl e, en1)
      | (Refused res, en1) \<Rightarrow> (Inr [res], en1)
      | (Ready d req, en1) \<Rightarrow>
         (case twap_execute (engine_twap_env ev d) (en_twap en1) req None ((en_gateway en1, en_exchange en1), en_db en1) of
            (Inl e, s) \<Rightarrow> (Inr [failed_result req], set_twap_state s en1)
          | (Inr results, s) \<Rightarrow>
             (let en2 = set_twap_state s en1; st = en_stats en2
              in (Inr results, count_active (en2\<lparr>en_stats := st
                   \<lparr>es_twap := es_twap st + 1, es_submitted := es_submitted st + int (length results),
                    es_filled := es_filled st + int (length (filter (\<lambda>r. res_status r = ''FILLED'') results))\<rparr>\<rparr>)))))"

section \<open>Cancelling, reconciling, ingesting\<close>

definition cancel_order :: "'w engine_env \<Rightarrow> string \<Rightarrow> 'w engine \<Rightarrow> bool \<times> 'w engine" where
  "cancel_order ev cid en =
     (let (ok, en1) = with_gateway (cancel (bybit_ops (ee_rest ev)) cid) en in (ok, count_active en1))"

definition engine_ingest :: "'w engine_env \<Rightarrow> 'w engine \<Rightarrow> nat \<times> 'w engine" where
  "engine_ingest ev en =
     (case en_db en of
        None \<Rightarrow> (0, en)
      | Some rows \<Rightarrow>
         (case get_user_trades (ee_rest ev) (snd (en_exchange en)) of
            (Inl e, w1) \<Rightarrow> (0, en\<lparr>en_exchange := (fst (en_exchange en), w1)\<rparr>)
          | (Inr fills, w1) \<Rightarrow>
             (let (n, rows') = (if fills = [] then (0, rows) else ingest_trades journal_table (ee_digest ev) fills rows)
              in (n, en\<lparr>en_exchange := (fst (en_exchange en), w1), en_db := Some rows'\<rparr>))))"

record reconcile_summary =
  sum_checked :: nat
  sum_discrepancies :: "order_discrepancy list"
  sum_ingested :: nat

definition refresh_engine :: "'w engine_env \<Rightarrow> 'w engine \<Rightarrow> 'w engine" where
  "refresh_engine ev en = snd (with_gateway (\<lambda>s. ((), refresh_state (bybit_ops (ee_rest ev)) (ee_now ev) s)) en)"

definition compare_active :: "'w engine_env \<Rightarrow> order list \<Rightarrow> 'w engine \<Rightarrow> order_discrepancy list res \<times> 'w engine" where
  "compare_active ev os en =
     (let (r, (rc, x)) = reconcile_pending_orders (bybit_ops (ee_rest ev)) (ee_now ev) os (en_reconciler en, en_exchange en)
      in (r, en\<lparr>en_reconciler := rc, en_exchange := x\<rparr>))"

definition count_reconciliation :: "'w engine \<Rightarrow> 'w engine" where
  "count_reconciliation en = en\<lparr>en_stats := (en_stats en)\<lparr>es_reconciliations := es_reconciliations (en_stats en) + 1\<rparr>\<rparr>"

definition engine_reconcile :: "'w engine_env \<Rightarrow> 'w engine \<Rightarrow> reconcile_summary res \<times> 'w engine" where
  "engine_reconcile ev en =
     (let en1 = refresh_engine ev en; os = get_active_orders (en_gateway en1)
      in bindS (compare_active ev os en1) (\<lambda>ds en2.
           (let (n, en3) = engine_ingest ev (count_reconciliation en2)
            in (Inr \<lparr>sum_checked = length os, sum_discrepancies = ds, sum_ingested = n\<rparr>, en3))))"

text \<open>One turn of the background loop, which logs an exception and goes on.\<close>

definition reconcile_cycle :: "'w engine_env \<Rightarrow> 'w engine \<Rightarrow> 'w engine" where
  "reconcile_cycle ev en =
     (let en1 = refresh_engine ev en; os = get_active_orders (en_gateway en1);
          (r, en2) = (if os = [] then (Inr [], en1) else compare_active ev os en1)
      in case r of
           Inl e \<Rightarrow> en2
         | Inr ds \<Rightarrow> snd (engine_ingest ev ((count_reconciliation en2)
             \<lparr>en_stats := (en_stats (count_reconciliation en2))\<lparr>es_active := int (length os)\<rparr>\<rparr>)))"

section \<open>Lemmas\<close>

text \<open>An entry's brackets ride on the entry itself, so the separate bracket orders are never due.\<close>

lemma brackets_never_due: "\<not> brackets_due d (build_request cfg d)"
  by (auto simp: brackets_due_def build_request_def Let_def)

lemma build_request_fields:
  "req_symbol (build_request cfg d) = act_contract d" "req_side (build_request cfg d) = act_side d"
  "req_quantity (build_request cfg d) = act_quantity d" "req_client_order_id (build_request cfg d) = []"
  "truthy (py_get (act_metadata d) ''serial_close'') \<Longrightarrow> req_reduce_only (build_request cfg d)"
  by (auto simp: build_request_def conditional_fields_def request_fields_def default_order_request_def Let_def)

lemma build_request_market:
  "act_type d \<notin> {Set_stop_loss, Set_take_profit} \<Longrightarrow> act_order_type d \<notin> {''STOP_MARKET'', ''TAKE_PROFIT_MARKET''} \<Longrightarrow>
     exec_text cfg ''default_order_type'' ''MARKET'' \<notin> {''STOP_MARKET'', ''TAKE_PROFIT_MARKET''} \<Longrightarrow>
     req_order_type (build_request cfg d) = ''MARKET''"
  by (auto simp: build_request_def conditional_fields_def request_fields_def Let_def)

lemma not_naked:
  assumes "\<not> naked_entry cfg d (build_request cfg d)" "is_entry_type (act_type d)"
  shows "(truthy (get_or (ec_sl cfg) ''enabled'' (PBool True)) \<longrightarrow> act_stop_loss_price d \<noteq> None)
    \<and> (truthy (get_or (ec_tp cfg) ''enabled'' (PBool True)) \<longrightarrow> act_take_profit_price d \<noteq> None)"
  using assms by (auto simp: naked_entry_def build_request_def Let_def)

lemma post_init_with_quantity [simp]: "act_quantity (post_init (d\<lparr>act_quantity := q\<rparr>)) = q"
  by simp

text \<open>What a prepared order has been through.\<close>

lemma prepare_order_ready:
  assumes "prepare_order ev a ctx en = (Ready d req, en1)"
  shows "\<not> (is_dry_run (en_cfg en) \<and> \<not> ad_testnet (fst (en_exchange en))) \<and> req = build_request (en_cfg en) d
    \<and> \<not> naked_entry (en_cfg en) d req
    \<and> (\<exists>rr q x1. approve en a ctx = Inr rr \<and> passed rr
        \<and> prepare_quantity (ee_rest ev) (en_cfg en) (data (sized_action rr a)) (Some (act_quantity (data a))) (en_exchange en) = (Inr q, x1)
        \<and> d = post_init ((data (sized_action rr a))\<lparr>act_quantity := q\<rparr>) \<and> en1 = en\<lparr>en_exchange := x1\<rparr>)"
  using assms by (auto simp: prepare_order_def Let_def split: if_splits sum.splits prod.splits)

lemma prepare_order_keeps:
  "snd (prepare_order ev a ctx en) = en\<lparr>en_exchange := en_exchange (snd (prepare_order ev a ctx en)),
     en_stats := en_stats (snd (prepare_order ev a ctx en))\<rparr>
   \<and> en_stats (snd (prepare_order ev a ctx en)) \<in> {en_stats en, en_stats (count_rejected en)}"
  by (auto simp: prepare_order_def count_rejected_def Let_def split: if_splits sum.splits prod.splits)

text \<open>With the brackets on the entry, an execution is a submission and its bookkeeping.\<close>

lemma execute_cases:
  assumes "prepare_order ev a ctx en = (Ready d req, en1)"
  shows "execute ev a ctx en =
    (case engine_submit ev 0 req en1 of
       (Inl e, en2) \<Rightarrow>
         if e \<in> {OrderRejectedError, OrderTimeoutError} then (Inr (failed_result req), count_rejected en2) else (Inl e, en2)
     | (Inr res, en2) \<Rightarrow> finish_order ev d res en2)"
  using prepare_order_ready[OF assms] brackets_never_due[of d "en_cfg en"]
  by (auto simp: execute_def assms split: sum.splits prod.splits)

lemma count_keeps [simp]:
  "en_gateway (count_rejected en) = en_gateway en" "en_gateway (count_active en) = en_gateway en"
  "en_gateway (count_reconciliation en) = en_gateway en"
  by (simp_all add: count_rejected_def count_active_def count_reconciliation_def)

lemma finish_order_gateway [simp]: "en_gateway (snd (finish_order ev d res en)) = en_gateway en"
  by (simp add: finish_order_def Let_def)

lemma engine_submit_wire:
  assumes "1 \<le> gc_max_retries (gw_cfg (en_gateway en))"
  shows "\<exists>k. 1 \<le> k \<and> k \<le> nat (gc_max_retries (gw_cfg (en_gateway en)))
    \<and> gw_wire (en_gateway (snd (engine_submit ev i req en))) = gw_wire (en_gateway en)
        @ replicate k (wire_request (submitted_id (ee_uuid ev i) req) req)"
proof -
  obtain out g x where s: "submit (bybit_ops (ee_rest ev)) (ee_uuid ev i) (ee_now ev) req (en_gateway en, en_exchange en) = (out, (g, x))"
    by (metis prod_cases3)
  from submit_cases[OF s assms] show ?thesis by (auto simp: engine_submit_def with_gateway_def s)
qed

lemma execute_wire_cases:
  assumes "1 \<le> gc_max_retries (gw_cfg (en_gateway en))"
  shows "gw_wire (en_gateway (snd (execute ev a ctx en))) = gw_wire (en_gateway en) \<or>
    (\<exists>d req en1 k. prepare_order ev a ctx en = (Ready d req, en1) \<and> 1 \<le> k \<and> k \<le> nat (gc_max_retries (gw_cfg (en_gateway en)))
      \<and> gw_wire (en_gateway (snd (execute ev a ctx en))) = gw_wire (en_gateway en) @ replicate k (wire_request (ee_uuid ev 0) req))"
proof -
  obtain p en1 where p: "prepare_order ev a ctx en = (p, en1)" by fastforce
  have g: "en_gateway en1 = en_gateway en" using prepare_order_keeps[of ev a ctx en] by (simp add: p) (metis engine.select_convs(2) engine.surjective engine.update_convs)
  show ?thesis
  proof (cases p)
    case (Ready d req)
    note r = prepare_order_ready[OF p[unfolded Ready]]
    have id: "submitted_id (ee_uuid ev 0) req = ee_uuid ev 0" using r by (simp add: submitted_id_def build_request_fields)
    obtain o2 en2 where o: "engine_submit ev 0 req en1 = (o2, en2)" by fastforce
    from engine_submit_wire[of en1 ev 0 req] assms obtain k where
      k: "1 \<le> k" "k \<le> nat (gc_max_retries (gw_cfg (en_gateway en)))"
      "gw_wire (en_gateway en2) = gw_wire (en_gateway en) @ replicate k (wire_request (ee_uuid ev 0) req)"
      by (auto simp: o g id)
    have "en_gateway (snd (execute ev a ctx en)) = en_gateway en2"
      using finish_order_gateway[of ev d _ en2]
      by (auto simp: execute_cases[OF p[unfolded Ready]] o split: sum.splits)
    with k p Ready show ?thesis by auto
  qed (simp_all add: execute_def p g)
qed

lemma notional_within_cap_true:
  assumes "notional_within_cap r cfg qty symb w = (True, w')"
  shows "0 < qty \<and> (\<forall>max_usd price w1. to_decimal (py_get (ec_risk cfg) ''max_position_size_usd'') = Inr max_usd \<and> 0 < max_usd
    \<and> get_mark_price r symb w = (Inr price, w1) \<and> 0 < price \<longrightarrow> dround (qty * price) \<le> max_usd)"
  using assms by (auto simp: notional_within_cap_def mark_or_none_def split: if_splits prod.splits sum.splits)

lemma raise_quantity_result:
  assumes "raise_quantity r cfg symb qty cap e s = (Inr q, s')"
  shows "\<exists>c w w'. cap = Some c \<and> 0 < c \<and> q \<le> c \<and> notional_within_cap r cfg q symb w = (True, w')"
  using assms by (auto simp: raise_quantity_def Let_def split: option.splits if_splits prod.splits)

section \<open>Properties\<close>


text \<open>
  \<^bold>\<open>C33\<close>. A prepared quantity is either the sized quantity normalised to the exchange's filters, or one
  raised to the exchange's minimum that is no more than the quantity originally asked for, and whose
  notional at the mark price then does not exceed the configured maximum position size.
\<close>

theorem prepared_quantity_bounded:
  assumes "prepare_quantity r cfg d (Some c) s = (Inr q, s')" and "0 < c"
    and "symb = (if act_contract d \<noteq> [] then act_contract d else act_symbol d)"
    and "to_decimal (py_get (ec_risk cfg) ''max_position_size_usd'') = Inr max_usd" "0 < max_usd"
    and "\<And>w. fst (get_mark_price r symb w) = Inr px" "0 < px"
  shows "0 < act_quantity d \<and>
    (normalize_quantity r symb (act_quantity d) s = (Inr q, s') \<or> (q \<le> c \<and> dround (q * px) \<le> max_usd))"
proof -
  have pos: "0 < act_quantity d" using assms(1) by (auto simp: prepare_quantity_def split: if_splits)
  have cap: "pre_cap_of d (Some c) = Some c" using assms(2) by (simp add: pre_cap_of_def)
  obtain n s1 where n: "normalize_quantity r symb (act_quantity d) s = (n, s1)" by (metis surj_pair)
  show ?thesis
  proof (cases n)
    case (Inr q')
    then show ?thesis using assms(1) pos n by (simp add: prepare_quantity_def Let_def assms(3)[symmetric])
  next
    case (Inl e)
    then have "raise_quantity r cfg symb (act_quantity d) (Some c) e s1 = (Inr q, s')"
      using assms(1) pos n by (simp add: prepare_quantity_def Let_def cap assms(3)[symmetric])
    from raise_quantity_result[OF this] obtain w w' where q: "q \<le> c" "notional_within_cap r cfg q symb w = (True, w')" by auto
    moreover have "get_mark_price r symb w = (Inr px, snd (get_mark_price r symb w))" using assms(6)[of w] by (simp add: prod_eq_iff)
    ultimately have "dround (q * px) \<le> max_usd" using notional_within_cap_true[OF q(2)] assms(4,5,7) by blast
    with pos q(1) show ?thesis by simp
  qed
qed

section \<open>Reachable engines\<close>

inductive engine_run :: "'w engine \<Rightarrow> 'w engine \<Rightarrow> bool" where
  en_start: "engine_run s s"
| en_execute: "engine_run s s1 \<Longrightarrow> engine_run s (snd (execute ev a ctx s1))"
| en_twap: "engine_run s s1 \<Longrightarrow> engine_run s (snd (execute_twap ev a ctx window s1))"
| en_cancel: "engine_run s s1 \<Longrightarrow> engine_run s (snd (cancel_order ev cid s1))"
| en_reconcile: "engine_run s s1 \<Longrightarrow> engine_run s (snd (engine_reconcile ev s1))"
| en_cycle: "engine_run s s1 \<Longrightarrow> engine_run s (reconcile_cycle ev s1)"

definition stats_ok :: "engine_stats \<Rightarrow> bool" where
  "stats_ok st = (0 \<le> es_filled st \<and> es_filled st \<le> es_submitted st \<and> es_active st = 0)"

definition engine_ok :: "gateway_config \<Rightarrow> 'w engine \<Rightarrow> bool" where
  "engine_ok gc en = (quiet gc (en_gateway en) \<and> stats_ok (en_stats en))"

lemma quiet_active: "quiet gc g \<Longrightarrow> get_active_order_count g = 0 \<and> get_active_orders g = []"
  by (simp add: quiet_def get_active_order_count_def get_active_orders_def)

lemma prepare_order_ok: "engine_ok gc en \<Longrightarrow> engine_ok gc (snd (prepare_order ev a ctx en))"
  by (auto simp: engine_ok_def prepare_order_def count_rejected_def stats_ok_def Let_def split: if_splits sum.splits prod.splits)

lemma engine_submit_ok: "engine_ok gc en \<Longrightarrow> 1 \<le> gc_max_retries gc \<Longrightarrow> engine_ok gc (snd (engine_submit ev i req en))"
  using quiet_submit[of gc "(en_gateway en, en_exchange en)" "bybit_ops (ee_rest ev)" "ee_uuid ev i" "ee_now ev" req]
  by (auto simp: engine_ok_def engine_submit_def with_gateway_def split: prod.splits)

lemma count_rejected_ok: "engine_ok gc en \<Longrightarrow> engine_ok gc (count_rejected en)"
  by (simp add: engine_ok_def count_rejected_def stats_ok_def)

lemma finish_order_ok: "engine_ok gc en \<Longrightarrow> engine_ok gc (snd (finish_order ev d res en))"
  using quiet_active[of gc "en_gateway en"]
  by (auto simp: engine_ok_def finish_order_def count_active_def stats_ok_def Let_def)

lemma execute_ok:
  assumes "engine_ok gc en" "1 \<le> gc_max_retries gc"
  shows "engine_ok gc (snd (execute ev a ctx en))"
proof -
  obtain p en1 where p: "prepare_order ev a ctx en = (p, en1)" by fastforce
  have ok: "engine_ok gc en1" using prepare_order_ok[OF assms(1), of ev a ctx] by (simp add: p)
  show ?thesis
  proof (cases p)
    case (Ready d req)
    obtain o2 en2 where o: "engine_submit ev 0 req en1 = (o2, en2)" by fastforce
    have "engine_ok gc en2" using engine_submit_ok[OF ok assms(2), of ev 0 req] by (simp add: o)
    then show ?thesis
      by (auto simp: execute_cases[OF p[unfolded Ready]] o intro: finish_order_ok count_rejected_ok split: sum.splits)
  qed (simp_all add: execute_def p ok)
qed

lemma engine_twap_quiet:
  assumes "quiet gc g" "1 \<le> gc_max_retries gc"
  shows "quiet gc (fst (fst (snd (twap_execute (engine_twap_env ev d) tw req window ((g, x), db)))))"
proof -
  have "(\<lambda>s. quiet gc (fst (fst s))) (snd (twap_execute (engine_twap_env ev d) tw req window ((g, x), db)))"
  proof (rule twap_execute_keeps)
    show "quiet gc (fst (fst s)) \<Longrightarrow> quiet gc (fst (fst (snd (te_send (engine_twap_env ev d) r s))))" for r s
      using quiet_submit[of gc "fst s" "bybit_ops (ee_rest ev)" "ee_uuid ev 0" "ee_now ev" r] assms(2)
      by (auto simp: engine_twap_env_def split: prod.splits)
    show "quiet gc (fst (fst s)) \<Longrightarrow> quiet gc (fst (fst (snd (te_filters (engine_twap_env ev d) symb s))))" for symb s
      using quiet_others(4)[of gc "fst s" "bybit_ops (ee_rest ev)" symb]
      by (auto simp: engine_twap_env_def split: prod.splits)
  qed (use assms(1) in \<open>auto simp: engine_twap_env_def\<close>)
  then show ?thesis .
qed

lemma execute_twap_ok:
  assumes "engine_ok gc en" "1 \<le> gc_max_retries gc"
  shows "engine_ok gc (snd (execute_twap ev a ctx window en))"
proof -
  obtain p en1 where p: "prepare_order ev a ctx en = (p, en1)" by fastforce
  have ok: "engine_ok gc en1" using prepare_order_ok[OF assms(1), of ev a ctx] by (simp add: p)
  show ?thesis
  proof (cases p)
    case (Ready d req)
    obtain out g x db where t: "twap_execute (engine_twap_env ev d) (en_twap en1) req None ((en_gateway en1, en_exchange en1), en_db en1)
        = (out, ((g, x), db))" by (metis prod.exhaust)
    have q: "quiet gc g" using engine_twap_quiet[of gc "en_gateway en1" ev d "en_twap en1" req None "en_exchange en1" "en_db en1"] ok assms(2)
      by (simp add: engine_ok_def t)
    have "int (length (filter P xs)) \<le> int (length xs)" for P and xs :: "order_result list" by simp
    then show ?thesis using ok q quiet_active[OF q]
      by (auto simp: execute_twap_def p Ready t set_twap_state_def engine_ok_def stats_ok_def count_active_def Let_def add_mono split: sum.splits)
  qed (simp_all add: execute_twap_def p ok)
qed

lemma refresh_engine_ok: "engine_ok gc en \<Longrightarrow> engine_ok gc (refresh_engine ev en)"
  using quiet_others(3)[of gc "(en_gateway en, en_exchange en)" "bybit_ops (ee_rest ev)" "ee_now ev"]
  by (auto simp: engine_ok_def refresh_engine_def with_gateway_def split: prod.splits)

lemma cancel_order_ok: "engine_ok gc en \<Longrightarrow> engine_ok gc (snd (cancel_order ev cid en))"
  using quiet_others(1)[of gc "(en_gateway en, en_exchange en)" "bybit_ops (ee_rest ev)" cid] quiet_active
  by (auto simp: engine_ok_def cancel_order_def with_gateway_def count_active_def stats_ok_def split: prod.splits)

lemma engine_ingest_ok: "engine_ok gc en \<Longrightarrow> engine_ok gc (snd (engine_ingest ev en))"
  by (auto simp: engine_ok_def engine_ingest_def Let_def split: option.splits prod.splits sum.splits)

lemma compare_none: "compare_active ev [] en = (Inr [], en)"
  by (simp add: compare_active_def reconcile_pending_orders_def)

lemma engine_reconcile_eq:
  assumes "engine_ok gc en"
  shows "engine_reconcile ev en = (let (n, en3) = engine_ingest ev (count_reconciliation (refresh_engine ev en))
     in (Inr \<lparr>sum_checked = 0, sum_discrepancies = [], sum_ingested = n\<rparr>, en3))"
  using refresh_engine_ok[OF assms, of ev] quiet_active
  by (auto simp: engine_reconcile_def engine_ok_def compare_none Let_def)

lemma count_reconciliation_ok: "engine_ok gc en \<Longrightarrow> engine_ok gc (count_reconciliation en)"
  by (simp add: engine_ok_def count_reconciliation_def stats_ok_def)

lemma engine_reconcile_ok: "engine_ok gc en \<Longrightarrow> engine_ok gc (snd (engine_reconcile ev en))"
  unfolding engine_reconcile_eq
  using engine_ingest_ok[OF count_reconciliation_ok[OF refresh_engine_ok]]
  by (simp add: engine_reconcile_eq Let_def case_prod_beta)

lemma reconcile_cycle_ok: "engine_ok gc en \<Longrightarrow> engine_ok gc (reconcile_cycle ev en)"
proof -
  assume "engine_ok gc en"
  then have r: "engine_ok gc (refresh_engine ev en)" by (rule refresh_engine_ok)
  then have "get_active_orders (en_gateway (refresh_engine ev en)) = []" using quiet_active by (auto simp: engine_ok_def)
  moreover have "engine_ok gc ((count_reconciliation (refresh_engine ev en))
      \<lparr>en_stats := (en_stats (count_reconciliation (refresh_engine ev en)))\<lparr>es_active := 0\<rparr>\<rparr>)"
    using count_reconciliation_ok[OF r] by (simp add: engine_ok_def stats_ok_def)
  ultimately show ?thesis by (simp add: reconcile_cycle_def Let_def engine_ingest_ok)
qed

lemma engine_run_ok: "engine_run en en' \<Longrightarrow> engine_ok gc en \<Longrightarrow> 1 \<le> gc_max_retries gc \<Longrightarrow> engine_ok gc en'"
  by (induction rule: engine_run.induct)
    (auto intro: execute_ok execute_twap_ok cancel_order_ok engine_reconcile_ok reconcile_cycle_ok)

text \<open>
  \<^bold>\<open>C27\<close>. In every engine reachable from a fresh one by executions, TWAP executions, cancellations and
  reconciliations, the counters are consistent (no more fills than submissions), and no order is ever
  tracked: the active count is zero, a cancellation is refused, and an on-demand reconciliation checks
  nothing and finds nothing.
\<close>

theorem engine_never_reconciles:
  assumes "engine_run en0 en" and "en_gateway en0 = init_gateway gc" and "en_stats en0 = init_stats"
    and "1 \<le> gc_max_retries gc"
  shows "0 \<le> es_filled (en_stats en) \<and> es_filled (en_stats en) \<le> es_submitted (en_stats en)
    \<and> es_active (en_stats en) = 0 \<and> get_active_orders (en_gateway en) = []
    \<and> fst (cancel_order ev cid en) = False
    \<and> (\<exists>n. fst (engine_reconcile ev en) = Inr \<lparr>sum_checked = 0, sum_discrepancies = [], sum_ingested = n\<rparr>)"
proof -
  have "engine_ok gc en0" using assms(2,3) by (simp add: engine_ok_def quiet_def init_gateway_def stats_ok_def init_stats_def)
  from engine_run_ok[OF assms(1) this assms(4)] have ok: "engine_ok gc en" .
  then have "gw_active (en_gateway en) = []" by (simp add: engine_ok_def quiet_def)
  then have "fst (cancel_order ev cid en) = False"
    by (simp add: cancel_order_def with_gateway_def cancel_def)
  with ok quiet_active engine_reconcile_eq[OF ok, of ev] show ?thesis
    by (auto simp: engine_ok_def stats_ok_def Let_def split: prod.splits)
qed

section \<open>An example\<close>

definition example_env :: "unit engine_env" where
  "example_env = \<lparr>ee_rest = example_rest, ee_uuid = (\<lambda>i. ''u'' @ str_nat i), ee_now = 0, ee_elapsed = (\<lambda>w. 0),
     ee_jitter = (\<lambda>i. 0), ee_digest = (\<lambda>s. 77)\<rparr>"

definition example_engine :: "unit engine" where
  "example_engine = \<lparr>en_cfg = \<lparr>ec_dry_run = PBool False, ec_sl = [], ec_tp = [], ec_risk = [], ec_execution = []\<rparr>,
     en_gateway = init_gateway example_gateway_config, en_exchange = (example_adapter, ()), en_risk = example_manager,
     en_reconciler = \<lparr>rc_config = [], rc_maxlen = 500, rc_history = []\<rparr>, en_twap = example_twap, en_db = Some [],
     en_stats = init_stats\<rparr>"

definition example_bracketed :: action where
  "example_bracketed = Action (default_action\<lparr>act_type := ENTER, act_contract := ''BTCUSDT'', act_side := ''BUY'',
     act_quantity := 1, act_stop_loss_price := Some 90, act_take_profit_price := Some 120, act_risk_checked := True\<rparr>) None"

lemma example_execution: "map req_quantity (gw_wire (en_gateway (snd (execute example_env example_bracketed default_context example_engine)))) = [1]"
  by code_simp


theorem prepared_quantity_bounded_witness:
  "\<exists>q s'. prepare_quantity example_rest \<lparr>ec_dry_run = PBool False, ec_sl = [], ec_tp = [],
       ec_risk = [(''max_position_size_usd'', PInt 50)], ec_execution = []\<rparr>
       (default_action\<lparr>act_contract := ''BTCUSDT'', act_quantity := 1 / 100\<rparr>) (Some 1) (example_adapter, ()) = (Inr q, s')
     \<and> q \<le> 1 \<and> dround (q * 100) \<le> 50"
proof -
  let ?c = "\<lparr>ec_dry_run = PBool False, ec_sl = [], ec_tp = [], ec_risk = [(''max_position_size_usd'', PInt 50)], ec_execution = []\<rparr>"
  let ?d = "default_action\<lparr>act_contract := ''BTCUSDT'', act_quantity := 1 / 100\<rparr>"
  have "case prepare_quantity example_rest ?c ?d (Some 1) (example_adapter, ()) of (Inr q, s') \<Rightarrow> True | _ \<Rightarrow> False" by code_simp
  then obtain q s' where p: "prepare_quantity example_rest ?c ?d (Some 1) (example_adapter, ()) = (Inr q, s')"
    by (auto split: prod.splits sum.splits)
  have m: "fst (get_mark_price example_rest ''BTCUSDT'' w) = Inr 100" for w
  proof -
    have "to_decimal (PStr ''100'') = Inr 100" by code_simp
    then show ?thesis by (simp add: get_mark_price_def example_rest_def dec_field_def py_get_def)
  qed
  have n: "case normalize_quantity example_rest ''BTCUSDT'' (1 / 100) (example_adapter, ()) of (Inl e, s1) \<Rightarrow> True | _ \<Rightarrow> False" by code_simp
  have "q \<le> 1 \<and> dround (q * 100) \<le> 50"
    using prepared_quantity_bounded[OF p, of "''BTCUSDT''" 50 100] m n
    by (auto simp: py_get_def default_action_def split: prod.splits sum.splits)
  with p show ?thesis by blast
qed

theorem engine_never_reconciles_witness:
  "es_active (en_stats (snd (execute example_env example_bracketed default_context example_engine))) = 0"
proof -
  have "engine_run example_engine (snd (execute example_env example_bracketed default_context example_engine))"
    by (rule en_execute[OF en_start])
  from engine_never_reconciles[OF this, of example_gateway_config] show ?thesis
    by (simp add: example_engine_def example_gateway_config_def)
qed

text \<open>
  A TWAP exit books its PnL once for every slice: the row of a slice carries the slice's quantity but the
  PnL of the whole action.
\<close>

lemma twap_slice_pnl_of_whole_action:
  "tm_pnl (trade_row_of now a (res\<lparr>res_quantity := q\<rparr>) price fee) = tm_pnl (trade_row_of now a res price fee)"
  by (simp add: trade_row_of_def)

end
