(* ===== verification/Strategy.thy ===== *)
theory Strategy
  imports Floats Domain
begin

text \<open>
  \<^verbatim>\<open>src/quad/strategy/base.py\<close>, \<^verbatim>\<open>factory.py\<close> and \<^verbatim>\<open>trend_following.py\<close>: parameter specifications, the sizing
  and bracket helpers every strategy inherits, and the trend strategy. The historical data provider is a
  parameter: a function from a symbol and a look-back in minutes to candle dicts, \<open>None\<close> when there is no
  provider or it fails. Descriptions and reasons are log text and are left out.
\<close>

section \<open>Parameters\<close>

datatype param_type = TInt | TFloat | TDecimal | TStr | TBool

record param_spec =
  pm_name :: string
  pm_type :: param_type
  pm_default :: pyval
  pm_required :: bool

fun is_int :: "pyval \<Rightarrow> bool" where
  "is_int (PInt n) = True"
| "is_int (PBool b) = True"
| "is_int _ = False"

fun is_int_or_float :: "pyval \<Rightarrow> bool" where
  "is_int_or_float (PFloat x) = True"
| "is_int_or_float v = is_int v"

fun check_param :: "param_type \<Rightarrow> pyval \<Rightarrow> pyval res" where
  "check_param TInt v = (if is_int v then Inr v else Inl TypeError)"
| "check_param TFloat v = (if is_int_or_float v then Inr v else Inl TypeError)"
| "check_param TDecimal v =
     (case v of PDec x \<Rightarrow> Inr v
      | _ \<Rightarrow> if is_int_or_float v then bindE (to_decimal v) (\<lambda>x. Inr (PDec x)) else Inl TypeError)"
| "check_param TStr v = (case v of PStr s \<Rightarrow> Inr v | _ \<Rightarrow> Inl TypeError)"
| "check_param TBool v = (case v of PBool b \<Rightarrow> Inr v | _ \<Rightarrow> Inl TypeError)"

definition spec_of :: "param_spec list \<Rightarrow> string \<Rightarrow> param_spec option" where
  "spec_of specs k = map_of (rev (map (\<lambda>s. (pm_name s, s)) specs)) k"

fun check_params :: "param_spec list \<Rightarrow> (string, pyval) dict \<Rightarrow> (string, pyval) dict res" where
  "check_params specs [] = Inr []"
| "check_params specs ((k, v) # ps) =
     bindE (case spec_of specs k of None \<Rightarrow> Inr v | Some s \<Rightarrow> check_param (pm_type s) v) (\<lambda>v'.
     bindE (check_params specs ps) (\<lambda>ps'. Inr ((k, v') # ps')))"

definition validate_params :: "param_spec list \<Rightarrow> (string, pyval) dict \<Rightarrow> (string, pyval) dict res" where
  "validate_params specs params =
     (if \<exists>s \<in> set specs. pm_required s \<and> pm_name s \<notin> fst ` set params \<and> pm_default s = PNone then Inl ValueError
      else check_params specs params)"

fun find_default :: "param_spec list \<Rightarrow> string \<Rightarrow> pyval \<Rightarrow> pyval" where
  "find_default [] k z = z"
| "find_default (s # specs) k z = (if pm_name s = k \<and> pm_default s \<noteq> PNone then pm_default s else find_default specs k z)"

definition get_param :: "param_spec list \<Rightarrow> (string, pyval) dict \<Rightarrow> string \<Rightarrow> pyval \<Rightarrow> pyval" where
  "get_param specs params k z = (case map_of params k of Some v \<Rightarrow> v | None \<Rightarrow> find_default specs k z)"

section \<open>Shared helpers\<close>

definition position_size_usd :: "rat \<Rightarrow> rat \<Rightarrow> rat \<Rightarrow> rat \<Rightarrow> rat" where
  "position_size_usd capital risk_pct stop_loss_pct max_size_usd =
     (let risk_amount = fround (capital * risk_pct)
      in if stop_loss_pct \<le> 0 then 0
         else (let size = fround (risk_amount / stop_loss_pct)
               in fround_places 2 (if 0 < max_size_usd then min size max_size_usd else size)))"

text \<open>The prices of the two brackets, stop loss first; a price that is not positive gives no action.\<close>

definition bracket_prices :: "string \<Rightarrow> rat \<Rightarrow> rat \<Rightarrow> rat \<Rightarrow> rat \<Rightarrow> (rat \<times> rat) res" where
  "bracket_prices side entry sl_pct tp_pct leverage =
     (if leverage = 0 then Inl ZeroDivisionError
      else (let sl = fround (fround (sl_pct / 100) / leverage); tp = fround (fround (tp_pct / 100) / leverage)
            in if upper side = ''LONG'' then Inr (fround (entry * fround (1 - sl)), fround (entry * fround (1 + tp)))
               else Inr (fround (entry * fround (1 + sl)), fround (entry * fround (1 - tp)))))"

definition bracket_price :: "rat \<Rightarrow> rat option" where
  "bracket_price p = (if 0 < p then Some (dec_of_float (fround_places 8 p)) else None)"

definition build_tp_sl_actions :: "string \<Rightarrow> string \<Rightarrow> rat \<Rightarrow> rat \<Rightarrow> rat \<Rightarrow> rat \<Rightarrow> string \<Rightarrow> action_data list res" where
  "build_tp_sl_actions symb side entry sl_pct tp_pct leverage name =
     bindE (bracket_prices side entry sl_pct tp_pct leverage) (\<lambda>(sl, tp). Inr
       ((case bracket_price sl of None \<Rightarrow> []
         | Some p \<Rightarrow> [post_init (default_action\<lparr>act_type := Set_stop_loss, act_strategy := name, act_symbol := symb,
                                act_stop_loss_price := Some p\<rparr>)])
      @ (case bracket_price tp of None \<Rightarrow> []
         | Some p \<Rightarrow> [post_init (default_action\<lparr>act_type := Set_take_profit, act_strategy := name, act_symbol := symb,
                                act_take_profit_price := Some p\<rparr>)])))"

definition get_current_price :: "string \<Rightarrow> strategy_context \<Rightarrow> rat option" where
  "get_current_price symb ctx = map_of (ctx_mark_prices ctx) symb"

definition hold_action :: "string \<Rightarrow> action_data list" where
  "hold_action name = [post_init (default_action\<lparr>act_type := HOLD, act_strategy := name\<rparr>)]"

definition get_atr :: "param_spec list \<Rightarrow> (string, pyval) dict \<Rightarrow> string \<Rightarrow> strategy_context \<Rightarrow> rat option res" where
  "get_atr specs params symb ctx =
     bindE (bindE (to_float (get_param specs params ''atr_period'' (PInt 14))) (\<lambda>x. Inr (dtrunc x))) (\<lambda>period.
     case map_of (ctx_strategy_params ctx) (''atr_'' @ symb) of
       Some v \<Rightarrow> bindE (to_float v) (\<lambda>x. Inr (Some x))
     | None \<Rightarrow>
        (case get_current_price symb ctx of
           Some price \<Rightarrow>
             if price \<noteq> 0
             then bindE (to_float (get_param specs params ''atr_default_pct'' (PFloat (fround (2 / 100))))) (\<lambda>pct.
                  Inr (Some (fround (price * pct))))
             else Inr None
         | None \<Rightarrow> Inr None))"

definition check_liquidation :: "param_spec list \<Rightarrow> (string, pyval) dict \<Rightarrow> rat \<Rightarrow> rat \<Rightarrow> futures_position_side \<Rightarrow> rat option
     \<Rightarrow> (bool \<times> rat) res" where
  "check_liquidation specs params liquidation mark side threshold =
     bindE (case threshold of
              None \<Rightarrow> to_float (get_param specs params ''liquidation_threshold_pct'' (PFloat (fround (2 / 10))))
            | Some t \<Rightarrow> Inr t) (\<lambda>t. Inr
       (if liquidation \<le> 0 \<or> mark \<le> 0 then (True, 1)
        else (let d = (if side = FLong then fround (fround (mark - liquidation) / mark)
                       else fround (fround (liquidation - mark) / mark))
              in (t < d, d))))"

definition funding_cost :: "param_spec list \<Rightarrow> (string, pyval) dict \<Rightarrow> rat \<Rightarrow> rat \<Rightarrow> rat option \<Rightarrow> rat res" where
  "funding_cost specs params amount rate hours_held =
     bindE (case hours_held of None \<Rightarrow> to_float (get_param specs params ''funding_hours_held'' (PInt 8)) | Some h \<Rightarrow> Inr h) (\<lambda>hours.
     bindE (to_float (get_param specs params ''funding_interval_hours'' (PFloat 8))) (\<lambda>interval.
       if interval = 0 then Inl ZeroDivisionError
       else Inr (fround (fround (amount * rate) * fround (hours / interval)))))"

section \<open>The trend strategy\<close>

definition TREND :: string where "TREND = ''trend_following''"

definition trend_specs :: "param_spec list" where
  "trend_specs = map (\<lambda>(n, t, d). \<lparr>pm_name = n, pm_type = t, pm_default = d, pm_required = True\<rparr>)
     [(''fast_ema'', TInt, PInt 9), (''slow_ema'', TInt, PInt 21), (''adx_period'', TInt, PInt 14),
      (''adx_threshold'', TInt, PInt 25), (''atr_period'', TInt, PInt 14),
      (''atr_default_pct'', TFloat, PFloat (fround (2 / 100))), (''trade_capital_usd'', TInt, PInt 5),
      (''tp_capital_pct'', TFloat, PFloat 50), (''confidence_default'', TFloat, PFloat (fround (7 / 10))),
      (''confidence_high'', TFloat, PFloat (fround (9 / 10)))]"

text \<open>\<open>sc_sl\<close> and \<open>sc_tp\<close> are the sections \<^verbatim>\<open>risk.per_position_sl\<close> and \<^verbatim>\<open>risk.per_position_tp\<close>.\<close>

record strategy_config =
  sc_risk :: "(string, pyval) dict"
  sc_sl :: "(string, pyval) dict"
  sc_tp :: "(string, pyval) dict"
  sc_trading :: "(string, pyval) dict"

record trend_strategy =
  ts_params :: "(string, pyval) dict"
  ts_config :: strategy_config

type_synonym candle_row = "(string, pyval) dict"
type_synonym candle_source = "string \<Rightarrow> int \<Rightarrow> candle_row list option"

definition init_trend :: "(string, pyval) dict \<Rightarrow> strategy_config \<Rightarrow> trend_strategy res" where
  "init_trend params cfg = bindE (validate_params trend_specs params) (\<lambda>ps. Inr \<lparr>ts_params = ps, ts_config = cfg\<rparr>)"

definition trend_param :: "trend_strategy \<Rightarrow> string \<Rightarrow> pyval" where
  "trend_param ts k = get_param trend_specs (ts_params ts) k PNone"

definition int_param :: "trend_strategy \<Rightarrow> string \<Rightarrow> int res" where
  "int_param ts k = to_int (trend_param ts k)"

definition get_ema_data :: "string \<Rightarrow> strategy_context \<Rightarrow> (rat \<times> rat) option res" where
  "get_ema_data symb ctx =
     (let fast = py_get (ctx_strategy_params ctx) (''ema_fast_'' @ symb);
          slow = py_get (ctx_strategy_params ctx) (''ema_slow_'' @ symb)
      in if fast = PNone \<or> slow = PNone then Inr None
         else bindE (to_float fast) (\<lambda>f. bindE (to_float slow) (\<lambda>s. Inr (Some (f, s)))))"

definition get_adx :: "string \<Rightarrow> strategy_context \<Rightarrow> rat option res" where
  "get_adx symb ctx =
     (case map_of (ctx_strategy_params ctx) (''adx_'' @ symb) of
        None \<Rightarrow> Inr None | Some v \<Rightarrow> bindE (to_float v) (\<lambda>x. Inr (Some x)))"

text \<open>The values of one key over the candles that have a truthy one.\<close>

fun column :: "string \<Rightarrow> candle_row list \<Rightarrow> rat list res" where
  "column k [] = Inr []"
| "column k (c # cs) =
     (if truthy (py_get c k)
      then bindE (to_float (py_get c k)) (\<lambda>x. bindE (column k cs) (\<lambda>xs. Inr (x # xs)))
      else column k cs)"

text \<open>Periods are positive. \<^verbatim>\<open>statistics.mean\<close> adds exactly and rounds once.\<close>

definition cross_ema :: "rat list \<Rightarrow> nat \<Rightarrow> rat" where
  "cross_ema xs p =
     (if length xs < p then 0
      else (let k = fround (2 / of_nat (p + 1))
            in foldl (\<lambda>e x. fround (fround (x * k) + fround (e * fround (1 - k)))) (fround (sum_list (take p xs) / of_nat p)) (drop p xs)))"

definition compute_ema_cross :: "candle_row list \<Rightarrow> nat \<Rightarrow> nat \<Rightarrow> (rat \<times> rat) option res" where
  "compute_ema_cross cs fast slow =
     bindE (column ''close'' cs) (\<lambda>xs. Inr
       (if length xs < slow + 1 then None
        else Some (fround_places 8 (cross_ema xs fast), fround_places 8 (cross_ema xs slow))))"

definition trend_true_range :: "rat list \<Rightarrow> rat list \<Rightarrow> rat list \<Rightarrow> rat list" where
  "trend_true_range hs ls cs =
     map (\<lambda>i. max (max (fround (hs ! i - ls ! i)) \<bar>fround (hs ! i - cs ! (i - 1))\<bar>) \<bar>fround (ls ! i - cs ! (i - 1))\<bar>)
       [1..<length cs]"

definition directional :: "rat list \<Rightarrow> rat list \<Rightarrow> (rat \<times> rat) list" where
  "directional hs ls =
     map (\<lambda>i. let up = fround (hs ! i - hs ! (i - 1)); down = fround (ls ! (i - 1) - ls ! i)
              in if down < up \<and> 0 < up then (up, 0) else if up < down \<and> 0 < down then (0, down) else (0, 0))
       [1..<length hs]"

definition wilder :: "nat \<Rightarrow> rat \<Rightarrow> rat \<Rightarrow> rat" where
  "wilder p s x = fround (fround (fround (s * (of_nat p - 1)) + x) / of_nat p)"

definition dx_value :: "rat \<Rightarrow> rat \<Rightarrow> rat \<Rightarrow> rat" where
  "dx_value tr up down =
     (if tr \<le> 0 then 0
      else (let dp = fround (fround (100 * up) / tr); dm = fround (fround (100 * down) / tr); s = fround (dp + dm)
            in if 0 < s then fround (fround (100 * \<bar>fround (dp - dm)\<bar>) / s) else 0))"

fun dx_series :: "nat \<Rightarrow> rat \<times> rat \<times> rat \<Rightarrow> (rat \<times> rat \<times> rat) list \<Rightarrow> rat list" where
  "dx_series p (tr, up, down) [] = [dx_value tr up down]"
| "dx_series p (tr, up, down) ((t, a, b) # r) =
     dx_value tr up down # dx_series p (wilder p tr t, wilder p up a, wilder p down b) r"

definition average :: "nat \<Rightarrow> rat list \<Rightarrow> rat" where
  "average p xs = fround (float_sum (take p xs) / of_nat p)"

text \<open>
  The loop over the bars from \<open>p\<close> on leaves the smoothed values alone at its first step, so the bar at
  index \<open>p\<close> enters neither the seeds nor the smoothing: \<open>drop (p + 1)\<close>.
\<close>

definition trend_adx :: "candle_row list \<Rightarrow> nat \<Rightarrow> rat option res" where
  "trend_adx rows p =
     bindE (column ''high'' rows) (\<lambda>hs. bindE (column ''low'' rows) (\<lambda>ls. bindE (column ''close'' rows) (\<lambda>cs.
       if length hs < p + 1 \<or> length ls < p + 1 then Inr None
       else if 2 \<le> length cs \<and> (length hs < length cs \<or> length ls < length cs) \<or> length ls < length hs then Inl IndexError
       else (let tr = trend_true_range hs ls cs; dms = directional hs ls; n = length tr
             in if n \<le> p then Inr None
                else (let dx = dx_series p (average p tr, average p (map fst dms), average p (map snd dms))
                                 (zip (drop (p + 1) tr) (drop (p + 1) dms))
                      in Inr (Some (fround_places 2 (foldl (wilder p) (average p dx) (drop p dx)))))))))"

definition fetch_candles :: "candle_source \<Rightarrow> trend_strategy \<Rightarrow> string \<Rightarrow> candle_row list option res" where
  "fetch_candles fetch ts symb =
     bindE (int_param ts ''slow_ema'') (\<lambda>slow. bindE (int_param ts ''adx_period'') (\<lambda>period.
       Inr (fetch symb (max slow period * 3))))"

text \<open>The pre-computed indicators of the context, filled in from candles where one is missing.\<close>

definition indicators_of :: "candle_source \<Rightarrow> trend_strategy \<Rightarrow> string \<Rightarrow> strategy_context \<Rightarrow> ((rat \<times> rat) option \<times> rat option) res" where
  "indicators_of fetch ts symb ctx =
     bindE (get_ema_data symb ctx) (\<lambda>e. bindE (get_adx symb ctx) (\<lambda>a.
       if e \<noteq> None \<and> a \<noteq> None then Inr (e, a)
       else bindE (fetch_candles fetch ts symb) (\<lambda>cs.
         case cs of
           None \<Rightarrow> Inr (e, a)
         | Some rows \<Rightarrow>
             if rows = [] then Inr (e, a)
             else bindE (if e = None
                         then bindE (int_param ts ''fast_ema'') (\<lambda>f. bindE (int_param ts ''slow_ema'') (\<lambda>s.
                              compute_ema_cross rows (nat f) (nat s)))
                         else Inr e) (\<lambda>e'.
                  bindE (if a = None then bindE (int_param ts ''adx_period'') (\<lambda>p. trend_adx rows (nat p)) else Inr a) (\<lambda>a'.
                  Inr (e', a'))))))"

text \<open>The entry action and the brackets folded onto it.\<close>

definition fold_bracket :: "action_data \<Rightarrow> action_data \<Rightarrow> action_data" where
  "fold_bracket a b =
     (if act_type b = Set_stop_loss then a\<lparr>act_stop_loss_price := act_stop_loss_price b\<rparr>
      else if act_type b = Set_take_profit then a\<lparr>act_take_profit_price := act_take_profit_price b\<rparr> else a)"

record entry_terms =
  et_capital :: int
  et_sl_pct :: rat
  et_tp_pct :: rat
  et_leverage :: int
  et_max_size :: rat

definition read_terms :: "trend_strategy \<Rightarrow> entry_terms res" where
  "read_terms ts = (let c = ts_config ts in
     bindE (int_param ts ''trade_capital_usd'') (\<lambda>capital.
     bindE (to_float (get_or (sc_sl c) ''capital_pct'' (PFloat 30))) (\<lambda>sl.
     bindE (to_float (get_or (sc_tp c) ''capital_pct'' (PFloat 50))) (\<lambda>tp.
     bindE (to_int (get_or (sc_trading c) ''leverage'' (PInt 50))) (\<lambda>lev.
     bindE (to_float (get_or (sc_risk c) ''max_position_size_usd'' (PInt 10000))) (\<lambda>m.
     Inr \<lparr>et_capital = capital, et_sl_pct = sl, et_tp_pct = tp, et_leverage = lev, et_max_size = m\<rparr>))))))"

definition enter_trend :: "trend_strategy \<Rightarrow> string \<Rightarrow> rat \<Rightarrow> entry_terms \<Rightarrow> action_type \<Rightarrow> string \<Rightarrow> action_data list res" where
  "enter_trend ts symb price t kind side =
     (let size = position_size_usd (fround (of_int (et_capital t))) (fround (2 / 100)) (fround (et_sl_pct t / 100)) (et_max_size t)
      in bindE (to_float (trend_param ts ''confidence_high'')) (\<lambda>conf.
         bindE (build_tp_sl_actions symb side price (et_sl_pct t) (et_tp_pct t) (fround (of_int (et_leverage t))) TREND) (\<lambda>bs.
         Inr [foldl fold_bracket
                (post_init (default_action\<lparr>act_type := kind, act_strategy := TREND, act_symbol := symb,
                   act_quantity := dec_of_float size, act_confidence := conf\<rparr>)) bs])))"

definition check_entry :: "candle_source \<Rightarrow> trend_strategy \<Rightarrow> string \<Rightarrow> strategy_context \<Rightarrow> action_data list res" where
  "check_entry fetch ts symb ctx =
     (case get_current_price symb ctx of
        None \<Rightarrow> Inr (hold_action TREND)
      | Some price \<Rightarrow>
          bindE (indicators_of fetch ts symb ctx) (\<lambda>ind.
            case ind of
              (Some (fast, slow), Some adx) \<Rightarrow>
                bindE (int_param ts ''adx_threshold'') (\<lambda>threshold.
                  if adx < of_int threshold then Inr (hold_action TREND)
                  else bindE (read_terms ts) (\<lambda>t.
                    if slow < fast then enter_trend ts symb price t Open_long ''LONG''
                    else if fast < slow then enter_trend ts symb price t Open_short ''SHORT''
                    else Inr (hold_action TREND)))
            | _ \<Rightarrow> Inr (hold_action TREND)))"

definition manage_position :: "futures_position \<Rightarrow> action_data list" where
  "manage_position p = hold_action TREND"

fun text_of :: "pyval \<Rightarrow> string" where
  "text_of (PStr s) = s"
| "text_of _ = []"

definition evaluate_trend :: "candle_source \<Rightarrow> trend_strategy \<Rightarrow> strategy_context \<Rightarrow> action_data list res" where
  "evaluate_trend fetch ts ctx =
     (let symb = (if ctx_strategy_params ctx \<noteq> [] then text_of (get_or (ctx_strategy_params ctx) ''symbol'' (PStr ''BTCUSDT''))
                  else ''BTCUSDT'');
          held = filter (\<lambda>p. fp_symbol p = symb \<and> 0 < fp_size p) (ctx_futures_positions ctx)
      in case held of p # _ \<Rightarrow> Inr (manage_position p) | [] \<Rightarrow> check_entry fetch ts symb ctx)"

section \<open>Factory\<close>

text \<open>The registry holds the one concrete strategy of the repository.\<close>

definition registry_list :: "string list" where
  "registry_list = [TREND]"

definition get_strategy :: "string \<Rightarrow> (string, pyval) dict \<Rightarrow> strategy_config \<Rightarrow> trend_strategy option" where
  "get_strategy name params cfg =
     (if name \<notin> set registry_list then None
      else case init_trend params cfg of Inl e \<Rightarrow> None | Inr s \<Rightarrow> Some s)"

definition create_default_strategies :: "(string, (string, pyval) dict) dict \<Rightarrow> strategy_config \<Rightarrow> (string, trend_strategy) dict" where
  "create_default_strategies sections cfg =
     foldl (\<lambda>d name.
        let params = dict_get_or [] sections name
        in if \<not> truthy (py_get params ''enabled'') then d
           else case get_strategy name params cfg of None \<Rightarrow> d | Some s \<Rightarrow> AList.update name s d) [] registry_list"

section \<open>Parameters: what construction leaves\<close>

lemma check_params_lookup:
  assumes "check_params specs ps = Inr qs"
  shows "map fst qs = map fst ps
    \<and> (\<forall>k v. map_of qs k = Some v \<longrightarrow> (\<exists>u. map_of ps k = Some u \<and>
          (case spec_of specs k of None \<Rightarrow> v = u | Some s \<Rightarrow> check_param (pm_type s) u = Inr v)))"
  using assms
proof (induction specs ps arbitrary: qs rule: check_params.induct)
  case (2 specs k v ps)
  from 2(2) obtain v' qs' where
    v: "(case spec_of specs k of None \<Rightarrow> Inr v | Some s \<Rightarrow> check_param (pm_type s) v) = Inr v'"
    and qs: "check_params specs ps = Inr qs'" "qs = (k, v') # qs'"
    by (auto simp: bindE_Inr_iff)
  show ?case using 2(1)[OF v qs(1)] v qs(2) by (auto split: option.splits)
qed simp

section \<open>The decision of the trend strategy\<close>

definition trend_symbol :: "strategy_context \<Rightarrow> string" where
  "trend_symbol ctx =
     (if ctx_strategy_params ctx \<noteq> [] then text_of (get_or (ctx_strategy_params ctx) ''symbol'' (PStr ''BTCUSDT''))
      else ''BTCUSDT'')"

definition trend_held :: "strategy_context \<Rightarrow> bool" where
  "trend_held ctx = (\<exists>p \<in> set (ctx_futures_positions ctx). fp_symbol p = trend_symbol ctx \<and> 0 < fp_size p)"

lemma evaluate_trend_cases:
  "evaluate_trend fetch ts ctx =
     (if trend_held ctx then Inr (hold_action TREND) else check_entry fetch ts (trend_symbol ctx) ctx)"
  by (auto simp: evaluate_trend_def trend_held_def trend_symbol_def manage_position_def Let_def filter_empty_conv
           split: list.splits)

lemma hold_action_simp: "hold_action n = [post_init (default_action\<lparr>act_type := HOLD, act_strategy := n\<rparr>)]"
  by (simp add: hold_action_def)

text \<open>Folding the brackets gives both prices at once.\<close>

definition entry_with :: "trend_strategy \<Rightarrow> string \<Rightarrow> action_type \<Rightarrow> rat \<Rightarrow> rat \<Rightarrow> rat option \<Rightarrow> rat option \<Rightarrow> action_data" where
  "entry_with ts symb kind q conf sl tp =
     (post_init (default_action\<lparr>act_type := kind, act_strategy := TREND, act_symbol := symb, act_quantity := q, act_confidence := conf\<rparr>))
       \<lparr>act_stop_loss_price := sl, act_take_profit_price := tp\<rparr>"

lemma enter_trend_eq:
  "enter_trend ts symb price t kind side = Inr acts \<longleftrightarrow>
     (\<exists>conf sl tp. to_float (trend_param ts ''confidence_high'') = Inr conf
        \<and> bracket_prices side price (et_sl_pct t) (et_tp_pct t) (fround (of_int (et_leverage t))) = Inr (sl, tp)
        \<and> acts = [entry_with ts symb kind
              (dec_of_float (position_size_usd (fround (of_int (et_capital t))) (fround (2 / 100)) (fround (et_sl_pct t / 100)) (et_max_size t)))
              conf (bracket_price sl) (bracket_price tp)])"
proof -
  have "foldl fold_bracket (post_init (default_action\<lparr>act_type := kind, act_strategy := TREND, act_symbol := symb,
                   act_quantity := q, act_confidence := conf\<rparr>))
      ((case x of None \<Rightarrow> []
         | Some p \<Rightarrow> [post_init (default_action\<lparr>act_type := Set_stop_loss, act_strategy := TREND, act_symbol := symb, act_stop_loss_price := Some p\<rparr>)])
      @ (case y of None \<Rightarrow> []
         | Some p \<Rightarrow> [post_init (default_action\<lparr>act_type := Set_take_profit, act_strategy := TREND, act_symbol := symb, act_take_profit_price := Some p\<rparr>)]))
    = entry_with ts symb kind q conf x y" for q conf x y
    by (cases x; cases y) (auto simp: fold_bracket_def entry_with_def post_init_update default_action_def)
  then show ?thesis by (auto simp: enter_trend_def build_tp_sl_actions_def bindE_Inr_iff Let_def)
qed

lemma check_entry_Inr:
  assumes "check_entry fetch ts symb ctx = Inr acts"
  shows "acts = hold_action TREND \<and>
      (get_current_price symb ctx = None
       \<or> (\<exists>e a. indicators_of fetch ts symb ctx = Inr (e, a) \<and>
            (e = None \<or> a = None
             \<or> (\<exists>fast slow adx th. e = Some (fast, slow) \<and> a = Some adx \<and> int_param ts ''adx_threshold'' = Inr th
                  \<and> (adx < of_int th \<or> fast = slow)))))
   \<or> (\<exists>price fast slow adx th t. get_current_price symb ctx = Some price
        \<and> indicators_of fetch ts symb ctx = Inr (Some (fast, slow), Some adx)
        \<and> int_param ts ''adx_threshold'' = Inr th \<and> of_int th \<le> adx \<and> read_terms ts = Inr t
        \<and> (slow < fast \<and> enter_trend ts symb price t Open_long ''LONG'' = Inr acts
           \<or> fast < slow \<and> enter_trend ts symb price t Open_short ''SHORT'' = Inr acts))"
proof (cases "get_current_price symb ctx")
  case None then show ?thesis using assms by (simp add: check_entry_def)
next
  case (Some price)
  with assms obtain e a where ind: "indicators_of fetch ts symb ctx = Inr (e, a)"
    by (auto simp: check_entry_def bindE_Inr_iff)
  show ?thesis
  proof (cases "e = None \<or> a = None")
    case True
    then have "acts = hold_action TREND" using assms Some ind by (auto simp: check_entry_def split: option.splits)
    with True ind show ?thesis by blast
  next
    case False
    then obtain fast slow adx where e: "e = Some (fast, slow)" "a = Some adx" by auto
    with assms Some ind obtain th where th: "int_param ts ''adx_threshold'' = Inr th"
      by (auto simp: check_entry_def bindE_Inr_iff)
    show ?thesis
    proof (cases "adx < of_int th")
      case True
      then have "acts = hold_action TREND" using assms Some ind e th by (simp add: check_entry_def)
      with True ind e th show ?thesis by blast
    next
      case False
      with assms Some ind e th obtain t where t: "read_terms ts = Inr t"
        by (auto simp: check_entry_def bindE_Inr_iff)
      consider "slow < fast" | "fast < slow" | "fast = slow" by linarith
      then show ?thesis
      proof cases
        case 3
        then have "acts = hold_action TREND" using assms Some ind e th t False by (simp add: check_entry_def)
        with 3 ind e th show ?thesis by blast
      next
        case 1
        then have "enter_trend ts symb price t Open_long ''LONG'' = Inr acts"
          using assms Some ind e th t False by (simp add: check_entry_def)
        with 1 Some ind e th t False show ?thesis
          by (intro disjI2 exI[of _ price] exI[of _ fast] exI[of _ slow] exI[of _ adx] exI[of _ th] exI[of _ t]) simp
      next
        case 2
        then have "enter_trend ts symb price t Open_short ''SHORT'' = Inr acts"
          using assms Some ind e th t False by (simp add: check_entry_def)
        with 2 Some ind e th t False show ?thesis
          by (intro disjI2 exI[of _ price] exI[of _ fast] exI[of _ slow] exI[of _ adx] exI[of _ th] exI[of _ t]) simp
      qed
    qed
  qed
qed

text \<open>The conditions of an entry, in the words of the module's header.\<close>

definition trend_signal :: "candle_source \<Rightarrow> trend_strategy \<Rightarrow> strategy_context \<Rightarrow> (rat \<Rightarrow> rat \<Rightarrow> bool) \<Rightarrow> bool" where
  "trend_signal fetch ts ctx cross =
     (\<not> trend_held ctx \<and> get_current_price (trend_symbol ctx) ctx \<noteq> None
      \<and> (case indicators_of fetch ts (trend_symbol ctx) ctx of
           Inr (Some (fast, slow), Some adx) \<Rightarrow>
             (case int_param ts ''adx_threshold'' of Inr th \<Rightarrow> of_int th \<le> adx \<and> cross fast slow | Inl _ \<Rightarrow> False)
         | _ \<Rightarrow> False))"

lemma entry_with_simps [simp]:
  "act_type (entry_with ts symb kind q conf sl tp) = kind"
  "act_symbol (entry_with ts symb kind q conf sl tp) = symb"
  "act_contract (entry_with ts symb kind q conf sl tp) = symb"
  "act_side (entry_with ts symb kind q conf sl tp) = default_side kind"
  "act_quantity (entry_with ts symb kind q conf sl tp) = q"
  "act_stop_loss_price (entry_with ts symb kind q conf sl tp) = sl"
  "act_take_profit_price (entry_with ts symb kind q conf sl tp) = tp"
  by (simp_all add: entry_with_def post_init_contract post_init_side default_action_def)

text \<open>
  The trend strategy always answers with exactly one action. It is \<^verbatim>\<open>open_long\<close> exactly when no position of the symbol is held, a mark
  price is known, both indicators are available, the ADX reaches the threshold and the fast average is above the slow
  one; \<^verbatim>\<open>open_short\<close> exactly under the same conditions with the fast average below; and \<^verbatim>\<open>HOLD\<close> otherwise.
\<close>

lemma trend_decision:
  assumes "evaluate_trend fetch ts ctx = Inr acts"
  shows "\<exists>a. acts = [a] \<and> act_type a =
      (if trend_signal fetch ts ctx (\<lambda>fast slow. slow < fast) then Open_long
       else if trend_signal fetch ts ctx (\<lambda>fast slow. fast < slow) then Open_short else HOLD)"
proof (cases "trend_held ctx")
  case True
  then show ?thesis using assms by (auto simp: evaluate_trend_cases trend_signal_def hold_action_simp default_action_def)
next
  case False
  let ?s = "trend_symbol ctx"
  have "check_entry fetch ts ?s ctx = Inr acts" using False assms by (simp add: evaluate_trend_cases)
  from check_entry_Inr[OF this] show ?thesis
  proof (elim disjE exE conjE)
    fix price fast slow adx th t
    assume h: "get_current_price ?s ctx = Some price" "indicators_of fetch ts ?s ctx = Inr (Some (fast, slow), Some adx)"
      "int_param ts ''adx_threshold'' = Inr th" "of_int th \<le> adx" "slow < fast" "enter_trend ts ?s price t Open_long ''LONG'' = Inr acts"
    from h(6) obtain q conf sl tp where "acts = [entry_with ts ?s Open_long q conf sl tp]" by (auto simp: enter_trend_eq)
    then show ?thesis using False h by (simp add: trend_signal_def)
  next
    fix price fast slow adx th t
    assume h: "get_current_price ?s ctx = Some price" "indicators_of fetch ts ?s ctx = Inr (Some (fast, slow), Some adx)"
      "int_param ts ''adx_threshold'' = Inr th" "of_int th \<le> adx" "fast < slow" "enter_trend ts ?s price t Open_short ''SHORT'' = Inr acts"
    from h(6) obtain q conf sl tp where "acts = [entry_with ts ?s Open_short q conf sl tp]" by (auto simp: enter_trend_eq)
    then show ?thesis using False h by (simp add: trend_signal_def)
  qed (auto simp: trend_signal_def hold_action_simp default_action_def split: option.splits)
qed

section \<open>The brackets of an entry\<close>

lemma fround_near:
  assumes "0 \<le> y"
  shows "y * (1 - 1 / 10 ^ 15) \<le> fround y" "fround y \<le> y * (1 + 1 / 10 ^ 15)"
proof -
  have e: "feps \<le> 1 / 10 ^ 15" using feps_small by simp
  show "y * (1 - 1 / 10 ^ 15) \<le> fround y"
    using flt.rnd_lower[OF assms] mult_left_mono[OF e assms] by (simp add: algebra_simps)
  show "fround y \<le> y * (1 + 1 / 10 ^ 15)"
    using flt.rnd_upper[OF assms] mult_left_mono[OF e assms] by (simp add: algebra_simps)
qed

lemma fround_places_near:
  assumes "1 / 10 ^ 8 \<le> v"
  shows "(v - 1 / 10 ^ 8 / 2) * (1 - 1 / 10 ^ 15) \<le> fround_places 8 v"
    "fround_places 8 v \<le> (v + 1 / 10 ^ 8 / 2) * (1 + 1 / 10 ^ 15)"
proof -
  define m :: rat where "m = of_int (half_even (v * 10 ^ 8)) / 10 ^ 8"
  have "\<bar>of_int (half_even (v * 10 ^ 8)) - v * 10 ^ 8\<bar> \<le> 1 / 2" by (rule half_even_error)
  then have m: "v - 1 / 10 ^ 8 / 2 \<le> m" "m \<le> v + 1 / 10 ^ 8 / 2" unfolding m_def abs_le_iff by (auto simp: field_simps)
  have "0 \<le> m" using assms m(1) by simp
  then have "m * (1 - 1 / 10 ^ 15) \<le> fround_places 8 v" "fround_places 8 v \<le> m * (1 + 1 / 10 ^ 15)"
    using fround_near[of m] by (simp_all add: fround_places_def m_def)
  moreover have "(v - 1 / 10 ^ 8 / 2) * (1 - 1 / 10 ^ 15) \<le> m * (1 - 1 / 10 ^ 15)"
    "m * (1 + 1 / 10 ^ 15) \<le> (v + 1 / 10 ^ 8 / 2) * (1 + 1 / 10 ^ 15)"
    using m by (auto intro!: mult_right_mono)
  ultimately show "(v - 1 / 10 ^ 8 / 2) * (1 - 1 / 10 ^ 15) \<le> fround_places 8 v"
    "fround_places 8 v \<le> (v + 1 / 10 ^ 8 / 2) * (1 + 1 / 10 ^ 15)" by linarith+
qed

text \<open>The price move of a bracket, as the code computes it from a percentage of the capital and the leverage.\<close>

definition price_move :: "rat \<Rightarrow> rat \<Rightarrow> rat" where
  "price_move pct leverage = fround (fround (pct / 100) / leverage)"

lemma price_move_bounds:
  assumes "0 < l" "l / 10 \<le> pct" "pct \<le> 99 * l"
  shows "1 / 1001 \<le> price_move pct l" "price_move pct l \<le> 991 / 1000"
proof -
  have p: "0 \<le> pct / 100" using assms by (simp add: field_simps)
  note near = fround_near[OF p]
  have "(l / 1000) * (1 - 1 / 10 ^ 15) \<le> (pct / 100) * (1 - 1 / 10 ^ 15)" by (rule mult_right_mono) (use assms in simp_all)
  with near(1) have lo: "(1 / 1000) * (1 - 1 / 10 ^ 15) \<le> fround (pct / 100) / l" using assms(1) by (simp add: field_simps)
  have "(pct / 100) * (1 + 1 / 10 ^ 15) \<le> (99 * l / 100) * (1 + 1 / 10 ^ 15)" by (rule mult_right_mono) (use assms in simp_all)
  with near(2) have hi: "fround (pct / 100) / l \<le> (99 / 100) * (1 + 1 / 10 ^ 15)" using assms(1) by (simp add: field_simps)
  have z: "0 \<le> fround (pct / 100) / l" by (rule order_trans[OF _ lo]) simp
  show "1 / 1001 \<le> price_move pct l" using fround_near(1)[OF z] lo by (simp add: price_move_def)
  show "price_move pct l \<le> 991 / 1000" using fround_near(2)[OF z] hi by (simp add: price_move_def)
qed

text \<open>A bracket below the entry price and one above it, at the eight places they are sent with.\<close>

lemma bracket_below:
  assumes p: "1 / 1000 \<le> p" and x: "1 / 1001 \<le> x" "x \<le> 991 / 1000"
  shows "0 < fround (p * fround (1 - x))" "0 < fround_places 8 (fround (p * fround (1 - x)))"
    "fround_places 8 (fround (p * fround (1 - x))) < p"
proof -
  define r v where "r = fround (1 - x)" and "v = fround (p * r)"
  have "0 \<le> 1 - x" using x by simp
  note n = fround_near[OF this]
  have r: "8 / 1000 \<le> r" "r \<le> 9991 / 10000" using n x by (simp_all add: r_def)
  define w where "w = p * r"
  have w: "p * (8 / 1000) \<le> w" "w \<le> p * (9991 / 10000)" using p r unfolding w_def by (auto intro!: mult_left_mono)
  then have "0 \<le> w" using p by simp
  from fround_near[OF this] w have v: "p * (7 / 1000) \<le> v" "v \<le> p * (9992 / 10000)" using p by (simp_all add: v_def w_def[symmetric])
  have v8: "1 / 10 ^ 8 \<le> v" using v(1) p by simp
  show "0 < fround (p * fround (1 - x))" using v(1) p unfolding v_def r_def by linarith
  show "0 < fround_places 8 (fround (p * fround (1 - x)))"
    using fround_places_near(1)[OF v8] v8 by (simp add: v_def r_def)
  show "fround_places 8 (fround (p * fround (1 - x))) < p"
    using fround_places_near(2)[OF v8] v(2) p by (simp add: v_def r_def)
qed

lemma bracket_above:
  assumes p: "1 / 1000 \<le> p" and x: "1 / 1001 \<le> x" "x \<le> 991 / 1000"
  shows "0 < fround (p * fround (1 + x))" "p < fround_places 8 (fround (p * fround (1 + x)))"
proof -
  define r v where "r = fround (1 + x)" and "v = fround (p * r)"
  have "0 \<le> 1 + x" using x by simp
  note n = fround_near[OF this]
  have r: "10009 / 10000 \<le> r" using n x by (simp add: r_def)
  define w where "w = p * r"
  have w: "p * (10009 / 10000) \<le> w" using p r unfolding w_def by (auto intro!: mult_left_mono)
  then have "0 \<le> w" using p by simp
  from fround_near[OF this] w have v: "p * (10008 / 10000) \<le> v" using p by (simp add: v_def w_def[symmetric])
  have v8: "1 / 10 ^ 8 \<le> v" using v p by simp
  show "0 < fround (p * fround (1 + x))" using v p unfolding v_def r_def by linarith
  show "p < fround_places 8 (fround (p * fround (1 + x)))"
    using fround_places_near(1)[OF v8] v p by (simp add: v_def r_def)
qed

text \<open>A configuration whose brackets lie between a tenth of a percent and 99 percent of the price away.\<close>

definition sane_terms :: "entry_terms \<Rightarrow> bool" where
  "sane_terms t = (let l = fround (of_int (et_leverage t)) in
     0 < l \<and> l / 10 \<le> et_sl_pct t \<and> et_sl_pct t \<le> 99 * l \<and> l / 10 \<le> et_tp_pct t \<and> et_tp_pct t \<le> 99 * l)"

lemma bracket_prices_move:
  "bracket_prices side entry sl_pct tp_pct l =
     (if l = 0 then Inl ZeroDivisionError
      else if upper side = ''LONG'' then Inr (fround (entry * fround (1 - price_move sl_pct l)), fround (entry * fround (1 + price_move tp_pct l)))
      else Inr (fround (entry * fround (1 + price_move sl_pct l)), fround (entry * fround (1 - price_move tp_pct l))))"
  by (simp add: bracket_prices_def price_move_def Let_def)

lemma enter_trend_protected:
  assumes "enter_trend ts symb price t kind side = Inr [a]" "sane_terms t" "1 / 1000 \<le> price"
  shows "\<exists>s p. act_stop_loss_price a = Some (dec_of_float s) \<and> act_take_profit_price a = Some (dec_of_float p) \<and> 0 < s \<and> 0 < p
    \<and> (if upper side = ''LONG'' then s < price \<and> price < p else p < price \<and> price < s)"
proof -
  define l where "l = fround (of_int (et_leverage t))"
  have l: "0 < l" "l / 10 \<le> et_sl_pct t" "et_sl_pct t \<le> 99 * l" "l / 10 \<le> et_tp_pct t" "et_tp_pct t \<le> 99 * l"
    using assms(2) by (simp_all add: sane_terms_def l_def Let_def)
  note sl = price_move_bounds[OF l(1-3)] and tp = price_move_bounds[OF l(1,4,5)]
  from assms(1) obtain q conf x y where a: "bracket_prices side price (et_sl_pct t) (et_tp_pct t) l = Inr (x, y)"
    "a = entry_with ts symb kind q conf (bracket_price x) (bracket_price y)"
    by (auto simp: enter_trend_eq l_def)
  have pos: "0 < price" using assms(3) by simp
  show ?thesis
  proof (cases "upper side = ''LONG''")
    case True
    with a(1) l(1) have xy: "x = fround (price * fround (1 - price_move (et_sl_pct t) l))" "y = fround (price * fround (1 + price_move (et_tp_pct t) l))"
      by (auto simp: bracket_prices_move)
    note b = bracket_below[OF assms(3) sl] bracket_above[OF assms(3) tp]
    show ?thesis using True a(2) b pos unfolding xy[symmetric]
      by (intro exI[of _ "fround_places 8 x"] exI[of _ "fround_places 8 y"]) (simp add: bracket_price_def)
  next
    case False
    with a(1) l(1) have xy: "x = fround (price * fround (1 + price_move (et_sl_pct t) l))" "y = fround (price * fround (1 - price_move (et_tp_pct t) l))"
      by (auto simp: bracket_prices_move)
    note b = bracket_below[OF assms(3) tp] bracket_above[OF assms(3) sl]
    show ?thesis using False a(2) b pos unfolding xy[symmetric]
      by (intro exI[of _ "fround_places 8 x"] exI[of _ "fround_places 8 y"]) (simp add: bracket_price_def)
  qed
qed

lemma evaluate_trend_entry:
  assumes "evaluate_trend fetch ts ctx = Inr [a]" "act_type a \<noteq> HOLD"
  obtains price t where "get_current_price (trend_symbol ctx) ctx = Some price" "read_terms ts = Inr t"
    "act_type a = Open_long \<and> enter_trend ts (trend_symbol ctx) price t Open_long ''LONG'' = Inr [a]
     \<or> act_type a = Open_short \<and> enter_trend ts (trend_symbol ctx) price t Open_short ''SHORT'' = Inr [a]"
proof -
  have held: "\<not> trend_held ctx" using assms by (auto simp: evaluate_trend_cases hold_action_simp default_action_def split: if_splits)
  then have "check_entry fetch ts (trend_symbol ctx) ctx = Inr [a]" using assms by (simp add: evaluate_trend_cases)
  from check_entry_Inr[OF this] obtain price t where
    h: "get_current_price (trend_symbol ctx) ctx = Some price" "read_terms ts = Inr t"
      "enter_trend ts (trend_symbol ctx) price t Open_long ''LONG'' = Inr [a] \<or> enter_trend ts (trend_symbol ctx) price t Open_short ''SHORT'' = Inr [a]"
    using assms(2) by (auto simp: hold_action_simp default_action_def)
  from h(3) show ?thesis by (intro that[OF h(1,2)]) (auto simp: enter_trend_eq)
qed

lemma upper_short: "upper ''SHORT'' \<noteq> ''LONG''" "upper ''LONG'' = ''LONG''"
  by (simp_all add: upper_def upper_char_def code_point_def)

end
