(* ===== verification/Backtest.thy ===== *)
theory Backtest
  imports Floats Domain
begin

text \<open>
  \<^verbatim>\<open>src/quad/backtesting/engine.py\<close> and \<^verbatim>\<open>models.py\<close>: the replay of a strategy over a period. Times are
  microseconds since the epoch (UTC), within the range of \<^verbatim>\<open>datetime\<close>. The strategy is a parameter: what it
  answers at its \<open>n\<close>-th evaluation for a context, an exception included. The main loop is a partial function,
  so that an endless replay is \<open>None\<close>.
\<close>

section \<open>Data\<close>

record backtest_config =
  bt_starting_capital :: rat
  bt_commission_pct :: rat
  bt_slippage_pct :: rat
  bt_max_trades_per_day :: int
  bt_leverage :: pyval

record open_position =
  op_entry_price :: rat
  op_quantity :: rat
  op_side :: string
  op_entry_timestamp :: int
  op_current_price :: rat

record equity_point =
  eq_timestamp :: int
  eq_equity :: rat
  eq_drawdown :: rat

record backtest_state =
  bs_trades :: "trade list"
  bs_actions :: "action_data list"
  bs_curve :: "equity_point list"
  bs_cash :: rat
  bs_peak :: rat
  bs_max_drawdown :: rat
  bs_wins :: rat
  bs_losses :: rat
  bs_counter :: int
  bs_open :: "(string, open_position) dict"
  bs_enters :: "(int, int) dict"

text \<open>\<open>br_profit_factor\<close> is \<open>None\<close> for the infinite factor of a run without losses.\<close>

record backtest_result =
  br_total_trades :: nat
  br_winning_trades :: nat
  br_losing_trades :: nat
  br_win_rate :: rat
  br_total_pnl :: rat
  br_max_drawdown :: rat
  br_sharpe_ratio :: rat
  br_avg_win :: rat
  br_avg_loss :: rat
  br_profit_factor :: "rat option"
  br_total_commission :: rat
  br_trades :: "trade list"
  br_equity_curve :: "equity_point list"
  br_actions :: "action_data list"
  br_return_pct :: rat
  br_annualised_return_pct :: rat
  br_total_days :: int

section \<open>Time\<close>

definition DATETIME_MIN :: int where "DATETIME_MIN = - 62135596800000000"
definition DATETIME_MAX :: int where "DATETIME_MAX = 253402300799999999"

definition add_hours :: "int \<Rightarrow> int \<Rightarrow> int res" where
  "add_hours t h =
     (let u = t + h * 3600000000
      in if DATETIME_MIN \<le> u \<and> u \<le> DATETIME_MAX then Inr u else Inl OverflowError)"

definition timestamp_ms :: "int \<Rightarrow> int" where
  "timestamp_ms t = dtrunc (fround (fround (of_int t / 10 ^ 6) * 1000))"

definition day_of :: "int \<Rightarrow> int" where
  "day_of t = t div 86400000000"

section \<open>Fills\<close>

definition backtest_leverage :: "backtest_config \<Rightarrow> rat" where
  "backtest_leverage cfg =
     (case to_decimal (if truthy (bt_leverage cfg) then bt_leverage cfg else PInt 10) of
        Inl e \<Rightarrow> 10
      | Inr l \<Rightarrow> if l \<le> 0 then 10 else l)"

definition simulate_fill :: "backtest_config \<Rightarrow> action_data \<Rightarrow> int \<Rightarrow> int \<Rightarrow> trade option" where
  "simulate_fill cfg a i ts =
     (case act_price a of
        None \<Rightarrow> None
      | Some p \<Rightarrow>
          if p \<le> 0 then None
          else (let slip = dround (p * bt_slippage_pct cfg);
                    fill = max (if act_side a = ''BUY'' then dround (p + slip) else dround (p - slip)) 0;
                    commission = dround (dround (fill * act_quantity a) * bt_commission_pct cfg)
                in Some \<lparr>trd_id = Some i, trd_position_id = None, trd_order_id = None, trd_symbol = act_contract a,
                     trd_side = (if act_side a = [] then ''BUY'' else act_side a), trd_quantity = act_quantity a,
                     trd_price = fill, trd_fee = commission, trd_pnl = Some 0, trd_timestamp = ts\<rparr>))"

definition contract_key :: "action_data \<Rightarrow> string" where
  "contract_key a = (if act_contract a \<noteq> [] then act_contract a else act_symbol a)"

definition capped_day :: "backtest_config \<Rightarrow> int \<Rightarrow> backtest_state \<Rightarrow> bool" where
  "capped_day cfg day s = (0 < bt_max_trades_per_day cfg \<and> bt_max_trades_per_day cfg \<le> dict_get_or 0 (bs_enters s) day)"

definition enter_position :: "backtest_config \<Rightarrow> int \<Rightarrow> action_data \<Rightarrow> backtest_state \<Rightarrow> backtest_state" where
  "enter_position cfg t a s =
     (let day = day_of t; ts = timestamp_ms t
      in if capped_day cfg day s then s
         else (let s1 = s\<lparr>bs_counter := bs_counter s + 1\<rparr>
               in case simulate_fill cfg a (bs_counter s1) ts of
                    None \<Rightarrow> s1
                  | Some trd \<Rightarrow> s1\<lparr>bs_trades := bs_trades s1 @ [trd],
                      bs_enters := AList.update day (dict_get_or 0 (bs_enters s1) day + 1) (bs_enters s1),
                      bs_open := AList.update (if act_contract a \<noteq> [] then act_contract a else trd_symbol trd)
                        \<lparr>op_entry_price = trd_price trd, op_quantity = trd_quantity trd, op_side = trd_side trd,
                         op_entry_timestamp = ts, op_current_price = trd_price trd\<rparr> (bs_open s1),
                      bs_cash := dround (bs_cash s1 - dround (dround (dround (trd_price trd * trd_quantity trd) / backtest_leverage cfg) + trd_fee trd))\<rparr>))"

definition exit_pnl :: "open_position \<Rightarrow> rat \<Rightarrow> rat" where
  "exit_pnl p exit_price =
     (let diff = dround (exit_price - op_entry_price p);
          signed = (if upper (strip (op_side p)) \<in> {''BUY'', ''LONG''} then diff else - diff)
      in dround (signed * op_quantity p))"

definition exit_position :: "backtest_config \<Rightarrow> int \<Rightarrow> action_data \<Rightarrow> backtest_state \<Rightarrow> backtest_state" where
  "exit_position cfg t a s =
     (case map_of (bs_open s) (contract_key a) of
        None \<Rightarrow> s
      | Some p \<Rightarrow>
          (let exit_price = (case act_price a of None \<Rightarrow> 0 | Some x \<Rightarrow> x);
               pnl = exit_pnl p exit_price;
               commission = dround (dround (exit_price * op_quantity p) * bt_commission_pct cfg);
               n = bs_counter s + 1
           in s\<lparr>bs_open := AList.delete (contract_key a) (bs_open s), bs_counter := n,
                bs_trades := bs_trades s @
                  [\<lparr>trd_id = Some n, trd_position_id = None, trd_order_id = None, trd_symbol = act_contract a,
                    trd_side = (if act_side a = [] then ''SELL'' else act_side a), trd_quantity = op_quantity p,
                    trd_price = exit_price, trd_fee = commission, trd_pnl = Some pnl, trd_timestamp = timestamp_ms t\<rparr>],
                bs_cash := dround (bs_cash s + dround (dround (dround (dround (op_entry_price p * op_quantity p) / backtest_leverage cfg) + pnl) - commission)),
                bs_wins := (if 0 < pnl then dround (bs_wins s + pnl) else bs_wins s),
                bs_losses := (if 0 < pnl then bs_losses s else dround (bs_losses s + \<bar>pnl\<bar>))\<rparr>))"

definition process_action :: "backtest_config \<Rightarrow> int \<Rightarrow> action_data \<Rightarrow> backtest_state \<Rightarrow> backtest_state" where
  "process_action cfg t a s =
     (if act_type a = ENTER then enter_position cfg t a s
      else if act_type a = EXIT then exit_position cfg t a s else s)"

definition mark_price_of :: "action_data \<Rightarrow> backtest_state \<Rightarrow> backtest_state" where
  "mark_price_of a s =
     (let k = contract_key a
      in case (map_of (bs_open s) k, act_price a) of
           (Some p, Some x) \<Rightarrow> if k = [] then s else s\<lparr>bs_open := AList.update k (p\<lparr>op_current_price := x\<rparr>) (bs_open s)\<rparr>
         | _ \<Rightarrow> s)"

definition positions_value :: "(string, open_position) dict \<Rightarrow> rat" where
  "positions_value ps = rsum dround 0 (map (\<lambda>(k, p). dround (op_current_price p * op_quantity p)) ps)"

definition add_equity_point :: "int \<Rightarrow> backtest_state \<Rightarrow> backtest_state" where
  "add_equity_point t s =
     (let total = dround (bs_cash s + positions_value (bs_open s));
          dd = (if 0 < bs_peak s then dround (dround (bs_peak s - total) / bs_peak s) else 0)
      in s\<lparr>bs_peak := max (bs_peak s) total, bs_max_drawdown := max (bs_max_drawdown s) dd,
           bs_curve := bs_curve s @ [\<lparr>eq_timestamp = t, eq_equity = total, eq_drawdown = dd\<rparr>]\<rparr>)"

definition apply_actions :: "backtest_config \<Rightarrow> int \<Rightarrow> action_data list \<Rightarrow> backtest_state \<Rightarrow> backtest_state" where
  "apply_actions cfg t as s =
     add_equity_point t
       (fold mark_price_of as (fold (process_action cfg t) as (s\<lparr>bs_actions := bs_actions s @ as\<rparr>)))"

section \<open>The replay\<close>

type_synonym replayed = "nat \<Rightarrow> strategy_context \<Rightarrow> action_data list res"

text \<open>The context of an evaluation carries the configuration only (\<^verbatim>\<open>_build_context\<close>).\<close>

definition build_backtest_context :: strategy_context where
  "build_backtest_context = default_context"

definition step_backtest :: "backtest_config \<Rightarrow> replayed \<Rightarrow> nat \<Rightarrow> int \<Rightarrow> backtest_state \<Rightarrow> backtest_state" where
  "step_backtest cfg strat n t s =
     (case strat n build_backtest_context of
        Inl e \<Rightarrow> s
      | Inr as \<Rightarrow> if as = [] then s else apply_actions cfg t as s)"

partial_function (option) replay ::
  "backtest_config \<Rightarrow> replayed \<Rightarrow> int \<Rightarrow> int \<Rightarrow> nat \<Rightarrow> int \<Rightarrow> backtest_state \<Rightarrow> backtest_state res option" where
  "replay cfg strat stop h n t s =
     (if t < stop
      then (let s' = step_backtest cfg strat n t s
            in case add_hours t h of
                 Inl e \<Rightarrow> Some (Inl e)
               | Inr u \<Rightarrow> replay cfg strat stop h (n + 1) u s')
      else Some (Inr s))"

declare replay.simps [code]

definition init_backtest :: "backtest_config \<Rightarrow> backtest_state" where
  "init_backtest cfg = \<lparr>bs_trades = [], bs_actions = [], bs_curve = [], bs_cash = bt_starting_capital cfg,
     bs_peak = bt_starting_capital cfg, bs_max_drawdown = 0, bs_wins = 0, bs_losses = 0, bs_counter = 0,
     bs_open = [], bs_enters = []\<rparr>"

section \<open>Metrics\<close>

definition period_returns :: "rat list \<Rightarrow> rat list" where
  "period_returns es =
     map (\<lambda>(p, c). fround (fround (c - p) / p)) (filter (\<lambda>(p, c). 0 < p) (zip es (tl es)))"

definition stdev_float :: "rat list \<Rightarrow> rat" where
  "stdev_float xs =
     (let n = of_nat (length xs); sx = sum_list xs; sxx = sum_list (map (\<lambda>x. x * x) xs)
      in float_sqrt (((n * sxx - sx * sx) / n) / (n - 1)))"

definition calculate_sharpe :: "equity_point list \<Rightarrow> int \<Rightarrow> rat" where
  "calculate_sharpe curve h =
     (if length curve < 5 then 0
      else (let rs = period_returns (map (\<lambda>e. fround (eq_equity e)) curve)
            in if length rs < 2 then 0
               else (let avg = fround (sum_list rs / of_nat (length rs)); sd = stdev_float rs
                     in if sd = 0 then 0
                        else fround_places 4 (fround (fround (avg / sd) * float_sqrt (fround (8760 / of_int (max h 1))))))))"

definition trade_pnl :: "trade \<Rightarrow> rat" where
  "trade_pnl t = (case trd_pnl t of None \<Rightarrow> 0 | Some x \<Rightarrow> x)"

definition mean_dec :: "rat list \<Rightarrow> rat" where
  "mean_dec xs = (if xs = [] then 0 else dround (rsum dround 0 xs / of_nat (length xs)))"

definition backtest_metrics :: "backtest_config \<Rightarrow> int \<Rightarrow> int \<Rightarrow> int \<Rightarrow> backtest_state \<Rightarrow> backtest_result" where
  "backtest_metrics cfg start stop h s =
     (let pnls = map trade_pnl (bs_trades s);
          wins = filter (\<lambda>x. 0 < x) pnls; losses = filter (\<lambda>x. x < 0) pnls;
          n = length (filter (\<lambda>x. x \<noteq> 0) pnls);
          days = max 1 ((stop - start) div 86400000000);
          total = rsum dround 0 pnls;
          ret = (if 0 < bt_starting_capital cfg then dround (dround (total / bt_starting_capital cfg) * 100) else 0)
      in \<lparr>br_total_trades = n, br_winning_trades = length wins, br_losing_trades = length losses,
          br_win_rate = (if 0 < n then fround (of_nat (length wins) / of_nat n) else 0),
          br_total_pnl = total, br_max_drawdown = bs_max_drawdown s, br_sharpe_ratio = calculate_sharpe (bs_curve s) h,
          br_avg_win = mean_dec wins, br_avg_loss = mean_dec losses,
          br_profit_factor = (if 0 < bs_losses s then Some (fround (dround (bs_wins s / bs_losses s))) else None),
          br_total_commission = rsum dround 0 (map trd_fee (bs_trades s)),
          br_trades = bs_trades s, br_equity_curve = bs_curve s, br_actions = bs_actions s,
          br_return_pct = ret, br_annualised_return_pct = dround (ret * dround (365 / of_int days)), br_total_days = days\<rparr>)"

text \<open>\<open>None\<close>: the call does not return. Without a strategy it raises \<^verbatim>\<open>ValueError\<close>.\<close>

definition run_backtest :: "backtest_config \<Rightarrow> replayed option \<Rightarrow> int \<Rightarrow> int \<Rightarrow> int \<Rightarrow> backtest_result res option" where
  "run_backtest cfg strategy start stop h =
     (case strategy of
        None \<Rightarrow> Some (Inl ValueError)
      | Some strat \<Rightarrow>
          map_option (\<lambda>r. bindE r (\<lambda>s. Inr (backtest_metrics cfg start stop h s)))
            (replay cfg strat stop h 1 start (init_backtest cfg)))"

section \<open>Invariants of a replay\<close>

text \<open>
  What holds of a run: an invariant that every kind of state change keeps at the times the run evaluates, for
  the actions the strategy may emit. The client lemma is proved once by induction on the replay.
\<close>

locale replay_invariant =
  fixes cfg :: backtest_config and lo stop :: int and A :: "action_data \<Rightarrow> bool" and I :: "backtest_state \<Rightarrow> bool"
  assumes init: "I (init_backtest cfg)"
    and note_actions: "\<forall>a \<in> set as. A a \<Longrightarrow> I s \<Longrightarrow> I (s\<lparr>bs_actions := bs_actions s @ as\<rparr>)"
    and act: "lo \<le> t \<Longrightarrow> t < stop \<Longrightarrow> A a \<Longrightarrow> I s \<Longrightarrow> I (process_action cfg t a s)"
    and mark: "I s \<Longrightarrow> I (mark_price_of a s)"
    and equity: "lo \<le> t \<Longrightarrow> t < stop \<Longrightarrow> I s \<Longrightarrow> I (add_equity_point t s)"
begin

lemma fold_keeps: "(\<And>a s. a \<in> set as \<Longrightarrow> I s \<Longrightarrow> I (f a s)) \<Longrightarrow> I s \<Longrightarrow> I (fold f as s)"
  by (induction as arbitrary: s) auto

lemma step_keeps:
  assumes "lo \<le> t" "t < stop" "I s" and A: "\<And>as. strat n build_backtest_context = Inr as \<Longrightarrow> \<forall>a \<in> set as. A a"
  shows "I (step_backtest cfg strat n t s)"
proof (cases "strat n build_backtest_context")
  case (Inr as)
  have "I (fold mark_price_of as (fold (process_action cfg t) as (s\<lparr>bs_actions := bs_actions s @ as\<rparr>)))"
    using A[OF Inr] assms(1-3) by (intro fold_keeps mark act note_actions) auto
  then show ?thesis using assms(1-3) Inr by (simp add: step_backtest_def apply_actions_def equity)
qed (use assms in \<open>simp add: step_backtest_def\<close>)

lemma replay_keeps:
  assumes "replay cfg strat stop h n t s = Some (Inr s')" "0 \<le> h" "lo \<le> t" "I s"
    and A: "\<And>n as. strat n build_backtest_context = Inr as \<Longrightarrow> \<forall>a \<in> set as. A a"
  shows "I s'"
proof -
  have "\<forall>s'. r = Inr s' \<longrightarrow> c = cfg \<longrightarrow> d = strat \<longrightarrow> e = stop \<longrightarrow> 0 \<le> h \<longrightarrow> lo \<le> t \<longrightarrow> I s \<longrightarrow> I s'"
    if "replay c d e h n t s = Some r" for c d e h n t s r
    using that
  proof (induction rule: replay.raw_induct[rotated, where P = "\<lambda>c d e h n t s r. \<forall>s'. r = Inr s' \<longrightarrow> c = cfg \<longrightarrow> d = strat \<longrightarrow> e = stop \<longrightarrow> 0 \<le> h \<longrightarrow> lo \<le> t \<longrightarrow> I s \<longrightarrow> I s'", consumes 1])
    case (1 replay c d e h n t s r)
    show ?case
    proof (intro allI impI)
      fix s' assume a: "r = Inr s'" "c = cfg" "d = strat" "e = stop" "0 \<le> h" "lo \<le> t" "I s"
      show "I s'"
      proof (cases "t < e")
        case False with 1(2) a show ?thesis by simp
      next
        case True
        with 1(2) a(1) obtain u where u: "add_hours t h = Inr u" "replay c d e h (n + 1) u (step_backtest c d n t s) = Some r"
          by (auto simp: Let_def split: sum.splits)
        have "lo \<le> u" using u(1) a(5,6) by (auto simp: add_hours_def Let_def split: if_splits)
        with 1(1)[OF u(2)] a True step_keeps[of t s strat n] A show ?thesis by blast
      qed
    qed
  qed
  with assms show ?thesis by blast
qed

end

lemma run_backtest_Inr:
  "run_backtest cfg strategy start stop h = Some (Inr r) \<longleftrightarrow>
     (\<exists>strat s. strategy = Some strat \<and> replay cfg strat stop h 1 start (init_backtest cfg) = Some (Inr s)
        \<and> r = backtest_metrics cfg start stop h s)"
  by (auto simp: run_backtest_def bindE_Inr_iff split: option.splits)

section \<open>Termination\<close>

lemma replay_forward:
  assumes "0 < h" "DATETIME_MIN \<le> t"
  shows "\<exists>r. replay cfg strat stop h n t s = Some r \<and> (isl r \<longrightarrow> r = Inl OverflowError \<and> DATETIME_MAX < stop + h * 3600000000)"
  using assms
proof (induction "nat (stop - t)" arbitrary: n t s rule: less_induct)
  case less
  show ?case
  proof (cases "t < stop")
    case False then show ?thesis by (simp add: replay.simps)
  next
    case True
    show ?thesis
    proof (cases "add_hours t h")
      case (Inl e)
      then have "e = OverflowError" "DATETIME_MAX < t + h * 3600000000"
        using less.prems by (auto simp: add_hours_def Let_def split: if_splits)
      with True Inl show ?thesis by (simp add: replay.simps)
    next
      case (Inr u)
      then have u: "u = t + h * 3600000000" by (auto simp: add_hours_def Let_def split: if_splits)
      then have "nat (stop - u) < nat (stop - t)" "DATETIME_MIN \<le> u" using True less.prems by auto
      with less.hyps[of u] less.prems Inr True show ?thesis by (simp add: replay.simps[of _ _ _ _ n t])
    qed
  qed
qed

lemma replay_backward:
  assumes "h < 0" "t < stop"
  shows "replay cfg strat stop h n t s = Some (Inl OverflowError)"
  using assms
proof (induction "nat (t - DATETIME_MIN)" arbitrary: n t s rule: less_induct)
  case less
  show ?case
  proof (cases "add_hours t h")
    case (Inl e)
    then have "e = OverflowError" by (auto simp: add_hours_def Let_def split: if_splits)
    with less.prems Inl show ?thesis by (simp add: replay.simps)
  next
    case (Inr u)
    then have u: "u = t + h * 3600000000" "DATETIME_MIN \<le> u" by (auto simp: add_hours_def Let_def split: if_splits)
    then have "u < t" "nat (u - DATETIME_MIN) < nat (t - DATETIME_MIN)" using less.prems by auto
    with less.hyps[of u] less.prems Inr show ?thesis by (simp add: replay.simps[of _ _ _ _ n t])
  qed
qed

lemma replay_stuck:
  assumes "t < stop" "DATETIME_MIN \<le> t" "t \<le> DATETIME_MAX"
  shows "replay cfg strat stop 0 n t s = None"
proof -
  have "\<not> (h = 0 \<and> t < e \<and> DATETIME_MIN \<le> t \<and> t \<le> DATETIME_MAX)"
    if "replay c strat e h n t s = Some r" for c strat e h n t s r
    using that
    by (induction rule: replay.raw_induct[rotated, where P = "\<lambda>c strat e h n t s r. \<not> (h = 0 \<and> t < e \<and> DATETIME_MIN \<le> t \<and> t \<le> DATETIME_MAX)", consumes 1])
      (auto simp: Let_def add_hours_def split: if_splits)
  with assms show ?thesis by (cases "replay cfg strat stop 0 n t s") auto
qed

text \<open>
  \<^bold>\<open>C39\<close>. A backtest returns a result for every strategy and every interval of at least one hour whose last step stays in the
  range of datetimes; a negative interval ends in \<^verbatim>\<open>OverflowError\<close>; with an interval of zero hours a non-empty period is replayed
  for ever.
\<close>

theorem run_backtest_returns:
  assumes "DATETIME_MIN \<le> start" "start \<le> DATETIME_MAX"
  shows "(0 < h \<and> stop + h * 3600000000 \<le> DATETIME_MAX \<longrightarrow> (\<exists>r. run_backtest cfg (Some strat) start stop h = Some (Inr r)))
    \<and> (h < 0 \<and> start < stop \<longrightarrow> run_backtest cfg (Some strat) start stop h = Some (Inl OverflowError))
    \<and> (start < stop \<longrightarrow> run_backtest cfg (Some strat) start stop 0 = None)"
proof (intro conjI impI)
  assume h: "0 < h \<and> stop + h * 3600000000 \<le> DATETIME_MAX"
  with replay_forward[of h start cfg strat stop 1 "init_backtest cfg"] assms obtain r where
    r: "replay cfg strat stop h 1 start (init_backtest cfg) = Some r" "\<not> isl r" by auto
  then show "\<exists>r. run_backtest cfg (Some strat) start stop h = Some (Inr r)"
    by (cases r) (auto simp: run_backtest_def)
qed (use assms in \<open>simp_all add: run_backtest_def replay_backward replay_stuck\<close>)

lemma run_backtest_returns_witness:
  "(\<exists>r. run_backtest (\<lparr>bt_starting_capital = 1000, bt_commission_pct = 0, bt_slippage_pct = 0, bt_max_trades_per_day = 2, bt_leverage = PNone\<rparr>)
      (Some (\<lambda>n ctx. Inr [])) 0 86400000000 1 = Some (Inr r))"
  using run_backtest_returns[of 0 1 86400000000] by (simp add: DATETIME_MIN_def DATETIME_MAX_def)

section \<open>Entries and exits\<close>

lemma simulate_fill_fields:
  assumes "simulate_fill cfg a i ts = Some trd"
  shows "trd_symbol trd = act_contract a" "trd_pnl trd = Some 0" "trd_id trd = Some i" "trd_quantity trd = act_quantity a" "0 \<le> trd_price trd"
  using assms by (auto simp: simulate_fill_def Let_def split: option.splits if_splits)

definition opened :: "trade \<Rightarrow> int \<Rightarrow> open_position" where
  "opened trd ts = \<lparr>op_entry_price = trd_price trd, op_quantity = trd_quantity trd, op_side = trd_side trd,
     op_entry_timestamp = ts, op_current_price = trd_price trd\<rparr>"

lemma enter_position_cases:
  obtains (capped) "enter_position cfg t a s = s" "capped_day cfg (day_of t) s"
  | (unfilled) "enter_position cfg t a s = s\<lparr>bs_counter := bs_counter s + 1\<rparr>" "\<not> capped_day cfg (day_of t) s"
  | (filled) trd cash where "simulate_fill cfg a (bs_counter s + 1) (timestamp_ms t) = Some trd" "\<not> capped_day cfg (day_of t) s"
      "enter_position cfg t a s = s\<lparr>bs_trades := bs_trades s @ [trd], bs_cash := cash, bs_counter := bs_counter s + 1,
         bs_open := AList.update (trd_symbol trd) (opened trd (timestamp_ms t)) (bs_open s),
         bs_enters := AList.update (day_of t) (dict_get_or 0 (bs_enters s) (day_of t) + 1) (bs_enters s)\<rparr>"
proof (cases "capped_day cfg (day_of t) s")
  case True then show ?thesis by (intro capped) (simp_all add: enter_position_def Let_def)
next
  case False
  show ?thesis
  proof (cases "simulate_fill cfg a (bs_counter s + 1) (timestamp_ms t)")
    case None with False show ?thesis by (intro unfilled) (simp_all add: enter_position_def Let_def)
  next
    case (Some trd)
    have "(if act_contract a \<noteq> [] then act_contract a else trd_symbol trd) = trd_symbol trd"
      using simulate_fill_fields(1)[OF Some] by simp
    with False Some show ?thesis
      by (intro filled[of trd "bs_cash (enter_position cfg t a s)"]) (cases s, simp_all add: enter_position_def Let_def opened_def)
  qed
qed

lemma exit_position_cases:
  obtains (none) "exit_position cfg t a s = s"
  | (closed) p trd cash wins losses where "map_of (bs_open s) (contract_key a) = Some p"
      "trd_quantity trd = op_quantity p" "trd_pnl trd = Some (exit_pnl p (trd_price trd))" "trd_symbol trd = act_contract a"
      "exit_position cfg t a s = s\<lparr>bs_trades := bs_trades s @ [trd], bs_cash := cash, bs_counter := bs_counter s + 1,
         bs_open := AList.delete (contract_key a) (bs_open s), bs_wins := wins, bs_losses := losses\<rparr>"
      "wins = (if 0 < trade_pnl trd then dround (bs_wins s + trade_pnl trd) else bs_wins s)"
      "losses = (if 0 < trade_pnl trd then bs_losses s else dround (bs_losses s + \<bar>trade_pnl trd\<bar>))"
proof (cases "map_of (bs_open s) (contract_key a)")
  case None then show ?thesis by (intro none) (simp add: exit_position_def)
next
  case (Some p)
  show ?thesis
    by (rule closed[OF Some, where trd = "\<lparr>trd_id = Some (bs_counter s + 1), trd_position_id = None, trd_order_id = None,
            trd_symbol = act_contract a, trd_side = (if act_side a = [] then ''SELL'' else act_side a), trd_quantity = op_quantity p,
            trd_price = (case act_price a of None \<Rightarrow> 0 | Some x \<Rightarrow> x),
            trd_fee = dround (dround ((case act_price a of None \<Rightarrow> 0 | Some x \<Rightarrow> x) * op_quantity p) * bt_commission_pct cfg),
            trd_pnl = Some (exit_pnl p (case act_price a of None \<Rightarrow> 0 | Some x \<Rightarrow> x)), trd_timestamp = timestamp_ms t\<rparr>"
            and cash = "bs_cash (exit_position cfg t a s)" and wins = "bs_wins (exit_position cfg t a s)"
            and losses = "bs_losses (exit_position cfg t a s)"])
      (cases s, use Some in \<open>simp_all add: exit_position_def Let_def trade_pnl_def\<close>)
qed

lemma mark_price_cases:
  obtains (same) "mark_price_of a s = s"
  | (marked) p x where "map_of (bs_open s) (contract_key a) = Some p"
      "mark_price_of a s = s\<lparr>bs_open := AList.update (contract_key a) (p\<lparr>op_current_price := x\<rparr>) (bs_open s)\<rparr>"
proof (cases "map_of (bs_open s) (contract_key a) = None \<or> act_price a = None \<or> contract_key a = []")
  case True
  then show ?thesis by (intro same) (auto simp: mark_price_of_def Let_def split: option.splits)
next
  case False
  then obtain p x where "map_of (bs_open s) (contract_key a) = Some p" "act_price a = Some x" by auto
  with False show ?thesis by (intro marked[of p x]) (simp_all add: mark_price_of_def)
qed

lemma add_equity_point_frame:
  "bs_trades (add_equity_point t s) = bs_trades s" "bs_open (add_equity_point t s) = bs_open s"
  "bs_enters (add_equity_point t s) = bs_enters s" "bs_wins (add_equity_point t s) = bs_wins s"
  "bs_losses (add_equity_point t s) = bs_losses s"
  by (simp_all add: add_equity_point_def Let_def)

text \<open>
  The pairing of exits with entries: \<open>X\<close> are the exits among the trades, \<open>f\<close> gives the entry each one closes_entry, and
  \<open>g\<close> the entry behind each open position; no entry is closed twice.
\<close>

definition closes_entry :: "trade \<Rightarrow> trade \<Rightarrow> bool" where
  "closes_entry e t = (trd_pnl e = Some 0 \<and> trd_quantity t = trd_quantity e \<and> (trd_symbol t \<noteq> [] \<longrightarrow> trd_symbol e = trd_symbol t)
     \<and> trd_pnl t = Some (exit_pnl (opened e 0) (trd_price t)))"

definition stands_for :: "trade \<Rightarrow> open_position \<Rightarrow> bool" where
  "stands_for e p = (op_entry_price p = trd_price e \<and> op_quantity p = trd_quantity e \<and> op_side p = trd_side e)"

definition paired :: "trade list \<Rightarrow> nat set \<Rightarrow> (nat \<Rightarrow> nat) \<Rightarrow> bool" where
  "paired T X f = (X \<subseteq> {..<length T} \<and> inj_on f X \<and> (\<forall>j\<in>X. f j < j \<and> f j \<notin> X \<and> closes_entry (T ! f j) (T ! j))
     \<and> (\<forall>j<length T. j \<notin> X \<longrightarrow> trd_pnl (T ! j) = Some 0))"

definition backed :: "trade list \<Rightarrow> nat set \<Rightarrow> (nat \<Rightarrow> nat) \<Rightarrow> (string \<Rightarrow> nat) \<Rightarrow> (string \<rightharpoonup> open_position) \<Rightarrow> bool" where
  "backed T X f g m = (inj_on g (dom m) \<and> (\<forall>k p. m k = Some p \<longrightarrow>
     g k < length T \<and> g k \<notin> X \<and> g k \<notin> f ` X \<and> stands_for (T ! g k) p \<and> trd_symbol (T ! g k) = k))"

definition trades_paired :: "backtest_state \<Rightarrow> bool" where
  "trades_paired s = (\<exists>X f g. paired (bs_trades s) X f \<and> backed (bs_trades s) X f g (map_of (bs_open s)))"

lemma paired_snoc_entry: "paired T X f \<Longrightarrow> trd_pnl e = Some 0 \<Longrightarrow> paired (T @ [e]) X f"
  by (auto simp: paired_def nth_append less_Suc_eq)

lemma exit_pnl_stands: "stands_for e p \<Longrightarrow> exit_pnl (opened e ts) x = exit_pnl p x"
  by (simp add: exit_pnl_def stands_for_def opened_def)

lemma paired_snoc_exit:
  assumes "paired T X f" "i < length T" "i \<notin> X" "i \<notin> f ` X" "closes_entry (T ! i) t"
  shows "paired (T @ [t]) (insert (length T) X) (f(length T := i))"
proof -
  have X: "X \<subseteq> {..<length T}" using assms(1) by (simp add: paired_def)
  then have ne: "j \<noteq> length T" if "j \<in> X" for j using that by auto
  have "inj_on (f(length T := i)) (insert (length T) X)"
    using assms(1,4) ne by (auto simp: paired_def inj_on_def)
  then show ?thesis using assms X ne
    by (auto simp: paired_def nth_append less_Suc_eq dest: less_trans)
qed

lemma backed_enter:
  assumes "backed T X f g m" "length T \<notin> X" "length T \<notin> f ` X"
  shows "backed (T @ [e]) X f (g(trd_symbol e := length T)) (m(trd_symbol e \<mapsto> opened e ts))"
proof -
  have lt: "g k < length T" "g k \<notin> X" "g k \<notin> f ` X" "stands_for (T ! g k) p" "trd_symbol (T ! g k) = k" if "m k = Some p" for k p
    using assms(1) that by (auto simp: backed_def)
  have "inj_on (g(trd_symbol e := length T)) (dom (m(trd_symbol e \<mapsto> opened e ts)))"
  proof (rule inj_onI)
    fix x y assume d: "x \<in> dom (m(trd_symbol e \<mapsto> opened e ts))" "y \<in> dom (m(trd_symbol e \<mapsto> opened e ts))"
      and eq: "(g(trd_symbol e := length T)) x = (g(trd_symbol e := length T)) y"
    have old: "g z < length T" if "z \<in> dom (m(trd_symbol e \<mapsto> opened e ts))" "z \<noteq> trd_symbol e" for z
      using that lt(1) by (auto split: if_splits)
    show "x = y"
    proof (cases "x = trd_symbol e \<or> y = trd_symbol e")
      case True then show ?thesis using d eq old[of x] old[of y] by (auto split: if_splits)
    next
      case False
      with d have "x \<in> dom m" "y \<in> dom m" by (auto split: if_splits)
      with False eq assms(1) show ?thesis by (simp add: backed_def inj_on_def)
    qed
  qed
  moreover have "(g(trd_symbol e := length T)) k < length (T @ [e]) \<and> (g(trd_symbol e := length T)) k \<notin> X
      \<and> (g(trd_symbol e := length T)) k \<notin> f ` X \<and> stands_for ((T @ [e]) ! (g(trd_symbol e := length T)) k) p
      \<and> trd_symbol ((T @ [e]) ! (g(trd_symbol e := length T)) k) = k"
    if "(m(trd_symbol e \<mapsto> opened e ts)) k = Some p" for k p
  proof (cases "k = trd_symbol e")
    case True with that assms(2,3) show ?thesis by (auto simp: stands_for_def opened_def)
  next
    case False
    with that have "m k = Some p" by simp
    from lt[OF this] False show ?thesis by (simp add: nth_append)
  qed
  ultimately show ?thesis unfolding backed_def by blast
qed

lemma trades_paired_init: "trades_paired (init_backtest cfg)"
  by (auto simp: trades_paired_def init_backtest_def paired_def backed_def intro!: exI[of _ "{}"])

lemma trades_paired_enter:
  assumes "trades_paired s" shows "trades_paired (enter_position cfg t a s)"
proof (cases rule: enter_position_cases[of cfg t a s])
  case (filled trd cash)
  note F = simulate_fill_fields[OF filled(1)]
  from assms obtain X f g where P: "paired (bs_trades s) X f" "backed (bs_trades s) X f g (map_of (bs_open s))"
    by (auto simp: trades_paired_def)
  let ?n = "length (bs_trades s)"
  have "?n \<notin> X" "?n \<notin> f ` X" using P(1) by (force simp: paired_def)+
  from backed_enter[OF P(2) this]
  have "backed (bs_trades s @ [trd]) X f (g(trd_symbol trd := ?n)) (map_of (AList.update (trd_symbol trd) (opened trd (timestamp_ms t)) (bs_open s)))"
    by (simp add: update_conv')
  moreover have "paired (bs_trades s @ [trd]) X f" by (rule paired_snoc_entry[OF P(1) F(2)])
  ultimately show ?thesis unfolding trades_paired_def filled(3) by auto
qed (use assms in \<open>simp_all add: trades_paired_def\<close>)

lemma trades_paired_exit:
  assumes "trades_paired s" shows "trades_paired (exit_position cfg t a s)"
proof (cases rule: exit_position_cases[of cfg t a s])
  case (closed p trd cash wins losses)
  from assms obtain X f g where P: "paired (bs_trades s) X f" "backed (bs_trades s) X f g (map_of (bs_open s))"
    by (auto simp: trades_paired_def)
  let ?n = "length (bs_trades s)" and ?k = "contract_key a"
  let ?i = "g ?k"
  have i: "?i < ?n" "?i \<notin> X" "?i \<notin> f ` X" "stands_for (bs_trades s ! ?i) p" "trd_symbol (bs_trades s ! ?i) = ?k"
    using P(2) closed(1) by (auto simp: backed_def)
  have "closes_entry (bs_trades s ! ?i) trd"
    using i P(1) closed(2-4) exit_pnl_stands[OF i(4), of 0]
    by (auto simp: closes_entry_def paired_def stands_for_def contract_key_def split: if_splits)
  from paired_snoc_exit[OF P(1) i(1-3) this]
  have 1: "paired (bs_trades s @ [trd]) (insert ?n X) (f(?n := ?i))" .
  have X: "X \<subseteq> {..<?n}" using P(1) by (simp add: paired_def)
  have inj: "g k \<noteq> ?i" if "map_of (bs_open s) k = Some q" "k \<noteq> ?k" for k q
    using P(2) closed(1) that by (auto simp: backed_def inj_on_def dom_def)
  have "inj_on g (dom (map_of (AList.delete ?k (bs_open s))))"
    using P(2) by (auto simp: backed_def delete_conv' inj_on_def dom_def split: if_splits)
  moreover have "f(?n := ?i) ` insert ?n X = insert ?i (f ` X)" using X by (auto simp: fun_upd_image)
  ultimately have 2: "backed (bs_trades s @ [trd]) (insert ?n X) (f(?n := ?i)) g (map_of (AList.delete ?k (bs_open s)))"
    using P(2) inj unfolding backed_def by (force simp: delete_conv' nth_append split: if_splits)
  show ?thesis using 1 2 unfolding trades_paired_def closed(5) by auto
qed (use assms in simp)

lemma trades_paired_mark:
  assumes "trades_paired s" shows "trades_paired (mark_price_of a s)"
proof (cases rule: mark_price_cases[of a s])
  case (marked p x)
  from assms obtain X f g where P: "paired (bs_trades s) X f" "backed (bs_trades s) X f g (map_of (bs_open s))"
    by (auto simp: trades_paired_def)
  have "dom (map_of (AList.update (contract_key a) (p\<lparr>op_current_price := x\<rparr>) (bs_open s))) = dom (map_of (bs_open s))"
    using marked(1) by (auto simp: update_conv' dom_def)
  then have "backed (bs_trades s) X f g (map_of (AList.update (contract_key a) (p\<lparr>op_current_price := x\<rparr>) (bs_open s)))"
    using P(2) marked(1) by (auto simp: backed_def update_conv' stands_for_def)
  with P(1) show ?thesis unfolding trades_paired_def marked(2) by auto
qed (use assms in simp)

interpretation pairing: replay_invariant cfg lo stop "\<lambda>_. True" trades_paired for cfg lo stop
  by unfold_locales
    (simp_all add: process_action_def trades_paired_init trades_paired_enter trades_paired_exit trades_paired_mark, simp_all add: trades_paired_def add_equity_point_frame)


section \<open>The cap on entries\<close>

definition entries :: "backtest_state \<Rightarrow> int" where
  "entries s = sum_list (map snd (bs_enters s))"

definition entries_capped :: "backtest_config \<Rightarrow> int \<Rightarrow> int \<Rightarrow> backtest_state \<Rightarrow> bool" where
  "entries_capped cfg lo stop s =
     (distinct (map fst (bs_enters s))
      \<and> (\<forall>(d, c) \<in> set (bs_enters s). day_of lo \<le> d \<and> d \<le> day_of (stop - 1) \<and> 0 \<le> c \<and> (0 < bt_max_trades_per_day cfg \<longrightarrow> c \<le> bt_max_trades_per_day cfg))
      \<and> int (length (bs_trades s)) + int (length (bs_open s)) \<le> 2 * entries s)"

lemma sum_list_update_count:
  "sum_list (map snd (AList.update k (dict_get_or 0 d k + 1) d)) = sum_list (map snd d) + (1 :: int)"
  by (induction d) (auto simp: dict_get_or_def)

lemma set_update_keys: "set (AList.update k v d) \<subseteq> insert (k, v) (set d)"
  by (induction d) auto

lemma sum_list_le_cap: "\<forall>c \<in> set cs. c \<le> (m :: int) \<Longrightarrow> sum_list cs \<le> m * int (length cs)"
  by (induction cs) (auto simp: algebra_simps)

lemma length_delete_present: "map_of d k = Some v \<Longrightarrow> length (AList.delete k d) < length d"
proof (induction d)
  case (Cons x d)
  have "length (AList.delete k d) \<le> length d" by (simp add: length_delete_le)
  with Cons show ?case by (cases x) (auto split: if_splits)
qed simp

lemma entries_capped_enter:
  assumes "lo \<le> t" "t < stop" "entries_capped cfg lo stop s"
  shows "entries_capped cfg lo stop (enter_position cfg t a s)"
proof (cases rule: enter_position_cases[of cfg t a s])
  case (filled trd cash)
  let ?d = "day_of t" and ?E = "bs_enters s"
  let ?c = "dict_get_or 0 ?E ?d"
  have d: "day_of lo \<le> ?d" "?d \<le> day_of (stop - 1)" using assms(1,2) by (auto simp: day_of_def intro: zdiv_mono1)
  have old: "\<forall>(d, c) \<in> set ?E. day_of lo \<le> d \<and> d \<le> day_of (stop - 1) \<and> 0 \<le> c \<and> (0 < bt_max_trades_per_day cfg \<longrightarrow> c \<le> bt_max_trades_per_day cfg)"
    using assms(3) by (simp add: entries_capped_def)
  have c: "0 \<le> ?c" using old by (auto simp: dict_get_or_def split: option.splits dest!: map_of_SomeD)
  have cap: "0 < bt_max_trades_per_day cfg \<longrightarrow> ?c + 1 \<le> bt_max_trades_per_day cfg" using filled(2) by (auto simp: capped_day_def)
  have "\<forall>(d, c) \<in> set (AList.update ?d (?c + 1) ?E). day_of lo \<le> d \<and> d \<le> day_of (stop - 1) \<and> 0 \<le> c
      \<and> (0 < bt_max_trades_per_day cfg \<longrightarrow> c \<le> bt_max_trades_per_day cfg)"
  proof (rule ballI)
    fix x assume "x \<in> set (AList.update ?d (?c + 1) ?E)"
    then consider "x = (?d, ?c + 1)" | "x \<in> set ?E" using set_update_keys by fast
    then show "case x of (d, c) \<Rightarrow> day_of lo \<le> d \<and> d \<le> day_of (stop - 1) \<and> 0 \<le> c
      \<and> (0 < bt_max_trades_per_day cfg \<longrightarrow> c \<le> bt_max_trades_per_day cfg)"
    proof cases
      case 1 with d c cap show ?thesis by simp
    next
      case 2 with old show ?thesis by blast
    qed
  qed
  moreover have "length (AList.update (trd_symbol trd) (opened trd (timestamp_ms t)) (bs_open s)) \<le> Suc (length (bs_open s))"
    by (simp add: length_update)
  ultimately show ?thesis using assms(3)
    unfolding entries_capped_def entries_def filled(3) by (simp add: sum_list_update_count distinct_keys_update)
qed (use assms in \<open>simp_all add: entries_capped_def entries_def\<close>)

lemma entries_capped_exit:
  assumes "entries_capped cfg lo stop s" shows "entries_capped cfg lo stop (exit_position cfg t a s)"
proof (cases rule: exit_position_cases[of cfg t a s])
  case (closed p trd cash wins losses)
  show ?thesis using assms length_delete_present[OF closed(1)] unfolding entries_capped_def entries_def closed(5) by simp
qed (use assms in simp)

lemma entries_capped_mark:
  assumes "entries_capped cfg lo stop s" shows "entries_capped cfg lo stop (mark_price_of a s)"
proof (cases rule: mark_price_cases[of a s])
  case (marked p x)
  show ?thesis using assms marked(1) unfolding entries_capped_def entries_def marked(2) by (simp add: length_update)
qed (use assms in simp)

interpretation capping: replay_invariant cfg lo stop "\<lambda>_. True" "entries_capped cfg lo stop" for cfg lo stop
  by unfold_locales
    (simp_all add: process_action_def entries_capped_enter entries_capped_exit entries_capped_mark,
     simp_all add: entries_capped_def entries_def add_equity_point_frame init_backtest_def)

lemma entries_bound:
  assumes "entries_capped cfg lo stop s" "0 < bt_max_trades_per_day cfg" "lo < stop"
  shows "entries s \<le> bt_max_trades_per_day cfg * (day_of (stop - 1) - day_of lo + 1)"
proof -
  let ?E = "bs_enters s" and ?m = "bt_max_trades_per_day cfg"
  have "\<forall>c \<in> set (map snd ?E). c \<le> ?m" using assms(1,2) by (auto simp: entries_capped_def)
  then have "entries s \<le> ?m * int (length ?E)"
    using sum_list_le_cap[of "map snd ?E" ?m] by (simp add: entries_def)
  moreover have "int (length ?E) \<le> day_of (stop - 1) - day_of lo + 1"
  proof -
    have "fst ` set ?E \<subseteq> {day_of lo..day_of (stop - 1)}" using assms(1) by (auto simp: entries_capped_def)
    then have "card (fst ` set ?E) \<le> nat (day_of (stop - 1) - day_of lo + 1)" using card_mono[of "{day_of lo..day_of (stop - 1)}"] by force
    moreover have "card (fst ` set ?E) = length ?E" using assms(1) distinct_card[of "map fst ?E"] by (simp add: entries_capped_def)
    moreover have "day_of lo \<le> day_of (stop - 1)" using assms(3) by (auto simp: day_of_def intro: zdiv_mono1)
    ultimately show ?thesis by linarith
  qed
  ultimately show ?thesis using assms(2) by (smt (verit) mult_left_mono)
qed

text \<open>
  With a daily cap, a backtest books at most two trades (an entry and its exit) per permitted entry and calendar day of the
  period, for every strategy.
\<close>

lemma backtest_trades_capped:
  assumes "run_backtest cfg (Some strat) start stop h = Some (Inr r)" "0 \<le> h" "start < stop" "0 < bt_max_trades_per_day cfg"
  shows "int (length (br_trades r)) \<le> 2 * bt_max_trades_per_day cfg * (day_of (stop - 1) - day_of start + 1)"
proof -
  from assms(1) obtain s where s: "replay cfg strat stop h 1 start (init_backtest cfg) = Some (Inr s)" "br_trades r = bs_trades s"
    by (auto simp: run_backtest_Inr backtest_metrics_def Let_def)
  from capping.replay_keeps[OF s(1) assms(2) order_refl capping.init] have I: "entries_capped cfg start stop s" by simp
  then have "int (length (bs_trades s)) \<le> 2 * entries s" by (simp add: entries_capped_def)
  with entries_bound[OF I assms(4,3)] show ?thesis unfolding s(2) by (simp add: mult.assoc)
qed

section \<open>The equity curve\<close>

definition curve_sound :: "backtest_config \<Rightarrow> backtest_state \<Rightarrow> bool" where
  "curve_sound cfg s =
     (bs_peak s = Max (insert (bt_starting_capital cfg) (eq_equity ` set (bs_curve s)))
      \<and> bs_max_drawdown s = Max (insert 0 (eq_drawdown ` set (bs_curve s)))
      \<and> (\<forall>i<length (bs_curve s).
           let peak = Max (insert (bt_starting_capital cfg) (eq_equity ` set (take i (bs_curve s)))); e = eq_equity (bs_curve s ! i)
           in eq_drawdown (bs_curve s ! i) = (if 0 < peak then dround (dround (peak - e) / peak) else 0)))"

lemma curve_sound_equity:
  assumes "curve_sound cfg s" shows "curve_sound cfg (add_equity_point t s)"
proof -
  let ?c = "bs_curve s" and ?k = "bt_starting_capital cfg"
  define e where "e = dround (bs_cash s + positions_value (bs_open s))"
  define dd where "dd = (if 0 < bs_peak s then dround (dround (bs_peak s - e) / bs_peak s) else 0)"
  have s': "bs_peak (add_equity_point t s) = max (bs_peak s) e" "bs_max_drawdown (add_equity_point t s) = max (bs_max_drawdown s) dd"
    "bs_curve (add_equity_point t s) = ?c @ [\<lparr>eq_timestamp = t, eq_equity = e, eq_drawdown = dd\<rparr>]"
    by (simp_all add: add_equity_point_def Let_def e_def dd_def)
  have p: "bs_peak s = Max (insert ?k (eq_equity ` set ?c))" and m: "bs_max_drawdown s = Max (insert 0 (eq_drawdown ` set ?c))"
    and old: "\<And>i. i < length ?c \<Longrightarrow> let peak = Max (insert ?k (eq_equity ` set (take i ?c))); e = eq_equity (?c ! i)
           in eq_drawdown (?c ! i) = (if 0 < peak then dround (dround (peak - e) / peak) else 0)"
    using assms by (simp_all add: curve_sound_def)
  have ins: "Max (insert z (insert y A)) = max (Max (insert z A)) y" if "finite A" for z y :: rat and A
    using that by (simp add: insert_commute[of z y] max.commute)
  have "max (bs_peak s) e = Max (insert ?k (insert e (eq_equity ` set ?c)))" unfolding p by (subst ins) simp_all
  moreover have "max (bs_max_drawdown s) dd = Max (insert 0 (insert dd (eq_drawdown ` set ?c)))" unfolding m by (subst ins) simp_all
  moreover have "let peak = Max (insert ?k (eq_equity ` set (take i (bs_curve (add_equity_point t s)))));
        x = eq_equity (bs_curve (add_equity_point t s) ! i)
      in eq_drawdown (bs_curve (add_equity_point t s) ! i) = (if 0 < peak then dround (dround (peak - x) / peak) else 0)"
    if "i < length (bs_curve (add_equity_point t s))" for i
  proof (cases "i < length ?c")
    case True with old[OF True] show ?thesis by (simp add: s' nth_append)
  next
    case False
    with that have "i = length ?c" by (simp add: s')
    then show ?thesis by (simp add: s' dd_def p[symmetric])
  qed
  ultimately show ?thesis unfolding curve_sound_def by (simp add: s' insert_commute)
qed

interpretation curve: replay_invariant cfg lo stop "\<lambda>_. True" "curve_sound cfg" for cfg lo stop
proof unfold_locales
  show "curve_sound cfg (init_backtest cfg)" by (simp add: curve_sound_def init_backtest_def)
next
  fix t a s assume "curve_sound cfg s"
  moreover have "curve_sound cfg (s\<lparr>bs_trades := x1, bs_cash := x2, bs_counter := x3, bs_open := x4, bs_enters := x5\<rparr>) = curve_sound cfg s"
    "curve_sound cfg (s\<lparr>bs_trades := x1, bs_cash := x2, bs_counter := x3, bs_open := x4, bs_wins := x6, bs_losses := x7\<rparr>) = curve_sound cfg s"
    "curve_sound cfg (s\<lparr>bs_counter := x3\<rparr>) = curve_sound cfg s" "curve_sound cfg (s\<lparr>bs_open := x4\<rparr>) = curve_sound cfg s" for x1 x2 x3 x4 x5 x6 x7
    by (simp_all add: curve_sound_def)
  ultimately have I: "curve_sound cfg s" and frame: "\<And>x1 x2 x3 x4 x5. curve_sound cfg (s\<lparr>bs_trades := x1, bs_cash := x2, bs_counter := x3, bs_open := x4, bs_enters := x5\<rparr>)"
    "\<And>x1 x2 x3 x4 x6 x7. curve_sound cfg (s\<lparr>bs_trades := x1, bs_cash := x2, bs_counter := x3, bs_open := x4, bs_wins := x6, bs_losses := x7\<rparr>)"
    "\<And>x3. curve_sound cfg (s\<lparr>bs_counter := x3\<rparr>)" "\<And>x4. curve_sound cfg (s\<lparr>bs_open := x4\<rparr>)" by simp_all
  have "curve_sound cfg (enter_position cfg t a s)" by (cases rule: enter_position_cases[of cfg t a s]) (simp_all add: frame I)
  moreover have "curve_sound cfg (exit_position cfg t a s)" by (cases rule: exit_position_cases[of cfg t a s]) (simp_all add: frame I)
  ultimately show "curve_sound cfg (process_action cfg t a s)" by (simp add: process_action_def I)
  show "curve_sound cfg (mark_price_of a s)" by (cases rule: mark_price_cases[of a s]) (simp_all add: frame I)
qed (simp_all add: curve_sound_equity, simp add: curve_sound_def)

text \<open>
  The drawdown of each point of the equity curve is its relative distance to the highest equity before it, the starting
  capital included, and the reported maximum drawdown is the greatest of them, at least zero.
\<close>

lemma backtest_drawdown:
  assumes "run_backtest cfg (Some strat) start stop h = Some (Inr r)" "0 \<le> h"
  shows "br_max_drawdown r = Max (insert 0 (eq_drawdown ` set (br_equity_curve r)))
    \<and> (\<forall>i<length (br_equity_curve r).
         let peak = Max (insert (bt_starting_capital cfg) (eq_equity ` set (take i (br_equity_curve r)))); e = eq_equity (br_equity_curve r ! i)
         in eq_drawdown (br_equity_curve r ! i) = (if 0 < peak then dround (dround (peak - e) / peak) else 0))"
proof -
  from assms(1) obtain s where s: "replay cfg strat stop h 1 start (init_backtest cfg) = Some (Inr s)"
    "br_equity_curve r = bs_curve s" "br_max_drawdown r = bs_max_drawdown s"
    by (auto simp: run_backtest_Inr backtest_metrics_def Let_def)
  from curve.replay_keeps[OF s(1) assms(2) order_refl curve.init] show ?thesis
    unfolding s(2,3) curve_sound_def by blast
qed


section \<open>Statistics\<close>

definition stats_sound :: "backtest_state \<Rightarrow> bool" where
  "stats_sound s = (let pnls = map trade_pnl (bs_trades s) in
     bs_wins s = rsum dround 0 (filter (\<lambda>x. 0 < x) pnls)
     \<and> bs_losses s = rsum dround 0 (map abs (filter (\<lambda>x. x < 0) pnls)))"

lemma stats_sound_snoc:
  assumes "stats_sound s" "bs_trades s' = bs_trades s @ [trd]"
    "bs_wins s' = (if 0 < trade_pnl trd then dround (bs_wins s + trade_pnl trd) else bs_wins s)"
    "bs_losses s' = (if 0 < trade_pnl trd then bs_losses s else dround (bs_losses s + \<bar>trade_pnl trd\<bar>))"
  shows "stats_sound s'"
proof -
  have "dround (bs_losses s) = bs_losses s" using assms(1) by (simp add: stats_sound_def Let_def dec.rnd_rsum)
  with assms show ?thesis
    by (cases "trade_pnl trd" "0 :: rat" rule: linorder_cases) (auto simp: stats_sound_def Let_def rsum_append)
qed

lemma stats_sound_exit: "stats_sound s \<Longrightarrow> stats_sound (exit_position cfg t a s)"
proof (cases rule: exit_position_cases[of cfg t a s])
  case (closed p trd cash wins losses)
  assume "stats_sound s" then show ?thesis by (rule stats_sound_snoc[of _ _ trd]) (simp_all add: closed(5-7))
qed simp

lemma stats_sound_enter: "stats_sound s \<Longrightarrow> stats_sound (enter_position cfg t a s)"
proof (cases rule: enter_position_cases[of cfg t a s])
  case (filled trd cash)
  assume I: "stats_sound s"
  have "trade_pnl trd = 0" using simulate_fill_fields(2)[OF filled(1)] by (simp add: trade_pnl_def)
  with I show ?thesis by (simp add: filled(3) stats_sound_def Let_def)
qed (simp_all add: stats_sound_def)

lemma stats_sound_mark: "stats_sound s \<Longrightarrow> stats_sound (mark_price_of a s)"
  by (cases rule: mark_price_cases[of a s]) (simp_all add: stats_sound_def)

interpretation statistics: replay_invariant cfg lo stop "\<lambda>_. True" stats_sound for cfg lo stop
  by unfold_locales
    (simp_all add: process_action_def stats_sound_enter stats_sound_exit stats_sound_mark,
     simp_all add: stats_sound_def add_equity_point_frame init_backtest_def)

lemma rsum_pos: "\<forall>x \<in> set xs. 0 < x \<Longrightarrow> xs \<noteq> [] \<Longrightarrow> 0 \<le> s \<Longrightarrow> 0 < rsum dround s xs"
proof (induction xs arbitrary: s)
  case (Cons x xs)
  have "0 < dround (s + x)" using Cons.prems by simp
  with Cons.IH[of "dround (s + x)"] Cons.prems show ?case by (cases "xs = []") simp_all
qed simp

lemma filter_signs: "length (filter (\<lambda>x. x \<noteq> 0) xs) = length (filter (\<lambda>x. 0 < x) xs) + length (filter (\<lambda>x. x < (0 :: rat)) xs)"
  by (induction xs) auto

lemma gains_ratio: "of_nat (length (filter (\<lambda>x. 0 < x) xs)) / of_nat (length (filter (\<lambda>x. x \<noteq> (0 :: rat)) xs)) \<le> (1 :: rat)"
  unfolding filter_signs by (simp add: divide_le_eq)

text \<open>
  The reported counts are those of the trades with a PnL, wins and losses add up to the total, the win rate lies between 0 and 1,
  the profit factor is the quotient of the summed gains and losses, and it is infinite exactly when no trade lost.
\<close>

lemma backtest_statistics:
  assumes "run_backtest cfg (Some strat) start stop h = Some (Inr r)" "0 \<le> h"
  shows "let gains = filter (\<lambda>x. 0 < x) (map trade_pnl (br_trades r)); falls = map abs (filter (\<lambda>x. x < 0) (map trade_pnl (br_trades r)))
    in br_total_trades r = br_winning_trades r + br_losing_trades r \<and> br_winning_trades r = length gains \<and> br_losing_trades r = length falls
     \<and> 0 \<le> br_win_rate r \<and> br_win_rate r \<le> 1
     \<and> br_profit_factor r = (if falls = [] then None else Some (fround (dround (rsum dround 0 gains / rsum dround 0 falls))))"
proof -
  from assms(1) obtain s where s: "replay cfg strat stop h 1 start (init_backtest cfg) = Some (Inr s)"
    "r = backtest_metrics cfg start stop h s" by (auto simp: run_backtest_Inr)
  from statistics.replay_keeps[OF s(1) assms(2) order_refl statistics.init] have I: "stats_sound s" by simp
  let ?p = "map trade_pnl (bs_trades s)"
  let ?w = "filter (\<lambda>x. 0 < x) ?p" and ?l = "filter (\<lambda>x. x < 0) ?p"
  let ?n = "length (filter (\<lambda>x. x \<noteq> 0) ?p)"
  have f: "br_trades r = bs_trades s" "br_total_trades r = ?n" "br_winning_trades r = length ?w" "br_losing_trades r = length ?l"
    "br_win_rate r = (if 0 < ?n then fround (of_nat (length ?w) / of_nat ?n) else 0)"
    "br_profit_factor r = (if 0 < bs_losses s then Some (fround (dround (bs_wins s / bs_losses s))) else None)"
    unfolding s(2) backtest_metrics_def Let_def by (simp_all del: filter_map length_greater_0_conv length_map)
  have "(of_nat (length ?w) / of_nat ?n :: rat) \<le> 1" by (rule gains_ratio)
  then have "0 \<le> fround (of_nat (length ?w) / of_nat ?n)" "fround (of_nat (length ?w) / of_nat ?n) \<le> 1"
    using flt.rnd_le_rep[OF fround_1] by (blast intro: flt.rnd_nonneg divide_nonneg_nonneg of_nat_0_le_iff)+
  then have "0 \<le> br_win_rate r" "br_win_rate r \<le> 1" 
    unfolding f(5) by (cases "0 < ?n"; simp only: if_True if_False order_refl zero_le_one simp_thms)+
  moreover have "0 < bs_losses s \<longleftrightarrow> map abs ?l \<noteq> []"
    using I rsum_pos[of "map abs ?l" 0] by (auto simp: stats_sound_def Let_def)
  ultimately show ?thesis using I by (simp add: f Let_def filter_signs stats_sound_def)
qed

section \<open>Strategies without ENTER\<close>

definition untraded :: "backtest_config \<Rightarrow> backtest_state \<Rightarrow> bool" where
  "untraded cfg s = (bs_trades s = [] \<and> bs_open s = [] \<and> bs_cash s = bt_starting_capital cfg
     \<and> (\<forall>p \<in> set (bs_curve s). eq_equity p = dround (bt_starting_capital cfg)))"

interpretation idle: replay_invariant cfg lo stop "\<lambda>a. act_type a \<noteq> ENTER" "untraded cfg" for cfg lo stop
  by unfold_locales
    (auto simp: untraded_def init_backtest_def process_action_def exit_position_def mark_price_of_def add_equity_point_def
       positions_value_def Let_def)

lemma replay_without_enter:
  assumes "run_backtest cfg (Some strat) start stop h = Some (Inr r)" "0 \<le> h"
    "\<And>n as a. strat n build_backtest_context = Inr as \<Longrightarrow> a \<in> set as \<Longrightarrow> act_type a \<noteq> ENTER"
  shows "br_trades r = [] \<and> br_total_trades r = 0 \<and> br_total_pnl r = 0 \<and> br_return_pct r = 0
    \<and> (\<forall>p \<in> set (br_equity_curve r). eq_equity p = dround (bt_starting_capital cfg))"
proof -
  from assms(1) obtain s where s: "replay cfg strat stop h 1 start (init_backtest cfg) = Some (Inr s)"
    "r = backtest_metrics cfg start stop h s" by (auto simp: run_backtest_Inr)
  from idle.replay_keeps[OF s(1) assms(2) order_refl idle.init] assms(3) have "untraded cfg s" by blast
  then show ?thesis by (simp add: s(2) backtest_metrics_def untraded_def Let_def)
qed

section \<open>An example run\<close>

text \<open>
  One contract bought at 100 with tenfold leverage, marked at 105 and sold at 110. The equity counts the full
  notional of the open position although only a tenth of it left the cash, so it stands at 1090 right after
  the entry and falls to 1010 at the exit: a drawdown of more than 7 percent on prices that only rose.
\<close>

definition ex_backtest :: backtest_config where
  "ex_backtest = \<lparr>bt_starting_capital = 1000, bt_commission_pct = 0, bt_slippage_pct = 0, bt_max_trades_per_day = 2, bt_leverage = PInt 10\<rparr>"

definition ex_order :: "action_type \<Rightarrow> rat \<Rightarrow> action_data" where
  "ex_order t x = post_init (default_action\<lparr>act_type := t, act_symbol := ''BTCUSDT'', act_quantity := 1, act_price := Some x\<rparr>)"

definition ex_replayed :: replayed where
  "ex_replayed n ctx = Inr (if n = 1 then [ex_order ENTER 100] else if n = 3 then [ex_order EXIT 110] else [ex_order HOLD 105])"

definition ex_run :: "backtest_result res option" where
  "ex_run = run_backtest ex_backtest (Some ex_replayed) 0 14400000000 1"

lemma ex_run_computed:
  "(case ex_run of Some (Inr r) \<Rightarrow> map trade_pnl (br_trades r) = [0, 10] \<and> map eq_equity (br_equity_curve r) = [1090, 1095, 1010, 1010]
     \<and> 7 / 100 < br_max_drawdown r | _ \<Rightarrow> False)"
  by code_simp

lemma rising_prices_drawdown:
  obtains r where "run_backtest ex_backtest (Some ex_replayed) 0 14400000000 1 = Some (Inr r)" "map trade_pnl (br_trades r) = [0, 10]"
    "map eq_equity (br_equity_curve r) = [1090, 1095, 1010, 1010]" "7 / 100 < br_max_drawdown r"
  using ex_run_computed unfolding ex_run_def by (auto split: option.splits sum.splits)


end
