(* ===== verification/Pipeline.thy ===== *)
theory Pipeline
  imports Engine Strategy Backtest
begin

text \<open>
  The strategy with the components its actions go to: the execution engine, whose guard refuses an entry
  without its protection, and the backtester.
\<close>

definition ex_trend :: trend_strategy where
  "ex_trend = \<lparr>ts_params = [], ts_config = \<lparr>sc_risk = [], sc_sl = [], sc_tp = [], sc_trading = []\<rparr>\<rparr>"

definition ex_trend_context :: strategy_context where
  "ex_trend_context = default_context\<lparr>ctx_mark_prices := [(''BTCUSDT'', 100)],
     ctx_strategy_params := [(''ema_fast_BTCUSDT'', PFloat 11), (''ema_slow_BTCUSDT'', PFloat 10), (''adx_BTCUSDT'', PFloat 30)]\<rparr>"

lemma ex_trend_computed:
  "(case evaluate_trend (\<lambda>s n. None) ex_trend ex_trend_context of Inr [a] \<Rightarrow> act_type a = Open_long | _ \<Rightarrow> False)"
  by code_simp

lemma ex_terms_computed: "(case read_terms ex_trend of Inr t \<Rightarrow> sane_terms t | _ \<Rightarrow> False)"
  by code_simp



lemma trend_decision_example:
  "\<exists>a. evaluate_trend (\<lambda>s n. None) ex_trend ex_trend_context = Inr [a] \<and> act_type a = Open_long
     \<and> trend_signal (\<lambda>s n. None) ex_trend ex_trend_context (\<lambda>fast slow. slow < fast)"
proof -
  obtain a where a: "evaluate_trend (\<lambda>s n. None) ex_trend ex_trend_context = Inr [a]" "act_type a = Open_long"
    using ex_trend_computed by (auto split: sum.splits list.splits)
  from trend_decision[OF a(1)] a show ?thesis by (auto split: if_splits)
qed

lemma evaluate_trend_types:
  assumes "evaluate_trend fetch ts ctx = Inr as" "a \<in> set as"
  shows "act_type a \<in> {HOLD, Open_long, Open_short}"
proof (cases "trend_held ctx")
  case True
  with assms show ?thesis by (auto simp: evaluate_trend_cases hold_action_simp default_action_def)
next
  case False
  with assms(1) have "check_entry fetch ts (trend_symbol ctx) ctx = Inr as" by (simp add: evaluate_trend_cases)
  from check_entry_Inr[OF this] assms(2) show ?thesis by (auto simp: hold_action_simp default_action_def enter_trend_eq)
qed

text \<open>
  Backtesting the trend strategy never books a trade, for any configuration, candle provider and period: the engine acts on
  \<^verbatim>\<open>ENTER\<close> and \<^verbatim>\<open>EXIT\<close>, which the strategy never emits. The equity curve is flat and every reported return is zero.
\<close>

lemma backtest_trend_idle:
  assumes "run_backtest cfg (Some (\<lambda>n ctx. evaluate_trend fetch ts ctx)) start stop h = Some (Inr r)" "0 \<le> h"
  shows "br_trades r = [] \<and> br_total_trades r = 0 \<and> br_total_pnl r = 0 \<and> br_return_pct r = 0
    \<and> (\<forall>p \<in> set (br_equity_curve r). eq_equity p = dround (bt_starting_capital cfg))"
  using evaluate_trend_types by (intro replay_without_enter[OF assms]) fastforce

end
