(* ===== verification/Desk.thy ===== *)
theory Desk
  imports Validator Gates
begin

text \<open>
  \<^verbatim>\<open>src/quad/orchestrator/_positions_mixin.py\<close> with the PnL arithmetic of \<^verbatim>\<open>_notify_mixin.py\<close>: closing every
  position, checking a position against its brackets, and executing a decision. The exchange adapter, the
  risk manager and the execution engine are reached through the record \<open>venue\<close>; the ghost field \<open>dk_log\<close>
  keeps the answers to position queries and the actions handed to the engine, in order. Notifications are
  left out. The close orders, which the code starts as tasks, run one after the other.
\<close>

section \<open>State\<close>

record 's venue =
  ve_positions :: "'s \<Rightarrow> position list res \<times> 's"
  ve_open_orders :: "'s \<Rightarrow> order list res \<times> 's"
  ve_cancel :: "order \<Rightarrow> 's \<Rightarrow> bool res \<times> 's"
  ve_mark :: "string \<Rightarrow> 's \<Rightarrow> rat res \<times> 's"
  ve_evaluate :: "action \<Rightarrow> strategy_context \<Rightarrow> 's \<Rightarrow> risk_result res \<times> 's"
  ve_execute :: "action \<Rightarrow> strategy_context \<Rightarrow> 's \<Rightarrow> order_result res \<times> 's"
  ve_order_pnl :: "order_id \<Rightarrow> string \<Rightarrow> 's \<Rightarrow> rat res \<times> 's"
  ve_mark_executed :: "int \<Rightarrow> 's \<Rightarrow> 's"
  ve_text :: "rat \<Rightarrow> string"

text \<open>\<open>ve_text\<close> is \<^verbatim>\<open>str\<close> of a \<^verbatim>\<open>Decimal\<close>, whose trailing zeros the model's numbers do not keep.\<close>

record desk_config =
  dc_risk_manager :: bool
  dc_engine :: bool
  dc_trading :: "(string, pyval) dict"
  dc_sl :: "(string, pyval) dict"
  dc_tp :: "(string, pyval) dict"
  dc_ai :: "(string, pyval) dict"
  dc_rotation :: "(string, pyval) dict"
  dc_scalp :: "(string, pyval) dict"

datatype desk_event = Seen "position list res" | Sent action_data "order_result res"

record 's desk =
  dk_world :: 's
  dk_log :: "desk_event list"

definition see_positions :: "'s venue \<Rightarrow> 's desk \<Rightarrow> position list res \<times> 's desk" where
  "see_positions ve s = (let (r, w) = ve_positions ve (dk_world s) in (r, \<lparr>dk_world = w, dk_log = dk_log s @ [Seen r]\<rparr>))"

definition send_action :: "'s venue \<Rightarrow> action \<Rightarrow> strategy_context \<Rightarrow> 's desk \<Rightarrow> order_result res \<times> 's desk" where
  "send_action ve a ctx s =
     (let (r, w) = ve_execute ve a ctx (dk_world s) in (r, \<lparr>dk_world = w, dk_log = dk_log s @ [Sent (data a) r]\<rparr>))"

definition in_world :: "('s \<Rightarrow> 'a \<times> 's) \<Rightarrow> 's desk \<Rightarrow> 'a \<times> 's desk" where
  "in_world f s = (let (r, w) = f (dk_world s) in (r, s\<lparr>dk_world := w\<rparr>))"

section \<open>Positions\<close>

definition open_positions :: "position list \<Rightarrow> position list" where
  "open_positions ps = filter (\<lambda>p. pos_status p = Open) ps"

definition position_side_for :: "position list \<Rightarrow> string \<Rightarrow> position_side option" where
  "position_side_for ps symb = map_option pos_side (find (\<lambda>p. pos_symbol p = symb \<and> pos_status p = Open) ps)"

text \<open>\<^verbatim>\<open>str\<close> of a member of \<^verbatim>\<open>PositionSide\<close>, and the member as the validator takes it.\<close>

definition enum_text :: "position_side \<Rightarrow> string" where
  "enum_text d = (case d of Long \<Rightarrow> ''PositionSide.LONG'' | Short \<Rightarrow> ''PositionSide.SHORT'')"

definition enum_arg :: "position_side option \<Rightarrow> side_arg" where
  "enum_arg d = (case d of None \<Rightarrow> NoSide | Some Long \<Rightarrow> SideEnum ''LONG'' | Some Short \<Rightarrow> SideEnum ''SHORT'')"

section \<open>Closing everything\<close>

fun cancel_all :: "'s venue \<Rightarrow> order list \<Rightarrow> 's \<Rightarrow> 's" where
  "cancel_all ve [] w = w"
| "cancel_all ve (x # xs) w = cancel_all ve xs (snd (ve_cancel ve x w))"

definition cancel_open_orders :: "'s venue \<Rightarrow> 's \<Rightarrow> 's" where
  "cancel_open_orders ve w = (case ve_open_orders ve w of (Inl e, w1) \<Rightarrow> w1 | (Inr xs, w1) \<Rightarrow> cancel_all ve xs w1)"

definition close_action :: "'s venue \<Rightarrow> position \<Rightarrow> action_data" where
  "close_action ve p = post_init (default_action
     \<lparr>act_type := EXIT, act_strategy := ''serial_close'', act_contract := pos_symbol p,
      act_side := (if pos_side p = Long then ''SELL'' else ''BUY''), act_quantity := pos_quantity p,
      act_order_type := ''MARKET'',
      act_metadata := [(''serial_close'', PBool True), (''entry_price'', PStr (ve_text ve (pos_entry_price p))),
        (''position_side'', PStr (enum_text (pos_side p)))]\<rparr>)"

fun send_all :: "'s venue \<Rightarrow> action_data list \<Rightarrow> 's desk \<Rightarrow> order_result res list \<times> 's desk" where
  "send_all ve [] s = ([], s)"
| "send_all ve (a # as) s =
     (let (r, s1) = send_action ve (Action a None) default_context s; (rs, s2) = send_all ve as s1 in (r # rs, s2))"

definition confirmed :: "order_result \<Rightarrow> bool" where
  "confirmed r = (res_status r \<in> {''FILLED'', ''NEW'', ''PARTIALLY_FILLED''})"

text \<open>Awaiting the tasks raises the first exception among them.\<close>

fun await_all :: "order_result res list \<Rightarrow> order_result list res" where
  "await_all [] = Inr []"
| "await_all (r # rs) = bindE r (\<lambda>x. bindE (await_all rs) (\<lambda>xs. Inr (x # xs)))"

definition verify_flat :: "'s venue \<Rightarrow> 's desk \<Rightarrow> bool \<times> 's desk" where
  "verify_flat ve s =
     (case see_positions ve s of (Inl e, s1) \<Rightarrow> (False, s1) | (Inr ps, s1) \<Rightarrow> (open_positions ps = [], s1))"

definition close_all :: "'s venue \<Rightarrow> desk_config \<Rightarrow> 's desk \<Rightarrow> bool res \<times> 's desk" where
  "close_all ve cfg s =
     (if \<not> dc_engine cfg then (Inr False, s)
      else (case see_positions ve s of
        (Inl e, s1) \<Rightarrow> (Inr False, s1)
      | (Inr ps, s1) \<Rightarrow>
         (if open_positions ps = [] then (Inr True, s1)
          else (let s2 = s1\<lparr>dk_world := cancel_open_orders ve (dk_world s1)\<rparr>;
                    (rs, s3) = send_all ve (map (close_action ve) (open_positions ps)) s2
                in case await_all rs of
                     Inl e \<Rightarrow> (Inl e, s3)
                   | Inr results \<Rightarrow>
                       (let (flat, s4) = verify_flat ve s3 in (Inr (flat \<and> list_all confirmed results), s4))))))"

definition close_on_start :: "'s venue \<Rightarrow> desk_config \<Rightarrow> 's desk \<Rightarrow> unit res \<times> 's desk" where
  "close_on_start ve cfg s =
     (if \<not> truthy (get_or (dc_rotation cfg) ''enabled'' (PBool False))
         \<or> \<not> truthy (get_or (dc_rotation cfg) ''close_positions_on_start'' (PBool True)) then (Inr (), s)
      else (case see_positions ve s of
        (Inl e, s1) \<Rightarrow> (Inl e, s1)
      | (Inr ps, s1) \<Rightarrow>
         (if open_positions ps = [] then (Inr (), s1)
          else (case close_all ve cfg s1 of (Inl e, s2) \<Rightarrow> (Inl e, s2) | (Inr ok, s2) \<Rightarrow> (Inr (), s2)))))"

section \<open>Brackets\<close>

fun last_trigger :: "string list \<Rightarrow> string \<Rightarrow> order list \<Rightarrow> rat option" where
  "last_trigger kinds symb [] = None"
| "last_trigger kinds symb (x # xs) =
     (case last_trigger kinds symb xs of
        Some t \<Rightarrow> Some t
      | None \<Rightarrow> if ord_symbol x = symb \<and> upper (ord_order_type x) \<in> set kinds then ord_stop_price x else None)"

definition beyond :: "bool \<Rightarrow> rat \<Rightarrow> rat \<Rightarrow> rat \<Rightarrow> bool" where
  "beyond down mark trigger tol =
     (if down then mark \<le> dround (trigger * dround (1 - tol)) else dround (trigger * dround (1 + tol)) \<le> mark)"

definition bracket_violation :: "'s venue \<Rightarrow> desk_config \<Rightarrow> string \<Rightarrow> position_side \<Rightarrow> order list \<Rightarrow> 's desk \<Rightarrow> string option res \<times> 's desk" where
  "bracket_violation ve cfg symb side orders s =
     (if \<not> truthy (get_or (dc_rotation cfg) ''price_bracket_check'' (PBool True)) then (Inr None, s)
      else (case to_float (get_or (dc_rotation cfg) ''price_bracket_tolerance_pct'' (PFloat (1 / 2))) of
        Inl e \<Rightarrow> (Inl e, s)
      | Inr pct \<Rightarrow>
         (let tol = dround (dec_of_float pct / 100);
              sl = last_trigger [''STOP_MARKET'', ''STOP_LOSS'', ''STOP''] symb orders;
              tp = last_trigger [''TAKE_PROFIT_MARKET'', ''TAKE_PROFIT''] symb orders
          in if sl = None \<and> tp = None then (Inr None, s)
             else (case in_world (ve_mark ve symb) s of
               (Inl e, s1) \<Rightarrow> (Inr None, s1)
             | (Inr mark, s1) \<Rightarrow>
                (if mark \<le> 0 then Inr None
                 else if \<exists>t \<in> set_option sl. beyond (side = Long) mark t tol then Inr (Some ''sl'')
                 else if \<exists>t \<in> set_option tp. beyond (side \<noteq> Long) mark t tol then Inr (Some ''tp'')
                 else Inr None, s1)))))"

definition bracket_offset :: "rat \<Rightarrow> rat \<Rightarrow> rat res" where
  "bracket_offset pct leverage = decimal_div (dround (pct / 100)) leverage"

definition side_is_long :: "string \<Rightarrow> bool" where
  "side_is_long side = (upper (strip side) \<in> {''BUY'', ''LONG''})"

definition bracket_pair :: "desk_config \<Rightarrow> string \<Rightarrow> rat \<Rightarrow> rat option \<Rightarrow> rat option \<Rightarrow> (rat option \<times> rat option) res" where
  "bracket_pair cfg side entry sl_override tp_override =
     bindE (to_decimal (get_or (dc_trading cfg) ''leverage'' (PInt 50))) (\<lambda>leverage.
     bindE (case sl_override of Some x \<Rightarrow> Inr (dec_of_float x) | None \<Rightarrow> to_decimal (get_or (dc_sl cfg) ''capital_pct'' (PFloat 30))) (\<lambda>sl_pct.
     bindE (case tp_override of Some x \<Rightarrow> Inr (dec_of_float x) | None \<Rightarrow> to_decimal (get_or (dc_tp cfg) ''capital_pct'' (PFloat 50))) (\<lambda>tp_pct.
     bindE (if truthy (get_or (dc_sl cfg) ''enabled'' (PBool True))
            then bindE (bracket_offset sl_pct leverage) (\<lambda>x.
              Inr (Some (dround (entry * (if side_is_long side then dround (1 - x) else dround (1 + x))))))
            else Inr None) (\<lambda>sl.
     bindE (if truthy (get_or (dc_tp cfg) ''enabled'' (PBool True))
            then bindE (bracket_offset tp_pct leverage) (\<lambda>x.
              Inr (Some (dround (entry * (if side_is_long side then dround (1 + x) else dround (1 - x))))))
            else Inr None) (\<lambda>tp. Inr (sl, tp))))))"

definition compute_bracket_prices :: "'s venue \<Rightarrow> desk_config \<Rightarrow> string \<Rightarrow> string \<Rightarrow> rat option \<Rightarrow> rat option \<Rightarrow> 's desk
     \<Rightarrow> (rat option \<times> rat option) res \<times> 's desk" where
  "compute_bracket_prices ve cfg symb side sl_override tp_override s =
     (if \<not> truthy (get_or (dc_sl cfg) ''enabled'' (PBool True)) \<and> \<not> truthy (get_or (dc_tp cfg) ''enabled'' (PBool True))
      then (Inr (None, None), s)
      else (case in_world (ve_mark ve symb) s of
        (Inl e, s1) \<Rightarrow> (Inr (None, None), s1)
      | (Inr entry, s1) \<Rightarrow>
          (if entry \<le> 0 then Inr (None, None) else bracket_pair cfg side entry sl_override tp_override, s1)))"

section \<open>Realized PnL for the notification\<close>

definition position_pnl :: "rat \<Rightarrow> rat \<Rightarrow> rat \<Rightarrow> string \<Rightarrow> rat" where
  "position_pnl entry exit quantity side =
     (if quantity = 0 then 0
      else dround ((if side_is_long side then dround (exit - entry) else - dround (exit - entry)) * quantity))"

definition id_truthy :: "order_id \<Rightarrow> bool" where
  "id_truthy i = (case i of IntId n \<Rightarrow> n \<noteq> 0 | StrId t \<Rightarrow> t \<noteq> [])"

text \<open>The amount and the entry price of the PnL line, \<open>None\<close> when there is none.\<close>

definition exit_pnl_fallback :: "'s venue \<Rightarrow> string \<Rightarrow> string \<Rightarrow> rat \<Rightarrow> order_result \<Rightarrow> rat \<Rightarrow> 's desk \<Rightarrow> (rat \<times> rat) option \<times> 's desk" where
  "exit_pnl_fallback ve symb side quantity res entry s =
     (case (if res_fills res = [] then Inr 0
            else to_decimal (case map_of (last (res_fills res)) ''price'' of None \<Rightarrow> PStr ''0'' | Some v \<Rightarrow> v)) of
        Inl e \<Rightarrow> (None, s)
      | Inr p \<Rightarrow>
         (let (exit, s1) = (if p = 0 then in_world (ve_mark ve symb) s else (Inr p, s))
          in (case exit of
                Inl e \<Rightarrow> None
              | Inr x \<Rightarrow> if entry = 0 \<or> x = 0 then None else Some (position_pnl entry x quantity side, entry), s1)))"

definition exit_pnl_line :: "'s venue \<Rightarrow> string \<Rightarrow> string \<Rightarrow> rat \<Rightarrow> order_result \<Rightarrow> rat option \<Rightarrow> 's desk \<Rightarrow> (rat \<times> rat) option \<times> 's desk" where
  "exit_pnl_line ve symb side quantity res hint s =
     (case see_positions ve s of
        (Inl e, s1) \<Rightarrow> (None, s1)
      | (Inr ps, s1) \<Rightarrow>
         (let held = find (\<lambda>p. pos_symbol p = symb) ps;
              own = (case held of None \<Rightarrow> 0 | Some p \<Rightarrow> pos_entry_price p);
              entry = (if own = 0 then (case hint of None \<Rightarrow> 0 | Some h \<Rightarrow> h) else own);
              side' = (case held of None \<Rightarrow> side | Some p \<Rightarrow> enum_text (pos_side p))
          in if id_truthy (res_order_id res)
             then (case in_world (ve_order_pnl ve (res_order_id res) symb) s1 of
                 (Inr x, s2) \<Rightarrow> if x \<noteq> 0 then (Some (x, entry), s2) else exit_pnl_fallback ve symb side' quantity res entry s2
               | (Inl e, s2) \<Rightarrow> exit_pnl_fallback ve symb side' quantity res entry s2)
             else exit_pnl_fallback ve symb side' quantity res entry s1))"

section \<open>Executing a decision\<close>

text \<open>
  The actions the validator lets through; a decision with another text does not occur.
\<close>

definition action_kind :: "string \<Rightarrow> action_type option" where
  "action_kind t = map_of [(''ENTER'', ENTER), (''EXIT'', EXIT), (''adjust_stop'', Adjust_stop), (''reduce_position'', Reduce_position)] t"

fun str_of :: "pyval \<Rightarrow> string" where
  "str_of (PStr s) = s"
| "str_of _ = []"

type_synonym decision = "(string, pyval) dict"

text \<open>The side of the order: derived for an entry or an exit, the decision's own otherwise; \<open>None\<close> refuses.\<close>

definition order_side :: "action_type \<Rightarrow> decision \<Rightarrow> position list \<Rightarrow> string \<Rightarrow> string option" where
  "order_side kind d ps contract =
     (let s = (if kind = ENTER \<or> kind = EXIT
               then derive_side (if kind = ENTER then ''ENTER'' else ''EXIT'') (py_get d ''direction'') (enum_arg (position_side_for ps contract))
               else Some (str_of (py_get d ''side'')))
      in if s = Some [] then None else s)"

text \<open>An entry needs a flat account: closed first in serial mode, seen to be flat otherwise.\<close>

definition make_room :: "'s venue \<Rightarrow> desk_config \<Rightarrow> 's desk \<Rightarrow> bool res \<times> 's desk" where
  "make_room ve cfg s =
     (if truthy (get_or (dc_trading cfg) ''serial_trade_mode'' (PBool True)) then close_all ve cfg s
      else (case see_positions ve s of (Inl e, s1) \<Rightarrow> (Inr True, s1) | (Inr ps, s1) \<Rightarrow> (Inr (open_positions ps = []), s1)))"

definition entry_brackets :: "'s venue \<Rightarrow> desk_config \<Rightarrow> string \<Rightarrow> string \<Rightarrow> string \<Rightarrow> 's desk \<Rightarrow> (rat option \<times> rat option) res \<times> 's desk" where
  "entry_brackets ve cfg strategy symb side s =
     (if strategy = ''scalp''
      then (case bindE (to_float (get_or (dc_scalp cfg) ''sl_pct'' (PFloat 8))) (\<lambda>sl.
                 bindE (to_float (get_or (dc_scalp cfg) ''tp_pct'' (PFloat 15))) (\<lambda>tp. Inr (sl, tp))) of
          Inl e \<Rightarrow> (Inl e, s)
        | Inr (sl, tp) \<Rightarrow> compute_bracket_prices ve cfg symb side (Some sl) (Some tp) s)
      else compute_bracket_prices ve cfg symb side None None s)"

definition unprotected :: "desk_config \<Rightarrow> rat option \<times> rat option \<Rightarrow> bool" where
  "unprotected cfg b =
     ((truthy (get_or (dc_sl cfg) ''enabled'' (PBool True)) \<or> truthy (get_or (dc_tp cfg) ''enabled'' (PBool True)))
      \<and> (fst b = None \<or> snd b = None))"

definition decided_action_of :: "'s venue \<Rightarrow> desk_config \<Rightarrow> action_type \<Rightarrow> decision \<Rightarrow> position list \<Rightarrow> string \<Rightarrow> string
     \<Rightarrow> rat option \<times> rat option \<Rightarrow> action_data res" where
  "decided_action_of ve cfg kind d ps contract side b =
     bindE (to_decimal (py_get d ''quantity'')) (\<lambda>q.
       let a = post_init (default_action
             \<lparr>act_type := kind, act_strategy := (if truthy (py_get d ''strategy'') then str_of (py_get d ''strategy'') else ''ai_default''),
              act_symbol := contract, act_contract := contract, act_side := side, act_quantity := q, act_order_type := ''MARKET'',
              act_stop_loss_price := fst b, act_take_profit_price := snd b,
              act_metadata := [(''ai_confidence'', get_or d ''confidence'' (get_or (dc_ai cfg) ''default_confidence'' (PFloat (fround (8 / 10)))))]\<rparr>)
       in Inr (if kind = EXIT
               then a\<lparr>act_metadata := AList.update ''entry_price''
                 (PStr (case find (\<lambda>p. pos_symbol p = contract) ps of
                          None \<Rightarrow> ''0'' | Some p \<Rightarrow> if pos_entry_price p = 0 then ''0'' else ve_text ve (pos_entry_price p)))
                 (act_metadata a)\<rparr>
               else a))"

text \<open>The sized action as it goes to the engine, marked as checked and carrying the verdict.\<close>

definition checked_action :: "'s venue \<Rightarrow> risk_result \<Rightarrow> action_data \<Rightarrow> action" where
  "checked_action ve rr a =
     (let d = (case map_of (details rr) ''action'' of Some (DAction x) \<Rightarrow> data x | _ \<Rightarrow> a)
      in Action (d\<lparr>act_risk_checked := True,
                   act_metadata := AList.update ''pre_size_quantity'' (PStr (ve_text ve (act_quantity a))) (act_metadata d)\<rparr>) (Some rr))"

definition after_execution :: "'s venue \<Rightarrow> action_type \<Rightarrow> decision \<Rightarrow> string \<Rightarrow> string \<Rightarrow> action \<Rightarrow> order_result \<Rightarrow> 's desk \<Rightarrow> bool \<times> 's desk" where
  "after_execution ve kind d contract side a res s =
     (if \<not> confirmed res then (False, s)
      else (let s1 = (case py_get d ''db_id'' of PInt i \<Rightarrow> s\<lparr>dk_world := ve_mark_executed ve i (dk_world s)\<rparr> | _ \<Rightarrow> s)
            in if kind = EXIT
               then (case (let v = py_get (act_metadata (data a)) ''entry_price'' in if truthy v then to_decimal v else Inr 0) of
                   Inl e \<Rightarrow> (False, s1)
                 | Inr h \<Rightarrow> (True, snd (exit_pnl_line ve contract side (act_quantity (data a)) res (if h = 0 then None else Some h) s1)))
               else (True, s1)))"

definition submit_decision :: "'s venue \<Rightarrow> action_type \<Rightarrow> decision \<Rightarrow> strategy_context \<Rightarrow> string \<Rightarrow> string \<Rightarrow> action_data \<Rightarrow> 's desk \<Rightarrow> bool \<times> 's desk" where
  "submit_decision ve kind d ctx contract side a s =
     (case in_world (ve_evaluate ve (Action a None) ctx) s of
        (Inl e, s1) \<Rightarrow> (False, s1)
      | (Inr rr, s1) \<Rightarrow>
         (if \<not> passed rr then (False, s1)
          else (let x = checked_action ve rr a
                in case send_action ve x ctx s1 of
                     (Inl e, s2) \<Rightarrow> (False, s2)
                   | (Inr res, s2) \<Rightarrow> after_execution ve kind d contract side x res s2)))"

text \<open>From the brackets on, once an entry has room.\<close>

definition place_decision :: "'s venue \<Rightarrow> desk_config \<Rightarrow> action_type \<Rightarrow> decision \<Rightarrow> strategy_context \<Rightarrow> string \<Rightarrow> string \<Rightarrow> 's desk \<Rightarrow> bool res \<times> 's desk" where
  "place_decision ve cfg kind d ctx contract side s =
     bindS (if kind = ENTER
            then entry_brackets ve cfg (if truthy (py_get d ''strategy'') then str_of (py_get d ''strategy'') else ''ai_default'') contract side s
            else (Inr (None, None), s)) (\<lambda>b s1.
       if kind = ENTER \<and> unprotected cfg b then (Inr False, s1)
       else (case decided_action_of ve cfg kind d (ctx_positions ctx) contract side b of
           Inl e \<Rightarrow> (Inl e, s1)
         | Inr a \<Rightarrow> (let (ok, s2) = submit_decision ve kind d ctx contract side a s1 in (Inr ok, s2))))"

definition execute_ai_action :: "'s venue \<Rightarrow> desk_config \<Rightarrow> decision \<Rightarrow> strategy_context \<Rightarrow> 's desk \<Rightarrow> bool res \<times> 's desk" where
  "execute_ai_action ve cfg d ctx s =
     (if \<not> dc_risk_manager cfg \<or> \<not> dc_engine cfg then (Inr False, s)
      else (case action_kind (str_of (get_or d ''action'' (PStr ''HOLD''))) of
        None \<Rightarrow> (Inr False, s)
      | Some kind \<Rightarrow>
         (let contract = str_of (py_get d ''contract'')
          in if contract = [] \<or> \<not> truthy (py_get d ''quantity'') then (Inr False, s)
             else (case order_side kind d (ctx_positions ctx) contract of
               None \<Rightarrow> (Inr False, s)
             | Some side \<Rightarrow>
                 bindS (if kind = ENTER then make_room ve cfg s else (Inr True, s)) (\<lambda>room s1.
                   if room then place_decision ve cfg kind d ctx contract side s1 else (Inr False, s1))))))"

section \<open>The log\<close>

lemma see_positions_log: "dk_log (snd (see_positions ve s)) = dk_log s @ [Seen (fst (see_positions ve s))]"
  by (simp add: see_positions_def split: prod.split)

lemma send_action_log: "dk_log (snd (send_action ve a ctx s)) = dk_log s @ [Sent (data a) (fst (send_action ve a ctx s))]"
  by (simp add: send_action_def split: prod.split)

lemma in_world_log [simp]: "dk_log (snd (in_world f s)) = dk_log s"
  by (simp add: in_world_def split: prod.split)

lemmas log_simps = see_positions_log send_action_log

text \<open>\<open>log_of s s'\<close>: the events between two states of one run.\<close>

definition log_of :: "'s desk \<Rightarrow> 's desk \<Rightarrow> desk_event list \<Rightarrow> bool" where
  "log_of s s' es = (dk_log s' = dk_log s @ es)"

lemma log_of_refl: "log_of s s []"
  by (simp add: log_of_def)

lemma log_of_trans: "log_of s s1 es \<Longrightarrow> log_of s1 s2 fs \<Longrightarrow> log_of s s2 (es @ fs)"
  by (simp add: log_of_def)

definition is_entry :: "desk_event \<Rightarrow> bool" where
  "is_entry e = (case e of Seen r \<Rightarrow> False | Sent a r \<Rightarrow> act_type a = ENTER)"

definition saw_flat :: "desk_event list \<Rightarrow> bool" where
  "saw_flat es = (es \<noteq> [] \<and> (case last es of Seen (Inr ps) \<Rightarrow> open_positions ps = [] | _ \<Rightarrow> False))"

lemma close_action_fields:
  "act_type (close_action ve p) = EXIT" "act_quantity (close_action ve p) = pos_quantity p"
  "act_contract (close_action ve p) = pos_symbol p" "act_side (close_action ve p) = (if pos_side p = Long then ''SELL'' else ''BUY'')"
  by (simp_all add: close_action_def post_init_contract post_init_side default_action_def)

lemma send_all_log:
  "\<exists>es. log_of s (snd (send_all ve as s)) es \<and> length es = length as \<and> (\<forall>i<length es. \<exists>r. es ! i = Sent (as ! i) r)"
proof (induction as arbitrary: s)
  case Nil then show ?case by (auto simp: log_of_def)
next
  case (Cons a as)
  obtain r s1 where 1: "send_action ve (Action a None) default_context s = (r, s1)" by fastforce
  obtain rs s2 where 2: "send_all ve as s1 = (rs, s2)" by fastforce
  from Cons.IH[of s1] 2 obtain es where es: "log_of s1 s2 es" "length es = length as" "\<forall>i<length es. \<exists>r. es ! i = Sent (as ! i) r" by auto
  have "log_of s s1 [Sent a r]" using send_action_log[of ve "Action a None" default_context s] 1 by (simp add: log_of_def)
  from log_of_trans[OF this es(1)] es(2,3) 1 2 show ?case
    by (intro exI[of _ "Sent a r # es"]) (auto simp: nth_Cons less_Suc_eq_0_disj split: nat.splits)
qed

lemma send_all_no_entry:
  "\<exists>es. log_of s (snd (send_all ve (map (close_action ve) ps) s)) es \<and> \<not> list_ex is_entry es"
proof -
  from send_all_log[of s ve "map (close_action ve) ps"] obtain es where
    es: "log_of s (snd (send_all ve (map (close_action ve) ps) s)) es" "length es = length ps"
    "\<forall>i<length es. \<exists>r. es ! i = Sent (map (close_action ve) ps ! i) r" by auto
  have "\<not> is_entry e" if "e \<in> set es" for e
    using that es(2,3) by (auto simp: in_set_conv_nth is_entry_def close_action_fields)
  with es(1) show ?thesis by (auto simp: list_ex_iff)
qed

text \<open>What a successful closing has seen.\<close>

lemma close_all_log:
  "\<exists>es. log_of s (snd (close_all ve cfg s)) es \<and> \<not> list_ex is_entry es \<and> (fst (close_all ve cfg s) = Inr True \<longrightarrow> saw_flat es)"
proof (cases "dc_engine cfg")
  case False then show ?thesis by (auto simp: close_all_def log_of_def)
next
  case True
  obtain r s1 where 1: "see_positions ve s = (r, s1)" by fastforce
  then have l1: "log_of s s1 [Seen r]" using see_positions_log[of ve s] by (simp add: log_of_def)
  show ?thesis
  proof (cases r)
    case (Inl e)
    with 1 True l1 show ?thesis by (intro exI[of _ "[Seen r]"]) (simp add: close_all_def is_entry_def)
  next
    case (Inr ps)
    show ?thesis
    proof (cases "open_positions ps = []")
      case flat: True
      with 1 True Inr l1 show ?thesis by (intro exI[of _ "[Seen r]"]) (simp add: close_all_def is_entry_def saw_flat_def)
    next
      case False
      define s2 where "s2 = s1\<lparr>dk_world := cancel_open_orders ve (dk_world s1)\<rparr>"
      obtain rs s3 where 3: "send_all ve (map (close_action ve) (open_positions ps)) s2 = (rs, s3)" by fastforce
      from send_all_no_entry[of s2 ve "open_positions ps"] 3 obtain es where es: "log_of s2 s3 es" "\<not> list_ex is_entry es" by auto
      have "log_of s s2 [Seen r]" using l1 by (simp add: s2_def log_of_def)
      from log_of_trans[OF this es(1)] have l3: "log_of s s3 (Seen r # es)" by simp
      have c: "close_all ve cfg s = (case await_all rs of Inl e \<Rightarrow> (Inl e, s3)
          | Inr results \<Rightarrow> (let (flat, s4) = verify_flat ve s3 in (Inr (flat \<and> list_all confirmed results), s4)))"
        using 1 True Inr False 3 by (simp add: close_all_def s2_def Let_def)
      show ?thesis
      proof (cases "await_all rs")
        case (Inl e)
        with c l3 es(2) show ?thesis by (intro exI[of _ "Seen r # es"]) (simp add: is_entry_def)
      next
        case (Inr results)
        obtain r4 s4 where 4: "see_positions ve s3 = (r4, s4)" by fastforce
        then have "log_of s3 s4 [Seen r4]" using see_positions_log[of ve s3] by (simp add: log_of_def)
        from log_of_trans[OF l3 this] have "log_of s s4 (Seen r # es @ [Seen r4])" by simp
        with c Inr 4 es(2) show ?thesis
          by (intro exI[of _ "Seen r # es @ [Seen r4]"])
            (auto simp: verify_flat_def is_entry_def saw_flat_def split: sum.splits)
      qed
    qed
  qed
qed

lemma entry_brackets_log: "dk_log (snd (entry_brackets ve cfg st symb side s)) = dk_log s"
proof -
  have "dk_log (snd (compute_bracket_prices ve cfg symb side x y s)) = dk_log s" for x y
    using in_world_log[of "ve_mark ve symb" s]
    by (cases "in_world (ve_mark ve symb) s") (auto simp: compute_bracket_prices_def split: sum.splits)
  then show ?thesis by (simp add: entry_brackets_def split: sum.split)
qed

lemma decided_action_fields:
  assumes "decided_action_of ve cfg kind d ps contract side b = Inr a" "side \<noteq> []" "contract \<noteq> []"
  shows "act_type a = kind" "act_side a = side" "act_contract a = contract" "act_symbol a = contract"
    "act_stop_loss_price a = fst b" "act_take_profit_price a = snd b"
  using assms by (auto simp: decided_action_of_def bindE_Inr_iff Let_def post_init_side post_init_contract default_action_def split: if_splits)

section \<open>Closing, step by step\<close>

lemma send_all_exact:
  "fst (send_all ve as s) = rs \<Longrightarrow> length rs = length as
     \<and> log_of s (snd (send_all ve as s)) (map2 Sent as rs)"
proof (induction as arbitrary: s rs)
  case Nil then show ?case by (auto simp: log_of_def)
next
  case (Cons a as)
  obtain r s1 where 1: "send_action ve (Action a None) default_context s = (r, s1)" by fastforce
  obtain rs' s2 where 2: "send_all ve as s1 = (rs', s2)" by fastforce
  have l1: "log_of s s1 [Sent a r]" using send_action_log[of ve "Action a None" default_context s] 1 by (simp add: log_of_def)
  from Cons.IH[of s1 rs'] 2 log_of_trans[OF l1] Cons.prems 1 show ?case by auto
qed


section \<open>An entry that nothing refuses\<close>

lemma entry_reaches_engine:
  assumes "dc_risk_manager cfg" "dc_engine cfg" "action_kind (str_of (get_or d ''action'' (PStr ''HOLD''))) = Some ENTER"
    "str_of (py_get d ''contract'') = contract" "contract \<noteq> []" "truthy (py_get d ''quantity'')" "\<not> truthy (py_get d ''strategy'')"
    "order_side ENTER d (ctx_positions ctx) contract = Some side" "make_room ve cfg s = (Inr True, s1)"
    "entry_brackets ve cfg ''ai_default'' contract side s1 = (Inr b, s2)" "\<not> unprotected cfg b"
    "decided_action_of ve cfg ENTER d (ctx_positions ctx) contract side b = Inr a"
    "ve_evaluate ve (Action a None) ctx (dk_world s2) = (Inr rr, w)" "passed rr"
  shows "\<exists>out. dk_log (snd (execute_ai_action ve cfg d ctx s)) = dk_log s2 @ [Sent (data (checked_action ve rr a)) out]"
proof -
  have 1: "in_world (ve_evaluate ve (Action a None) ctx) s2 = (Inr rr, s2\<lparr>dk_world := w\<rparr>)"
    using assms(13) by (simp add: in_world_def)
  have 2: "snd (execute_ai_action ve cfg d ctx s) = snd (submit_decision ve ENTER d ctx contract side a s2)"
    using assms(1-12) by (simp add: execute_ai_action_def place_decision_def Let_def split: prod.split)
  obtain r s3 where 3: "send_action ve (checked_action ve rr a) ctx (s2\<lparr>dk_world := w\<rparr>) = (r, s3)" by fastforce
  then have "dk_log s3 = dk_log s2 @ [Sent (data (checked_action ve rr a)) r]"
    using send_action_log[of ve "checked_action ve rr a" ctx "s2\<lparr>dk_world := w\<rparr>"] by simp
  moreover have "dk_log (snd (after_execution ve ENTER d contract side x res s3)) = dk_log s3" for x res
    by (simp add: after_execution_def Let_def split: pyval.split)
  ultimately show ?thesis using 1 2 3 assms(14) by (cases r) (auto simp: submit_decision_def Let_def)
qed

section \<open>Sizing laws\<close>

definition serial_mode :: "desk_config \<Rightarrow> bool" where
  "serial_mode cfg = truthy (get_or (dc_trading cfg) ''serial_trade_mode'' (PBool True))"

text \<open>The answer to the last position query before an entry: flat, or in the other mode also unknown.\<close>

definition room_seen :: "desk_config \<Rightarrow> desk_event list \<Rightarrow> bool" where
  "room_seen cfg es = (if serial_mode cfg then saw_flat es
     else \<exists>q. es = [Seen q] \<and> (\<forall>ps. q = Inr ps \<longrightarrow> open_positions ps = []))"

lemma make_room_log:
  "\<exists>es. log_of s (snd (make_room ve cfg s)) es \<and> \<not> list_ex is_entry es \<and> (fst (make_room ve cfg s) = Inr True \<longrightarrow> room_seen cfg es)"
proof (cases "serial_mode cfg")
  case True
  then show ?thesis using close_all_log[of s ve cfg] by (simp add: make_room_def serial_mode_def room_seen_def)
next
  case False
  obtain r s1 where 1: "see_positions ve s = (r, s1)" by fastforce
  then have "log_of s s1 [Seen r]" using see_positions_log[of ve s] by (simp add: log_of_def)
  with False 1 show ?thesis
    by (intro exI[of _ "[Seen r]"]) (auto simp: make_room_def serial_mode_def room_seen_def is_entry_def split: sum.splits)
qed

text \<open>What stands in the log of an entry that reached the engine.\<close>

definition guarded :: "desk_config \<Rightarrow> decision \<Rightarrow> desk_event list \<Rightarrow> action_data \<Rightarrow> bool" where
  "guarded cfg d es a =
     (room_seen cfg es \<and> act_contract a = str_of (py_get d ''contract'')
      \<and> (canonical_direction (py_get d ''direction'') = LONG \<and> act_side a = ''BUY''
         \<or> canonical_direction (py_get d ''direction'') = SHORT \<and> act_side a = ''SELL'')
      \<and> (truthy (get_or (dc_sl cfg) ''enabled'' (PBool True)) \<or> truthy (get_or (dc_tp cfg) ''enabled'' (PBool True)) \<longrightarrow>
           act_stop_loss_price a \<noteq> None \<and> act_take_profit_price a \<noteq> None))"

lemma order_side_entry:
  assumes "order_side ENTER d ps contract = Some side"
  shows "canonical_direction (py_get d ''direction'') = LONG \<and> side = ''BUY'' \<or> canonical_direction (py_get d ''direction'') = SHORT \<and> side = ''SELL''"
proof -
  have "upper (strip ''ENTER'') = ''ENTER''" by code_simp
  then show ?thesis using assms
    by (auto simp: order_side_def derive_side_def Let_def split: direction.splits if_splits)
qed

lemma not_entry_split: "\<not> list_ex is_entry es \<Longrightarrow> es = pre @ Sent a out # post \<Longrightarrow> act_type a \<noteq> ENTER"
  by (auto simp: is_entry_def)

lemma entry_not_in: "\<not> list_ex is_entry es \<Longrightarrow> Sent a out \<in> set es \<Longrightarrow> act_type a \<noteq> ENTER"
  by (auto simp: list_ex_iff is_entry_def)

text \<open>
  What the desk relies on in the risk manager: a sized action is the action asked about, but for its
  quantity and metadata.
\<close>

definition same_order :: "action_data \<Rightarrow> action_data \<Rightarrow> bool" where
  "same_order a b = (act_type b = act_type a \<and> act_contract b = act_contract a \<and> act_side b = act_side a
     \<and> act_stop_loss_price b = act_stop_loss_price a \<and> act_take_profit_price b = act_take_profit_price a)"

locale sizing_desk =
  fixes ve :: "'s venue"
  assumes sized: "act_contract a \<noteq> [] \<Longrightarrow> act_side a \<noteq> [] \<Longrightarrow> ve_evaluate ve (Action a None) ctx w = (Inr rr, w') \<Longrightarrow> passed rr \<Longrightarrow>
      map_of (details rr) ''action'' = Some (DAction x) \<Longrightarrow> same_order a (data x)"
begin

lemma checked_action_same:
  "act_contract a \<noteq> [] \<Longrightarrow> act_side a \<noteq> [] \<Longrightarrow> ve_evaluate ve (Action a None) ctx w = (Inr rr, w') \<Longrightarrow> passed rr \<Longrightarrow> same_order a (data (checked_action ve rr a))"
  using sized by (auto simp: checked_action_def same_order_def Let_def split: option.splits detail.splits)

lemma after_execution_log:
  "\<exists>es. log_of s (snd (after_execution ve kind d contract side x res s)) es \<and> \<not> list_ex is_entry es \<and> (kind = ENTER \<longrightarrow> es = [])"
proof -
  have fb: "dk_log (snd (exit_pnl_fallback ve c sd q res en s')) = dk_log s'" for c sd q en s'
    using in_world_log[of "ve_mark ve c" s'] by (cases "in_world (ve_mark ve c) s'") (auto simp: exit_pnl_fallback_def Let_def split: sum.splits)
  have line: "\<exists>es. log_of s' (snd (exit_pnl_line ve c sd q res h s')) es \<and> \<not> list_ex is_entry es" for c sd q h s'
  proof -
    obtain r s1 where 1: "see_positions ve s' = (r, s1)" by fastforce
    then have l: "dk_log s1 = dk_log s' @ [Seen r]" using see_positions_log[of ve s'] by simp
    obtain r2 s2 where 2: "in_world (ve_order_pnl ve (res_order_id res) c) s1 = (r2, s2)" by fastforce
    then have "dk_log s2 = dk_log s1" using in_world_log[of _ s1] by (metis snd_conv)
    with 1 2 l have "dk_log (snd (exit_pnl_line ve c sd q res h s')) = dk_log s' @ [Seen r]"
      by (auto simp: exit_pnl_line_def Let_def fb split: sum.splits)
    then show ?thesis by (intro exI[of _ "[Seen r]"]) (simp add: log_of_def is_entry_def)
  qed
  show ?thesis
  proof (cases "confirmed res \<and> kind = EXIT")
    case False
    then have "log_of s (snd (after_execution ve kind d contract side x res s)) []"
      by (auto simp: after_execution_def log_of_def Let_def split: pyval.splits)
    then show ?thesis by (intro exI[of _ "[]"]) simp
  next
    case True
    define s1 where "s1 = (case py_get d ''db_id'' of PInt i \<Rightarrow> s\<lparr>dk_world := ve_mark_executed ve i (dk_world s)\<rparr> | _ \<Rightarrow> s)"
    have l: "dk_log s1 = dk_log s" by (simp add: s1_def split: pyval.split)
    obtain e where "(let v = py_get (act_metadata (data x)) ''entry_price'' in if truthy v then to_decimal v else Inr 0) = e" by blast
    then have "snd (after_execution ve kind d contract side x res s) =
        (case e of Inl _ \<Rightarrow> s1 | Inr h \<Rightarrow> snd (exit_pnl_line ve contract side (act_quantity (data x)) res (if h = 0 then None else Some h) s1))"
      using True by (simp add: after_execution_def s1_def[symmetric] Let_def split: sum.split)
    then show ?thesis using True l line[of s1] by (cases e) (auto simp: log_of_def intro: exI[of _ "[]"])
  qed
qed

lemma submit_decision_log:
  assumes "act_contract a \<noteq> []" "act_side a \<noteq> []"
  shows "\<exists>es. log_of s (snd (submit_decision ve kind d ctx contract side a s)) es
     \<and> (es = [] \<or> (\<exists>x r fs. es = Sent x r # fs \<and> same_order a x \<and> \<not> list_ex is_entry fs \<and> (kind = ENTER \<longrightarrow> fs = [])))
     \<and> (fst (submit_decision ve kind d ctx contract side a s) \<longrightarrow> (\<exists>x res fs. es = Sent x (Inr res) # fs \<and> confirmed res))
     \<and> (kind = ENTER \<longrightarrow> (\<forall>x res. Sent x (Inr res) \<in> set es \<and> confirmed res \<longrightarrow> fst (submit_decision ve kind d ctx contract side a s)))"
proof -
  obtain v s1 where 1: "in_world (ve_evaluate ve (Action a None) ctx) s = (v, s1)" by fastforce
  then have l1: "dk_log s1 = dk_log s" using in_world_log[of _ s] by (metis snd_conv)
  show ?thesis
  proof (cases "\<exists>rr. v = Inr rr \<and> passed rr")
    case False
    then show ?thesis using 1 l1 by (intro exI[of _ "[]"]) (auto simp: submit_decision_def log_of_def split: sum.splits)
  next
    case True
    then obtain rr where v: "v = Inr rr" "passed rr" by blast
    obtain w where "ve_evaluate ve (Action a None) ctx (dk_world s) = (Inr rr, w)"
      using 1 v by (auto simp: in_world_def split: prod.splits)
    note same = checked_action_same[OF assms this v(2)]
    let ?x = "checked_action ve rr a"
    obtain r s2 where 2: "send_action ve ?x ctx s1 = (r, s2)" by fastforce
    then have l2: "log_of s s2 [Sent (data ?x) r]" using send_action_log[of ve ?x ctx s1] l1 by (simp add: log_of_def)
    show ?thesis
    proof (cases r)
      case (Inl e)
      with 1 v 2 l2 same show ?thesis by (intro exI[of _ "[Sent (data ?x) r]"]) (simp add: submit_decision_def Let_def)
    next
      case (Inr res)
      from after_execution_log[of s2 kind d contract side ?x res] obtain fs where
        fs: "log_of s2 (snd (after_execution ve kind d contract side ?x res s2)) fs" "\<not> list_ex is_entry fs" "kind = ENTER \<longrightarrow> fs = []" by blast
      have "fst (after_execution ve kind d contract side ?x res s2) \<longrightarrow> confirmed res"
        "kind = ENTER \<longrightarrow> fst (after_execution ve kind d contract side ?x res s2) = confirmed res"
        by (simp_all add: after_execution_def Let_def)
      with log_of_trans[OF l2 fs(1)] fs 1 v 2 Inr same show ?thesis
        by (intro exI[of _ "Sent (data ?x) r # fs"]) (simp add: submit_decision_def Let_def)
    qed
  qed
qed

text \<open>
  The last part logs nothing, or the order and what follows it; an entry ends it and is protected.
\<close>

definition order_logged :: "desk_config \<Rightarrow> action_type \<Rightarrow> string \<Rightarrow> string \<Rightarrow> desk_event list \<Rightarrow> bool" where
  "order_logged cfg kind contract side fs =
     (fs = [] \<or> (\<exists>x q gs. fs = Sent x q # gs \<and> \<not> list_ex is_entry gs \<and> act_type x = kind \<and> act_side x = side \<and> act_contract x = contract
        \<and> (kind = ENTER \<longrightarrow> gs = [] \<and> \<not> unprotected cfg (act_stop_loss_price x, act_take_profit_price x))))"

lemma place_decision_log:
  assumes "side \<noteq> []" "contract \<noteq> []"
  shows "\<exists>fs. log_of s (snd (place_decision ve cfg kind d ctx contract side s)) fs \<and> order_logged cfg kind contract side fs
    \<and> (fst (place_decision ve cfg kind d ctx contract side s) = Inr True \<longrightarrow> (\<exists>x res. Sent x (Inr res) \<in> set fs \<and> confirmed res))
    \<and> (kind = ENTER \<longrightarrow> (\<forall>x res. Sent x (Inr res) \<in> set fs \<and> confirmed res \<longrightarrow> fst (place_decision ve cfg kind d ctx contract side s) = Inr True))"
proof -
  let ?strategy = "if truthy (py_get d ''strategy'') then str_of (py_get d ''strategy'') else ''ai_default''"
  define B where "B = (if kind = ENTER then entry_brackets ve cfg ?strategy contract side s else (Inr (None, None), s))"
  obtain br s1 where B: "B = (br, s1)" by fastforce
  have l1: "dk_log s1 = dk_log s"
    using entry_brackets_log[of ve cfg ?strategy contract side s] B by (auto simp: B_def split: if_splits)
  have run: "place_decision ve cfg kind d ctx contract side s = bindS B (\<lambda>b s1.
       if kind = ENTER \<and> unprotected cfg b then (Inr False, s1)
       else (case decided_action_of ve cfg kind d (ctx_positions ctx) contract side b of
           Inl e \<Rightarrow> (Inl e, s1)
         | Inr a \<Rightarrow> (let (ok, s2) = submit_decision ve kind d ctx contract side a s1 in (Inr ok, s2))))"
    by (simp add: place_decision_def B_def)
  show ?thesis
  proof (cases "\<exists>b a. br = Inr b \<and> \<not> (kind = ENTER \<and> unprotected cfg b)
      \<and> decided_action_of ve cfg kind d (ctx_positions ctx) contract side b = Inr a")
    case False
    then show ?thesis using run B l1
      by (intro exI[of _ "[]"]) (cases br, auto simp: log_of_def order_logged_def split: if_splits sum.splits)
  next
    case True
    then obtain b a where a: "br = Inr b" "\<not> (kind = ENTER \<and> unprotected cfg b)"
      "decided_action_of ve cfg kind d (ctx_positions ctx) contract side b = Inr a" by blast
    note fields = decided_action_fields[OF a(3) assms]
    from submit_decision_log[of a s1 kind d ctx contract side] fields assms obtain fs where
      fs: "log_of s1 (snd (submit_decision ve kind d ctx contract side a s1)) fs"
        "fs = [] \<or> (\<exists>x q gs. fs = Sent x q # gs \<and> same_order a x \<and> \<not> list_ex is_entry gs \<and> (kind = ENTER \<longrightarrow> gs = []))"
        "fst (submit_decision ve kind d ctx contract side a s1) \<longrightarrow> (\<exists>x res gs. fs = Sent x (Inr res) # gs \<and> confirmed res)"
        "kind = ENTER \<longrightarrow> (\<forall>x res. Sent x (Inr res) \<in> set fs \<and> confirmed res \<longrightarrow> fst (submit_decision ve kind d ctx contract side a s1))" by auto
    have out: "place_decision ve cfg kind d ctx contract side s =
        (Inr (fst (submit_decision ve kind d ctx contract side a s1)), snd (submit_decision ve kind d ctx contract side a s1))"
      using run B a by (auto simp: Let_def split: prod.split)
    have "order_logged cfg kind contract side fs"
      using fs(2) fields a(2) by (auto simp: order_logged_def same_order_def)
    moreover have "\<exists>x res. Sent x (Inr res) \<in> set fs \<and> confirmed res" if "fst (submit_decision ve kind d ctx contract side a s1)"
      using fs(3) that by (metis list.set_intros(1))
    ultimately show ?thesis using fs(1,4) l1 unfolding out fst_conv snd_conv
      by (intro exI[of _ fs]) (auto simp: log_of_def)
  qed
qed

lemma room_then_order:
  assumes "\<not> list_ex is_entry es" "order_logged cfg kind contract side fs"
    "es @ fs = pre @ Sent x out # post" "act_type x = ENTER"
  shows "pre = es \<and> post = [] \<and> kind = ENTER \<and> act_side x = side \<and> act_contract x = contract
    \<and> \<not> unprotected cfg (act_stop_loss_price x, act_take_profit_price x)"
proof -
  have e: "is_entry (Sent x out)" using assms(4) by (simp add: is_entry_def)
  then have "Sent x out \<notin> set es" using assms(1) by (auto simp: list_ex_iff)
  with assms(3) obtain us where us: "pre = es @ us" "fs = us @ Sent x out # post"
    by (auto simp: append_eq_append_conv2 append_eq_Cons_conv)
  with assms(2) obtain y q gs where y: "fs = Sent y q # gs" "\<not> list_ex is_entry gs" "act_type y = kind" "act_side y = side"
    "act_contract y = contract" "kind = ENTER \<longrightarrow> gs = [] \<and> \<not> unprotected cfg (act_stop_loss_price y, act_take_profit_price y)"
    by (auto simp: order_logged_def)
  have "us = []" using us(2) y(1,2) e by (cases us) auto
  with us y assms(4) show ?thesis by auto
qed

lemma entries_guarded:
  assumes "execute_ai_action ve cfg d ctx s = (r, s')"
  shows "\<exists>es. log_of s s' es
    \<and> (\<forall>pre a out post. es = pre @ Sent a out # post \<and> act_type a = ENTER \<longrightarrow> post = [] \<and> guarded cfg d pre a)
    \<and> (r = Inr True \<longrightarrow> (\<exists>a res. Sent a (Inr res) \<in> set es \<and> confirmed res))
    \<and> (\<forall>a res. Sent a (Inr res) \<in> set es \<and> act_type a = ENTER \<and> confirmed res \<longrightarrow> r = Inr True)"
proof -
  let ?contract = "str_of (py_get d ''contract'')" and ?kind = "action_kind (str_of (get_or d ''action'' (PStr ''HOLD'')))"
  have none: "?thesis" if "r \<noteq> Inr True" "log_of s s' es" "\<not> list_ex is_entry es" for es
    using that not_entry_split entry_not_in by blast
  show ?thesis
  proof (cases "\<exists>kind side. ?kind = Some kind \<and> order_side kind d (ctx_positions ctx) ?contract = Some side
      \<and> dc_risk_manager cfg \<and> dc_engine cfg \<and> ?contract \<noteq> [] \<and> truthy (py_get d ''quantity'')")
    case False
    then have "execute_ai_action ve cfg d ctx s = (Inr False, s)"
      by (auto simp: execute_ai_action_def Let_def split: option.split)
    then show ?thesis using assms by (intro none[of "[]"]) (auto simp: log_of_def)
  next
    case True
    then obtain kind side where k: "?kind = Some kind" "order_side kind d (ctx_positions ctx) ?contract = Some side"
      "dc_risk_manager cfg" "dc_engine cfg" "?contract \<noteq> []" "truthy (py_get d ''quantity'')" by blast
    then have side: "side \<noteq> []" by (auto simp: order_side_def Let_def split: if_splits)
    define R where "R = (if kind = ENTER then make_room ve cfg s else (Inr True, s))"
    obtain room s1 where R: "R = (room, s1)" by fastforce
    have "\<exists>es. log_of s s1 es \<and> \<not> list_ex is_entry es \<and> (kind = ENTER \<and> room = Inr True \<longrightarrow> room_seen cfg es)"
      using make_room_log[of s ve cfg] R by (auto simp: R_def log_of_refl split: if_splits intro: exI[of _ "[]"])
    then obtain es where es: "log_of s s1 es" "\<not> list_ex is_entry es" "kind = ENTER \<and> room = Inr True \<longrightarrow> room_seen cfg es" by blast
    have run: "(r, s') = bindS R (\<lambda>room s1. if room then place_decision ve cfg kind d ctx ?contract side s1 else (Inr False, s1))"
      using assms k by (simp add: execute_ai_action_def Let_def R_def)
    show ?thesis
    proof (cases "room = Inr True")
      case False
      then have "r \<noteq> Inr True" "s' = s1" using run R by (cases room; auto split: if_splits)+
      then show ?thesis using es by (intro none[of es]) auto
    next
      case True
      have p: "place_decision ve cfg kind d ctx ?contract side s1 = (r, s')" using run R True by simp
      from place_decision_log[OF side k(5), of s1 cfg kind d ctx] obtain fs where
        fs: "log_of s1 s' fs" "order_logged cfg kind ?contract side fs" "r = Inr True \<longrightarrow> (\<exists>x res. Sent x (Inr res) \<in> set fs \<and> confirmed res)"
          "kind = ENTER \<longrightarrow> (\<forall>x res. Sent x (Inr res) \<in> set fs \<and> confirmed res \<longrightarrow> r = Inr True)"
        unfolding p fst_conv snd_conv by blast
      have "post = [] \<and> guarded cfg d pre x" if split: "es @ fs = pre @ Sent x out # post" "act_type x = ENTER" for pre x out post
        using room_then_order[OF es(2) fs(2) split] es(3) True k(2) order_side_entry[of d "ctx_positions ctx" ?contract side]
        by (auto simp: guarded_def unprotected_def)
      moreover have "r = Inr True" if x: "Sent x (Inr res) \<in> set (es @ fs)" "act_type x = ENTER" "confirmed res" for x res
      proof -
        have "Sent x (Inr res) \<in> set fs" using x es(2) entry_not_in by auto
        moreover obtain pre post where "es @ fs = pre @ Sent x (Inr res) # post" using x(1) by (metis split_list)
        then have "kind = ENTER" using room_then_order[OF es(2) fs(2) _ x(2)] by blast
        ultimately show ?thesis using fs(4) x(3) by blast
      qed
      moreover have "\<exists>a res. Sent a (Inr res) \<in> set (es @ fs) \<and> confirmed res" if "r = Inr True"
        using fs(3) that by auto
      ultimately show ?thesis using log_of_trans[OF es(1) fs(1)] by (intro exI[of _ "es @ fs"]) blast
    qed
  qed
qed

lemma only_entries_enter:
  assumes "action_kind (str_of (get_or d ''action'' (PStr ''HOLD''))) \<noteq> Some ENTER"
  shows "\<exists>es. log_of s (snd (execute_ai_action ve cfg d ctx s)) es \<and> \<not> list_ex is_entry es"
proof -
  let ?contract = "str_of (py_get d ''contract'')" and ?kind = "action_kind (str_of (get_or d ''action'' (PStr ''HOLD'')))"
  show ?thesis
  proof (cases "\<exists>kind side. ?kind = Some kind \<and> order_side kind d (ctx_positions ctx) ?contract = Some side
      \<and> dc_risk_manager cfg \<and> dc_engine cfg \<and> ?contract \<noteq> [] \<and> truthy (py_get d ''quantity'')")
    case False
    then have "execute_ai_action ve cfg d ctx s = (Inr False, s)"
      by (auto simp: execute_ai_action_def Let_def split: option.split)
    then show ?thesis by (intro exI[of _ "[]"]) (simp add: log_of_def)
  next
    case True
    then obtain kind side where k: "?kind = Some kind" "order_side kind d (ctx_positions ctx) ?contract = Some side"
      "dc_risk_manager cfg" "dc_engine cfg" "?contract \<noteq> []" "truthy (py_get d ''quantity'')" by blast
    then have side: "side \<noteq> []" by (auto simp: order_side_def Let_def split: if_splits)
    have kind: "kind \<noteq> ENTER" using assms k(1) by simp
    then have "execute_ai_action ve cfg d ctx s = place_decision ve cfg kind d ctx ?contract side s"
      using k by (simp add: execute_ai_action_def)
    with place_decision_log[OF side k(5), of s cfg kind d ctx] obtain fs where
      fs: "log_of s (snd (execute_ai_action ve cfg d ctx s)) fs" "order_logged cfg kind ?contract side fs" by auto
    have "\<not> list_ex is_entry fs" using fs(2) kind by (auto simp: order_logged_def is_entry_def)
    with fs(1) show ?thesis by blast
  qed
qed

end

end
