(* ===== verification/Rotation.thy ===== *)
theory Rotation
  imports Signals Desk
begin

text \<open>
  \<^verbatim>\<open>src/quad/orchestrator/_rotation_mixin.py\<close>: the daily call budget, the gate in front of the judge, the scan of one
  pair, the trend rotation, the scalp rotation, the cycle without rotation, and one iteration of the main loop.
  The language model, the collection of market data, the clocks and the journal are the record \<open>scout\<close>; orders go
  through the desk. The ghost fields \<open>ro_calls\<close> and \<open>ro_scans\<close> keep the calls of the trend judge with
  their day (escalations marked), and the pairs scanned. Texts of reasons and the copy of the indicators in a decision, which nothing
  reads, are left out.
\<close>

section \<open>State\<close>

record market_context =
  mc_candles :: "(string, candle list) dict"
  mc_positions :: "position list"
  mc_funding :: "(string, rat) dict"

record 's scout =
  sc_available :: "'s \<Rightarrow> bool"
  sc_context :: "string list \<Rightarrow> 's \<Rightarrow> market_context res \<times> 's"
  sc_judge :: "string \<Rightarrow> string \<Rightarrow> (string, pyval) dict \<Rightarrow> market_context \<Rightarrow> 's \<Rightarrow> decision res \<times> 's"
  sc_judge_batch :: "(string, pyval) dict list \<Rightarrow> (string \<times> bool) list \<Rightarrow> 's \<Rightarrow> decision list res \<times> 's"
  sc_judge_all :: "market_context \<Rightarrow> (string, (string, pyval) dict) dict \<Rightarrow> 's \<Rightarrow> decision res \<times> 's"
  sc_journal :: "decision \<Rightarrow> market_context \<Rightarrow> 's \<Rightarrow> int option \<times> 's"
  sc_monotonic :: "'s \<Rightarrow> rat"
  sc_day :: "'s \<Rightarrow> int"
  sc_sleep :: "rat \<Rightarrow> 's \<Rightarrow> 's"
  sc_rate_limited :: "exc \<Rightarrow> bool"
  sc_account :: "'s \<Rightarrow> account res \<times> 's"
  sc_status :: "'s \<Rightarrow> risk_status res \<times> 's"
  sc_reconcile :: "position list \<Rightarrow> 's \<Rightarrow> 's"
  sc_monitor :: "strategy_context \<Rightarrow> 's \<Rightarrow> 's"

record rotation_config =
  rg_desk :: desk_config
  rg_pairs :: "string list"
  rg_scalp_pairs :: "string list"
  rg_gate :: "(string, pyval) dict"
  rg_validator :: "(string, pyval) dict"
  rg_risk :: "(string, pyval) dict"
  rg_underlyings :: "string list"
  rg_ai_enabled :: bool
  rg_mode :: string
  rg_interval :: rat

text \<open>A day is the number of the UTC date; \<open>None\<close> is the empty text of the start.\<close>

record call_budget =
  cb_day :: "int option"
  cb_used :: int
  cb_warned :: "int option"

record 's rotation =
  ro_desk :: "'s desk"
  ro_index :: nat
  ro_hold_since :: "(string, rat) dict"
  ro_last_roll :: "(string, rat) dict"
  ro_judge_ts :: "(string, int) dict"
  ro_judge :: call_budget
  ro_scalp :: call_budget
  ro_scalp_held :: "(string, rat) dict"
  ro_cycles :: nat
  ro_failures :: nat
  ro_calls :: "(int \<times> bool) list"
  ro_scans :: "string list"

definition world :: "'s rotation \<Rightarrow> 's" where
  "world s = dk_world (ro_desk s)"

definition on_world :: "('s \<Rightarrow> 'a \<times> 's) \<Rightarrow> 's rotation \<Rightarrow> 'a \<times> 's rotation" where
  "on_world f s = (let (r, d) = in_world f (ro_desk s) in (r, s\<lparr>ro_desk := d\<rparr>))"

definition on_desk :: "('s desk \<Rightarrow> 'a \<times> 's desk) \<Rightarrow> 's rotation \<Rightarrow> 'a \<times> 's rotation" where
  "on_desk f s = (let (r, d) = f (ro_desk s) in (r, s\<lparr>ro_desk := d\<rparr>))"

definition drop_key :: "'k \<Rightarrow> ('k, 'v) dict \<Rightarrow> ('k, 'v) dict" where
  "drop_key k d = filter (\<lambda>e. fst e \<noteq> k) d"

section \<open>Budget and gate\<close>

definition day_budget_allows :: "int \<Rightarrow> int \<Rightarrow> call_budget \<Rightarrow> bool \<times> call_budget" where
  "day_budget_allows budget today b =
     (if budget \<le> 0 then (True, b)
      else (let b1 = (if cb_day b \<noteq> Some today then b\<lparr>cb_day := Some today, cb_used := 0\<rparr> else b)
            in if budget \<le> cb_used b1 then (False, b1\<lparr>cb_warned := Some today\<rparr>)
               else (True, b1\<lparr>cb_used := cb_used b1 + 1\<rparr>)))"

definition has_text :: "string \<Rightarrow> string \<Rightarrow> bool" where
  "has_text w s = list_ex (\<lambda>i. take (length w) (drop i s) = w) [0..<Suc (length s)]"

definition latest_candle :: "string \<Rightarrow> (string, candle list) dict \<Rightarrow> int" where
  "latest_candle symb cs =
     foldl (\<lambda>t (k, c). if has_text symb k \<and> c \<noteq> [] then max t (cd_timestamp (last c)) else t) 0 cs"

definition float_or :: "rat \<Rightarrow> pyval \<Rightarrow> rat" where
  "float_or z v = (if truthy v then (case to_float v of Inl e \<Rightarrow> z | Inr x \<Rightarrow> x) else z)"

text \<open>The gate: whether the judge is asked, with the two parts of the state it writes.\<close>

definition judge_gate_check :: "string \<Rightarrow> (string, pyval) dict \<Rightarrow> position_side option \<Rightarrow> (string, candle list) dict \<Rightarrow> (string, pyval) dict
     \<Rightarrow> int \<Rightarrow> int \<Rightarrow> call_budget \<times> (string, int) dict \<Rightarrow> bool res \<times> (call_budget \<times> (string, int) dict)" where
  "judge_gate_check symb sig held cs gcfg budget today s =
     (let ts = latest_candle symb cs;
          fresh = (ts \<noteq> 0 \<and> map_of (snd s) symb \<noteq> Some ts);
          strength = float_or 0 (get_or sig ''local_strength'' (PFloat 0))
      in case to_float (get_or gcfg ''min_strength'' (PFloat (1 / 2))) of
           Inl e \<Rightarrow> (Inl e, s)
         | Inr min_strength \<Rightarrow>
            (let setup = (py_get sig ''local_direction'' \<in> {PStr ''LONG'', PStr ''SHORT''} \<and> min_strength \<le> strength)
             in if held = None \<and> (\<not> fresh \<or> \<not> setup) then (Inr False, s)
                else (let (ok, b) = day_budget_allows budget today (fst s)
                      in if \<not> ok then (Inr False, (b, snd s))
                         else (Inr True, (b, if ts \<noteq> 0 then AList.update symb ts (snd s) else snd s)))))"

section \<open>Scanning one pair\<close>

definition symbol_of_key :: "string \<Rightarrow> string" where
  "symbol_of_key k = takeWhile (\<lambda>c. c \<noteq> CHR ''_'') k"

definition merge_indicators :: "(string, (string, pyval) dict) dict \<Rightarrow> string \<Rightarrow> (string, pyval) dict" where
  "merge_indicators inds symb =
     foldl (\<lambda>m (k, ind). if symbol_of_key k = symb then foldl (\<lambda>d (n, v). AList.update n v d) m ind else m) [] inds"

definition indicators_or_empty :: "candle list \<Rightarrow> (string, pyval) dict" where
  "indicators_or_empty cs = (case compute_indicators cs of Inl e \<Rightarrow> [] | Inr ind \<Rightarrow> ind)"

definition context_indicators :: "market_context \<Rightarrow> (string, (string, pyval) dict) dict" where
  "context_indicators mc = map (\<lambda>(k, cs). (k, indicators_or_empty cs)) (mc_candles mc)"

definition pair_signal :: "market_context \<Rightarrow> string \<Rightarrow> (string, pyval) dict \<Rightarrow> (string, pyval) dict" where
  "pair_signal mc symb snap =
     (case map_of (mc_funding mc) symb of
        None \<Rightarrow> generate_local_signal snap symb None None
      | Some f \<Rightarrow> (let r = fround f
                   in generate_local_signal snap symb (Some r)
                        (Some (fround_places 2 (fround (fround (fround (r * 3) * 365) * 100))))))"

definition hold_decision :: "string \<Rightarrow> pyval \<Rightarrow> decision" where
  "hold_decision symb g =
     [(''action'', PStr ''HOLD''), (''direction'', PStr ''NEUTRAL''), (''side'', PNone), (''contract'', PStr symb),
      (''quantity'', PNone), (''confidence'', PFloat 0), (''gate_result'', g)]"

definition opposes :: "pyval \<Rightarrow> pyval \<Rightarrow> bool" where
  "opposes a b = (a = PStr ''LONG'' \<and> b = PStr ''SHORT'' \<or> a = PStr ''SHORT'' \<and> b = PStr ''LONG'')"

text \<open>The higher confidence wins; when one of the two is no number both count as zero, so the second verdict wins.\<close>

definition more_confident :: "decision \<Rightarrow> decision \<Rightarrow> decision" where
  "more_confident cheap smart =
     (let num = (\<lambda>d. let v = get_or d ''confidence'' (PFloat 0) in if truthy v then to_float v else Inr 0)
      in case (num cheap, num smart) of
           (Inr c, Inr s) \<Rightarrow> if c \<le> s then smart else cheap
         | _ \<Rightarrow> smart)"

definition count_call :: "bool \<Rightarrow> 's rotation \<Rightarrow> 's rotation" where
  "count_call again s = s\<lparr>ro_calls := ro_calls s @ [(case cb_day (ro_judge s) of None \<Rightarrow> 0 | Some d \<Rightarrow> d, again)]\<rparr>"

definition tier_of :: "rotation_config \<Rightarrow> string" where
  "tier_of cfg = (case get_or (dc_ai (rg_desk cfg)) ''tier'' (PStr ''cheap'') of PStr t \<Rightarrow> t | _ \<Rightarrow> [])"

definition judge_pair :: "'s scout \<Rightarrow> rotation_config \<Rightarrow> string \<Rightarrow> (string, pyval) dict \<Rightarrow> market_context \<Rightarrow> 's rotation
     \<Rightarrow> decision res \<times> 's rotation" where
  "judge_pair sc cfg symb sig mc s =
     bindS (on_world (sc_judge sc (tier_of cfg) symb sig mc) (count_call False s)) (\<lambda>d s1.
       if lower (tier_of cfg) = ''smart'' \<or> \<not> truthy (get_or (dc_ai (rg_desk cfg)) ''escalate_on_disagreement'' (PBool True))
       then (Inr d, s1)
       else (case to_float (get_or (dc_ai (rg_desk cfg)) ''escalate_min_strength'' (PFloat (fround (7 / 10)))) of
           Inl e \<Rightarrow> (Inl e, s1)
         | Inr esc \<Rightarrow>
            if opposes (py_get sig ''local_direction'') (py_get d ''direction'')
               \<and> esc \<le> float_or 0 (get_or sig ''local_strength'' (PFloat 0))
            then bindS (on_world (sc_judge sc ''smart'' symb sig mc) (count_call True s1)) (\<lambda>d2 s2.
                   (Inr (more_confident d d2), s2\<lparr>ro_judge := (ro_judge s2)\<lparr>cb_used := cb_used (ro_judge s2) + 1\<rparr>\<rparr>))
            else (Inr d, s1)))"

definition pin_contract :: "string \<Rightarrow> decision \<Rightarrow> decision" where
  "pin_contract symb d =
     (if py_get d ''action'' \<in> PStr ` {''ENTER'', ''EXIT'', ''adjust_stop'', ''reduce_position''}
      then AList.update ''contract'' (PStr symb) d else d)"

text \<open>The validated decision, or a HOLD in its place.\<close>

definition vet_decision :: "rotation_config \<Rightarrow> string \<Rightarrow> position_side option \<Rightarrow> (string, pyval) dict \<Rightarrow> decision \<Rightarrow> decision" where
  "vet_decision cfg symb held snap d =
     (let v = normalize_decision d (enum_arg held) snap
                (str_of (get_or (rg_validator cfg) ''gate_mode'' (PStr ''veto'')))
                (get_or (rg_validator cfg) ''min_confidence_to_trade'' (PFloat 0))
      in if vr_ok v then vr_decision v
         else hold_decision symb (get_or (vr_decision v) ''gate_result'' (PStr ''not_checked'')))"

text \<open>The journal writes the id of its row into the decision.\<close>

definition journal_decision :: "'s scout \<Rightarrow> decision \<Rightarrow> market_context \<Rightarrow> 's rotation \<Rightarrow> decision \<times> 's rotation" where
  "journal_decision sc d mc s =
     (let (i, s1) = on_world (sc_journal sc d mc) s
      in (case i of None \<Rightarrow> d | Some n \<Rightarrow> AList.update ''db_id'' (PInt n) d, s1))"

definition gate_pair :: "'s scout \<Rightarrow> rotation_config \<Rightarrow> string \<Rightarrow> (string, pyval) dict \<Rightarrow> position_side option \<Rightarrow> market_context
     \<Rightarrow> 's rotation \<Rightarrow> bool res \<times> 's rotation" where
  "gate_pair sc cfg symb sig held mc s =
     (if \<not> truthy (get_or (rg_gate cfg) ''enabled'' (PBool True)) then (Inr True, s)
      else (let v = get_or (dc_ai (rg_desk cfg)) ''judge_max_calls_per_day'' (PInt 48)
            in case (if truthy v then to_int v else Inr 0) of
                 Inl e \<Rightarrow> (Inl e, s)
               | Inr budget \<Rightarrow>
                  (let (r, (b, ts)) = judge_gate_check symb sig held (mc_candles mc) (rg_gate cfg) budget (sc_day sc (world s))
                         (ro_judge s, ro_judge_ts s)
                   in (r, s\<lparr>ro_judge := b, ro_judge_ts := ts\<rparr>))))"

definition scan_pair :: "'s scout \<Rightarrow> rotation_config \<Rightarrow> string \<Rightarrow> 's rotation \<Rightarrow> decision res \<times> 's rotation" where
  "scan_pair sc cfg symb s =
     bindS (on_world (sc_context sc [symb]) (s\<lparr>ro_cycles := ro_cycles s + 1, ro_scans := ro_scans s @ [symb]\<rparr>)) (\<lambda>mc s1.
       let snap = merge_indicators (context_indicators mc) symb;
           held = position_side_for (mc_positions mc) symb;
           sig = pair_signal mc symb snap
       in bindS (gate_pair sc cfg symb sig held mc s1) (\<lambda>allowed s2.
            if \<not> allowed then (Inr (hold_decision symb (PStr ''judge_skipped'')), s2)
            else bindS (judge_pair sc cfg symb sig mc s2) (\<lambda>d s3.
              let (d', s4) = journal_decision sc (vet_decision cfg symb held snap d) mc s3
              in (Inr (pin_contract symb d'), s4))))"

section \<open>The trend rotation\<close>

definition close_book :: "'s venue \<Rightarrow> rotation_config \<Rightarrow> 's rotation \<Rightarrow> bool res \<times> 's rotation" where
  "close_book ve cfg = on_desk (close_all ve (rg_desk cfg))"

definition act_on :: "'s venue \<Rightarrow> rotation_config \<Rightarrow> decision \<Rightarrow> strategy_context \<Rightarrow> 's rotation \<Rightarrow> bool res \<times> 's rotation" where
  "act_on ve cfg d ctx = on_desk (execute_ai_action ve (rg_desk cfg) d ctx)"

definition forget_hold :: "string \<Rightarrow> 's rotation \<Rightarrow> 's rotation" where
  "forget_hold symb s = s\<lparr>ro_hold_since := drop_key symb (ro_hold_since s)\<rparr>"

definition index_of :: "'a \<Rightarrow> 'a list \<Rightarrow> nat option" where
  "index_of x xs = find (\<lambda>i. xs ! i = x) [0..<length xs]"

text \<open>The list of positions is shared with the caller's context, which sees the refreshed one.\<close>

definition refresh_positions :: "'s venue \<Rightarrow> strategy_context \<Rightarrow> 's rotation \<Rightarrow> strategy_context \<times> 's rotation" where
  "refresh_positions ve ctx s =
     (case on_desk (see_positions ve) s of
        (Inl e, s1) \<Rightarrow> (ctx, s1)
      | (Inr ps, s1) \<Rightarrow> (ctx\<lparr>ctx_positions := filter (\<lambda>p. pos_status p \<noteq> Open) ps\<rparr>, s1))"

text \<open>Between two rolls: only what the judge says of the held pair.\<close>

definition manage_held :: "'s scout \<Rightarrow> 's venue \<Rightarrow> rotation_config \<Rightarrow> string \<Rightarrow> strategy_context \<Rightarrow> 's rotation \<Rightarrow> bool res \<times> 's rotation" where
  "manage_held sc ve cfg held ctx s =
     (case scan_pair sc cfg held s of
        (Inl e, s1) \<Rightarrow> (Inr False, s1)
      | (Inr d, s1) \<Rightarrow>
         (if py_get d ''action'' = PStr ''EXIT''
          then bindS (close_book ve cfg s1) (\<lambda>ok s2. (Inr True, forget_hold held s2))
          else if py_get d ''action'' \<in> {PStr ''adjust_stop'', PStr ''reduce_position''}
          then bindS (act_on ve cfg d ctx s1) (\<lambda>ok s2. (Inr True, s2))
          else (Inr True, s1)))"

datatype rolled = Stop bool | Scan

definition roll_position :: "'s venue \<Rightarrow> rotation_config \<Rightarrow> string \<Rightarrow> strategy_context \<Rightarrow> 's rotation
     \<Rightarrow> (rolled \<times> strategy_context) res \<times> 's rotation" where
  "roll_position ve cfg held ctx s =
     bindS (close_book ve cfg s) (\<lambda>closed s1.
       if \<not> closed then (Inr (Stop True, ctx), forget_hold held s1)
       else (let s2 = forget_hold held s1;
                 i = (case index_of held (rg_pairs cfg) of Some i \<Rightarrow> i | None \<Rightarrow> ro_index s2);
                 (ctx', s3) = refresh_positions ve ctx (s2\<lparr>ro_index := (i + 1) mod length (rg_pairs cfg)\<rparr>)
             in (Inr (Scan, ctx'), s3)))"

text \<open>Holding: \<open>Some True\<close> ends the cycle, \<open>None\<close> goes on to the next guard.\<close>

definition stale_guard :: "'s scout \<Rightarrow> 's venue \<Rightarrow> rotation_config \<Rightarrow> string \<Rightarrow> 's rotation \<Rightarrow> bool res \<times> 's rotation" where
  "stale_guard sc ve cfg held s =
     (case to_float (get_or (dc_rotation (rg_desk cfg)) ''max_hold_seconds'' (PFloat 0)) of
        Inl e \<Rightarrow> (Inl e, s)
      | Inr limit \<Rightarrow>
         (if limit \<le> 0 then (Inr False, s)
          else (let now = sc_monotonic sc (world s)
                in case map_of (ro_hold_since s) held of
                     None \<Rightarrow> (Inr False, s\<lparr>ro_hold_since := AList.update held now (ro_hold_since s)\<rparr>)
                   | Some since \<Rightarrow>
                      if limit \<le> fround (now - since)
                      then bindS (close_book ve cfg s) (\<lambda>closed s1. (Inr closed, forget_hold held s1))
                      else (Inr False, s))))"

definition bracket_guard :: "'s venue \<Rightarrow> rotation_config \<Rightarrow> position \<Rightarrow> order list \<Rightarrow> 's rotation \<Rightarrow> bool res \<times> 's rotation" where
  "bracket_guard ve cfg p orders s =
     (case on_desk (bracket_violation ve (rg_desk cfg) (pos_symbol p) (pos_side p) orders) s of
        (Inr (Some which), s1) \<Rightarrow> bindS (close_book ve cfg s1) (\<lambda>closed s2. (Inr closed, forget_hold (pos_symbol p) s2))
      | (r, s1) \<Rightarrow> (Inr False, s1))"

definition hold_position :: "'s scout \<Rightarrow> 's venue \<Rightarrow> rotation_config \<Rightarrow> position \<Rightarrow> order list \<Rightarrow> strategy_context \<Rightarrow> 's rotation
     \<Rightarrow> bool res \<times> 's rotation" where
  "hold_position sc ve cfg p orders ctx s =
     bindS (stale_guard sc ve cfg (pos_symbol p) s) (\<lambda>done1 s1.
     if done1 then (Inr True, s1)
     else bindS (bracket_guard ve cfg p orders s1) (\<lambda>done2 s2.
       if done2 then (Inr True, s2)
       else (case scan_pair sc cfg (pos_symbol p) s2 of
           (Inl e, s3) \<Rightarrow> (Inr False, s3)
         | (Inr d, s3) \<Rightarrow>
            if py_get d ''action'' \<in> {PStr ''adjust_stop'', PStr ''reduce_position''}
            then bindS (act_on ve cfg d ctx s3) (\<lambda>ok s4. (Inr True, s4))
            else (Inr True, s3))))"

text \<open>A position is open: rolled, managed until the next roll, or held.\<close>

definition case_held :: "'s scout \<Rightarrow> 's venue \<Rightarrow> rotation_config \<Rightarrow> position \<Rightarrow> order list \<Rightarrow> strategy_context \<Rightarrow> 's rotation
     \<Rightarrow> (rolled \<times> strategy_context) res \<times> 's rotation" where
  "case_held sc ve cfg p orders ctx s =
     (if \<not> truthy (get_or (dc_rotation (rg_desk cfg)) ''close_open_position_each_cycle'' (PBool True))
      then bindS (hold_position sc ve cfg p orders ctx s) (\<lambda>b s1. (Inr (Stop b, ctx), s1))
      else (let v = get_or (dc_rotation (rg_desk cfg)) ''roll_min_seconds'' (PInt 3300)
            in case (if truthy v then to_float v else Inr 0) of
                 Inl e \<Rightarrow> (Inl e, s)
               | Inr roll_min \<Rightarrow>
                  (let now = sc_monotonic sc (world s); last = (case map_of (ro_last_roll s) (pos_symbol p) of None \<Rightarrow> 0 | Some t \<Rightarrow> t)
                   in if 0 < roll_min \<and> last \<noteq> 0 \<and> fround (now - last) < roll_min
                      then bindS (manage_held sc ve cfg (pos_symbol p) ctx s) (\<lambda>b s1. (Inr (Stop b, ctx), s1))
                      else roll_position ve cfg (pos_symbol p) ctx
                             (s\<lparr>ro_last_roll := AList.update (pos_symbol p) now (ro_last_roll s)\<rparr>))))"

definition advance :: "rotation_config \<Rightarrow> 's rotation \<Rightarrow> 's rotation" where
  "advance cfg s = s\<lparr>ro_index := (ro_index s + 1) mod length (rg_pairs cfg)\<rparr>"

text \<open>To the next pair, with a pause when \<open>n\<close> pairs are left.\<close>

definition next_pair :: "'s scout \<Rightarrow> rotation_config \<Rightarrow> rat \<Rightarrow> nat \<Rightarrow> 's rotation \<Rightarrow> 's rotation" where
  "next_pair sc cfg pause n s =
     (if n = 0 then advance cfg s else snd (on_world (\<lambda>w. ((), sc_sleep sc pause w)) (advance cfg s)))"

fun scan_loop :: "'s scout \<Rightarrow> 's venue \<Rightarrow> rotation_config \<Rightarrow> rat \<Rightarrow> strategy_context \<Rightarrow> nat \<Rightarrow> 's rotation \<Rightarrow> bool res \<times> 's rotation" where
  "scan_loop sc ve cfg pause ctx 0 s = (Inr True, s)"
| "scan_loop sc ve cfg pause ctx (Suc n) s =
     (if \<not> sc_available sc (world s) then (Inr True, s)
      else (case scan_pair sc cfg (rg_pairs cfg ! (ro_index s mod length (rg_pairs cfg))) s of
          (Inl e, s1) \<Rightarrow>
            (let s2 = s1\<lparr>ro_failures := ro_failures s1 + 1\<rparr>
             in if sc_rate_limited sc e then (Inr True, s2) else scan_loop sc ve cfg pause ctx n (next_pair sc cfg pause n s2))
        | (Inr d, s1) \<Rightarrow>
            if py_get d ''action'' = PStr ''ENTER''
            then bindS (act_on ve cfg d ctx s1) (\<lambda>ok s2.
                   if ok then (Inr True, advance cfg s2) else scan_loop sc ve cfg pause ctx n (next_pair sc cfg pause n s2))
            else scan_loop sc ve cfg pause ctx n (next_pair sc cfg pause n s1)))"

definition run_ai_rotation :: "'s scout \<Rightarrow> 's venue \<Rightarrow> rotation_config \<Rightarrow> order list \<Rightarrow> strategy_context \<Rightarrow> 's rotation
     \<Rightarrow> (bool \<times> strategy_context) res \<times> 's rotation" where
  "run_ai_rotation sc ve cfg orders ctx s =
     (if rg_pairs cfg = [] \<or> \<not> sc_available sc (world s) then (Inr (False, ctx), s)
      else (case to_float (get_or (dc_rotation (rg_desk cfg)) ''retry_sleep_seconds'' (PFloat 30)) of
        Inl e \<Rightarrow> (Inl e, s)
      | Inr pause \<Rightarrow>
         bindS (case open_positions (ctx_positions ctx) of
                  [] \<Rightarrow> (Inr (Scan, ctx), s)
                | p # ps \<Rightarrow> case_held sc ve cfg p orders ctx s) (\<lambda>(go, ctx') s1.
           case go of
             Stop b \<Rightarrow> (Inr (b, ctx'), s1)
           | Scan \<Rightarrow> bindS (scan_loop sc ve cfg pause ctx' (length (rg_pairs cfg))
                        (s1\<lparr>ro_hold_since := [], ro_index := ro_index s1 mod length (rg_pairs cfg)\<rparr>))
                      (\<lambda>b s2. (Inr (b, ctx'), s2)))))"

section \<open>The scalp rotation\<close>

definition scalp_setting :: "rotation_config \<Rightarrow> string \<Rightarrow> pyval \<Rightarrow> pyval" where
  "scalp_setting cfg k z = get_or (dc_scalp (rg_desk cfg)) k z"

definition scalp_pairs :: "rotation_config \<Rightarrow> string list" where
  "scalp_pairs cfg = (if rg_scalp_pairs cfg = [] then rg_pairs cfg else rg_scalp_pairs cfg)"

text \<open>The time stop forgets a position whether its closing succeeded or not.\<close>

fun time_stops :: "'s venue \<Rightarrow> rotation_config \<Rightarrow> rat \<Rightarrow> rat \<Rightarrow> string list \<Rightarrow> string list \<Rightarrow> 's rotation \<Rightarrow> string list res \<times> 's rotation" where
  "time_stops ve cfg limit now [] live s = (Inr live, s)"
| "time_stops ve cfg limit now (symb # symbs) live s =
     (case map_of (ro_scalp_held s) symb of
        Some since \<Rightarrow>
          if symb \<in> set live \<and> limit \<le> fround (now - since) \<and> set live \<subseteq> fst ` set (ro_scalp_held s)
          then bindS (close_book ve cfg s) (\<lambda>ok s1.
                 time_stops ve cfg limit now symbs (removeAll symb live) (s1\<lparr>ro_scalp_held := drop_key symb (ro_scalp_held s1)\<rparr>))
          else time_stops ve cfg limit now symbs live s
      | None \<Rightarrow> time_stops ve cfg limit now symbs live s)"

definition scalp_time_stop :: "'s scout \<Rightarrow> 's venue \<Rightarrow> rotation_config \<Rightarrow> string list \<Rightarrow> 's rotation \<Rightarrow> string list res \<times> 's rotation" where
  "scalp_time_stop sc ve cfg live s =
     (let v = scalp_setting cfg ''max_hold_seconds'' (PInt 900)
      in case (if truthy v then to_float v else Inr 0) of
           Inl e \<Rightarrow> (Inl e, s)
         | Inr limit \<Rightarrow> (if limit \<le> 0 then (Inr live, s)
              else time_stops ve cfg limit (sc_monotonic sc (world s)) (map fst (ro_scalp_held s)) live s))"

text \<open>The signals worth a judgement, with the indicators of every pair.\<close>

fun gate_scalps :: "'s scout \<Rightarrow> market_context \<Rightarrow> int \<Rightarrow> rat \<Rightarrow> string list \<Rightarrow> 's rotation \<Rightarrow> (string, pyval) dict list res \<times> 's rotation" where
  "gate_scalps sc mc budget strength [] s = (Inr [], s)"
| "gate_scalps sc mc budget strength (symb # symbs) s =
     (let sig = generate_scalp_signal (merge_indicators (context_indicators mc) symb) symb;
          (r, (b, ts)) = judge_gate_check symb sig (position_side_for (mc_positions mc) symb) (mc_candles mc)
             [(''min_strength'', PFloat strength)] budget (sc_day sc (world s)) (ro_scalp s, ro_judge_ts s);
          s1 = s\<lparr>ro_scalp := b, ro_judge_ts := ts\<rparr>
      in case r of
           Inl e \<Rightarrow> (Inl e, s1)
         | Inr ok \<Rightarrow> bindS (gate_scalps sc mc budget strength symbs s1) (\<lambda>sigs s2. (Inr (if ok then sig # sigs else sigs), s2)))"

definition decision_symbol :: "decision \<Rightarrow> string" where
  "decision_symbol d = (if truthy (py_get d ''symbol'') then str_of (py_get d ''symbol'') else str_of (get_or d ''contract'' (PStr ''?'')))"

definition as_scalp :: "string \<Rightarrow> decision \<Rightarrow> decision" where
  "as_scalp symb d = AList.update ''strategy'' (PStr ''scalp'') (AList.update ''contract'' (PStr symb) d)"

definition act_on_scalp :: "'s venue \<Rightarrow> rotation_config \<Rightarrow> strategy_context \<Rightarrow> int \<Rightarrow> rat \<Rightarrow> string \<Rightarrow> decision \<Rightarrow> string list \<Rightarrow> 's rotation
     \<Rightarrow> string list res \<times> 's rotation" where
  "act_on_scalp ve cfg ctx slots now symb d live s =
     (if py_get d ''action'' = PStr ''ENTER'' \<and> slots \<le> int (length live) then (Inr live, s)
      else if py_get d ''action'' = PStr ''ENTER'' then
        bindS (act_on ve cfg (as_scalp symb d) ctx s) (\<lambda>ok s1.
          if ok then (Inr (List.insert symb live), s1\<lparr>ro_scalp_held := AList.update symb now (ro_scalp_held s1)\<rparr>) else (Inr live, s1))
      else if py_get d ''action'' = PStr ''EXIT'' then
        bindS (act_on ve cfg (as_scalp symb d) ctx s) (\<lambda>ok s1.
          if ok then (Inr (removeAll symb live), s1\<lparr>ro_scalp_held := drop_key symb (ro_scalp_held s1)\<rparr>) else (Inr live, s1))
      else (Inr live, s))"

fun act_on_scalps :: "'s venue \<Rightarrow> rotation_config \<Rightarrow> strategy_context \<Rightarrow> market_context \<Rightarrow> int \<Rightarrow> rat \<Rightarrow> decision list \<Rightarrow> string list \<Rightarrow> 's rotation
     \<Rightarrow> unit res \<times> 's rotation" where
  "act_on_scalps ve cfg ctx mc slots now [] live s = (Inr (), s)"
| "act_on_scalps ve cfg ctx mc slots now (d # ds) live s =
     (case to_float (scalp_setting cfg ''min_confidence'' (PFloat (fround (55 / 100)))) of
        Inl e \<Rightarrow> (Inl e, s)
      | Inr m \<Rightarrow>
         (let symb = decision_symbol d;
              snap = (if symb \<in> set (scalp_pairs cfg)
                      then merge_indicators (context_indicators mc) symb else []);
              v = normalize_decision d (enum_arg (position_side_for (mc_positions mc) symb)) snap ''veto'' (PFloat m)
          in if \<not> vr_ok v then act_on_scalps ve cfg ctx mc slots now ds live s
             else bindS (act_on_scalp ve cfg ctx slots now symb (vr_decision v) live s) (\<lambda>live' s1.
               act_on_scalps ve cfg ctx mc slots now ds live' s1)))"

definition signal_symbol :: "(string, pyval) dict \<Rightarrow> string" where
  "signal_symbol sig = str_of (py_get sig ''symbol'')"

definition open_symbols :: "position list \<Rightarrow> string list" where
  "open_symbols ps = remdups (map pos_symbol (open_positions ps))"

definition int_setting :: "pyval \<Rightarrow> int \<Rightarrow> int res" where
  "int_setting v z = (if truthy v then to_int v else Inr z)"

definition judge_scalps :: "'s scout \<Rightarrow> 's venue \<Rightarrow> rotation_config \<Rightarrow> strategy_context \<Rightarrow> market_context \<Rightarrow> int \<Rightarrow> rat \<Rightarrow> (string, pyval) dict list
     \<Rightarrow> string list \<Rightarrow> 's rotation \<Rightarrow> bool res \<times> 's rotation" where
  "judge_scalps sc ve cfg ctx mc slots now sigs live s =
     (if sigs = [] then (Inr True, s)
      else (case on_world (sc_judge_batch sc sigs (map (\<lambda>g. (signal_symbol g, signal_symbol g \<in> set live)) sigs)) s of
          (Inl e, s1) \<Rightarrow> (Inr False, s1)
        | (Inr ds, s1) \<Rightarrow> bindS (act_on_scalps ve cfg ctx mc slots now ds live s1) (\<lambda>u s2. (Inr True, s2))))"

definition run_scalp_rotation :: "'s scout \<Rightarrow> 's venue \<Rightarrow> rotation_config \<Rightarrow> strategy_context \<Rightarrow> 's rotation \<Rightarrow> bool res \<times> 's rotation" where
  "run_scalp_rotation sc ve cfg ctx s =
     (if scalp_pairs cfg = [] \<or> \<not> sc_available sc (world s) then (Inr False, s)
      else (case on_world (sc_context sc (scalp_pairs cfg)) s of
        (Inl e, s1) \<Rightarrow> (Inr False, s1)
      | (Inr mc, s1) \<Rightarrow>
         (case int_setting (get_or (rg_risk cfg) ''max_positions'' (PInt 1)) 1 of
            Inl e \<Rightarrow> (Inl e, s1)
          | Inr slots \<Rightarrow>
             (let now = sc_monotonic sc (world s1)
              in bindS (scalp_time_stop sc ve cfg (open_symbols (ctx_positions ctx)) s1) (\<lambda>live s2.
                 case to_float (scalp_setting cfg ''min_strength'' (PFloat (fround (6 / 10)))) of
                   Inl e \<Rightarrow> (Inl e, s2)
                 | Inr strength \<Rightarrow>
                 (case int_setting (scalp_setting cfg ''max_calls_per_day'' (PInt 120)) 0 of
                   Inl e \<Rightarrow> (Inl e, s2)
                 | Inr budget \<Rightarrow>
                    bindS (gate_scalps sc mc budget strength (scalp_pairs cfg) s2) (\<lambda>sigs s3.
                      judge_scalps sc ve cfg ctx mc slots now sigs live s3)))))))"

section \<open>The cycle without rotation\<close>

fun starts_with :: "string \<Rightarrow> string \<Rightarrow> bool" where
  "starts_with w s = (take (length w) s = w)"

definition contract_text :: "pyval \<Rightarrow> string" where
  "contract_text v = (case v of PStr c \<Rightarrow> c | _ \<Rightarrow> ''None'')"

definition legacy_hold :: "rotation_config \<Rightarrow> decision" where
  "legacy_hold cfg = [(''action'', PStr ''HOLD''), (''confidence'', PFloat 0),
     (''contract'', PStr (case rg_underlyings cfg of [] \<Rightarrow> [] | u # us \<Rightarrow> u))]"

definition vet_legacy :: "rotation_config \<Rightarrow> position list \<Rightarrow> (string, (string, pyval) dict) dict \<Rightarrow> decision \<Rightarrow> decision" where
  "vet_legacy cfg ps inds d =
     (let c = py_get d ''contract'';
          held = map_option pos_side (find (\<lambda>p. PStr (pos_symbol p) = c) ps);
          snap = (case find (\<lambda>(k, ind). starts_with (contract_text c) k) inds of None \<Rightarrow> [] | Some (k, ind) \<Rightarrow> ind);
          v = normalize_decision d (enum_arg held) snap (str_of (get_or (rg_validator cfg) ''gate_mode'' (PStr ''veto'')))
                (PFloat (float_or 0 (get_or (rg_validator cfg) ''min_confidence_to_trade'' (PFloat 0))))
      in if vr_ok v then vr_decision v
         else AList.update ''contract'' c (hold_decision [] (get_or (vr_decision v) ''gate_result'' (PStr ''not_checked''))))"

definition run_ai_trading_cycle :: "'s scout \<Rightarrow> rotation_config \<Rightarrow> position list \<Rightarrow> 's rotation \<Rightarrow> decision \<times> 's rotation" where
  "run_ai_trading_cycle sc cfg ps s =
     (case bindS (on_world (sc_context sc (rg_pairs cfg)) (s\<lparr>ro_cycles := ro_cycles s + 1\<rparr>)) (\<lambda>mc s1.
           bindS (on_world (sc_judge_all sc mc (context_indicators mc)) s1) (\<lambda>d s2.
             let (d', s3) = journal_decision sc (vet_legacy cfg ps (context_indicators mc) d) mc s2 in (Inr d', s3))) of
        (Inl e, s1) \<Rightarrow> (legacy_hold cfg, s1)
      | (Inr d, s1) \<Rightarrow> (d, s1))"

definition legacy_cycle :: "'s scout \<Rightarrow> 's venue \<Rightarrow> rotation_config \<Rightarrow> strategy_context \<Rightarrow> 's rotation \<Rightarrow> unit res \<times> 's rotation" where
  "legacy_cycle sc ve cfg ctx s =
     bindS (if truthy (get_or (dc_trading (rg_desk cfg)) ''serial_trade_mode'' (PBool True)) then close_book ve cfg s else (Inr True, s)) (\<lambda>ok s1.
       let (d, s2) = run_ai_trading_cycle sc cfg (ctx_positions ctx) s1; s3 = s2\<lparr>ro_failures := 0\<rparr>
       in if py_get d ''action'' \<in> {PStr ''ENTER'', PStr ''EXIT''}
          then bindS (act_on ve cfg d ctx s3) (\<lambda>ok s4. (Inr (), s4)) else (Inr (), s3))"

section \<open>One iteration of the main loop\<close>

definition cycle_context :: "account \<Rightarrow> position list \<Rightarrow> order list \<Rightarrow> risk_status option \<Rightarrow> strategy_context" where
  "cycle_context acc ps os st = default_context\<lparr>ctx_account := Some acc, ctx_positions := ps, ctx_orders := os, ctx_risk_status := st\<rparr>"

definition decide_cycle :: "'s scout \<Rightarrow> 's venue \<Rightarrow> rotation_config \<Rightarrow> order list \<Rightarrow> strategy_context \<Rightarrow> 's rotation
     \<Rightarrow> strategy_context \<times> 's rotation" where
  "decide_cycle sc ve cfg orders ctx s =
     (if \<not> rg_ai_enabled cfg \<or> \<not> sc_available sc (world s) then (ctx, s)
      else (let failed = (\<lambda>s. s\<lparr>ro_failures := ro_failures s + 1\<rparr>)
            in if \<not> truthy (get_or (dc_rotation (rg_desk cfg)) ''enabled'' (PBool False))
               then (case legacy_cycle sc ve cfg ctx s of (Inl e, s1) \<Rightarrow> (ctx, failed s1) | (Inr u, s1) \<Rightarrow> (ctx, s1))
               else if lower (rg_mode cfg) = ''scalp''
               then (case run_scalp_rotation sc ve cfg ctx s of (Inl e, s1) \<Rightarrow> (ctx, failed s1) | (Inr b, s1) \<Rightarrow> (ctx, s1))
               else (case run_ai_rotation sc ve cfg orders ctx s of
                   (Inl e, s1) \<Rightarrow> (ctx, failed s1) | (Inr (b, ctx'), s1) \<Rightarrow> (ctx', s1))))"

definition sleep_for :: "'s scout \<Rightarrow> rat \<Rightarrow> 's rotation \<Rightarrow> 's rotation" where
  "sleep_for sc t s = snd (on_world (\<lambda>w. ((), sc_sleep sc t w)) s)"

definition cycle_body :: "'s scout \<Rightarrow> 's venue \<Rightarrow> rotation_config \<Rightarrow> account \<Rightarrow> position list \<Rightarrow> 's rotation \<Rightarrow> 's rotation" where
  "cycle_body sc ve cfg acc ps s =
     (let (os, s1) = on_world (ve_open_orders ve) s;
          orders = (case os of Inl e \<Rightarrow> [] | Inr xs \<Rightarrow> xs);
          s2 = snd (on_world (\<lambda>w. ((), sc_reconcile sc ps w)) s1);
          (st, s3) = on_world (sc_status sc) s2;
          (ctx, s4) = decide_cycle sc ve cfg orders (cycle_context acc ps orders (case st of Inl e \<Rightarrow> None | Inr x \<Rightarrow> Some x)) s3
      in snd (on_world (\<lambda>w. ((), sc_monitor sc ctx w)) s4))"

text \<open>A failure of the account or of the positions skips the rest of the iteration.\<close>

definition main_iteration :: "'s scout \<Rightarrow> 's venue \<Rightarrow> rotation_config \<Rightarrow> 's rotation \<Rightarrow> 's rotation" where
  "main_iteration sc ve cfg s =
     (let start = sc_monotonic sc (world s)
      in case bindS (on_world (sc_account sc) s) (\<lambda>acc s1. bindS (on_desk (see_positions ve) s1) (\<lambda>ps s2. (Inr (acc, ps), s2))) of
           (Inl e, s1) \<Rightarrow> sleep_for sc (rg_interval cfg) s1
         | (Inr (acc, ps), s2) \<Rightarrow>
            (let s3 = cycle_body sc ve cfg acc ps s2;
                 rest = max 0 (fround (rg_interval cfg - fround (sc_monotonic sc (world s3) - start)))
             in if 0 < rest then sleep_for sc rest s3 else s3))"

end
