(* ===== verification/Trading.thy ===== *)
theory Trading
  imports Desk Engine
begin

text \<open>
  The desk on the model's own exchange adapter, risk manager and execution engine, with the realized PnL of one
  order from \<^verbatim>\<open>exchange/bybit.py\<close>. What the engine's entries have seen before them is inherited from the desk.
\<close>

section \<open>The venue\<close>

definition bybit_order_pnl :: "'w rest \<Rightarrow> order_id \<Rightarrow> string \<Rightarrow> 'w \<Rightarrow> rat res \<times> 'w" where
  "bybit_order_pnl r i symb w =
     (if \<not> id_truthy i then (Inr 0, w)
      else (case r_get r ''/v5/order/history'' (id_params i symb) w of
        (Inl e, w1) \<Rightarrow> (if is_exchange_error e then Inr 0 else Inl e, w1)
      | (Inr rows, w1) \<Rightarrow> (dec_field (case rows of [] \<Rightarrow> [] | d # ds \<Rightarrow> d) ''realizedPnl'', w1)))"

definition on_wire :: "('w \<Rightarrow> 'a \<times> 'w) \<Rightarrow> 'w engine \<Rightarrow> 'a \<times> 'w engine" where
  "on_wire f en = (let (a, w) = f (snd (en_exchange en)) in (a, en\<lparr>en_exchange := (fst (en_exchange en), w)\<rparr>))"

definition on_adapter :: "(adapter \<times> 'w \<Rightarrow> 'a \<times> (adapter \<times> 'w)) \<Rightarrow> 'w engine \<Rightarrow> 'a \<times> 'w engine" where
  "on_adapter f en = (let (a, x) = f (en_exchange en) in (a, en\<lparr>en_exchange := x\<rparr>))"

text \<open>
  \<open>txt\<close> is \<^verbatim>\<open>str\<close> of a \<^verbatim>\<open>Decimal\<close>. Every order the adapter lists has an id. The table of decisions is no part of the
  engine's state, so marking one as executed leaves it alone.
\<close>

definition engine_venue :: "'w engine_env \<Rightarrow> (rat \<Rightarrow> string) \<Rightarrow> 'w engine venue" where
  "engine_venue ev txt =
     \<lparr>ve_positions = on_wire (get_positions (ee_rest ev)),
      ve_open_orders = on_adapter (bybit_open_orders (ee_rest ev)),
      ve_cancel = (\<lambda>x. on_adapter (bybit_cancel_order (ee_rest ev) (case ord_id x of Some i \<Rightarrow> i | None \<Rightarrow> IntId 0) (ord_symbol x))),
      ve_mark = (\<lambda>symb. on_wire (get_mark_price (ee_rest ev) symb)),
      ve_evaluate = (\<lambda>a ctx en. (risk_evaluate (en_risk en) a ctx, en)),
      ve_execute = execute ev,
      ve_order_pnl = (\<lambda>i symb. on_wire (bybit_order_pnl (ee_rest ev) i symb)),
      ve_mark_executed = (\<lambda>i en. en),
      ve_text = txt\<rparr>"

lemma listed_orders_have_ids:
  "bybit_open_orders r s = (Inr os, s') \<Longrightarrow> \<forall>x \<in> set os. ord_id x \<noteq> None"
proof -
  have m: "map_res (\<lambda>d. order_from_entry d i) rows = Inr xs \<Longrightarrow> \<forall>x \<in> set xs. ord_id x \<noteq> None" for rows xs i
    by (induction rows arbitrary: xs) (auto simp: bindE_Inr_iff order_from_entry_def)
  assume "bybit_open_orders r s = (Inr os, s')"
  then show ?thesis by (auto simp: bybit_open_orders_def dest: m split: prod.splits sum.splits)
qed

section \<open>The risk manager keeps the order\<close>

lemma sized_keeps_order:
  assumes "risk_evaluate rm (Action a None) ctx = Inr rr" "passed rr" "map_of (details rr) ''action'' = Some (DAction x)"
    "act_contract a \<noteq> []" "act_side a \<noteq> []"
  shows "same_order a (data x)"
proof -
  from risk_evaluate_passed[OF assms(1,2)] assms(3) have "compute_size (rm_sizer rm) (Action a None) ctx = Inr x" by auto
  from compute_size_sized[OF this] obtain q m where "x = Action (post_init (a\<lparr>act_quantity := q, act_metadata := m\<rparr>)) None" by auto
  with assms(4,5) show ?thesis by (simp add: same_order_def post_init_side post_init_contract)
qed

interpretation bybit_desk: sizing_desk "engine_venue ev txt"
  by unfold_locales (auto simp: engine_venue_def intro: sized_keeps_order)


section \<open>The PnL of a serial close\<close>

text \<open>
  The closing order names its position side as \<^verbatim>\<open>PositionSide.LONG\<close>, which the journal does not take for a long: every
  serial close is booked as if it closed a short.
\<close>

lemma serial_close_pnl:
  assumes "to_decimal (PStr (ve_text ve (pos_entry_price p))) = Inr x" "ve_text ve (pos_entry_price p) \<noteq> []"
  shows "realized_pnl (close_action ve p) price fee = dround (dround (- dround (price - x) * pos_quantity p) - fee)"
proof -
  have "\<not> is_long_text (PStr (enum_text Long)) \<and> \<not> is_long_text (PStr (enum_text Short))" by code_simp
  then have l: "\<not> is_long_text (PStr (enum_text d))" for d by (cases d) simp_all
  have t: "truthy (PStr (enum_text d))" for d by (cases d) (simp_all add: enum_text_def)
  have m: "py_get (act_metadata (close_action ve p)) ''entry_price'' = PStr (ve_text ve (pos_entry_price p))"
    "py_get (act_metadata (close_action ve p)) ''position_side'' = PStr (enum_text (pos_side p))"
    by (simp_all add: close_action_def py_get_def)
  have "truthy (PStr (ve_text ve (pos_entry_price p)))" using assms(2) by simp
  with assms(1) show ?thesis
    by (simp add: realized_pnl_def m close_action_fields l t Let_def del: is_long_text.simps truthy.simps to_decimal.simps)
qed

text \<open>With one of the two brackets switched off no entry is made.\<close>

lemma one_bracket_blocks_entries:
  assumes "truthy (get_or (dc_sl cfg) ''enabled'' (PBool True)) \<noteq> truthy (get_or (dc_tp cfg) ''enabled'' (PBool True))"
    "bracket_pair cfg side entry x y = Inr b"
  shows "unprotected cfg b"
  using assms by (auto simp: bracket_pair_def unprotected_def bindE_Inr_iff split: if_splits)

section \<open>Examples\<close>

definition example_desk_config :: desk_config where
  "example_desk_config = \<lparr>dc_risk_manager = True, dc_engine = True, dc_trading = [], dc_sl = [], dc_tp = [], dc_ai = [],
     dc_rotation = [], dc_scalp = []\<rparr>"

definition example_order_decision :: decision where
  "example_order_decision = [(''action'', PStr ''ENTER''), (''direction'', PStr ''LONG''), (''contract'', PStr ''BTCUSDT''),
     (''quantity'', PInt 100)]"

definition example_desk :: "unit engine desk" where
  "example_desk = \<lparr>dk_world = example_engine, dk_log = []\<rparr>"

definition example_venue :: "unit engine venue" where
  "example_venue = engine_venue example_env (\<lambda>x. ''100'')"


definition example_decided :: action_data where
  "example_decided = default_action\<lparr>act_type := ENTER, act_strategy := ''ai_default'', act_symbol := ''BTCUSDT'',
     act_contract := ''BTCUSDT'', act_side := ''BUY'', act_quantity := 100, act_order_type := ''MARKET'',
     act_stop_loss_price := Some (497 / 5), act_take_profit_price := Some 101,
     act_metadata := [(''ai_confidence'', PFloat (fround (8 / 10)))]\<rparr>"

lemma same_wire: "(fst x, ()) = x"
  by (cases x) simp

lemma example_book: "ve_positions example_venue w = (Inr [], w)" "ve_mark example_venue symb w = (Inr 100, w)"
proof -
  have "to_decimal (PStr ''100'') = Inr 100" by code_simp
  then show "ve_mark example_venue symb w = (Inr 100, w)"
    by (simp add: example_venue_def engine_venue_def on_wire_def example_env_def get_mark_price_def example_rest_def dec_field_def py_get_def
        same_wire del: to_decimal.simps)
qed (simp add: same_wire example_venue_def engine_venue_def on_wire_def example_env_def get_positions_def example_rest_def
      parse_position_def text_field_def py_get_def List.map_filter_def)

lemma example_room: "make_room example_venue example_desk_config example_desk = (Inr True, example_desk\<lparr>dk_log := [Seen (Inr [])]\<rparr>)"
  by (simp add: make_room_def example_desk_config_def get_or_def close_all_def see_positions_def example_book open_positions_def example_desk_def)

lemma example_bracket_pair: "bracket_pair example_desk_config ''BUY'' 100 None None = Inr (Some (497 / 5), Some 101)"
  by code_simp

lemma example_bracket_run:
  "entry_brackets example_venue example_desk_config ''ai_default'' ''BTCUSDT'' ''BUY'' s = (Inr (Some (497 / 5), Some 101), s)"
  by (simp add: entry_brackets_def compute_bracket_prices_def in_world_def example_book example_bracket_pair)
    (simp add: example_desk_config_def get_or_def)

lemma example_decided_run:
  "decided_action_of example_venue example_desk_config ENTER example_order_decision ps ''BTCUSDT'' ''BUY'' (Some (497 / 5), Some 101) = Inr example_decided"
  by (simp add: decided_action_of_def example_order_decision_def py_get_def get_or_def example_desk_config_def default_action_def
      post_init_update example_decided_def Let_def)

lemma example_decided_evaluated:
  "case risk_evaluate example_manager (Action example_decided None) example_context of Inl e \<Rightarrow> False | Inr rr \<Rightarrow> passed rr"
  by code_simp


text \<open>A book whose one long is gone once an order was sent, for the closing of everything.\<close>

definition example_long :: position where
  "example_long = \<lparr>pos_id = None, pos_strategy = [], pos_symbol = ''BTCUSDT'', pos_side = Long, pos_quantity = 2,
     pos_entry_price = 90, pos_current_price = 100, pos_unrealized_pnl = 20, pos_realized_pnl = 0, pos_leverage = 10,
     pos_margin_type = Cross, pos_position_side = FBoth, pos_liquidation_price = 50, pos_initial_margin = 0,
     pos_maintenance_margin = 0, pos_funding_paid = 0, pos_status = Open, pos_opened_at = 0, pos_updated_at = 0,
     pos_stop_loss_order_id = [], pos_take_profit_order_id = [], pos_stop_loss_price = 0, pos_take_profit_price = 0\<rparr>"

definition closing_venue :: "bool venue" where
  "closing_venue =
     \<lparr>ve_positions = (\<lambda>w. (Inr (if w then [example_long] else []), w)), ve_open_orders = (\<lambda>w. (Inr [], w)),
      ve_cancel = (\<lambda>x w. (Inr True, w)), ve_mark = (\<lambda>symb w. (Inr 100, w)),
      ve_evaluate = (\<lambda>a ctx w. (Inr (RiskResult True [] []), w)),
      ve_execute = (\<lambda>a ctx w. (Inr (rejected_result (data a)\<lparr>res_status := ''FILLED''\<rparr>), False)),
      ve_order_pnl = (\<lambda>i symb w. (Inr 0, w)), ve_mark_executed = (\<lambda>i w. w), ve_text = (\<lambda>x. ''100'')\<rparr>"


end
