(* ===== verification/Cycle.thy ===== *)
theory Cycle
  imports Rotation Trading
begin

text \<open>
  What the rotations of \<^verbatim>\<open>_rotation_mixin.py\<close> keep: the daily budget of the judge, the vetting of a scanned
  decision, the order in which pairs are scanned, and the entries a cycle sends.
\<close>

section \<open>Frames\<close>

text \<open>The part of the state only the gate and the judge write.\<close>

definition judge_part :: "'s rotation \<Rightarrow> call_budget \<times> (int \<times> bool) list" where
  "judge_part s = (ro_judge s, ro_calls s)"

lemma on_world_frame [simp]:
  "judge_part (snd (on_world f s)) = judge_part s" "ro_scans (snd (on_world f s)) = ro_scans s"
  "ro_index (snd (on_world f s)) = ro_index s" "ro_judge (snd (on_world f s)) = ro_judge s"
  "ro_calls (snd (on_world f s)) = ro_calls s"
  "dk_log (ro_desk (snd (on_world f s))) = dk_log (ro_desk s)"
  by (simp_all add: on_world_def judge_part_def split: prod.split) (metis in_world_log snd_conv)

lemma on_desk_frame [simp]:
  "judge_part (snd (on_desk f s)) = judge_part s" "ro_scans (snd (on_desk f s)) = ro_scans s"
  "ro_index (snd (on_desk f s)) = ro_index s" "ro_judge (snd (on_desk f s)) = ro_judge s" "ro_calls (snd (on_desk f s)) = ro_calls s"
  by (simp_all add: on_desk_def judge_part_def split: prod.split)

lemma on_world_frameD:
  assumes "on_world f s = (r, s1)"
  shows "judge_part s1 = judge_part s" "ro_scans s1 = ro_scans s" "ro_index s1 = ro_index s" "ro_judge s1 = ro_judge s"
    "ro_calls s1 = ro_calls s" "dk_log (ro_desk s1) = dk_log (ro_desk s)"
  using on_world_frame[of f s] assms by simp_all

section \<open>Relations every part of a cycle keeps\<close>

text \<open>
  A preorder on states that the steps of a cycle respect, in two stages: what the managing of an open position does, and
  everything the main loop does.
\<close>

locale managing =
  fixes R :: "'s rotation \<Rightarrow> 's rotation \<Rightarrow> bool" and sc :: "'s scout" and ve :: "'s venue" and cfg :: rotation_config
  assumes refl: "R s s"
    and trans: "R s s1 \<Longrightarrow> R s1 s2 \<Longrightarrow> R s s2"
    and moving: "R s (s\<lparr>ro_desk := (ro_desk s)\<lparr>dk_world := w\<rparr>\<rparr>)"
    and closing: "R s (snd (close_book ve cfg s))"
    and looking: "R s (snd (on_desk (see_positions ve) s))"
    and bracketing: "R s (snd (on_desk (bracket_violation ve (rg_desk cfg) symb side orders) s))"
    and adjusting: "py_get d ''action'' \<in> {PStr ''adjust_stop'', PStr ''reduce_position''} \<Longrightarrow> R s (snd (act_on ve cfg d ctx s))"
    and scanning: "R s (snd (scan_pair sc cfg symb s))"
    and noting: "R s (s\<lparr>ro_index := i\<rparr>)" "R s (s\<lparr>ro_hold_since := h\<rparr>)" "R s (s\<lparr>ro_last_roll := h\<rparr>)" "R s (s\<lparr>ro_failures := n\<rparr>)"
begin

lemma worldly: "R s (snd (on_world f s))"
  by (simp add: on_world_def in_world_def moving split: prod.split)

lemma through: "R s (snd m) \<Longrightarrow> (\<And>x s1. m = (Inr x, s1) \<Longrightarrow> R s1 (snd (f x s1))) \<Longrightarrow> R s (snd (bindS m f))"
  by (cases m; cases "fst m") (auto intro: trans)

lemma after: "m = (x, s1) \<Longrightarrow> R s (snd m) \<Longrightarrow> R s1 s2 \<Longrightarrow> R s s2"
  by (auto intro: trans)

lemma forgetting: "R s (forget_hold symb s)"
  by (simp add: forget_hold_def noting)

lemma refreshing: "R s (snd (refresh_positions ve ctx s))"
  using looking[of s] by (auto simp: refresh_positions_def split: prod.split sum.split)

lemma rolling: "R s (snd (roll_position ve cfg held ctx s))"
  unfolding roll_position_def
proof (rule through[OF closing])
  fix closed s1
  have "R s1 (snd (refresh_positions ve ctx ((forget_hold held s1)\<lparr>ro_index := i\<rparr>)))" for i
    by (rule trans[OF forgetting trans[OF noting(1) refreshing]])
  then show "R s1 (snd (if \<not> closed then (Inr (Stop True, ctx), forget_hold held s1)
       else (let s2 = forget_hold held s1;
                 i = (case index_of held (rg_pairs cfg) of Some i \<Rightarrow> i | None \<Rightarrow> ro_index s2);
                 (ctx', s3) = refresh_positions ve ctx (s2\<lparr>ro_index := (i + 1) mod length (rg_pairs cfg)\<rparr>)
             in (Inr (Scan, ctx'), s3))))"
    using forgetting by (auto simp: Let_def split: prod.split) (metis snd_conv)
qed

lemma guarding: "R s (snd (stale_guard sc ve cfg held s))" "R s (snd (bracket_guard ve cfg p orders s))"
proof -
  have close: "R s (snd (bindS (close_book ve cfg s) (\<lambda>closed s1. (Inr closed, forget_hold symb s1))))" for symb s
    by (rule through[OF closing]) (simp add: forgetting)
  then show "R s (snd (stale_guard sc ve cfg held s))"
    by (auto simp: stale_guard_def Let_def refl noting split: sum.split option.split)
  show "R s (snd (bracket_guard ve cfg p orders s))"
    using bracketing[of s "pos_symbol p" "pos_side p" orders]
    by (auto simp: bracket_guard_def split: prod.split sum.split option.split intro: trans close)
qed

lemma adjusted: "py_get d ''action'' \<in> {PStr ''adjust_stop'', PStr ''reduce_position''}
    \<Longrightarrow> R s (snd (bindS (act_on ve cfg d ctx s) (\<lambda>ok s1. (Inr True, s1))))"
  by (rule through[OF adjusting]) (simp_all add: refl)

lemma scan_then: "(\<And>r s1. R s s1 \<Longrightarrow> R s (snd (g r s1))) \<Longrightarrow> R s (snd (case_prod g (scan_pair sc cfg symb s)))"
  using scanning[of s symb] by (cases "scan_pair sc cfg symb s") simp

lemma holding: "R s (snd (hold_position sc ve cfg p orders ctx s))"
  unfolding hold_position_def
proof (rule through[OF guarding(1)])
  fix done1 s1
  have "R s2 (snd (case scan_pair sc cfg (pos_symbol p) s2 of
           (Inl e, s3) \<Rightarrow> (Inr False, s3)
         | (Inr d, s3) \<Rightarrow>
            if py_get d ''action'' \<in> {PStr ''adjust_stop'', PStr ''reduce_position''}
            then bindS (act_on ve cfg d ctx s3) (\<lambda>ok s4. (Inr True, s4))
            else (Inr True, s3)))" for s2
    by (rule scan_then) (auto split: sum.split intro: trans[OF _ adjusted])
  then show "R s1 (snd (if done1 then (Inr True, s1)
     else bindS (bracket_guard ve cfg p orders s1) (\<lambda>done2 s2.
       if done2 then (Inr True, s2)
       else (case scan_pair sc cfg (pos_symbol p) s2 of
           (Inl e, s3) \<Rightarrow> (Inr False, s3)
         | (Inr d, s3) \<Rightarrow>
            if py_get d ''action'' \<in> {PStr ''adjust_stop'', PStr ''reduce_position''}
            then bindS (act_on ve cfg d ctx s3) (\<lambda>ok s4. (Inr True, s4))
            else (Inr True, s3)))))"
    by (auto simp: refl intro!: through[OF guarding(2)])
qed

lemma managing_held: "R s (snd (manage_held sc ve cfg held ctx s))"
  unfolding manage_held_def
proof (rule scan_then)
  fix r s1 assume "R s s1"
  moreover have "R s1 (snd (bindS (close_book ve cfg s1) (\<lambda>ok s2. (Inr True, forget_hold held s2))))"
    by (rule through[OF closing]) (simp add: forgetting)
  ultimately show "R s (snd (case r of Inl e \<Rightarrow> (Inr False, s1)
      | Inr d \<Rightarrow>
         (if py_get d ''action'' = PStr ''EXIT''
          then bindS (close_book ve cfg s1) (\<lambda>ok s2. (Inr True, forget_hold held s2))
          else if py_get d ''action'' \<in> {PStr ''adjust_stop'', PStr ''reduce_position''}
          then bindS (act_on ve cfg d ctx s1) (\<lambda>ok s2. (Inr True, s2))
          else (Inr True, s1))))"
    by (auto split: sum.split intro: trans trans[OF _ adjusted])
qed

lemma held_case: "R s (snd (case_held sc ve cfg p orders ctx s))"
proof -
  have "R s (snd (bindS (hold_position sc ve cfg p orders ctx s) (\<lambda>b s1. (Inr (Stop b, ctx), s1))))"
    by (rule through[OF holding]) (simp add: refl)
  moreover have "R s (snd (bindS (manage_held sc ve cfg (pos_symbol p) ctx s) (\<lambda>b s1. (Inr (Stop b, ctx), s1))))"
    by (rule through[OF managing_held]) (simp add: refl)
  moreover have "R s (snd (roll_position ve cfg held ctx (s\<lparr>ro_last_roll := h\<rparr>)))" for held h
    by (rule trans[OF noting(3) rolling])
  ultimately show ?thesis by (auto simp: case_held_def Let_def refl split: sum.split)
qed

end

text \<open>
  The rest of the main loop also acts on entries and scalps. Its contexts carry the account, the positions, the orders and the
  risk status, and nothing else.
\<close>

definition bare :: "strategy_context \<Rightarrow> bool" where
  "bare ctx = (ctx_funding_rates ctx = [] \<and> ctx_futures_positions ctx = [] \<and> ctx_mark_prices ctx = [])"

lemma bare_positions [simp]: "bare (ctx\<lparr>ctx_positions := ps\<rparr>) = bare ctx"
  by (simp add: bare_def)

lemma bare_cycle_context: "bare (cycle_context acc ps os st)"
  by (simp add: bare_def cycle_context_def default_context_def)

lemma refresh_bare: "bare ctx \<Longrightarrow> bare (fst (refresh_positions ve ctx s))"
  by (simp add: refresh_positions_def split: prod.split sum.split)

lemma case_held_bare:
  assumes "bare ctx" "case_held sc ve cfg p orders ctx s = (Inr (x, ctx'), s')"
  shows "bare ctx'"
proof -
  have pass: "bindS m (\<lambda>b s1. (Inr (Stop b, ctx), s1)) = (Inr (x, ctx'), s') \<Longrightarrow> ctx' = ctx" for m :: "bool res \<times> 'a rotation"
    by (cases m; cases "fst m") auto
  have roll: "roll_position ve cfg held ctx s1 = (Inr (x, ctx'), s') \<Longrightarrow> bare ctx'" for held s1
  proof -
    assume *: "roll_position ve cfg held ctx s1 = (Inr (x, ctx'), s')"
    obtain r s2 where 1: "close_book ve cfg s1 = (r, s2)" by fastforce
    have "bare c" if "refresh_positions ve ctx s3 = (c, s4)" for s3 c s4
      using refresh_bare[OF assms(1), of ve s3] that by simp
    then show "bare ctx'"
      using * 1 assms(1) by (cases r) (auto simp: roll_position_def Let_def split: if_splits prod.splits)
  qed
  show ?thesis using assms(2) assms(1) by (auto simp: case_held_def Let_def split: if_splits sum.splits dest: pass roll)
qed

locale cycling = managing +
  assumes acting: "bare ctx \<Longrightarrow> R s (snd (act_on ve cfg d ctx s))"
    and noting_scalps: "R s (s\<lparr>ro_scalp := b, ro_judge_ts := ts\<rparr>)" "R s (s\<lparr>ro_scalp_held := h\<rparr>)"
      "R s (s\<lparr>ro_cycles := n\<rparr>)"
begin

lemma world_then: "(\<And>r s1. R s s1 \<Longrightarrow> R s (snd (g r s1))) \<Longrightarrow> R s (snd (case_prod g (on_world f s)))"
  using worldly[of s f] by (cases "on_world f s") simp

lemma advancing: "R s (advance cfg s)" "R s (next_pair sc cfg pause n s)"
proof -
  show a: "R s (advance cfg s)" by (simp add: advance_def noting)
  show "R s (next_pair sc cfg pause n s)" by (auto simp: next_pair_def a intro: trans[OF a worldly])
qed

lemma scanning_all: "bare ctx \<Longrightarrow> R s (snd (scan_loop sc ve cfg pause ctx n s))"
proof (induction n arbitrary: s)
  case 0 show ?case by (simp add: refl)
next
  case (Suc n)
  note b = Suc.prems
  have nxt: "R s (snd (scan_loop sc ve cfg pause ctx n (next_pair sc cfg pause n s)))" for s
    by (rule trans[OF advancing(2) Suc.IH[OF b]])
  have act: "R s (snd (bindS (act_on ve cfg d ctx s) (\<lambda>ok s2.
      if ok then (Inr True, advance cfg s2) else scan_loop sc ve cfg pause ctx n (next_pair sc cfg pause n s2))))" for d s
    by (rule through[OF acting[OF b]]) (simp add: advancing nxt)
  have "R s (snd (case scan_pair sc cfg symb s of
          (Inl e, s1) \<Rightarrow>
            (let s2 = s1\<lparr>ro_failures := ro_failures s1 + 1\<rparr>
             in if sc_rate_limited sc e then (Inr True, s2) else scan_loop sc ve cfg pause ctx n (next_pair sc cfg pause n s2))
        | (Inr d, s1) \<Rightarrow>
            if py_get d ''action'' = PStr ''ENTER''
            then bindS (act_on ve cfg d ctx s1) (\<lambda>ok s2.
                   if ok then (Inr True, advance cfg s2) else scan_loop sc ve cfg pause ctx n (next_pair sc cfg pause n s2))
            else scan_loop sc ve cfg pause ctx n (next_pair sc cfg pause n s1)))" for symb
    by (rule scan_then) (auto simp: Let_def split: sum.split
        intro: trans[OF _ act] trans[OF _ nxt] trans[OF _ noting(4)] trans[OF trans[OF _ noting(4)] nxt])
  then show ?case by (simp add: refl)
qed

lemma rotating:
  assumes "bare ctx"
  shows "R s (snd (run_ai_rotation sc ve cfg orders ctx s))"
proof -
  have scan: "bare ctx' \<Longrightarrow> R s (snd (bindS (scan_loop sc ve cfg pause ctx' n (s\<lparr>ro_hold_since := [], ro_index := i\<rparr>)) (\<lambda>b s2. (Inr (b, ctx'), s2))))"
    for s pause ctx' n i
    by (rule through[OF trans[OF trans[OF noting(2) noting(1)] scanning_all]]) (simp_all add: refl)
  let ?first = "case open_positions (ctx_positions ctx) of [] \<Rightarrow> (Inr (Scan, ctx), s) | p # ps \<Rightarrow> case_held sc ve cfg p orders ctx s"
  have "R s (snd ?first)"
    by (simp add: refl held_case split: list.split)
  moreover have "bare ctx'" if "?first = (Inr (x, ctx'), s1)" for x ctx' s1
    using that assms case_held_bare[OF assms] by (auto split: list.splits)
  ultimately show ?thesis
    by (auto simp: run_ai_rotation_def refl split: sum.split intro!: through) (auto simp: refl scan split: rolled.split)
qed

lemma stopping: "R s (snd (time_stops ve cfg limit now symbs live s))"
proof (induction symbs arbitrary: live s)
  case Nil show ?case by (simp add: refl)
next
  case (Cons symb symbs)
  have "R s (snd (bindS (close_book ve cfg s) (\<lambda>ok s1.
         time_stops ve cfg limit now symbs (removeAll symb live) (s1\<lparr>ro_scalp_held := drop_key symb (ro_scalp_held s1)\<rparr>))))"
    by (rule through[OF closing]) (rule trans[OF noting_scalps(2) Cons.IH])
  then show ?case by (simp add: Cons.IH split: option.split)
qed

lemma stopping_scalps: "R s (snd (scalp_time_stop sc ve cfg live s))"
  by (simp add: scalp_time_stop_def Let_def refl stopping split: sum.split)

lemma gating: "R s (snd (gate_scalps sc mc budget strength symbs s))"
proof (induction symbs arbitrary: s)
  case Nil show ?case by (simp add: refl)
next
  case (Cons symb symbs)
  have "R s1 (snd (bindS (gate_scalps sc mc budget strength symbs s1) (\<lambda>sigs s2. (Inr (f sigs), s2))))" for f s1
    by (rule through[OF Cons.IH]) (simp add: refl)
  from trans[OF noting_scalps(1) this] show ?case
    by (auto simp: Let_def noting_scalps split: prod.split sum.split)
qed

lemma acting_scalp: "bare ctx \<Longrightarrow> R s (snd (act_on_scalp ve cfg ctx slots now symb d live s))"
  by (auto simp: act_on_scalp_def refl noting_scalps intro!: through[OF acting])

lemma acting_scalps: "bare ctx \<Longrightarrow> R s (snd (act_on_scalps ve cfg ctx mc slots now ds live s))"
proof (induction ds arbitrary: live s)
  case Nil show ?case by (simp add: refl)
next
  case (Cons d ds)
  show ?case by (auto simp: Let_def refl Cons.IH[OF Cons.prems] intro!: through[OF acting_scalp[OF Cons.prems]] split: sum.split)
qed

lemma judging_scalps:
  assumes "bare ctx"
  shows "R s (snd (judge_scalps sc ve cfg ctx mc slots now sigs live s))"
proof -
  have "R s (snd (bindS (act_on_scalps ve cfg ctx mc slots now ds live s) (\<lambda>u s2. (Inr True, s2))))" for ds s
    by (rule through[OF acting_scalps[OF assms]]) (simp add: refl)
  then show ?thesis
    unfolding judge_scalps_def by (auto simp: refl intro!: world_then split: sum.split intro: trans)
qed

lemma scalping:
  assumes "bare ctx"
  shows "R s (snd (run_scalp_rotation sc ve cfg ctx s))"
proof -
  let ?rest = "\<lambda>mc slots now s1. bindS (scalp_time_stop sc ve cfg (open_symbols (ctx_positions ctx)) s1) (\<lambda>live s2.
        case to_float (scalp_setting cfg ''min_strength'' (PFloat (fround (6 / 10)))) of
          Inl e \<Rightarrow> (Inl e, s2)
        | Inr strength \<Rightarrow>
        (case int_setting (scalp_setting cfg ''max_calls_per_day'' (PInt 120)) 0 of
          Inl e \<Rightarrow> (Inl e, s2)
        | Inr budget \<Rightarrow>
           bindS (gate_scalps sc mc budget strength (scalp_pairs cfg) s2) (\<lambda>sigs s3.
             judge_scalps sc ve cfg ctx mc slots now sigs live s3)))"
  have "R s1 (snd (?rest mc slots now s1))" for mc slots now s1
    by (rule through[OF stopping_scalps]) (auto simp: refl judging_scalps[OF assms] split: sum.split intro!: through[OF gating])
  then show ?thesis
    unfolding run_scalp_rotation_def by (auto simp: refl Let_def intro!: world_then split: sum.split intro: trans)
qed

lemma journaling: "R s (snd (journal_decision sc d mc s))"
  using worldly[of s "sc_journal sc d mc"] by (cases "on_world (sc_journal sc d mc) s") (simp add: journal_decision_def)

lemma legacy_deciding: "R s (snd (run_ai_trading_cycle sc cfg ps s))"
proof -
  let ?m = "bindS (on_world (sc_context sc (rg_pairs cfg)) (s\<lparr>ro_cycles := ro_cycles s + 1\<rparr>)) (\<lambda>mc s1.
           bindS (on_world (sc_judge_all sc mc (context_indicators mc)) s1) (\<lambda>d s2.
             let (d', s3) = journal_decision sc (vet_legacy cfg ps (context_indicators mc) d) mc s2 in (Inr d', s3)))"
  have j: "R s2 (snd (let (d', s3) = journal_decision sc d mc s2 in (Inr d', s3)))" for d mc s2
    using journaling[of s2 d mc] by (simp add: split_beta)
  have "R s (snd ?m)"
    by (rule through[OF trans[OF noting_scalps(3) worldly]], rule through[OF worldly], rule j)
  then show ?thesis
    unfolding run_ai_trading_cycle_def by (cases ?m; cases "fst ?m") auto
qed

lemma legacy_cycling:
  assumes "bare ctx"
  shows "R s (snd (legacy_cycle sc ve cfg ctx s))"
proof -
  have act: "R s (snd (bindS (act_on ve cfg d ctx (s\<lparr>ro_failures := n\<rparr>)) (\<lambda>ok s4. (Inr (), s4))))" for d s n
    by (rule through[OF trans[OF noting(4) acting[OF assms]]]) (simp add: refl)
  have "R s (snd (if b then close_book ve cfg s else (Inr True, s)))" for b
    by (simp add: refl closing)
  then show ?thesis unfolding legacy_cycle_def
    by (rule through) (auto simp: Let_def split: prod.split intro: trans[OF legacy_deciding act] trans[OF legacy_deciding noting(4)]
        dest: after[OF _ legacy_deciding act] after[OF _ legacy_deciding noting(4)])
qed

lemma deciding: "bare ctx \<Longrightarrow> R s (snd (decide_cycle sc ve cfg orders ctx s))"
  using legacy_cycling[of ctx s] scalping[of ctx s] rotating[of ctx s orders]
  by (auto simp: decide_cycle_def Let_def refl split: prod.splits sum.splits intro: trans[OF _ noting(4)])

lemma sleeping: "R s (sleep_for sc t s)"
  by (simp add: sleep_for_def worldly)

lemma working: "R s (cycle_body sc ve cfg acc ps s)"
proof -
  obtain os s1 where 1: "on_world (ve_open_orders ve) s = (os, s1)" by fastforce
  let ?orders = "case os of Inl e \<Rightarrow> [] | Inr xs \<Rightarrow> xs"
  let ?s2 = "snd (on_world (\<lambda>w. ((), sc_reconcile sc ps w)) s1)"
  obtain st s3 where 3: "on_world (sc_status sc) ?s2 = (st, s3)" by fastforce
  let ?ctx = "cycle_context acc ps ?orders (case st of Inl e \<Rightarrow> None | Inr x \<Rightarrow> Some x)"
  obtain ctx s4 where 4: "decide_cycle sc ve cfg ?orders ?ctx s3 = (ctx, s4)" by fastforce
  have "R s s1" "R ?s2 s3" "R s3 s4"
    using worldly[of s "ve_open_orders ve"] worldly[of ?s2 "sc_status sc"] deciding[OF bare_cycle_context, of s3 ?orders acc ps ?orders "case st of Inl e \<Rightarrow> None | Inr x \<Rightarrow> Some x"] 1 3 4 by simp_all
  moreover have "R s1 ?s2" by (rule worldly)
  ultimately have "R s s4" by (blast intro: trans)
  moreover have "cycle_body sc ve cfg acc ps s = snd (on_world (\<lambda>w. ((), sc_monitor sc ctx w)) s4)"
    using 1 3 4 by (simp add: cycle_body_def Let_def)
  ultimately show ?thesis using trans[OF _ worldly] by simp
qed

lemma iterating: "R s (main_iteration sc ve cfg s)"
proof -
  let ?m = "bindS (on_world (sc_account sc) s) (\<lambda>acc s1. bindS (on_desk (see_positions ve) s1) (\<lambda>ps s2. (Inr (acc, ps), s2)))"
  have fetch: "R s (snd ?m)"
    by (rule through[OF worldly], rule through[OF looking]) (simp add: refl)
  obtain r s2 where m: "?m = (r, s2)" by fastforce
  with fetch have 2: "R s s2" by simp
  then show ?thesis unfolding main_iteration_def m Let_def
    by (auto split: sum.split prod.split intro: trans[OF _ sleeping] trans[OF _ working] trans[OF trans[OF _ working] sleeping])
qed

end

section \<open>The budget of the judge\<close>

definition firsts :: "int \<Rightarrow> (int \<times> bool) list \<Rightarrow> nat" where
  "firsts d cs = length (filter (\<lambda>c. c = (d, False)) cs)"

definition calls_on :: "int \<Rightarrow> (int \<times> bool) list \<Rightarrow> nat" where
  "calls_on d cs = length (filter (\<lambda>c. fst c = d) cs)"

definition within_budget :: "int \<Rightarrow> call_budget \<times> (int \<times> bool) list \<Rightarrow> bool" where
  "within_budget budget p =
     (let (b, cs) = p in 0 \<le> cb_used b \<and> cb_used b \<le> budget + 1
       \<and> (case cb_day b of None \<Rightarrow> cs = [] | Some t \<Rightarrow> cs \<noteq> [] \<and> fst (last cs) = t \<and> (sorted (map fst cs) \<longrightarrow> int (firsts t cs) \<le> cb_used b))
       \<and> (sorted (map fst cs) \<longrightarrow> (\<forall>d. int (firsts d cs) \<le> budget \<and> calls_on d cs \<le> 2 * firsts d cs)))"

lemma calls_snoc:
  "firsts d (cs @ [(t, again)]) = firsts d cs + (if d = t \<and> \<not> again then 1 else 0)"
  "calls_on d (cs @ [(t, again)]) = calls_on d cs + (if d = t then 1 else 0)"
  by (auto simp: firsts_def calls_on_def)

lemma calls_of_other_day:
  assumes "sorted (map fst cs @ [t])" "fst (last cs) \<noteq> t" "cs \<noteq> []"
  shows "firsts t cs = 0 \<and> calls_on t cs = 0"
proof -
  obtain ds c where cs: "cs = ds @ [c]" using assms(3) by (metis append_butlast_last_id)
  have "fst x \<le> fst c" "fst c \<le> t" if "x \<in> set ds" for x using assms(1) that by (auto simp: cs sorted_append)
  moreover have "fst c < t" using assms(1,2) by (auto simp: cs sorted_append)
  ultimately have "\<forall>x \<in> set cs. fst x \<noteq> t" by (fastforce simp: cs)
  then show ?thesis by (auto simp: firsts_def calls_on_def filter_empty_conv)
qed

lemma refused_keeps_budget:
  "within_budget B (b, cs) \<Longrightarrow> 0 < B \<Longrightarrow> day_budget_allows B t b = (False, b') \<Longrightarrow> within_budget B (b', cs)"
  by (auto simp: day_budget_allows_def within_budget_def Let_def split: if_splits)

lemma allowed_call:
  assumes "within_budget B (b, cs)" "0 < B" "day_budget_allows B t b = (True, b')"
  shows "cb_day b' = Some t \<and> cb_used b' \<le> B \<and> within_budget B (b', cs @ [(t, False)])
    \<and> (sorted (map fst cs @ [t]) \<longrightarrow> calls_on t (cs @ [(t, False)]) + 1 \<le> 2 * firsts t (cs @ [(t, False)]))"
proof (cases "cb_day b = Some t")
  case True
  have b': "b' = b\<lparr>cb_used := cb_used b + 1\<rparr>" "cb_used b < B"
    using assms(2,3) True by (auto simp: day_budget_allows_def Let_def split: if_splits)
  have c: "calls_on t cs \<le> 2 * firsts t cs" if "sorted (map fst cs)"
    using assms(1) that by (auto simp: within_budget_def)
  then have "sorted (map fst cs) \<longrightarrow> calls_on t cs \<le> Suc (2 * firsts t cs)" by (simp add: le_SucI)
  with assms(1) True b'(2) have "within_budget B (b', cs @ [(t, False)])"
    by (auto simp: within_budget_def b'(1) calls_snoc sorted_append)
  moreover have "calls_on t cs + 2 \<le> 2 * (firsts t cs + 1)" if "sorted (map fst cs)" using c[OF that] by simp
  ultimately show ?thesis using b' True by (simp add: calls_snoc sorted_append)
next
  case False
  have b': "cb_day b' = Some t" "cb_used b' = 1"
    using assms(2,3) False by (auto simp: day_budget_allows_def Let_def split: if_splits)
  have z: "firsts t cs = 0 \<and> calls_on t cs = 0" if "sorted (map fst cs @ [t])"
  proof (cases "cs = []")
    case True then show ?thesis by (simp add: firsts_def calls_on_def)
  next
    case ne: False
    then have "fst (last cs) \<noteq> t" using assms(1) False by (auto simp: within_budget_def split: option.splits)
    with that ne show ?thesis using calls_of_other_day by blast
  qed
  have "within_budget B (b', cs @ [(t, False)])"
    using assms(1,2) z b' by (auto simp: within_budget_def calls_snoc sorted_append split: option.splits)
  with b' z assms(2) show ?thesis by (auto simp: calls_snoc)
qed

lemma escalated_call:
  assumes "within_budget B (b, cs)" "cb_day b = Some t" "cb_used b \<le> B"
    "sorted (map fst cs) \<longrightarrow> calls_on t cs + 1 \<le> 2 * firsts t cs"
  shows "within_budget B (b, cs @ [(t, True)])" "within_budget B (b\<lparr>cb_used := cb_used b + 1\<rparr>, cs @ [(t, True)])"
  using assms by (auto simp: within_budget_def calls_snoc sorted_append split: if_splits)

definition judge_budget :: "rotation_config \<Rightarrow> int res" where
  "judge_budget cfg = int_setting (get_or (dc_ai (rg_desk cfg)) ''judge_max_calls_per_day'' (PInt 48)) 0"

lemma gate_pair_budget:
  assumes "judge_budget cfg = Inr B" "0 < B" "truthy (get_or (rg_gate cfg) ''enabled'' (PBool True))" "within_budget B (judge_part s)"
    "gate_pair sc cfg symb sig held mc s = (r, s')"
  shows "ro_calls s' = ro_calls s \<and> (if r = Inr True
     then (\<exists>t. cb_day (ro_judge s') = Some t \<and> cb_used (ro_judge s') \<le> B \<and> within_budget B (ro_judge s', ro_calls s' @ [(t, False)])
            \<and> (sorted (map fst (ro_calls s') @ [t]) \<longrightarrow> calls_on t (ro_calls s' @ [(t, False)]) + 1 \<le> 2 * firsts t (ro_calls s' @ [(t, False)])))
     else within_budget B (judge_part s'))"
proof -
  let ?g = "judge_gate_check symb sig held (mc_candles mc) (rg_gate cfg) B (sc_day sc (world s)) (ro_judge s, ro_judge_ts s)"
  obtain q b ts where g: "?g = (q, (b, ts))" by (cases ?g) auto
  have run: "r = q" "s' = s\<lparr>ro_judge := b, ro_judge_ts := ts\<rparr>"
    using assms(1,3,5) g by (auto simp: gate_pair_def judge_budget_def int_setting_def Let_def)
  obtain ok b2 where d: "day_budget_allows B (sc_day sc (world s)) (ro_judge s) = (ok, b2)" by fastforce
  have "q \<noteq> Inr True \<and> (b = ro_judge s \<or> \<not> ok \<and> b = b2) \<or> q = Inr True \<and> ok \<and> b = b2"
    using g d by (auto simp: judge_gate_check_def Let_def split: sum.splits if_splits)
  then show ?thesis
    using refused_keeps_budget[OF _ assms(2), of "ro_judge s" "ro_calls s" "sc_day sc (world s)" b2]
      allowed_call[OF _ assms(2), of "ro_judge s" "ro_calls s" "sc_day sc (world s)" b2] assms(4) d run
    by (auto simp: judge_part_def)
qed

lemma judge_pair_budget:
  assumes "cb_day (ro_judge s) = Some t" "cb_used (ro_judge s) \<le> B" "within_budget B (ro_judge s, ro_calls s @ [(t, False)])"
    "sorted (map fst (ro_calls s) @ [t]) \<longrightarrow> calls_on t (ro_calls s @ [(t, False)]) + 1 \<le> 2 * firsts t (ro_calls s @ [(t, False)])"
  shows "within_budget B (judge_part (snd (judge_pair sc cfg symb sig mc s)))"
proof -
  obtain r s1 where 1: "on_world (sc_judge sc (tier_of cfg) symb sig mc) (count_call False s) = (r, s1)" by fastforce
  from on_world_frameD[OF 1] assms(1)
  have j1: "ro_judge s1 = ro_judge s" "ro_calls s1 = ro_calls s @ [(t, False)]" by (simp_all add: count_call_def)
  have w1: "within_budget B (judge_part s1)" using assms(3) j1 by (simp add: judge_part_def)
  obtain r2 s2 where 2: "on_world (sc_judge sc ''smart'' symb sig mc) (count_call True s1) = (r2, s2)" by fastforce
  from on_world_frameD[OF 2] assms(1) j1
  have j2: "ro_judge s2 = ro_judge s" "ro_calls s2 = ro_calls s @ [(t, False), (t, True)]" by (simp_all add: count_call_def)
  from escalated_call[OF assms(3,1,2)] assms(4) j2
  have "within_budget B (judge_part s2)"
    "within_budget B (judge_part (s2\<lparr>ro_judge := (ro_judge s2)\<lparr>cb_used := cb_used (ro_judge s2) + 1\<rparr>\<rparr>))"
    by (simp_all add: judge_part_def)
  with w1 show ?thesis using 1 2
    by (cases r; cases r2) (auto simp: judge_pair_def Let_def split: sum.splits if_splits)
qed

lemma scan_pair_budget:
  assumes "judge_budget cfg = Inr B" "0 < B" "truthy (get_or (rg_gate cfg) ''enabled'' (PBool True))" "within_budget B (judge_part s)"
  shows "within_budget B (judge_part (snd (scan_pair sc cfg symb s)))"
proof -
  obtain r s1 where 1: "on_world (sc_context sc [symb]) (s\<lparr>ro_cycles := ro_cycles s + 1, ro_scans := ro_scans s @ [symb]\<rparr>) = (r, s1)" by fastforce
  from on_world_frameD[OF 1] assms(4)
  have w1: "within_budget B (judge_part s1)" by (simp add: judge_part_def)
  show ?thesis
  proof (cases r)
    case (Inl e) with 1 w1 show ?thesis by (simp add: scan_pair_def)
  next
    case (Inr mc)
    let ?snap = "merge_indicators (context_indicators mc) symb" and ?held = "position_side_for (mc_positions mc) symb"
    let ?sig = "pair_signal mc symb ?snap"
    obtain q s2 where 2: "gate_pair sc cfg symb ?sig ?held mc s1 = (q, s2)" by fastforce
    note g = gate_pair_budget[OF assms(1-3) w1 2]
    obtain d s3 where 3: "judge_pair sc cfg symb ?sig mc s2 = (d, s3)" by fastforce
    show ?thesis
    proof (cases "q = Inr True")
      case False
      with g 1 2 Inr show ?thesis by (cases q) (auto simp: scan_pair_def Let_def)
    next
      case True
      with g obtain t where "cb_day (ro_judge s2) = Some t" "cb_used (ro_judge s2) \<le> B" "within_budget B (ro_judge s2, ro_calls s2 @ [(t, False)])"
        "sorted (map fst (ro_calls s2) @ [t]) \<longrightarrow> calls_on t (ro_calls s2 @ [(t, False)]) + 1 \<le> 2 * firsts t (ro_calls s2 @ [(t, False)])" by auto
      from judge_pair_budget[OF this, of sc cfg symb ?sig mc] 3 have w3: "within_budget B (judge_part s3)" by simp
      have "judge_part s4 = judge_part s3" if "journal_decision sc x mc s3 = (y, s4)" for x y s4
        using that by (auto simp: journal_decision_def on_world_frameD split: prod.splits)
      with w3 1 2 3 Inr True show ?thesis
        by (cases d) (auto simp: scan_pair_def Let_def split: prod.split)
    qed
  qed
qed

definition keeps_budget :: "int \<Rightarrow> 's rotation \<Rightarrow> 's rotation \<Rightarrow> bool" where
  "keeps_budget B s s' = (within_budget B (judge_part s) \<longrightarrow> within_budget B (judge_part s'))"

text \<open>Every step of a cycle keeps the budget, once the gate is on and there is a budget.\<close>

definition budgeted :: "rotation_config \<Rightarrow> int \<Rightarrow> bool" where
  "budgeted cfg B = (judge_budget cfg = Inr B \<and> 0 < B \<and> truthy (get_or (rg_gate cfg) ''enabled'' (PBool True)))"

definition budget_relation :: "rotation_config \<Rightarrow> 's rotation \<Rightarrow> 's rotation \<Rightarrow> bool" where
  "budget_relation cfg s s' = (\<forall>B. budgeted cfg B \<longrightarrow> keeps_budget B s s')"

lemma judge_part_eq: "judge_part s' = judge_part s \<Longrightarrow> budget_relation cfg s s'"
  by (simp add: budget_relation_def keeps_budget_def)

interpretation budget: cycling "budget_relation cfg" sc ve cfg
proof unfold_locales
  fix s s1 s2 :: "'a rotation" and symb
  show "budget_relation cfg s s1 \<Longrightarrow> budget_relation cfg s1 s2 \<Longrightarrow> budget_relation cfg s s2"
    by (simp add: budget_relation_def keeps_budget_def)
  show "budget_relation cfg s (snd (scan_pair sc cfg symb s))"
    using scan_pair_budget by (auto simp: budget_relation_def keeps_budget_def budgeted_def)
qed (auto simp: close_book_def act_on_def judge_part_def intro!: judge_part_eq)

definition fresh_budget :: call_budget where
  "fresh_budget = \<lparr>cb_day = None, cb_used = 0, cb_warned = None\<rparr>"

text \<open>
  \<^bold>\<open>C26\<close>. Over any number of iterations of the main loop that start without calls, and with the gate on and a positive daily
  budget: as long as the clock's days never go back, no day has more calls of the judge than twice its budget, and no more first
  calls than the budget; what exceeds it is the escalations, at most one per first call.
\<close>

theorem judge_calls_budgeted:
  assumes "budgeted cfg B" "ro_calls s = []" "ro_judge s = fresh_budget"
    "sorted (map fst (ro_calls ((main_iteration sc ve cfg ^^ n) s)))"
  shows "int (firsts d (ro_calls ((main_iteration sc ve cfg ^^ n) s))) \<le> B
    \<and> int (calls_on d (ro_calls ((main_iteration sc ve cfg ^^ n) s))) \<le> 2 * B"
proof -
  have "budget_relation cfg s ((main_iteration sc ve cfg ^^ n) s)"
    by (induction n) (auto intro: budget.refl budget.trans budget.iterating)
  moreover have "within_budget B (judge_part s)"
    using assms(1-3) by (simp add: within_budget_def judge_part_def fresh_budget_def budgeted_def firsts_def calls_on_def)
  ultimately have "within_budget B (judge_part ((main_iteration sc ve cfg ^^ n) s))"
    using assms(1) by (simp add: budget_relation_def keeps_budget_def)
  then have "int (firsts d (ro_calls ((main_iteration sc ve cfg ^^ n) s))) \<le> B"
    "calls_on d (ro_calls ((main_iteration sc ve cfg ^^ n) s)) \<le> 2 * firsts d (ro_calls ((main_iteration sc ve cfg ^^ n) s))"
    using assms(4) by (auto simp: within_budget_def judge_part_def)
  then show ?thesis by linarith
qed

section \<open>The decision of a scan\<close>

lemma accepted_entry:
  assumes "vr_ok (normalize_decision d held ind mode m)" "py_get (vr_decision (normalize_decision d held ind mode m)) ''action'' = PStr ''ENTER''"
  shows "\<exists>dir \<in> {LONG, SHORT}. py_get (vr_decision (normalize_decision d held ind mode m)) ''direction'' = PStr (direction_name dir)
    \<and> py_get (vr_decision (normalize_decision d held ind mode m)) ''side'' = PStr (if dir = LONG then ''BUY'' else ''SELL'')
    \<and> (lower (strip mode) = ''veto'' \<longrightarrow> ind = [] \<or> plausibility_check (PStr (direction_name dir)) ind)"
    "\<exists>c. py_get (vr_decision (normalize_decision d held ind mode m)) ''confidence'' = PFloat c \<and> clamp (read_confidence m) \<le> c"
proof -
  note p = accepted_parts[OF assms(1)]
  let ?out = "vr_decision (normalize_decision d held ind mode m)" and ?dir = "canonical_direction (raw_direction d)"
  have "strip ''ENTER'' = ''ENTER''" by code_simp
  moreover have "py_get (checked_decision d) ''action'' = PStr ''ENTER''"
    using p(4)[of "''action''"] assms(2) by (simp add: set_side_keeps)
  ultimately have a: "decided_action d = ''ENTER''"
    by (auto simp: checked_decision_def decided_action_def decision_action_def split: if_splits)
  have s: "?dir \<noteq> NEUTRAL" "fst (set_side ''ENTER'' ?dir held (checked_decision d)) =
      AList.update ''side'' (PStr (if ?dir = LONG then ''BUY'' else ''SELL''))
        (AList.update ''direction'' (PStr (direction_name ?dir)) (checked_decision d))"
    using set_side_entry[OF p(1)[unfolded a]] by blast+
  have q: "plausibility_check (PStr (direction_name ?dir)) ind = plausibility_check (raw_direction d) ind"
    by (simp add: plausibility_check_def)
  have "py_get ?out ''direction'' = PStr (direction_name ?dir)" "py_get ?out ''side'' = PStr (if ?dir = LONG then ''BUY'' else ''SELL'')"
    using p(4)[of "''direction''"] p(4)[of "''side''"] unfolding a s(2) by simp_all
  moreover have "?dir \<in> {LONG, SHORT}" using s(1) by (cases ?dir) simp_all
  ultimately show "\<exists>dir \<in> {LONG, SHORT}. py_get ?out ''direction'' = PStr (direction_name dir)
    \<and> py_get ?out ''side'' = PStr (if dir = LONG then ''BUY'' else ''SELL'')
    \<and> (lower (strip mode) = ''veto'' \<longrightarrow> ind = [] \<or> plausibility_check (PStr (direction_name dir)) ind)"
    using p(2) q by blast
  show "\<exists>c. py_get ?out ''confidence'' = PFloat c \<and> clamp (read_confidence m) \<le> c"
    using p(3)[unfolded a] p(5) by simp
qed

text \<open>What the steps after the judge make of a decision.\<close>

definition vetted :: "rotation_config \<Rightarrow> string \<Rightarrow> (string, pyval) dict \<Rightarrow> decision \<Rightarrow> bool" where
  "vetted cfg symb snap d =
     (py_get d ''contract'' = PStr symb
      \<and> (\<exists>dir \<in> {LONG, SHORT}. py_get d ''direction'' = PStr (direction_name dir)
          \<and> py_get d ''side'' = PStr (if dir = LONG then ''BUY'' else ''SELL'')
          \<and> (lower (strip (str_of (get_or (rg_validator cfg) ''gate_mode'' (PStr ''veto'')))) = ''veto'' \<longrightarrow>
               snap = [] \<or> plausibility_check (PStr (direction_name dir)) snap))
      \<and> (\<exists>c. py_get d ''confidence'' = PFloat c \<and> clamp (read_confidence (get_or (rg_validator cfg) ''min_confidence_to_trade'' (PFloat 0))) \<le> c))"

lemma vet_decision_entry:
  assumes "py_get (vet_decision cfg symb held snap d) ''action'' = PStr ''ENTER''"
  shows "vetted cfg symb snap (pin_contract symb (vet_decision cfg symb held snap d))"
    "vetted cfg symb snap (pin_contract symb (AList.update ''db_id'' v (vet_decision cfg symb held snap d)))"
proof -
  let ?v = "normalize_decision d (enum_arg held) snap (str_of (get_or (rg_validator cfg) ''gate_mode'' (PStr ''veto'')))
      (get_or (rg_validator cfg) ''min_confidence_to_trade'' (PFloat 0))"
  have ok: "vr_ok ?v"
  proof (rule ccontr)
    assume "\<not> vr_ok ?v"
    then show False using assms by (simp add: vet_decision_def Let_def hold_decision_def py_get_def)
  qed
  then have e: "vet_decision cfg symb held snap d = vr_decision ?v" by (simp add: vet_decision_def Let_def)
  note f = accepted_entry[OF ok assms[unfolded e]]
  show "vetted cfg symb snap (pin_contract symb (vet_decision cfg symb held snap d))"
    "vetted cfg symb snap (pin_contract symb (AList.update ''db_id'' v (vet_decision cfg symb held snap d)))"
    using f assms unfolding e by (auto simp: vetted_def pin_contract_def)
qed

text \<open>
  \<^bold>\<open>C20\<close>. Whatever the judge answers, an entry that a scan of a pair returns is for that pair, has a direction and its side, in
  veto mode agrees with the pair's indicators, and has at least the configured confidence; it only exists when the market
  context could be collected.
\<close>

theorem scan_pair_sound:
  assumes "scan_pair sc cfg symb s = (Inr d, s')" "py_get d ''action'' = PStr ''ENTER''"
  shows "\<exists>mc. fst (sc_context sc [symb] (world s)) = Inr mc \<and> vetted cfg symb (merge_indicators (context_indicators mc) symb) d"
proof -
  obtain r s1 where 1: "on_world (sc_context sc [symb]) (s\<lparr>ro_cycles := ro_cycles s + 1, ro_scans := ro_scans s @ [symb]\<rparr>) = (r, s1)" by fastforce
  then obtain mc where mc: "r = Inr mc" using assms(1) by (cases r) (auto simp: scan_pair_def)
  have c: "fst (sc_context sc [symb] (world s)) = Inr mc"
    using 1 mc by (auto simp: on_world_def in_world_def world_def split: prod.splits)
  let ?snap = "merge_indicators (context_indicators mc) symb" and ?held = "position_side_for (mc_positions mc) symb"
  let ?sig = "pair_signal mc symb ?snap"
  obtain q s2 where 2: "gate_pair sc cfg symb ?sig ?held mc s1 = (q, s2)" by fastforce
  obtain x s3 where 3: "judge_pair sc cfg symb ?sig mc s2 = (x, s3)" by fastforce
  have "q = Inr True"
  proof (rule ccontr)
    assume "q \<noteq> Inr True"
    then have "d = hold_decision symb (PStr ''judge_skipped'')"
      using assms(1) 1 2 mc by (cases q) (auto simp: scan_pair_def Let_def)
    then show False using assms(2) by (simp add: hold_decision_def py_get_def)
  qed
  then obtain raw where raw: "x = Inr raw" using assms(1) 1 2 3 mc by (cases x) (auto simp: scan_pair_def Let_def)
  let ?vet = "vet_decision cfg symb ?held ?snap raw"
  obtain i s4 where 4: "on_world (sc_journal sc ?vet mc) s3 = (i, s4)" by fastforce
  have d: "d = pin_contract symb (case i of None \<Rightarrow> ?vet | Some n \<Rightarrow> AList.update ''db_id'' (PInt n) ?vet)"
    using assms(1) 1 2 3 4 mc raw \<open>q = Inr True\<close> by (simp add: scan_pair_def Let_def journal_decision_def)
  then have "py_get ?vet ''action'' = PStr ''ENTER''"
    using assms(2) by (auto simp: pin_contract_def split: if_splits option.splits)
  from vet_decision_entry[OF this] c d show ?thesis by (cases i) auto
qed

section \<open>The order of the scans\<close>

definition same_trail :: "'s rotation \<Rightarrow> 's rotation \<Rightarrow> bool" where
  "same_trail s s' = (ro_index s' = ro_index s \<and> ro_scans s' = ro_scans s \<and> dk_log (ro_desk s') = dk_log (ro_desk s))"

lemma same_trail_trans: "same_trail s s1 \<Longrightarrow> same_trail s1 s2 \<Longrightarrow> same_trail s s2"
  by (simp add: same_trail_def)

lemma on_world_trail: "on_world f s = (r, s1) \<Longrightarrow> same_trail s s1"
  by (simp add: same_trail_def on_world_frameD)

lemma gate_pair_trail: "gate_pair sc cfg symb sig held mc s = (r, s1) \<Longrightarrow> same_trail s s1"
  by (auto simp: gate_pair_def same_trail_def Let_def split: if_splits sum.splits prod.splits)

lemma judge_pair_trail:
  assumes "judge_pair sc cfg symb sig mc s = (r, s')"
  shows "same_trail s s'"
proof -
  obtain r1 s1 where 1: "on_world (sc_judge sc (tier_of cfg) symb sig mc) (count_call False s) = (r1, s1)" by fastforce
  obtain r2 s2 where 2: "on_world (sc_judge sc ''smart'' symb sig mc) (count_call True s1) = (r2, s2)" by fastforce
  have c: "same_trail t (count_call b t)" for b and t :: "'a rotation" by (simp add: same_trail_def count_call_def)
  have t1: "same_trail s s1" by (rule same_trail_trans[OF c on_world_trail[OF 1]])
  have t2: "same_trail s s2" by (rule same_trail_trans[OF t1 same_trail_trans[OF c on_world_trail[OF 2]]])
  then have t3: "same_trail s (s2\<lparr>ro_judge := b\<rparr>)" for b by (simp add: same_trail_def)
  show ?thesis using assms 1 2 t1 t2 t3
    by (cases r1; cases r2) (auto simp: judge_pair_def Let_def split: sum.splits if_splits)
qed

lemma scan_pair_trail:
  assumes "scan_pair sc cfg symb s = (r, s')"
  shows "same_trail (s\<lparr>ro_scans := ro_scans s @ [symb]\<rparr>) s'"
proof -
  obtain q s1 where 1: "on_world (sc_context sc [symb]) (s\<lparr>ro_cycles := ro_cycles s + 1, ro_scans := ro_scans s @ [symb]\<rparr>) = (q, s1)" by fastforce
  have t1: "same_trail (s\<lparr>ro_scans := ro_scans s @ [symb]\<rparr>) s1" using on_world_trail[OF 1] by (simp add: same_trail_def)
  show ?thesis
  proof (cases q)
    case (Inl e) with 1 t1 assms show ?thesis by (simp add: scan_pair_def)
  next
    case (Inr mc)
    let ?snap = "merge_indicators (context_indicators mc) symb" and ?held = "position_side_for (mc_positions mc) symb"
    let ?sig = "pair_signal mc symb ?snap"
    obtain ok s2 where 2: "gate_pair sc cfg symb ?sig ?held mc s1 = (ok, s2)" by fastforce
    obtain x s3 where 3: "judge_pair sc cfg symb ?sig mc s2 = (x, s3)" by fastforce
    note t2 = same_trail_trans[OF t1 gate_pair_trail[OF 2]]
    note t3 = same_trail_trans[OF t2 judge_pair_trail[OF 3]]
    have t4: "same_trail s3 s4" if "journal_decision sc d mc s3 = (d', s4)" for d d' s4
      using that on_world_trail by (fastforce simp: journal_decision_def split: prod.splits)
    show ?thesis using assms 1 2 3 Inr t2 t3 same_trail_trans[OF t3 t4]
      by (cases ok; cases x) (auto simp: scan_pair_def Let_def split: if_splits prod.splits)
  qed
qed

lemma scan_pair_scans: "ro_scans (snd (scan_pair sc cfg symb s)) = ro_scans s @ [symb]"
  "ro_index (snd (scan_pair sc cfg symb s)) = ro_index s"
  "dk_log (ro_desk (snd (scan_pair sc cfg symb s))) = dk_log (ro_desk s)"
  using scan_pair_trail[of sc cfg symb s] by (cases "scan_pair sc cfg symb s"; simp add: same_trail_def)+

section \<open>The entries of a cycle\<close>

definition rlog :: "'s rotation \<Rightarrow> 's rotation \<Rightarrow> desk_event list \<Rightarrow> bool" where
  "rlog s s' es = log_of (ro_desk s) (ro_desk s') es"

lemma rlog_trans: "rlog s s1 es \<Longrightarrow> rlog s1 s2 fs \<Longrightarrow> rlog s s2 (es @ fs)"
  by (simp add: rlog_def log_of_trans)

definition no_entries :: "'s rotation \<Rightarrow> 's rotation \<Rightarrow> bool" where
  "no_entries s s' = (\<exists>es. rlog s s' es \<and> \<not> list_ex is_entry es)"

lemma no_entries_same: "dk_log (ro_desk s') = dk_log (ro_desk s) \<Longrightarrow> no_entries s s'"
  unfolding no_entries_def by (intro exI[of _ "[]"]) (simp add: rlog_def log_of_def)

lemma no_entries_trans: "no_entries s s1 \<Longrightarrow> no_entries s1 s2 \<Longrightarrow> no_entries s s2"
  unfolding no_entries_def using rlog_trans by (fastforce simp: list_ex_append)

lemma on_desk_log: "ro_desk (snd (on_desk f s)) = snd (f (ro_desk s))"
  by (simp add: on_desk_def split: prod.split)

lemma bracket_violation_log: "dk_log (snd (bracket_violation ve cfg symb side orders s)) = dk_log s"
  using in_world_log[of "ve_mark ve symb" s]
  by (cases "in_world (ve_mark ve symb) s") (auto simp: bracket_violation_def Let_def split: sum.split)

text \<open>
  An entry in the log of a cycle: for one of the pairs, guarded by what its own decision has seen, and the last event when
  the engine accepted it.
\<close>

definition entries_ok :: "rotation_config \<Rightarrow> desk_event list \<Rightarrow> bool" where
  "entries_ok cfg es = (\<forall>pre a out post. es = pre @ Sent a out # post \<and> act_type a = ENTER \<longrightarrow>
     act_contract a \<in> set (rg_pairs cfg) \<and> (\<exists>pre1 pre2 d. pre = pre1 @ pre2 \<and> guarded (rg_desk cfg) d pre2 a)
     \<and> (\<forall>res. out = Inr res \<and> confirmed res \<longrightarrow> post = []))"

definition accepted_entries :: "desk_event list \<Rightarrow> bool" where
  "accepted_entries es = (\<exists>a res. Sent a (Inr res) \<in> set es \<and> act_type a = ENTER \<and> confirmed res)"

lemma entries_ok_none: "\<not> list_ex is_entry es \<Longrightarrow> entries_ok cfg es"
  by (auto simp: entries_ok_def is_entry_def)

lemma entries_ok_append:
  assumes "entries_ok cfg es" "\<not> accepted_entries es" "entries_ok cfg fs"
  shows "entries_ok cfg (es @ fs)"
  unfolding entries_ok_def
proof (intro allI impI)
  fix pre a out post assume a: "es @ fs = pre @ Sent a out # post \<and> act_type a = ENTER"
  then consider us where "es = pre @ Sent a out # us" "post = us @ fs" | us where "pre = es @ us" "fs = us @ Sent a out # post"
    by (fastforce simp: append_eq_append_conv2 append_eq_Cons_conv Cons_eq_append_conv)
  then show "act_contract a \<in> set (rg_pairs cfg) \<and> (\<exists>pre1 pre2 d. pre = pre1 @ pre2 \<and> guarded (rg_desk cfg) d pre2 a)
     \<and> (\<forall>res. out = Inr res \<and> confirmed res \<longrightarrow> post = [])"
  proof cases
    case 1
    then have "\<not> (\<exists>res. out = Inr res \<and> confirmed res)" using assms(2) a by (auto simp: accepted_entries_def)
    with 1(1) assms(1) a show ?thesis by (auto simp: entries_ok_def)
  next
    case 2
    with assms(3) a obtain p1 p2 d where "us = p1 @ p2" "guarded (rg_desk cfg) d p2 a" "act_contract a \<in> set (rg_pairs cfg)"
      "\<forall>res. out = Inr res \<and> confirmed res \<longrightarrow> post = []" unfolding entries_ok_def by blast
    with 2 show ?thesis by (metis append.assoc)
  qed
qed

context sizing_desk
begin

sublocale quiet: managing no_entries sc ve cfg for sc cfg
proof unfold_locales
  fix s :: "'s rotation" and ctx d
  show "no_entries s (snd (close_book ve cfg s))"
    using close_all_log[of "ro_desk s" ve "rg_desk cfg"] by (auto simp: no_entries_def rlog_def close_book_def on_desk_log)
  show "no_entries s (snd (on_desk (see_positions ve) s))"
    unfolding no_entries_def rlog_def on_desk_log
    by (intro exI[of _ "[Seen (fst (see_positions ve (ro_desk s)))]"]) (simp add: log_of_def see_positions_log is_entry_def)
  assume "py_get d ''action'' \<in> {PStr ''adjust_stop'', PStr ''reduce_position''}"
  then have "action_kind (str_of (get_or d ''action'' (PStr ''HOLD''))) \<noteq> Some ENTER"
    by (auto simp: py_get_def get_or_def action_kind_def split: option.splits)
  from only_entries_enter[OF this, of "ro_desk s" "rg_desk cfg" ctx]
  show "no_entries s (snd (act_on ve cfg d ctx s))"
    by (auto simp: no_entries_def rlog_def act_on_def on_desk_log)
qed (auto intro: no_entries_trans no_entries_same simp: on_desk_log bracket_violation_log scan_pair_scans)

lemma scan_loop_entries:
  assumes "rg_pairs cfg \<noteq> []"
  shows "\<exists>es. rlog s (snd (scan_loop sc ve cfg pause ctx n s)) es \<and> entries_ok cfg es"
proof (induction n arbitrary: s)
  case 0 show ?case by (intro exI[of _ "[]"]) (simp add: rlog_def log_of_refl entries_ok_none)
next
  case (Suc n)
  let ?symb = "rg_pairs cfg ! (ro_index s mod length (rg_pairs cfg))"
  obtain r s1 where 1: "scan_pair sc cfg ?symb s = (r, s1)" by fastforce
  have l1: "rlog s s1 []" using scan_pair_scans(3)[of sc cfg ?symb s] 1 by (simp add: rlog_def log_of_def)
  have nxt: "\<exists>es. rlog t (snd (scan_loop sc ve cfg pause ctx n (next_pair sc cfg pause n t))) es \<and> entries_ok cfg es" for t
  proof -
    have "dk_log (ro_desk (next_pair sc cfg pause n t)) = dk_log (ro_desk t)" by (simp add: next_pair_def advance_def)
    with Suc.IH[of "next_pair sc cfg pause n t"] show ?thesis by (simp add: rlog_def log_of_def)
  qed
  have stay: ?case if "snd (scan_loop sc ve cfg pause ctx (Suc n) s) = t" "dk_log (ro_desk t) = dk_log (ro_desk s)" for t
    using that by (intro exI[of _ "[]"]) (simp add: rlog_def log_of_def entries_ok_none)
  show ?case
  proof (cases "sc_available sc (world s)")
    case False then show ?thesis by (intro stay) auto
  next
    case av: True
    show ?thesis
    proof (cases r)
      case (Inl e)
      from nxt[of "s1\<lparr>ro_failures := ro_failures s1 + 1\<rparr>"] obtain es where
        "rlog s1 (snd (scan_loop sc ve cfg pause ctx n (next_pair sc cfg pause n (s1\<lparr>ro_failures := ro_failures s1 + 1\<rparr>)))) es" "entries_ok cfg es"
        by (auto simp: rlog_def log_of_def)
      moreover from rlog_trans[OF l1 this(1)] have "rlog s (snd (scan_loop sc ve cfg pause ctx n (next_pair sc cfg pause n (s1\<lparr>ro_failures := ro_failures s1 + 1\<rparr>)))) es" by simp
      ultimately show ?thesis using av 1 Inl l1 stay by (auto simp: Let_def rlog_def log_of_def)
    next
      case (Inr d)
      show ?thesis
      proof (cases "py_get d ''action'' = PStr ''ENTER''")
        case False
        from nxt[of s1] obtain es where
          "rlog s1 (snd (scan_loop sc ve cfg pause ctx n (next_pair sc cfg pause n s1))) es" "entries_ok cfg es" by blast
        with rlog_trans[OF l1 this(1)] av 1 Inr False show ?thesis by auto
      next
        case True
        from scan_pair_sound[of sc cfg ?symb s d s1] 1 Inr True have pinned: "py_get d ''contract'' = PStr ?symb"
          by (auto simp: vetted_def)
        obtain q w where 2: "execute_ai_action ve (rg_desk cfg) d ctx (ro_desk s1) = (q, w)" by fastforce
        let ?s2 = "s1\<lparr>ro_desk := w\<rparr>"
        from entries_guarded[OF 2] obtain es where es: "log_of (ro_desk s1) w es"
          "\<forall>pre a out post. es = pre @ Sent a out # post \<and> act_type a = ENTER \<longrightarrow> post = [] \<and> guarded (rg_desk cfg) d pre a"
          "\<forall>a res. Sent a (Inr res) \<in> set es \<and> act_type a = ENTER \<and> confirmed res \<longrightarrow> q = Inr True" by blast
        have ok: "entries_ok cfg es"
        proof -
          have "?symb \<in> set (rg_pairs cfg)" using assms by simp
          then have "act_contract a \<in> set (rg_pairs cfg)" if "guarded (rg_desk cfg) d pre a" for pre a
            using that pinned by (simp add: guarded_def)
          moreover have "\<exists>pre1 pre2 d. pre = pre1 @ pre2 \<and> guarded (rg_desk cfg) d pre2 a" if "guarded (rg_desk cfg) d pre a" for pre a
            using that by (intro exI[of _ "[]"] exI[of _ pre] exI[of _ d]) simp
          ultimately show ?thesis using es(2) unfolding entries_ok_def by blast
        qed
        have l2: "rlog s ?s2 es" using rlog_trans[OF l1, of ?s2 es] es(1) by (simp add: rlog_def)
        have act: "act_on ve cfg d ctx s1 = (q, ?s2)" using 2 by (simp add: act_on_def on_desk_def)
        show ?thesis
        proof (cases "q = Inr False")
          case False
          then have "snd (scan_loop sc ve cfg pause ctx (Suc n) s) = (if q = Inr True then advance cfg ?s2 else ?s2)"
            using av 1 Inr True act by (cases q) auto
          then show ?thesis using l2 ok by (auto simp: rlog_def log_of_def advance_def)
        next
          case q: True
          from nxt[of ?s2] obtain fs where
            fs: "rlog ?s2 (snd (scan_loop sc ve cfg pause ctx n (next_pair sc cfg pause n ?s2))) fs" "entries_ok cfg fs" by blast
          have "\<not> accepted_entries es" using es(3) q by (auto simp: accepted_entries_def)
          from entries_ok_append[OF ok this fs(2)] rlog_trans[OF l2 fs(1)] av 1 Inr True act q show ?thesis by auto
        qed
      qed
    qed
  qed
qed

lemma rotation_log:
  "\<exists>es. rlog s (snd (run_ai_rotation sc ve cfg orders ctx s)) es \<and> entries_ok cfg es
     \<and> (open_positions (ctx_positions ctx) \<noteq> [] \<and> \<not> truthy (get_or (dc_rotation (rg_desk cfg)) ''close_open_position_each_cycle'' (PBool True))
         \<longrightarrow> \<not> list_ex is_entry es)"
proof -
  have quiet_end: ?thesis if "no_entries s (snd (run_ai_rotation sc ve cfg orders ctx s))"
    using that entries_ok_none unfolding no_entries_def by blast
  show ?thesis
  proof (cases "rg_pairs cfg = [] \<or> \<not> sc_available sc (world s)")
    case True then show ?thesis by (intro quiet_end) (simp add: run_ai_rotation_def no_entries_same)
  next
    case pairs: False
    show ?thesis
    proof (cases "to_float (get_or (dc_rotation (rg_desk cfg)) ''retry_sleep_seconds'' (PFloat 30))")
      case (Inl e) with pairs show ?thesis by (intro quiet_end) (simp add: run_ai_rotation_def no_entries_same)
    next
      case (Inr pause)
      let ?first = "case open_positions (ctx_positions ctx) of [] \<Rightarrow> (Inr (Scan, ctx), s) | p # ps \<Rightarrow> case_held sc ve cfg p orders ctx s"
      obtain r s1 where 1: "?first = (r, s1)" by fastforce
      have "no_entries s (snd ?first)" by (simp add: quiet.held_case no_entries_same split: list.split)
      with 1 have n1: "no_entries s s1" by simp
      show ?thesis
      proof (cases "\<exists>ctx'. r = Inr (Scan, ctx')")
        case False
        then have "snd (run_ai_rotation sc ve cfg orders ctx s) = s1"
          using pairs Inr 1 by (cases r) (auto simp: run_ai_rotation_def split: rolled.split)
        with n1 show ?thesis by (intro quiet_end) simp
      next
        case True
        then obtain ctx' where r: "r = Inr (Scan, ctx')" by blast
        let ?s2 = "s1\<lparr>ro_hold_since := [], ro_index := ro_index s1 mod length (rg_pairs cfg)\<rparr>"
        let ?out = "scan_loop sc ve cfg pause ctx' (length (rg_pairs cfg)) ?s2"
        have run: "snd (run_ai_rotation sc ve cfg orders ctx s) = snd ?out"
          using pairs Inr 1 r by (cases ?out; cases "fst ?out") (auto simp: run_ai_rotation_def)
        have roll: "open_positions (ctx_positions ctx) = [] \<or> truthy (get_or (dc_rotation (rg_desk cfg)) ''close_open_position_each_cycle'' (PBool True))"
        proof (rule ccontr)
          assume "\<not> ?thesis"
          then obtain p ps where "open_positions (ctx_positions ctx) = p # ps"
            "\<not> truthy (get_or (dc_rotation (rg_desk cfg)) ''close_open_position_each_cycle'' (PBool True))"
            by (cases "open_positions (ctx_positions ctx)") auto
          with 1 r show False
            by (cases "hold_position sc ve cfg p orders ctx s"; cases "fst (hold_position sc ve cfg p orders ctx s)") (auto simp: case_held_def)
        qed
        from n1 obtain es where es: "rlog s s1 es" "\<not> list_ex is_entry es" by (auto simp: no_entries_def)
        from scan_loop_entries[of cfg ?s2 sc pause ctx' "length (rg_pairs cfg)"] pairs obtain fs where
          fs: "rlog ?s2 (snd ?out) fs" "entries_ok cfg fs" by auto
        have "rlog s1 (snd ?out) fs" using fs(1) by (simp add: rlog_def log_of_def)
        from rlog_trans[OF es(1) this] have "rlog s (snd ?out) (es @ fs)" .
        moreover have "entries_ok cfg (es @ fs)"
          using entries_ok_append[OF entries_ok_none[OF es(2)] _ fs(2)] es(2) by (auto simp: accepted_entries_def dest: entry_not_in)
        ultimately show ?thesis using roll run by auto
      qed
    qed
  qed
qed

end


section \<open>The pairs of a rotation\<close>

definition round_from :: "'a list \<Rightarrow> nat \<Rightarrow> nat \<Rightarrow> 'a list" where
  "round_from xs i k = map (\<lambda>j. xs ! ((i + j) mod length xs)) [0..<k]"

lemma suc_mod: "Suc (a mod n + b) mod n = Suc (a + b) mod n" for a b n :: nat
  by (metis mod_Suc_eq mod_add_left_eq)

lemma round_from_Suc: "round_from xs i (Suc k) = xs ! (i mod length xs) # round_from xs (Suc i mod length xs) k"
proof -
  have "map (\<lambda>j. xs ! ((i + j) mod length xs)) [0..<Suc k] = xs ! ((i + 0) mod length xs) # map (\<lambda>j. xs ! ((i + Suc j) mod length xs)) [0..<k]"
    unfolding upt_conv_Cons[OF zero_less_Suc] by (simp add: map_Suc_upt[symmetric] del: upt_Suc map_Suc_upt)
  moreover have "(i + Suc j) mod length xs = (Suc i mod length xs + j) mod length xs" for j by (simp add: mod_add_left_eq)
  ultimately show ?thesis by (simp add: round_from_def)
qed

lemma round_from_rotate: "k \<le> length xs \<Longrightarrow> round_from xs i k = take k (rotate i xs)"
  by (rule nth_equalityI) (auto simp: round_from_def nth_rotate add.commute)

text \<open>What a scan from index \<open>i\<close> has done after \<open>k\<close> pairs; the index stays at the last one when the scan broke off there.\<close>

definition scanned :: "'a list \<Rightarrow> nat \<Rightarrow> nat \<Rightarrow> 'a list \<Rightarrow> nat \<Rightarrow> bool" where
  "scanned xs i k ys i' = (ys = round_from xs i k \<and> (i' = (i + k) mod length xs \<or> 0 < k \<and> i' = (i + (k - 1)) mod length xs))"

lemma scanned_Suc:
  assumes "scanned xs (Suc i mod length xs) k ys i'"
  shows "scanned xs i (Suc k) (xs ! (i mod length xs) # ys) i'"
  using assms by (cases k) (auto simp: scanned_def round_from_Suc suc_mod mod_add_left_eq)

definition never_enters :: "'s scout \<Rightarrow> rotation_config \<Rightarrow> bool" where
  "never_enters sc cfg = ((\<forall>w. sc_available sc w)
     \<and> (\<forall>symb s. \<exists>d s'. scan_pair sc cfg symb s = (Inr d, s') \<and> py_get d ''action'' \<noteq> PStr ''ENTER''))"

lemma scan_loop_scans:
  assumes "rg_pairs cfg \<noteq> []" "ro_index s < length (rg_pairs cfg)"
  shows "\<exists>k ys. k \<le> n \<and> ro_scans (snd (scan_loop sc ve cfg pause ctx n s)) = ro_scans s @ ys
    \<and> scanned (rg_pairs cfg) (ro_index s) k ys (ro_index (snd (scan_loop sc ve cfg pause ctx n s)))
    \<and> (never_enters sc cfg \<longrightarrow> k = n \<and> ro_index (snd (scan_loop sc ve cfg pause ctx n s)) = (ro_index s + n) mod length (rg_pairs cfg))"
  using assms(2)
proof (induction n arbitrary: s)
  case 0 then show ?case by (intro exI[of _ 0] exI[of _ "[]"]) (simp add: scanned_def round_from_def)
next
  case (Suc n)
  let ?xs = "rg_pairs cfg" and ?out = "snd (scan_loop sc ve cfg pause ctx (Suc n) s)"
  let ?symb = "?xs ! (ro_index s mod length ?xs)"
  obtain r s1 where 1: "scan_pair sc cfg ?symb s = (r, s1)" by fastforce
  from scan_pair_scans[of sc cfg ?symb s] 1 have s1: "ro_scans s1 = ro_scans s @ [?symb]" "ro_index s1 = ro_index s" by simp_all
  have ends: ?case if "ro_scans ?out = ro_scans s @ [?symb]" "ro_index ?out = ro_index s \<or> ro_index ?out = Suc (ro_index s) mod length ?xs" "\<not> never_enters sc cfg"
    using that Suc.prems by (intro exI[of _ 1] exI[of _ "[?symb]"]) (auto simp: scanned_def round_from_def)
  have nxt: ?case if out: "?out = snd (scan_loop sc ve cfg pause ctx n (next_pair sc cfg pause n t))" and t: "ro_scans t = ro_scans s1" "ro_index t = ro_index s1" for t
  proof -
    let ?t = "next_pair sc cfg pause n t"
    have "ro_scans ?t = ro_scans s @ [?symb]" "ro_index ?t = Suc (ro_index s) mod length ?xs"
      using t s1 by (simp_all add: next_pair_def advance_def)
    with Suc.IH[of ?t] Suc.prems assms(1) obtain k ys where k: "k \<le> n" "ro_scans ?out = ro_scans s @ ?symb # ys"
      "scanned ?xs (Suc (ro_index s) mod length ?xs) k ys (ro_index ?out)"
      "never_enters sc cfg \<longrightarrow> k = n \<and> ro_index ?out = (Suc (ro_index s) mod length ?xs + n) mod length ?xs"
      unfolding out by auto
    from scanned_Suc[OF k(3)] k(1,2,4) show ?thesis
      by (intro exI[of _ "Suc k"] exI[of _ "?symb # ys"]) (simp add: mod_add_left_eq)
  qed
  show ?case
  proof (cases "sc_available sc (world s)")
    case False
    then show ?thesis using Suc.prems
      by (intro exI[of _ 0] exI[of _ "[]"]) (auto simp: scanned_def round_from_def never_enters_def)
  next
    case av: True
    show ?thesis
    proof (cases r)
      case (Inl e)
      have "\<not> never_enters sc cfg" using 1 Inl by (auto simp: never_enters_def) (metis Inl_Inr_False Pair_inject)
      then show ?thesis
        using av 1 Inl s1 ends nxt[of "s1\<lparr>ro_failures := ro_failures s1 + 1\<rparr>"] by (cases "sc_rate_limited sc e") (simp_all add: Let_def)
    next
      case (Inr d)
      show ?thesis
      proof (cases "py_get d ''action'' = PStr ''ENTER''")
        case False with av 1 Inr nxt[of s1] show ?thesis by simp
      next
        case True
        have ne: "\<not> never_enters sc cfg" using 1 Inr True by (auto simp: never_enters_def) (metis Pair_inject sum.inject(2))
        obtain q s2 where 2: "act_on ve cfg d ctx s1 = (q, s2)" by fastforce
        then have s2: "ro_scans s2 = ro_scans s1" "ro_index s2 = ro_index s1"
          using on_desk_frame(2,3)[of "execute_ai_action ve (rg_desk cfg) d ctx" s1] by (simp_all add: act_on_def)
        show ?thesis
        proof (cases "q = Inr False")
          case q: True
          with av 1 Inr True 2 s2 nxt[of s2] show ?thesis by simp
        next
          case False
          then show ?thesis using av 1 Inr True 2 s1 s2 ne by (intro ends; cases q) (auto simp: advance_def)
        qed
      qed
    qed
  qed
qed

text \<open>
  From a flat account a rotation scans pairs in the configured order, starting at the rotation index and wrapping round,
  each pair at most once; the index moves on by the number of pairs scanned, but stays on the pair whose scan broke the rotation
  off. When the judge stays available and no scan enters or fails, every pair is scanned once and the index is back where it was.
\<close>

lemma rotation_scans:
  assumes "open_positions (ctx_positions ctx) = []" "rg_pairs cfg \<noteq> []"
  shows "\<exists>k \<le> length (rg_pairs cfg).
      ro_scans (snd (run_ai_rotation sc ve cfg orders ctx s)) = ro_scans s @ take k (rotate (ro_index s) (rg_pairs cfg))
    \<and> (k = 0 \<or> ro_index (snd (run_ai_rotation sc ve cfg orders ctx s)) \<in>
         {(ro_index s + k) mod length (rg_pairs cfg), (ro_index s + k - 1) mod length (rg_pairs cfg)})
    \<and> (never_enters sc cfg \<and> to_float (get_or (dc_rotation (rg_desk cfg)) ''retry_sleep_seconds'' (PFloat 30)) = Inr pause
         \<longrightarrow> k = length (rg_pairs cfg)
           \<and> ro_index (snd (run_ai_rotation sc ve cfg orders ctx s)) = ro_index s mod length (rg_pairs cfg))"
proof -
  let ?xs = "rg_pairs cfg" and ?out = "snd (run_ai_rotation sc ve cfg orders ctx s)"
  show ?thesis
  proof (cases "sc_available sc (world s) \<and> (\<exists>p. to_float (get_or (dc_rotation (rg_desk cfg)) ''retry_sleep_seconds'' (PFloat 30)) = Inr p)")
    case False
    then have "?out = s" using assms by (auto simp: run_ai_rotation_def split: sum.split)
    then show ?thesis using False by (intro exI[of _ 0]) (auto simp: never_enters_def)
  next
    case True
    then obtain p where p: "to_float (get_or (dc_rotation (rg_desk cfg)) ''retry_sleep_seconds'' (PFloat 30)) = Inr p" by blast
    let ?s2 = "s\<lparr>ro_hold_since := [], ro_index := ro_index s mod length ?xs\<rparr>"
    let ?run = "scan_loop sc ve cfg p ctx (length ?xs) ?s2"
    have run: "?out = snd ?run"
      using True p assms by (cases ?run; cases "fst ?run") (auto simp: run_ai_rotation_def)
    from scan_loop_scans[of cfg ?s2 "length ?xs" sc ve p ctx] assms(2) obtain k ys where
      k: "k \<le> length ?xs" "ro_scans ?out = ro_scans s @ ys" "scanned ?xs (ro_index s mod length ?xs) k ys (ro_index ?out)"
      "never_enters sc cfg \<longrightarrow> k = length ?xs \<and> ro_index ?out = (ro_index s mod length ?xs + length ?xs) mod length ?xs"
      unfolding run by auto
    have "ys = take k (rotate (ro_index s) ?xs)"
      using k(1,3) round_from_rotate[of k ?xs "ro_index s mod length ?xs"] by (simp add: scanned_def rotate_conv_mod[symmetric])
    moreover have "k = 0 \<or> ro_index ?out \<in> {(ro_index s + k) mod length ?xs, (ro_index s + k - 1) mod length ?xs}"
      using k(3) by (cases k) (auto simp: scanned_def suc_mod mod_add_left_eq)
    ultimately show ?thesis using k(1,2,4) by (intro exI[of _ k]) auto
  qed
qed

end
