(* ===== verification/CycleRuns.thy ===== *)
theory CycleRuns
  imports Cycle
begin

text \<open>Concrete cycles: a scout whose judge always answers the same, on the model's own venue and on a small book.\<close>

definition const_scout :: "decision \<Rightarrow> position list \<Rightarrow> 's scout" where
  "const_scout d ps =
     \<lparr>sc_available = (\<lambda>w. True), sc_context = (\<lambda>pairs w. (Inr \<lparr>mc_candles = [], mc_positions = ps, mc_funding = []\<rparr>, w)),
      sc_judge = (\<lambda>tier symb sig mc w. (Inr d, w)), sc_judge_batch = (\<lambda>sigs held w. (Inr [], w)),
      sc_judge_all = (\<lambda>mc inds w. (Inr d, w)), sc_journal = (\<lambda>d mc w. (None, w)), sc_monotonic = (\<lambda>w. 5), sc_day = (\<lambda>w. 20000),
      sc_sleep = (\<lambda>t w. w), sc_rate_limited = (\<lambda>e. False), sc_account = (\<lambda>w. (Inr (default_account [] []), w)),
      sc_status = (\<lambda>w. (Inl RuntimeError, w)), sc_reconcile = (\<lambda>ps w. w), sc_monitor = (\<lambda>ctx w. w)\<rparr>"

definition example_rotation_config :: "bool \<Rightarrow> string list \<Rightarrow> rotation_config" where
  "example_rotation_config gated pairs =
     \<lparr>rg_desk = example_desk_config\<lparr>dc_rotation := [(''enabled'', PBool True)]\<rparr>, rg_pairs = pairs, rg_scalp_pairs = [],
      rg_gate = [(''enabled'', PBool gated)], rg_validator = [], rg_risk = [], rg_underlyings = pairs, rg_ai_enabled = True,
      rg_mode = ''trend'', rg_interval = 300\<rparr>"

definition start_rotation :: "'s \<Rightarrow> 's rotation" where
  "start_rotation w =
     \<lparr>ro_desk = \<lparr>dk_world = w, dk_log = []\<rparr>, ro_index = 1, ro_hold_since = [], ro_last_roll = [], ro_judge_ts = [],
      ro_judge = fresh_budget, ro_scalp = fresh_budget, ro_scalp_held = [], ro_cycles = 0, ro_failures = 0, ro_calls = [],
      ro_scans = []\<rparr>"

definition foreign_entry :: decision where
  "foreign_entry = [(''action'', PStr ''ENTER''), (''direction'', PStr ''long''), (''side'', PStr ''SELL''),
     (''contract'', PStr ''ETHUSDT''), (''quantity'', PInt 100), (''confidence'', PFloat (1 / 2))]"

lemma neutral_signal: "\<not> opposes (py_get (pair_signal \<lparr>mc_candles = [], mc_positions = ps, mc_funding = []\<rparr> symb []) ''local_direction'') x"
proof -
  have "local_direction (local_score []) = NEUTRAL" by code_simp
  then show ?thesis by (simp add: signal_direction pair_signal_def opposes_def)
qed

lemma const_world: "on_world (\<lambda>w. (r, w)) t = (r, t)"
  by (simp add: on_world_def in_world_def)

lemma const_scan:
  "scan_pair (const_scout d ps) (example_rotation_config False pairs) symb s =
     (Inr (pin_contract symb (vet_decision (example_rotation_config False pairs) symb (position_side_for ps symb) [] d)),
      s\<lparr>ro_cycles := ro_cycles s + 1, ro_scans := ro_scans s @ [symb],
        ro_calls := ro_calls s @ [(case cb_day (ro_judge s) of None \<Rightarrow> 0 | Some t \<Rightarrow> t, False)]\<rparr>)"
proof -
  show ?thesis
    by (simp add: scan_pair_def const_scout_def example_rotation_config_def const_world gate_pair_def get_or_def judge_pair_def
        context_indicators_def merge_indicators_def journal_decision_def Let_def count_call_def neutral_signal example_desk_config_def
        split: sum.split)
qed

lemma foreign_vetted:
  "pin_contract ''BTCUSDT'' (vet_decision (example_rotation_config g pairs) ''BTCUSDT'' held [] foreign_entry) =
     [(''action'', PStr ''ENTER''), (''direction'', PStr ''LONG''), (''side'', PStr ''BUY''), (''contract'', PStr ''BTCUSDT''),
      (''quantity'', PInt 100), (''confidence'', PFloat (1 / 2)), (''gate_result'', PStr ''not_checked'')]"
  by code_simp

definition pinned_entry :: decision where
  "pinned_entry = [(''action'', PStr ''ENTER''), (''direction'', PStr ''LONG''), (''side'', PStr ''BUY''), (''contract'', PStr ''BTCUSDT''),
      (''quantity'', PInt 100), (''confidence'', PFloat (1 / 2)), (''gate_result'', PStr ''not_checked'')]"

lemma foreign_scan:
  "fst (scan_pair (const_scout foreign_entry []) (example_rotation_config False pairs) ''BTCUSDT'' s) = Inr pinned_entry"
  by (simp add: const_scan foreign_vetted pinned_entry_def)

theorem scan_pair_sound_witness:
  "\<exists>d s'. scan_pair (const_scout foreign_entry []) (example_rotation_config False []) ''BTCUSDT'' (start_rotation ()) = (Inr d, s')
     \<and> py_get d ''action'' = PStr ''ENTER'' \<and> py_get d ''contract'' = PStr ''BTCUSDT'' \<and> py_get d ''side'' = PStr ''BUY''"
proof -
  obtain s' where s: "scan_pair (const_scout foreign_entry []) (example_rotation_config False []) ''BTCUSDT'' (start_rotation ()) = (Inr pinned_entry, s')"
    using foreign_scan[of "[]" "start_rotation ()"]
    by (cases "scan_pair (const_scout foreign_entry []) (example_rotation_config False []) ''BTCUSDT'' (start_rotation ())") auto
  have e: "py_get pinned_entry ''action'' = PStr ''ENTER''" "py_get pinned_entry ''direction'' = PStr ''LONG''"
    by (simp_all add: pinned_entry_def py_get_def)
  from scan_pair_sound[OF s e(1)] s e show ?thesis by (auto simp: vetted_def)
qed

lemma example_fields:
  "rg_gate (example_rotation_config g pairs) = [(''enabled'', PBool g)]" "rg_pairs (example_rotation_config g pairs) = pairs"
  "dc_ai (rg_desk (example_rotation_config g pairs)) = []" "rg_desk (example_rotation_config g pairs) = example_desk_config\<lparr>dc_rotation := [(''enabled'', PBool True)]\<rparr>"
  "rg_ai_enabled (example_rotation_config g pairs)" "rg_mode (example_rotation_config g pairs) = ''trend''"
  "rg_interval (example_rotation_config g pairs) = 300"
  by (simp_all add: example_rotation_config_def example_desk_config_def)

text \<open>A scan of a held pair, through the gate.\<close>

lemma gated_scan:
  assumes "ro_judge s = fresh_budget" "ro_calls s = []"
  shows "\<exists>s'. scan_pair (const_scout [(''action'', PStr ''HOLD'')] [example_long]) (example_rotation_config True pairs) ''BTCUSDT'' s =
      (Inr (vet_decision (example_rotation_config True pairs) ''BTCUSDT'' (Some Long) [] [(''action'', PStr ''HOLD'')]), s')
    \<and> ro_calls s' = [(20000, False)]"
proof -
  have t: "to_int (PInt 48) = Inr 48" "to_float (PFloat (1 / 2)) = Inr (1 / 2)" by code_simp+
  have h: "position_side_for [example_long] ''BTCUSDT'' = Some Long"
    by (simp add: position_side_for_def example_long_def)
  have v: "pin_contract ''BTCUSDT'' (vet_decision (example_rotation_config True pairs) ''BTCUSDT'' (Some Long) [] [(''action'', PStr ''HOLD'')])
      = vet_decision (example_rotation_config True pairs) ''BTCUSDT'' (Some Long) [] [(''action'', PStr ''HOLD'')]"
    by code_simp
  have f: "to_float (PFloat x) = Inr x" for x by simp
  show ?thesis using assms
    by (simp add: scan_pair_def const_scout_def const_world gate_pair_def get_or_def judge_pair_def example_fields(1,3)
        judge_gate_check_def latest_candle_def h t f v day_budget_allows_def fresh_budget_def
        context_indicators_def merge_indicators_def journal_decision_def Let_def count_call_def neutral_signal)
qed

lemma const_fields:
  "sc_account (const_scout d ps) = (\<lambda>w. (Inr (default_account [] []), w))" "sc_monitor (const_scout d ps) ctx w = w"
  "sc_status (const_scout d ps) = (\<lambda>w. (Inl RuntimeError, w))" "sc_reconcile (const_scout d ps) qs w = w"
  "sc_sleep (const_scout d ps) t w = w" "sc_available (const_scout d ps) w"
  by (simp_all add: const_scout_def)

lemma book_cycle_calls:
  "ro_calls (main_iteration (const_scout [(''action'', PStr ''HOLD'')] [example_long]) closing_venue
     (example_rotation_config True [''BTCUSDT'']) (start_rotation False)) = [(20000, False)]"
proof -
  let ?sc = "const_scout [(''action'', PStr ''HOLD'')] [example_long]" and ?cfg = "example_rotation_config True [''BTCUSDT'']"
  have v: "py_get (vet_decision ?cfg ''BTCUSDT'' (Some Long) [] [(''action'', PStr ''HOLD'')]) ''action'' \<noteq> PStr ''ENTER''" by code_simp
  have f: "to_float (PFloat x) = Inr x" for x by simp
  have l: "lower ''trend'' \<noteq> ''scalp''" by code_simp
  let ?ctx = "cycle_context (default_account [] []) [] [] None"
  let ?s = "(start_rotation False)\<lparr>ro_desk := \<lparr>dk_world = False, dk_log = [Seen (Inr [])]\<rparr>\<rparr>"
  obtain s1 where 1: "scan_pair ?sc ?cfg ''BTCUSDT'' (?s\<lparr>ro_hold_since := [], ro_index := 0\<rparr>) =
      (Inr (vet_decision ?cfg ''BTCUSDT'' (Some Long) [] [(''action'', PStr ''HOLD'')]), s1)" "ro_calls s1 = [(20000, False)]"
    using gated_scan[of "?s\<lparr>ro_hold_since := [], ro_index := 0\<rparr>" "[''BTCUSDT'']"] by (auto simp: start_rotation_def)
  have run: "run_ai_rotation ?sc closing_venue ?cfg [] ?ctx ?s = (Inr (True, ?ctx), advance ?cfg s1)"
    using 1 v by (simp add: run_ai_rotation_def example_fields const_scout_def get_or_def f cycle_context_def open_positions_def next_pair_def
        start_rotation_def)
  have seen: "on_desk (see_positions closing_venue) (start_rotation False) = (Inr [], ?s)"
    by (simp add: on_desk_def see_positions_def closing_venue_def start_rotation_def)
  have orders: "ve_open_orders closing_venue = (\<lambda>w. (Inr [], w))" by (simp add: closing_venue_def)
  have decide: "decide_cycle ?sc closing_venue ?cfg [] ?ctx ?s = (?ctx, advance ?cfg s1)"
    using run l by (simp add: decide_cycle_def const_fields example_fields get_or_def)
  have "main_iteration ?sc closing_venue ?cfg (start_rotation False) = advance ?cfg s1"
    by (simp add: main_iteration_def cycle_body_def const_fields const_world seen orders decide sleep_for_def Let_def)
  then show ?thesis using 1(2) by (simp add: advance_def)
qed

theorem judge_calls_budgeted_witness:
  "\<exists>sc cfg s. ro_calls ((main_iteration sc closing_venue cfg ^^ 1) s) = [(20000, False)]
     \<and> int (calls_on 20000 (ro_calls ((main_iteration sc closing_venue cfg ^^ 1) s))) \<le> 96"
proof -
  let ?sc = "const_scout [(''action'', PStr ''HOLD'')] [example_long]"
  let ?cfg = "example_rotation_config True [''BTCUSDT'']"
  have b: "budgeted ?cfg 48"
    by (simp add: budgeted_def judge_budget_def int_setting_def example_rotation_config_def example_desk_config_def get_or_def)
  have c: "ro_calls ((main_iteration ?sc closing_venue ?cfg ^^ 1) (start_rotation False)) = [(20000, False)]"
    using book_cycle_calls by simp
  then have "int (calls_on 20000 (ro_calls ((main_iteration ?sc closing_venue ?cfg ^^ 1) (start_rotation False)))) \<le> 2 * 48"
    by (intro judge_calls_budgeted[OF b, THEN conjunct2]) (simp_all add: start_rotation_def)
  with c show ?thesis by (intro exI[of _ ?sc] exI[of _ ?cfg] exI[of _ "start_rotation False"]) simp
qed

lemma idle_scout_never_enters: "never_enters (const_scout d [] :: 's scout) (example_rotation_config True pairs)"
  unfolding never_enters_def
proof (intro conjI allI)
  fix symb and s :: "'s rotation"
  have t: "to_int (PInt 48) = Inr 48" "to_float (PFloat (1 / 2)) = Inr (1 / 2)" by code_simp+
  have "fst (scan_pair (const_scout d []) (example_rotation_config True pairs) symb s) = Inr (hold_decision symb (PStr ''judge_skipped''))"
    by (simp add: scan_pair_def const_scout_def example_rotation_config_def const_world gate_pair_def get_or_def judge_gate_check_def
        latest_candle_def position_side_for_def example_desk_config_def Let_def t)
  then show "\<exists>d' s'. scan_pair (const_scout d []) (example_rotation_config True pairs) symb s = (Inr d', s')
      \<and> py_get d' ''action'' \<noteq> PStr ''ENTER''"
    by (cases "scan_pair (const_scout d []) (example_rotation_config True pairs) symb s") (auto simp: hold_decision_def py_get_def)
qed (simp add: const_scout_def)

theorem rotation_scans_witness:
  "ro_scans (snd (run_ai_rotation (const_scout [] []) closing_venue (example_rotation_config True [''BTCUSDT'', ''ETHUSDT'']) [] default_context
     (start_rotation False))) = [''ETHUSDT'', ''BTCUSDT'']"
proof -
  let ?cfg = "example_rotation_config True [''BTCUSDT'', ''ETHUSDT'']"
  have p: "to_float (get_or (dc_rotation (rg_desk ?cfg)) ''retry_sleep_seconds'' (PFloat 30)) = Inr 30" by code_simp
  have "open_positions (ctx_positions default_context) = []" "rg_pairs ?cfg \<noteq> []"
    by (simp_all add: default_context_def open_positions_def example_rotation_config_def)
  from rotation_scans[OF this, of "const_scout [] []" closing_venue "[]" "start_rotation False" 30] idle_scout_never_enters p
  obtain k where "k = length (rg_pairs ?cfg)" "ro_scans (snd (run_ai_rotation (const_scout [] []) closing_venue ?cfg [] default_context
      (start_rotation False))) = [] @ take k (rotate 1 (rg_pairs ?cfg))" by (auto simp: start_rotation_def)
  then show ?thesis by (simp add: example_rotation_config_def)
qed

text \<open>A rotation on the model's own venue that sends an entry.\<close>

lemma pinned_decided_run:
  "decided_action_of example_venue example_desk_config ENTER pinned_entry ps ''BTCUSDT'' ''BUY'' (Some (497 / 5), Some 101)
     = Inr (example_decided\<lparr>act_metadata := [(''ai_confidence'', PFloat (1 / 2))]\<rparr>)"
  by (simp add: decided_action_of_def pinned_entry_def py_get_def get_or_def example_desk_config_def default_action_def
      post_init_update example_decided_def Let_def)

lemma pinned_decided_evaluated:
  "case risk_evaluate example_manager (Action (example_decided\<lparr>act_metadata := [(''ai_confidence'', PFloat (1 / 2))]\<rparr>) None) example_context of
     Inl e \<Rightarrow> False | Inr rr \<Rightarrow> passed rr"
  by code_simp

lemma pinned_facts:
  "action_kind (str_of (get_or pinned_entry ''action'' (PStr ''HOLD''))) = Some ENTER" "str_of (py_get pinned_entry ''contract'') = ''BTCUSDT''"
  "truthy (py_get pinned_entry ''quantity'')" "\<not> truthy (py_get pinned_entry ''strategy'')"
  by (simp_all add: pinned_entry_def action_kind_def get_or_def py_get_def)

lemma desk_rotation_unread:
  "make_room ve (c\<lparr>dc_rotation := r\<rparr>) = make_room ve c" "entry_brackets ve (c\<lparr>dc_rotation := r\<rparr>) = entry_brackets ve c"
  "decided_action_of ve (c\<lparr>dc_rotation := r\<rparr>) = decided_action_of ve c" "unprotected (c\<lparr>dc_rotation := r\<rparr>) = unprotected c"
proof -
  have "bracket_pair (c\<lparr>dc_rotation := r\<rparr>) = bracket_pair c" by (intro ext) (simp add: bracket_pair_def cong: option.case_cong)
  then have "compute_bracket_prices ve (c\<lparr>dc_rotation := r\<rparr>) = compute_bracket_prices ve c"
    by (intro ext) (simp add: compute_bracket_prices_def cong: sum.case_cong prod.case_cong if_cong)
  then show "entry_brackets ve (c\<lparr>dc_rotation := r\<rparr>) = entry_brackets ve c"
    by (intro ext) (simp add: entry_brackets_def cong: sum.case_cong prod.case_cong if_cong)
qed (intro ext, simp add: make_room_def close_all_def decided_action_of_def unprotected_def cong: sum.case_cong prod.case_cong if_cong)+

lemma pinned_sent:
  "\<exists>a out. dk_log (snd (execute_ai_action example_venue (example_desk_config\<lparr>dc_rotation := r\<rparr>) pinned_entry example_context example_desk))
     = [Seen (Inr []), Sent a out]"
proof -
  let ?c = "example_desk_config\<lparr>dc_rotation := r\<rparr>" and ?a = "example_decided\<lparr>act_metadata := [(''ai_confidence'', PFloat (1 / 2))]\<rparr>"
  obtain rr where rr: "risk_evaluate example_manager (Action ?a None) example_context = Inr rr" "passed rr"
    using pinned_decided_evaluated by (auto split: sum.splits)
  have side: "order_side ENTER pinned_entry (ctx_positions example_context) ''BTCUSDT'' = Some ''BUY''" by code_simp
  have c: "dc_risk_manager ?c" "dc_engine ?c" "\<not> unprotected ?c (Some (497 / 5), Some 101)"
    by (simp_all add: unprotected_def example_desk_config_def)
  have room: "make_room example_venue ?c example_desk = (Inr True, example_desk\<lparr>dk_log := [Seen (Inr [])]\<rparr>)"
    by (simp add: desk_rotation_unread example_room)
  have brackets: "entry_brackets example_venue ?c ''ai_default'' ''BTCUSDT'' ''BUY'' (example_desk\<lparr>dk_log := [Seen (Inr [])]\<rparr>)
      = (Inr (Some (497 / 5), Some 101), example_desk\<lparr>dk_log := [Seen (Inr [])]\<rparr>)"
    by (simp add: desk_rotation_unread example_bracket_run)
  have decided: "decided_action_of example_venue ?c ENTER pinned_entry (ctx_positions example_context) ''BTCUSDT'' ''BUY'' (Some (497 / 5), Some 101) = Inr ?a"
    by (simp add: desk_rotation_unread pinned_decided_run)
  have eval: "ve_evaluate example_venue (Action ?a None) example_context (dk_world (example_desk\<lparr>dk_log := [Seen (Inr [])]\<rparr>)) = (Inr rr, example_engine)"
    using rr(1) by (simp add: example_venue_def engine_venue_def example_desk_def example_engine_def)
  have "\<exists>out. dk_log (snd (execute_ai_action example_venue ?c pinned_entry example_context example_desk))
      = dk_log (example_desk\<lparr>dk_log := [Seen (Inr [])]\<rparr>) @ [Sent (data (checked_action example_venue rr ?a)) out]"
    by (rule entry_reaches_engine[OF c(1,2) pinned_facts(1,2) _ pinned_facts(3,4) side room brackets c(3) decided eval rr(2)]) simp
  then show ?thesis by auto
qed


end
