(* ===== verification/Json.thy ===== *)
theory Json
  imports PyValues
begin

text \<open>
  Nested values: what \<^verbatim>\<open>json.loads\<close> and \<^verbatim>\<open>yaml.safe_load\<close> return and what configuration dicts hold. A scalar is a
  \<open>pyval\<close>; dicts are in insertion order.
\<close>

datatype json = JVal pyval | JList "json list" | JDict "(string \<times> json) list"

type_synonym jdict = "(string, json) dict"

fun jtruthy :: "json \<Rightarrow> bool" where
  "jtruthy (JVal v) = truthy v"
| "jtruthy (JList xs) = (xs \<noteq> [])"
| "jtruthy (JDict d) = (d \<noteq> [])"

definition jget :: "jdict \<Rightarrow> string \<Rightarrow> json" where
  "jget d k = (case map_of d k of None \<Rightarrow> JVal PNone | Some v \<Rightarrow> v)"

text \<open>\<^verbatim>\<open>d.get(k1) or d.get(k2) or ... or z\<close>: the last value is taken as it is.\<close>

fun get_first :: "jdict \<Rightarrow> string list \<Rightarrow> json \<Rightarrow> json" where
  "get_first d [] z = z"
| "get_first d (k # ks) z = (if jtruthy (jget d k) then jget d k else get_first d ks z)"

text \<open>
  \<^verbatim>\<open>d.setdefault(k, {})\<close> followed by an operation on the section: an entry that is no dict cannot be indexed. (An
  attribute error counts as a type error; no caller distinguishes them.)
\<close>

definition in_section :: "string \<Rightarrow> (jdict \<Rightarrow> jdict res) \<Rightarrow> jdict \<Rightarrow> jdict res" where
  "in_section k f d =
     (case map_of d k of
        None \<Rightarrow> bindE (f []) (\<lambda>s. Inr (AList.update k (JDict s) d))
      | Some (JDict s) \<Rightarrow> bindE (f s) (\<lambda>s'. Inr (AList.update k (JDict s') d))
      | Some v \<Rightarrow> Inl TypeError)"

definition put :: "string \<Rightarrow> pyval \<Rightarrow> jdict \<Rightarrow> jdict" where
  "put k v d = AList.update k (JVal v) d"

definition put_default :: "string \<Rightarrow> json \<Rightarrow> jdict \<Rightarrow> jdict" where
  "put_default k v d = (case map_of d k of None \<Rightarrow> AList.update k v d | Some x \<Rightarrow> d)"

text \<open>The value under a section and a key, when the section is a dict.\<close>

definition setting :: "jdict \<Rightarrow> string \<Rightarrow> string \<Rightarrow> json option" where
  "setting d k n = (case map_of d k of Some (JDict s) \<Rightarrow> map_of s n | _ \<Rightarrow> None)"

lemma map_of_put [simp]: "map_of (put k v d) = (map_of d)(k \<mapsto> JVal v)"
  by (simp add: put_def update_conv')

lemma map_of_put_default [simp]: "map_of (put_default k v d) = (if map_of d k = None then (map_of d)(k \<mapsto> v) else map_of d)"
  by (simp add: put_default_def update_conv' split: option.split)

lemma in_section_Inr:
  "in_section k f d = Inr d' \<longleftrightarrow> (\<exists>s s'. (map_of d k = None \<and> s = [] \<or> map_of d k = Some (JDict s)) \<and> f s = Inr s'
     \<and> d' = AList.update k (JDict s') d)"
  by (auto simp: in_section_def bindE_Inr_iff split: option.split json.split)

end
