(* ===== verification/TradingView.thy ===== *)
theory TradingView
  imports Trading Json
begin

text \<open>
  \<^verbatim>\<open>src/quad/tradingview/parser.py\<close>, \<^verbatim>\<open>src/quad/tradingview/signals.py\<close> and the webhook of
  \<^verbatim>\<open>src/quad/orchestrator/_tv_mixin.py\<close>: from the bytes of a request to a decision of the desk. \<^verbatim>\<open>json.loads\<close>, the text
  codecs, the two hash functions and the text of values that are not strings are the record \<open>codec\<close>; nothing is assumed of
  them. An exception that leaves the handler is \<open>Inl\<close>; the web server answers it with status 500. Fields that are only
  logged, the parse error's text and the reasoning of the decision are left out.
\<close>

section \<open>Values of a payload\<close>

type_synonym alert_payload = jdict

record codec =
  wh_json :: "string \<Rightarrow> json option"
  wh_decode :: "string \<Rightarrow> string option"
  wh_replace :: "string \<Rightarrow> string"
  wh_encode :: "string \<Rightarrow> string"
  wh_hmac :: "string \<Rightarrow> string \<Rightarrow> string"
  wh_digest :: "string \<Rightarrow> string"
  wh_text :: "json \<Rightarrow> string"
  wh_env_secret :: string

definition json_text :: "codec \<Rightarrow> json \<Rightarrow> string" where
  "json_text c v = (case v of JVal (PStr s) \<Rightarrow> s | _ \<Rightarrow> wh_text c v)"

fun json_decimal :: "json \<Rightarrow> rat res" where
  "json_decimal (JVal v) = to_decimal v"
| "json_decimal _ = Inl InvalidOperation"

fun json_float :: "json \<Rightarrow> rat res" where
  "json_float (JVal v) = to_float v"
| "json_float _ = Inl TypeError"

section \<open>Parsing an alert\<close>

definition begins :: "string \<Rightarrow> string \<Rightarrow> bool" where
  "begins marks s = (case strip s of [] \<Rightarrow> False | c # cs \<Rightarrow> c \<in> set marks)"

text \<open>From the first opening to the last closing brace, when they come in this order.\<close>

definition extract_object :: "string \<Rightarrow> string option" where
  "extract_object s =
     (let t = rev (dropWhile (\<lambda>c. c \<noteq> CHR ''}'') (rev (dropWhile (\<lambda>c. c \<noteq> CHR ''{'') s)))
      in if t = [] then None else Some t)"

definition normalise_keys :: "alert_payload \<Rightarrow> alert_payload" where
  "normalise_keys d = foldl (\<lambda>n (k, v). AList.update k v (AList.update (lower k) v n)) [] d"

definition merge_inner :: "codec \<Rightarrow> alert_payload \<Rightarrow> alert_payload" where
  "merge_inner c d =
     (case get_first d [''alert_message'', ''message''] (JVal (PStr [])) of
        JVal (PStr s) \<Rightarrow>
          (if begins ''{'' s
           then (case wh_json c s of Some (JDict i) \<Rightarrow> foldl (\<lambda>n (k, v). AList.update (lower k) v n) d i | _ \<Rightarrow> d)
           else d)
      | _ \<Rightarrow> d)"

definition parse_alert :: "codec \<Rightarrow> string \<Rightarrow> string \<Rightarrow> alert_payload res" where
  "parse_alert c body content_type =
     (if 65536 < length body then Inl ValueError
      else (case wh_decode c body of
        None \<Rightarrow> Inl ValueError
      | Some raw \<Rightarrow>
         Inr (case (if begins ''{['' raw then wh_json c raw else Option.bind (extract_object raw) (wh_json c)) of
                None \<Rightarrow> [(''raw'', JVal (PStr raw)), (''_format'', JVal (PStr ''text'')), (''_parse_error'', JVal (PStr []))]
              | Some (JDict d) \<Rightarrow>
                  AList.update ''_content_type'' (JVal (PStr content_type))
                    (AList.update ''_format'' (JVal (PStr ''json'')) (merge_inner c (normalise_keys d)))
              | Some v \<Rightarrow> [(''raw'', JVal (PStr raw)), (''_format'', JVal (PStr ''array'')), (''data'', v)])))"

section \<open>Signals\<close>

definition is_ascii :: "string \<Rightarrow> bool" where
  "is_ascii s = list_all (\<lambda>c. code_point c < 128) s"

text \<open>\<^verbatim>\<open>hmac.compare_digest\<close> of two strings refuses others than ASCII.\<close>

definition compare_digest :: "string \<Rightarrow> string \<Rightarrow> bool res" where
  "compare_digest a b = (if is_ascii a \<and> is_ascii b then Inr (a = b) else Inl TypeError)"

definition get_webhook_secret :: "codec \<Rightarrow> string option \<Rightarrow> string" where
  "get_webhook_secret c explicit = (case explicit of Some s \<Rightarrow> s | None \<Rightarrow> wh_env_secret c)"

text \<open>The body is a text or missing (\<^verbatim>\<open>null\<close>); anything else is no message for an HMAC.\<close>

definition verify_signature :: "codec \<Rightarrow> json \<Rightarrow> string \<Rightarrow> string option \<Rightarrow> bool res" where
  "verify_signature c raw sig explicit =
     (let sec = get_webhook_secret c explicit
      in if sec = [] \<or> sig = [] then Inr False
         else (case raw of
             JVal (PStr s) \<Rightarrow> compare_digest (lower (strip sig)) (wh_hmac c sec (wh_encode c s))
           | JVal PNone \<Rightarrow> compare_digest (lower (strip sig)) (wh_hmac c sec [])
           | _ \<Rightarrow> Inl TypeError))"

definition after_colon :: "string \<Rightarrow> string" where
  "after_colon s = rev (takeWhile (\<lambda>c. c \<noteq> CHR '':'') (rev s))"

definition drop_suffix :: "string list \<Rightarrow> string \<Rightarrow> string" where
  "drop_suffix ws s =
     (case find (\<lambda>w. length w < length s \<and> drop (length s - length w) s = w) ws of
        None \<Rightarrow> s | Some w \<Rightarrow> take (length s - length w) s)"

definition normalize_symbol :: "string \<Rightarrow> string" where
  "normalize_symbol raw =
     drop_suffix [''PERPETUAL'', ''PERP'']
       (filter (\<lambda>c. c \<notin> set ''/-_ .'') (after_colon (upper (strip raw))))"

record tv_signal =
  sg_symbol :: string
  sg_side :: string
  sg_quantity :: rat
  sg_price :: "rat option"
  sg_order_type :: string
  sg_type :: string
  sg_strategy :: json
  sg_raw :: alert_payload
  sg_metadata :: alert_payload
  sg_reduce_only :: bool

definition action_to_side :: "string \<Rightarrow> string option" where
  "action_to_side a = map_of
     [(''buy'', ''BUY''), (''sell'', ''SELL''), (''exit'', ''CLOSE''), (''flat'', ''CLOSE''), (''close'', ''CLOSE''),
      (''short'', ''SELL''), (''long'', ''BUY'')] a"

definition known_keys :: "string list" where
  "known_keys = [''ticker'', ''symbol'', ''market'', ''action'', ''side'', ''order_action'', ''quantity'', ''qty'', ''contracts'',
     ''price'', ''limit_price'', ''strategy'', ''secret'', ''webhook_secret'', ''signature'', ''hmac'', ''order_type'', ''time_in_force'',
     ''takeprofit'', ''stoploss'', ''raw'', ''_format'', ''_content_type'', ''_parse_error'', ''alert_message'', ''message'']"

text \<open>The credential in the alert itself; without a configured secret none is asked for.\<close>

definition alert_authentic :: "codec \<Rightarrow> string \<Rightarrow> alert_payload \<Rightarrow> bool res" where
  "alert_authentic c secret d =
     (if secret = [] then Inr True
      else (let provided = get_first d [''secret'', ''webhook_secret''] (JVal (PStr []));
                sig = get_first d [''signature'', ''hmac''] (JVal (PStr []))
            in if jtruthy provided then compare_digest (json_text c provided) secret
               else if jtruthy sig
               then verify_signature c (case map_of d ''raw'' of None \<Rightarrow> JVal (PStr []) | Some v \<Rightarrow> v) (json_text c sig) (Some secret)
               else Inr False))"

definition alert_quantity :: "alert_payload \<Rightarrow> rat \<Rightarrow> rat option" where
  "alert_quantity d z =
     (let v = get_first d [''quantity'', ''qty''] (jget d ''contracts'')
      in case (if v = JVal PNone then Inr z else json_decimal v) of
           Inl e \<Rightarrow> None | Inr q \<Rightarrow> if q \<le> 0 then None else Some q)"

definition convert_to_action :: "codec \<Rightarrow> alert_payload \<Rightarrow> rat \<Rightarrow> string option \<Rightarrow> tv_signal option res" where
  "convert_to_action c d z expected =
     bindE (alert_authentic c (get_webhook_secret c expected) d) (\<lambda>ok.
       let symb = normalize_symbol (json_text c (get_first d [''ticker'', ''symbol'', ''market''] (JVal (PStr []))));
           action = lower (strip (json_text c (get_first d [''action'', ''side'', ''order_action''] (JVal (PStr [])))))
       in Inr (if \<not> ok \<or> symb = [] then None
               else (case (action_to_side action, alert_quantity d z) of
                   (Some side, Some q) \<Rightarrow>
                     Some \<lparr>sg_symbol = symb, sg_side = side, sg_quantity = q, sg_price = None, sg_order_type = ''MARKET'',
                       sg_type = (if side = ''CLOSE'' then ''exit'' else if action = ''exit'' then ''exit'' else ''entry''),
                       sg_strategy = (case map_of d ''strategy'' of None \<Rightarrow> JVal (PStr ''tradingview'') | Some v \<Rightarrow> v),
                       sg_raw = d, sg_metadata = filter (\<lambda>(k, v). k \<notin> set known_keys) d, sg_reduce_only = (side = ''CLOSE'')\<rparr>
                 | _ \<Rightarrow> None)))"

section \<open>The webhook\<close>

record webhook_config =
  wc_enabled :: bool
  wc_port :: int
  wc_secret :: string

definition valid_webhook :: "webhook_config \<Rightarrow> bool" where
  "valid_webhook w = (1024 \<le> wc_port w \<and> wc_port w \<le> 65535 \<and> \<not> (wc_enabled w \<and> length (strip (wc_secret w)) < 16))"

text \<open>Arming the webhook; the result is the secret of the mounted route.\<close>

definition init_webhook :: "webhook_config \<Rightarrow> bool \<Rightarrow> bool \<Rightarrow> string option res" where
  "init_webhook w has_server mounted =
     (if \<not> valid_webhook w then Inl ValueError
      else Inr (if \<not> wc_enabled w \<or> \<not> has_server \<or> wc_secret w = [] \<or> \<not> mounted then None else Some (wc_secret w)))"

record alert_request =
  rq_body :: string
  rq_content_type :: string
  rq_signature :: string

datatype reply = Forbidden | Invalid_json | Unparseable | Duplicate | Stale | Exit_no_position | Accepted

record 's webhook =
  tw_desk :: "'s desk"
  tw_seen :: "(string, rat) dict"

text \<open>
  The check of the transport: \<open>None\<close> lets the request pass. A text that starts with a brace and is JSON is an object, so
  the last branch is never taken.
\<close>

definition transport_check :: "codec \<Rightarrow> string \<Rightarrow> alert_request \<Rightarrow> reply option res" where
  "transport_check c secret rq =
     (if secret = [] then Inr None
      else if rq_signature rq \<noteq> []
      then bindE (compare_digest (rq_signature rq) (wh_hmac c secret (rq_body rq))) (\<lambda>ok. Inr (if ok then None else Some Forbidden))
      else (let raw = wh_replace c (rq_body rq)
            in case (if begins ''{'' raw then wh_json c raw else Some (JDict [])) of
                 None \<Rightarrow> Inr (Some Invalid_json)
               | Some (JDict d) \<Rightarrow> Inr (if jget d ''secret'' = JVal (PStr secret) then None else Some Forbidden)
               | Some v \<Rightarrow> Inl TypeError))"

definition dedupe_key :: "codec \<Rightarrow> (rat \<Rightarrow> string) \<Rightarrow> string \<Rightarrow> tv_signal \<Rightarrow> string" where
  "dedupe_key c txt raw sg =
     take 32 (wh_digest c raw) @ '':'' @ sg_symbol sg @ '':'' @ sg_side sg @ '':'' @ txt (sg_quantity sg)
       @ '':'' @ sg_type sg @ '':'' @ json_text c (sg_strategy sg)"

fun read_time :: "string list \<Rightarrow> alert_payload \<Rightarrow> rat option" where
  "read_time [] d = None"
| "read_time (k # ks) d =
     (if jget d k = JVal PNone then read_time ks d
      else (case json_float (jget d k) of
          Inl e \<Rightarrow> read_time ks d
        | Inr x \<Rightarrow> Some (if 10 ^ 12 < x then fround (x / 1000) else x)))"

definition alert_time :: "alert_payload \<Rightarrow> tv_signal \<Rightarrow> rat option" where
  "alert_time d sg =
     (let ks = [''timestamp'', ''timenow'', ''time'', ''ts'', ''created'']
      in case read_time ks d of Some t \<Rightarrow> Some t | None \<Rightarrow> read_time ks (sg_metadata sg))"

definition is_stale :: "rat \<Rightarrow> rat option \<Rightarrow> bool" where
  "is_stale now t = (case t of None \<Rightarrow> False | Some x \<Rightarrow> 60 < fround (now - x))"

definition signal_direction :: "tv_signal \<Rightarrow> position list \<Rightarrow> string" where
  "signal_direction sg held =
     (let d = (if upper (strip (sg_side sg)) = ''BUY'' then ''LONG'' else if upper (strip (sg_side sg)) = ''SELL'' then ''SHORT'' else ''NEUTRAL'')
      in if sg_type sg \<noteq> ''exit'' \<or> held = [] then d
         else (let h = upper (strip (enum_text (pos_side (hd held))))
               in if h \<in> {''LONG'', ''BUY''} then ''LONG'' else if h \<in> {''SHORT'', ''SELL''} then ''SHORT'' else d))"

definition tv_decision :: "codec \<Rightarrow> (rat \<Rightarrow> string) \<Rightarrow> tv_signal \<Rightarrow> string \<Rightarrow> decision" where
  "tv_decision c txt sg dir =
     [(''action'', PStr (if sg_type sg = ''exit'' then ''EXIT'' else ''ENTER'')), (''direction'', PStr dir), (''side'', PStr (sg_side sg)),
      (''contract'', PStr (sg_symbol sg)), (''quantity'', PStr (txt (sg_quantity sg))),
      (''strategy'', PStr (''tradingview_'' @ json_text c (sg_strategy sg))), (''confidence'', PFloat 1)]"

text \<open>A failing execution is logged and answered like a successful one.\<close>

definition route_signal :: "codec \<Rightarrow> 's venue \<Rightarrow> desk_config \<Rightarrow> tv_signal \<Rightarrow> 's desk \<Rightarrow> reply \<times> 's desk" where
  "route_signal c ve cfg sg s =
     (if \<not> dc_engine cfg then (Accepted, s)
      else (let (r, s1) = see_positions ve s;
                live = (case r of Inl e \<Rightarrow> [] | Inr ps \<Rightarrow> ps);
                held = filter (\<lambda>p. pos_symbol p = sg_symbol sg) live
            in if sg_type sg = ''exit'' \<and> held = [] then (Exit_no_position, s1)
               else (Accepted, snd (execute_ai_action ve cfg (tv_decision c (ve_text ve) sg (signal_direction sg held))
                       (default_context\<lparr>ctx_positions := live\<rparr>) s1))))"

definition handle_signal :: "codec \<Rightarrow> 's venue \<Rightarrow> desk_config \<Rightarrow> rat \<Rightarrow> string \<Rightarrow> alert_payload \<Rightarrow> tv_signal \<Rightarrow> 's webhook \<Rightarrow> reply \<times> 's webhook" where
  "handle_signal c ve cfg now raw d sg s =
     (let seen = filter (\<lambda>(k, t). fround (now - t) < 300) (tw_seen s); key = dedupe_key c (ve_text ve) raw sg
      in if map_of seen key \<noteq> None then (Duplicate, s\<lparr>tw_seen := seen\<rparr>)
         else (let s1 = s\<lparr>tw_seen := AList.update key now seen\<rparr>
               in if is_stale now (alert_time d sg) then (Stale, s1)
                  else (let (r, desk) = route_signal c ve cfg sg (tw_desk s1) in (r, s1\<lparr>tw_desk := desk\<rparr>))))"

text \<open>Everything before the clock is read: a reply (or an exception), or the parsed alert and its signal.\<close>

datatype admission = Refused "reply res" | Admitted alert_payload tv_signal

definition admit_alert :: "codec \<Rightarrow> string \<Rightarrow> alert_request \<Rightarrow> admission" where
  "admit_alert c secret rq =
     (case transport_check c secret rq of
        Inl e \<Rightarrow> Refused (Inl e)
      | Inr (Some r) \<Rightarrow> Refused (Inr r)
      | Inr None \<Rightarrow>
         (case parse_alert c (rq_body rq) (rq_content_type rq) of
            Inl e \<Rightarrow> Refused (Inl e)
          | Inr d \<Rightarrow>
             (case convert_to_action c d 1 (if secret = [] then None else Some secret) of
                Inl e \<Rightarrow> Refused (Inl e) | Inr None \<Rightarrow> Refused (Inr Unparseable) | Inr (Some sg) \<Rightarrow> Admitted d sg)))"

definition handle_alert :: "codec \<Rightarrow> 's venue \<Rightarrow> desk_config \<Rightarrow> string \<Rightarrow> rat \<times> alert_request \<Rightarrow> 's webhook \<Rightarrow> reply res \<times> 's webhook" where
  "handle_alert c ve cfg secret nr s =
     (case admit_alert c secret (snd nr) of
        Refused r \<Rightarrow> (r, s)
      | Admitted d sg \<Rightarrow> (let (r, s1) = handle_signal c ve cfg (fst nr) (wh_replace c (rq_body (snd nr))) d sg s in (Inr r, s1)))"

definition handle_all :: "codec \<Rightarrow> 's venue \<Rightarrow> desk_config \<Rightarrow> string \<Rightarrow> (rat \<times> alert_request) list \<Rightarrow> 's webhook \<Rightarrow> 's webhook" where
  "handle_all c ve cfg secret rs s = foldl (\<lambda>s nr. snd (handle_alert c ve cfg secret nr s)) s rs"

section \<open>What reaches the desk\<close>

lemma armed_secret: "init_webhook w server mounted = Inr (Some secret) \<Longrightarrow> 16 \<le> length (strip secret) \<and> secret \<noteq> []"
  by (auto simp: init_webhook_def valid_webhook_def split: if_splits)

text \<open>The two credentials: of the transport and in the alert.\<close>

definition transport_proof :: "codec \<Rightarrow> string \<Rightarrow> alert_request \<Rightarrow> bool" where
  "transport_proof c secret rq =
     (if rq_signature rq \<noteq> [] then rq_signature rq = wh_hmac c secret (rq_body rq)
      else (\<exists>p. wh_json c (wh_replace c (rq_body rq)) = Some (JDict p) \<and> jget p ''secret'' = JVal (PStr secret)))"

definition alert_proof :: "codec \<Rightarrow> string \<Rightarrow> alert_payload \<Rightarrow> bool" where
  "alert_proof c secret d =
     (json_text c (get_first d [''secret'', ''webhook_secret''] (JVal (PStr []))) = secret
      \<or> (\<exists>sig text. lower (strip sig) = wh_hmac c secret text
           \<and> sig = json_text c (get_first d [''signature'', ''hmac''] (JVal (PStr [])))
           \<and> text \<in> {[], wh_encode c []} \<union> {wh_encode c raw | raw. map_of d ''raw'' = Some (JVal (PStr raw))}))"

lemma transport_check_proof:
  assumes "transport_check c secret rq = Inr None" "secret \<noteq> []"
  shows "transport_proof c secret rq"
proof (cases "rq_signature rq \<noteq> []")
  case True
  with assms show ?thesis
    by (auto simp: transport_check_def transport_proof_def compare_digest_def bindE_Inr_iff split: if_splits)
next
  case False
  with assms show ?thesis
    by (auto simp: transport_check_def transport_proof_def Let_def jget_def split: if_splits option.splits json.splits)
qed

lemma verify_signature_proof:
  "verify_signature c raw sig (Some secret) = Inr True \<Longrightarrow>
     (\<exists>s. raw = JVal (PStr s) \<and> lower (strip sig) = wh_hmac c secret (wh_encode c s)) \<or> raw = JVal PNone \<and> lower (strip sig) = wh_hmac c secret []"
  by (auto simp: verify_signature_def get_webhook_secret_def compare_digest_def Let_def split: if_splits json.splits pyval.splits)

lemma alert_authentic_proof:
  assumes "alert_authentic c secret d = Inr True" "secret \<noteq> []"
  shows "alert_proof c secret d"
proof (cases "jtruthy (get_first d [''secret'', ''webhook_secret''] (JVal (PStr [])))")
  case True
  with assms show ?thesis by (auto simp: alert_authentic_def alert_proof_def compare_digest_def Let_def split: if_splits)
next
  case False
  let ?raw = "case map_of d ''raw'' of None \<Rightarrow> JVal (PStr []) | Some v \<Rightarrow> v"
  from False assms have "verify_signature c ?raw (json_text c (get_first d [''signature'', ''hmac''] (JVal (PStr [])))) (Some secret) = Inr True"
    by (auto simp: alert_authentic_def Let_def simp del: get_first.simps split: if_splits)
  from verify_signature_proof[OF this] show ?thesis
    unfolding alert_proof_def by (auto split: option.splits)
qed

lemma action_side: "action_to_side a = Some side \<Longrightarrow>
    side \<in> {''BUY'', ''SELL''} \<and> a \<noteq> ''exit'' \<or> side = ''CLOSE''"
  by (auto simp: action_to_side_def split: if_splits)

lemma alert_quantity_pos: "alert_quantity d z = Some q \<Longrightarrow> 0 < q"
  by (auto simp: alert_quantity_def Let_def simp del: get_first.simps split: if_splits sum.splits)

lemma converted:
  assumes "convert_to_action c d z (Some secret) = Inr (Some sg)"
  obtains side q a where "alert_authentic c secret d = Inr True" "sg_symbol sg \<noteq> []" "action_to_side a = Some side"
    "alert_quantity d z = Some q" "sg_side sg = side" "sg_quantity sg = q"
    "sg_type sg = (if side = ''CLOSE'' then ''exit'' else if a = ''exit'' then ''exit'' else ''entry'')"
proof -
  obtain symb a where s: "convert_to_action c d z (Some secret) = bindE (alert_authentic c secret d) (\<lambda>ok.
       Inr (if \<not> ok \<or> symb = [] then None
               else (case (action_to_side a, alert_quantity d z) of
                   (Some side, Some q) \<Rightarrow>
                     Some \<lparr>sg_symbol = symb, sg_side = side, sg_quantity = q, sg_price = None, sg_order_type = ''MARKET'',
                       sg_type = (if side = ''CLOSE'' then ''exit'' else if a = ''exit'' then ''exit'' else ''entry''),
                       sg_strategy = (case map_of d ''strategy'' of None \<Rightarrow> JVal (PStr ''tradingview'') | Some v \<Rightarrow> v),
                       sg_raw = d, sg_metadata = filter (\<lambda>(k, v). k \<notin> set known_keys) d, sg_reduce_only = (side = ''CLOSE'')\<rparr>
                 | _ \<Rightarrow> None)))"
    unfolding convert_to_action_def get_webhook_secret_def Let_def option.case by blast
  have auth: "alert_authentic c secret d = Inr True" and symb: "symb \<noteq> []"
    using assms s by (auto simp: bindE_Inr_iff split: if_splits)
  with assms s obtain side q where sq: "action_to_side a = Some side" "alert_quantity d z = Some q"
    by (auto split: option.splits)
  with assms s auth symb show ?thesis by (intro that[OF auth _ sq]) auto
qed

lemma converted_sound:
  assumes "convert_to_action c d z (Some secret) = Inr (Some sg)" "secret \<noteq> []"
  shows "alert_proof c secret d \<and> sg_symbol sg \<noteq> [] \<and> 0 < sg_quantity sg
    \<and> (sg_type sg = ''entry'' \<and> sg_side sg \<in> {''BUY'', ''SELL''} \<or> sg_type sg = ''exit'' \<and> sg_side sg = ''CLOSE'')"
proof -
  obtain side q a where 1: "alert_authentic c secret d = Inr True" "sg_symbol sg \<noteq> []" "action_to_side a = Some side"
    "alert_quantity d z = Some q" "sg_side sg = side" "sg_quantity sg = q"
    "sg_type sg = (if side = ''CLOSE'' then ''exit'' else if a = ''exit'' then ''exit'' else ''entry'')"
    using converted[OF assms(1)] by metis
  show ?thesis using alert_authentic_proof[OF 1(1) assms(2)] 1(2,5-7) alert_quantity_pos[OF 1(4)] action_side[OF 1(3)] by auto
qed

lemma tv_decision_gets:
  "py_get (tv_decision c txt sg dir) ''direction'' = PStr dir" "py_get (tv_decision c txt sg dir) ''contract'' = PStr (sg_symbol sg)"
  "get_or (tv_decision c txt sg dir) ''action'' z = PStr (if sg_type sg = ''exit'' then ''EXIT'' else ''ENTER'')"
  by (simp_all add: tv_decision_def py_get_def get_or_def)

lemma exit_is_no_entry:
  "sg_type sg = ''exit'' \<Longrightarrow> action_kind (str_of (get_or (tv_decision c txt sg dir) ''action'' (PStr ''HOLD''))) \<noteq> Some ENTER"
  by (simp add: tv_decision_gets action_kind_def)

text \<open>The guard of an entry, in terms of the signal.\<close>

definition signal_guarded :: "desk_config \<Rightarrow> tv_signal \<Rightarrow> desk_event list \<Rightarrow> action_data \<Rightarrow> bool" where
  "signal_guarded cfg sg es a =
     (sg_type sg = ''entry'' \<and> room_seen cfg es \<and> act_contract a = sg_symbol sg \<and> act_side a = sg_side sg
      \<and> (truthy (get_or (dc_sl cfg) ''enabled'' (PBool True)) \<or> truthy (get_or (dc_tp cfg) ''enabled'' (PBool True)) \<longrightarrow>
           act_stop_loss_price a \<noteq> None \<and> act_take_profit_price a \<noteq> None))"

lemma entry_direction:
  assumes "sg_type sg = ''entry''" "sg_side sg \<in> {''BUY'', ''SELL''}"
    "guarded cfg (tv_decision c txt sg (signal_direction sg held)) es a"
  shows "signal_guarded cfg sg es a"
proof -
  have "upper (strip ''BUY'') = ''BUY''" "upper (strip ''SELL'') = ''SELL''" "canonical_direction (PStr ''LONG'') = LONG"
    "canonical_direction (PStr ''SHORT'') = SHORT" by code_simp+
  then show ?thesis using assms
    by (auto simp: guarded_def signal_guarded_def tv_decision_gets signal_direction_def)
qed

definition signal_kind :: "tv_signal \<Rightarrow> bool" where
  "signal_kind sg = (sg_type sg = ''entry'' \<and> sg_side sg \<in> {''BUY'', ''SELL''} \<or> sg_type sg = ''exit'' \<and> sg_side sg = ''CLOSE'')"

text \<open>At most one entry, as the last event, and guarded.\<close>

definition entry_last :: "desk_config \<Rightarrow> tv_signal \<Rightarrow> desk_event list \<Rightarrow> bool" where
  "entry_last cfg sg es =
     (\<forall>pre a out post. es = pre @ Sent a out # post \<and> act_type a = ENTER \<longrightarrow>
        post = [] \<and> (\<exists>q pre'. pre = Seen q # pre' \<and> signal_guarded cfg sg pre' a))"

lemma entry_last_Cons:
  assumes "\<forall>pre a out post. es = pre @ Sent a out # post \<and> act_type a = ENTER \<longrightarrow> post = [] \<and> signal_guarded cfg sg pre a"
  shows "entry_last cfg sg (Seen r # es)"
  unfolding entry_last_def
proof (intro allI impI)
  fix pre a out post assume *: "Seen r # es = pre @ Sent a out # post \<and> act_type a = ENTER"
  then obtain pre' where "pre = Seen r # pre'" "es = pre' @ Sent a out # post" by (cases pre) auto
  with assms * show "post = [] \<and> (\<exists>q pre'. pre = Seen q # pre' \<and> signal_guarded cfg sg pre' a)" by blast
qed

context sizing_desk
begin

lemma route_signal_log:
  assumes "signal_kind sg"
  shows "\<exists>es. log_of s (snd (route_signal c ve cfg sg s)) es \<and> entry_last cfg sg es"
proof (cases "dc_engine cfg")
  case False
  then show ?thesis by (intro exI[of _ "[]"]) (simp add: route_signal_def log_of_def entry_last_def)
next
  case True
  obtain r s1 where 1: "see_positions ve s = (r, s1)" by fastforce
  then have l1: "dk_log s1 = dk_log s @ [Seen r]" using see_positions_log[of ve s] by simp
  let ?live = "case r of Inl e \<Rightarrow> [] | Inr ps \<Rightarrow> ps"
  let ?held = "filter (\<lambda>p. pos_symbol p = sg_symbol sg) ?live"
  let ?d = "tv_decision c (ve_text ve) sg (signal_direction sg ?held)"
  let ?run = "execute_ai_action ve cfg ?d (default_context\<lparr>ctx_positions := ?live\<rparr>) s1"
  show ?thesis
  proof (cases "sg_type sg = ''exit''")
    case exit: True
    then obtain es where es: "log_of s1 (snd ?run) es" "\<not> list_ex is_entry es"
      using only_entries_enter exit_is_no_entry by blast
    from True exit 1 have "snd (route_signal c ve cfg sg s) = (if ?held = [] then s1 else snd ?run)"
      by (simp add: route_signal_def Let_def)
    moreover have "entry_last cfg sg [Seen r]" "entry_last cfg sg (Seen r # es)"
      using es(2) by (auto simp: entry_last_def Cons_eq_append_conv is_entry_def)
    ultimately show ?thesis using l1 es(1)
      by (intro exI[of _ "if ?held = [] then [Seen r] else Seen r # es"]) (simp add: log_of_def)
  next
    case entry: False
    then have sg: "sg_type sg = ''entry''" "sg_side sg \<in> {''BUY'', ''SELL''}" using assms by (auto simp: signal_kind_def)
    obtain x s2 where 2: "?run = (x, s2)" by fastforce
    from entries_guarded[OF this] obtain es where es: "log_of s1 s2 es"
      "\<forall>pre a out post. es = pre @ Sent a out # post \<and> act_type a = ENTER \<longrightarrow> post = [] \<and> guarded cfg ?d pre a" by blast
    from True entry 1 2 have "snd (route_signal c ve cfg sg s) = s2" by (simp add: route_signal_def Let_def)
    moreover have dir: "guarded cfg ?d pre a \<Longrightarrow> signal_guarded cfg sg pre a" for pre a by (rule entry_direction[OF sg])
    have "\<forall>pre a out post. es = pre @ Sent a out # post \<and> act_type a = ENTER \<longrightarrow> post = [] \<and> signal_guarded cfg sg pre a"
      by (intro allI impI conjI dir) (use es(2) in blast)+
    then have "entry_last cfg sg (Seen r # es)" by (rule entry_last_Cons)
    ultimately show ?thesis using l1 es(1) by (intro exI[of _ "Seen r # es"]) (simp add: log_of_def)
  qed
qed

end

section \<open>Replays\<close>

lemma transport_refuses: "transport_check c secret rq = Inr (Some r) \<Longrightarrow> r \<in> {Forbidden, Invalid_json}"
  by (auto simp: transport_check_def Let_def bindE_Inr_iff split: option.splits json.splits if_splits)

lemma refused: "admit_alert c secret rq = Refused (Inr r) \<Longrightarrow> r \<in> {Forbidden, Invalid_json, Unparseable}"
  by (auto simp: admit_alert_def dest: transport_refuses split: option.splits sum.splits)

lemma admittedD:
  "admit_alert c secret rq = Admitted d sg \<Longrightarrow> transport_check c secret rq = Inr None
     \<and> parse_alert c (rq_body rq) (rq_content_type rq) = Inr d
     \<and> convert_to_action c d 1 (if secret = [] then None else Some secret) = Inr (Some sg)"
  by (simp add: admit_alert_def split: option.splits sum.splits split del: if_split)

lemma handle_alert_parts:
  "snd (handle_alert c ve cfg secret (now, rq) s) = (case admit_alert c secret rq of Refused r \<Rightarrow> s
     | Admitted d sg \<Rightarrow> snd (handle_signal c ve cfg now (wh_replace c (rq_body rq)) d sg s))"
  "fst (handle_alert c ve cfg secret (now, rq) s) = (case admit_alert c secret rq of Refused r \<Rightarrow> r
     | Admitted d sg \<Rightarrow> Inr (fst (handle_signal c ve cfg now (wh_replace c (rq_body rq)) d sg s)))"
  by (simp_all add: handle_alert_def split: admission.split prod.split)

definition signal_seen :: "string \<Rightarrow> rat \<Rightarrow> 's webhook \<Rightarrow> bool" where
  "signal_seen key t1 s = (\<exists>t\<ge>t1. (key, t) \<in> set (tw_seen s))"

lemma update_seen: "signal_seen key t1 s \<Longrightarrow> t1 \<le> now \<Longrightarrow> signal_seen key t1 (s\<lparr>tw_seen := AList.update k now (tw_seen s)\<rparr>)"
proof -
  assume "signal_seen key t1 s" "t1 \<le> now"
  then obtain t where t: "t1 \<le> t" "(key, t) \<in> set (tw_seen s)" by (auto simp: signal_seen_def)
  have "(k, now) \<in> set (AList.update k now (tw_seen s))" for k
    using map_of_SomeD[of "AList.update k now (tw_seen s)" k now] by simp
  moreover have "k = key \<or> (key, t) \<in> set (AList.update k now d)" if "(key, t) \<in> set d" for d
    using that by (induction d) auto
  ultimately show ?thesis using t \<open>t1 \<le> now\<close> unfolding signal_seen_def by (cases "k = key") auto
qed

lemma tw_seen_handle_signal:
  "tw_seen (snd (handle_signal c ve cfg now raw d sg s)) = (let seen = filter (\<lambda>(k, t). fround (now - t) < 300) (tw_seen s);
       key = dedupe_key c (ve_text ve) raw sg
     in if map_of seen key \<noteq> None then seen else AList.update key now seen)"
  by (simp add: handle_signal_def Let_def split: prod.split)

lemma handle_signal_cases:
  "tw_desk (snd (handle_signal c ve cfg now raw d sg s)) = tw_desk s
   \<or> map_of (filter (\<lambda>(k, t). fround (now - t) < 300) (tw_seen s)) (dedupe_key c (ve_text ve) raw sg) = None
     \<and> \<not> is_stale now (alert_time d sg)
     \<and> tw_desk (snd (handle_signal c ve cfg now raw d sg s)) = snd (route_signal c ve cfg sg (tw_desk s))"
  by (simp add: handle_signal_def Let_def split: prod.split)

lemma seen_kept:
  assumes "signal_seen key t1 s" "t1 \<le> now" "fround (now - t1) < 300"
  shows "signal_seen key t1 (snd (handle_alert c ve cfg secret (now, rq) s))"
proof -
  obtain t where t: "t1 \<le> t" "(key, t) \<in> set (tw_seen s)" using assms(1) by (auto simp: signal_seen_def)
  then have "fround (now - t) \<le> fround (now - t1)" by (intro flt.rnd_mono) simp
  with t assms(3) have f: "signal_seen key t1 (s\<lparr>tw_seen := filter (\<lambda>(k, t). fround (now - t) < 300) (tw_seen s)\<rparr>)"
    by (auto simp: signal_seen_def)
  have "signal_seen key t1 (snd (handle_signal c ve cfg now raw d sg s))" for raw d sg
    using f update_seen[OF f assms(2)] by (simp add: signal_seen_def tw_seen_handle_signal Let_def)
  then show ?thesis using assms(1)
    by (cases "admit_alert c secret rq") (auto simp: handle_alert_parts)
qed

lemma seen_kept_all:
  assumes "signal_seen key t1 s" "sorted (t1 # map fst rs @ [t2])" "fround (t2 - t1) < 300"
  shows "signal_seen key t1 (handle_all c ve cfg secret rs s)"
  using assms(1,2)
proof (induction rs arbitrary: s)
  case (Cons nr rs)
  obtain now rq where nr: "nr = (now, rq)" by fastforce
  with Cons.prems(2) have "t1 \<le> now" "now \<le> t2" by auto
  then have "fround (now - t1) \<le> fround (t2 - t1)" by (intro flt.rnd_mono) simp
  with seen_kept[OF Cons.prems(1) \<open>t1 \<le> now\<close>] assms(3)
  have "signal_seen key t1 (snd (handle_alert c ve cfg secret nr s))" by (simp add: nr)
  then show ?case using Cons.IH[of "snd (handle_alert c ve cfg secret nr s)"] Cons.prems(2)
    by (simp add: handle_all_def)
qed (simp add: handle_all_def)

text \<open>
  \<^bold>\<open>C22\<close>. An alert that got past the webhook's checks once is not executed again: the same request, sent again within 300 seconds,
  whatever other requests come in between, is answered as a duplicate and leaves the desk as it is.
\<close>

theorem alert_replay_rejected:
  assumes "fst (handle_alert c ve cfg secret (t1, rq) s) \<in> {Inr Accepted, Inr Stale, Inr Exit_no_position}"
    "sorted (t1 # map fst rs @ [t2])" "fround (t2 - t1) < 300"
    "later = handle_all c ve cfg secret rs (snd (handle_alert c ve cfg secret (t1, rq) s))"
  shows "fst (handle_alert c ve cfg secret (t2, rq) later) = Inr Duplicate
    \<and> tw_desk (snd (handle_alert c ve cfg secret (t2, rq) later)) = tw_desk later"
proof -
  obtain d sg where a: "admit_alert c secret rq = Admitted d sg"
    using assms(1) by (cases "admit_alert c secret rq") (auto simp: handle_alert_parts dest: refused)
  let ?raw = "wh_replace c (rq_body rq)"
  let ?key = "dedupe_key c (ve_text ve) ?raw sg"
  have "fst (handle_signal c ve cfg t1 ?raw d sg s) \<noteq> Duplicate" using assms(1) a by (auto simp: handle_alert_parts)
  then have "map_of (filter (\<lambda>(k, t). fround (t1 - t) < 300) (tw_seen s)) ?key = None"
    by (auto simp: handle_signal_def Let_def split: if_splits)
  then have "map_of (tw_seen (snd (handle_alert c ve cfg secret (t1, rq) s))) ?key = Some t1"
    using a by (simp add: handle_alert_parts tw_seen_handle_signal Let_def)
  then have "signal_seen ?key t1 (snd (handle_alert c ve cfg secret (t1, rq) s))"
    by (auto simp: signal_seen_def dest: map_of_SomeD)
  from seen_kept_all[OF this assms(2,3), where c = c and ve = ve and cfg = cfg and secret = secret]
  obtain t where t: "t1 \<le> t" "(?key, t) \<in> set (tw_seen later)" unfolding signal_seen_def assms(4) by blast
  then have "fround (t2 - t) \<le> fround (t2 - t1)" by (intro flt.rnd_mono) simp
  with t assms(3) have "(?key, t) \<in> set (filter (\<lambda>(k, t). fround (t2 - t) < 300) (tw_seen later))" by auto
  then have "map_of (filter (\<lambda>(k, t). fround (t2 - t) < 300) (tw_seen later)) ?key \<noteq> None"
    by (metis fst_conv image_eqI map_of_eq_None_iff)
  then show ?thesis using a by (auto simp: handle_alert_parts handle_signal_def Let_def)
qed

text \<open>
  \<^bold>\<open>C6\<close>. A request that changes anything beyond the webhook went to an armed webhook, so with a secret of at least 16 characters; it
  proved the secret twice, to the transport (header or payload) and in the alert itself; its signal is no duplicate of the last 300
  seconds and not older than 60; and of the orders that follow at most one is an entry, the last event, on the side and for the
  symbol of an entry signal, after the account was seen flat, with both brackets.
\<close>

theorem alert_orders_authenticated:
  assumes "init_webhook w server mounted = Inr (Some secret)"
    "handle_alert c (engine_venue ev txt) cfg secret (now, rq) s = (r, s')" "tw_desk s' \<noteq> tw_desk s"
  shows "16 \<le> length (strip secret) \<and> transport_proof c secret rq
    \<and> (\<exists>d sg es. parse_alert c (rq_body rq) (rq_content_type rq) = Inr d \<and> alert_proof c secret d
        \<and> convert_to_action c d 1 (Some secret) = Inr (Some sg) \<and> sg_symbol sg \<noteq> [] \<and> 0 < sg_quantity sg \<and> signal_kind sg
        \<and> (\<forall>t. (dedupe_key c txt (wh_replace c (rq_body rq)) sg, t) \<in> set (tw_seen s) \<longrightarrow> 300 \<le> fround (now - t))
        \<and> (\<forall>t. alert_time d sg = Some t \<longrightarrow> fround (now - t) \<le> 60)
        \<and> dk_log (tw_desk s') = dk_log (tw_desk s) @ es \<and> entry_last cfg sg es)"
proof -
  have sec: "16 \<le> length (strip secret)" "secret \<noteq> []" using armed_secret[OF assms(1)] by auto
  obtain d sg where a: "admit_alert c secret rq = Admitted d sg"
    using assms(2,3) by (cases "admit_alert c secret rq") (auto simp: handle_alert_def)
  from admittedD[OF a] sec(2) have adm: "transport_check c secret rq = Inr None"
    "parse_alert c (rq_body rq) (rq_content_type rq) = Inr d" "convert_to_action c d 1 (Some secret) = Inr (Some sg)" by auto
  let ?seen = "filter (\<lambda>(k, t). fround (now - t) < 300) (tw_seen s)"
  let ?key = "dedupe_key c txt (wh_replace c (rq_body rq)) sg"
  let ?run = "route_signal c (engine_venue ev txt) cfg sg (tw_desk s)"
  have s': "s' = snd (handle_signal c (engine_venue ev txt) cfg now (wh_replace c (rq_body rq)) d sg s)"
    using handle_alert_parts(1)[of c "engine_venue ev txt" cfg secret now rq s] assms(2) a by simp
  have "ve_text (engine_venue ev txt) = txt" by (simp add: engine_venue_def)
  note cases = handle_signal_cases[of c "engine_venue ev txt" cfg now "wh_replace c (rq_body rq)" d sg s, unfolded this s'[symmetric]]
  have new: "map_of ?seen ?key = None" "\<not> is_stale now (alert_time d sg)" "tw_desk s' = snd ?run"
    using cases assms(3) by blast+
  have "signal_kind sg" "alert_proof c secret d" "sg_symbol sg \<noteq> []" "0 < sg_quantity sg"
    using converted_sound[OF adm(3) sec(2)] by (auto simp: signal_kind_def)
  moreover obtain es where "log_of (tw_desk s) (snd ?run) es" "entry_last cfg sg es"
    using bybit_desk.route_signal_log[OF \<open>signal_kind sg\<close>] by blast
  moreover have "\<forall>t. (?key, t) \<in> set (tw_seen s) \<longrightarrow> 300 \<le> fround (now - t)"
    using new(1) by (auto simp: map_of_eq_None_iff image_iff not_less)
  moreover have "\<forall>t. alert_time d sg = Some t \<longrightarrow> fround (now - t) \<le> 60" using new(2) by (auto simp: is_stale_def)
  ultimately show ?thesis using sec(1) transport_check_proof[OF adm(1) sec(2)] adm(2,3) new(3) unfolding log_of_def
    by (intro conjI exI[of _ d] exI[of _ sg] exI[of _ es]) auto
qed

section \<open>Symbols and times as TradingView writes them\<close>

text \<open>The suffix of a perpetual contract, \<^verbatim>\<open>.P\<close>, is not among the known ones; a time in the ISO format is no number.\<close>

lemma perpetual_suffix_kept: "normalize_symbol ''BYBIT:BTCUSDT.P'' = ''BTCUSDTP''"
  by code_simp

lemma iso_time_unread: "read_time [''timenow''] [(''timenow'', JVal (PStr ''2026-01-31T12:00:00Z''))] = None"
  by code_simp

text \<open>A quantity of zero counts as missing, and the default takes its place.\<close>

lemma zero_quantity_defaults: "alert_quantity [(''quantity'', JVal (PInt 0))] 1 = Some 1"
  by code_simp

text \<open>The side of a held position is spelt \<^verbatim>\<open>POSITIONSIDE.LONG\<close> here, so an exit keeps the direction of its signal.\<close>

lemma exit_direction_neutral: "sg_side sg = ''CLOSE'' \<Longrightarrow> signal_direction sg held = ''NEUTRAL''"
proof -
  have "upper (strip (enum_text Long)) \<notin> {''LONG'', ''BUY'', ''SHORT'', ''SELL''}"
    "upper (strip (enum_text Short)) \<notin> {''LONG'', ''BUY'', ''SHORT'', ''SELL''}" by code_simp+
  then have "upper (strip (enum_text s)) \<notin> {''LONG'', ''BUY'', ''SHORT'', ''SELL''}" for s by (cases s) auto
  moreover have "upper (strip ''CLOSE'') = ''CLOSE''" by code_simp
  moreover assume "sg_side sg = ''CLOSE''"
  ultimately show ?thesis by (auto simp: signal_direction_def Let_def)
qed

text \<open>An alert whose only proof is the header gets no further than the conversion.\<close>

lemma header_alone_rejected:
  assumes "secret \<noteq> []" "\<not> jtruthy (get_first d [''secret'', ''webhook_secret''] (JVal (PStr [])))"
    "\<not> jtruthy (get_first d [''signature'', ''hmac''] (JVal (PStr [])))"
  shows "convert_to_action c d z (Some secret) = Inr None"
  using assms by (simp add: convert_to_action_def alert_authentic_def get_webhook_secret_def del: get_first.simps)

section \<open>Examples\<close>

definition example_alert :: alert_payload where
  "example_alert = [(''secret'', JVal (PStr ''0123456789abcdef'')), (''ticker'', JVal (PStr ''BYBIT:BTCUSDT'')),
     (''action'', JVal (PStr ''buy'')), (''quantity'', JVal (PInt 2)), (''time'', JVal (PInt 1000))]"

definition example_codec :: codec where
  "example_codec = \<lparr>wh_json = (\<lambda>s. Some (JDict example_alert)), wh_decode = Some, wh_replace = (\<lambda>s. s), wh_encode = (\<lambda>s. s),
     wh_hmac = (\<lambda>k s. s), wh_digest = (\<lambda>s. s), wh_text = (\<lambda>v. []), wh_env_secret = []\<rparr>"

definition example_post :: alert_request where
  "example_post = \<lparr>rq_body = ''{}'', rq_content_type = [], rq_signature = []\<rparr>"

definition example_parsed :: alert_payload where
  "example_parsed = AList.update ''_content_type'' (JVal (PStr []))
     (AList.update ''_format'' (JVal (PStr ''json'')) (merge_inner example_codec (normalise_keys example_alert)))"

lemma example_transport: "transport_check example_codec ''0123456789abcdef'' example_post = Inr None"
  by code_simp

lemma example_parse: "parse_alert example_codec (rq_body example_post) (rq_content_type example_post) = Inr example_parsed"
proof -
  have "begins ''{['' ''{}''" by code_simp
  then show ?thesis by (simp add: parse_alert_def example_post_def example_codec_def example_parsed_def)
qed

lemma example_converted:
  "case convert_to_action example_codec example_parsed 1 (Some ''0123456789abcdef'') of
     Inr (Some sg) \<Rightarrow> sg_type sg = ''entry'' \<and> sg_symbol sg = ''BTCUSDT'' \<and> alert_time example_parsed sg = Some 1000 | _ \<Rightarrow> False"
  by code_simp

lemma example_admitted:
  "case admit_alert example_codec ''0123456789abcdef'' example_post of Refused r \<Rightarrow> False
   | Admitted d sg \<Rightarrow> sg_type sg = ''entry'' \<and> sg_symbol sg = ''BTCUSDT'' \<and> alert_time d sg = Some 1000"
  using example_converted
  by (auto simp: admit_alert_def example_transport example_parse split: sum.splits option.splits)

definition idle_webhook :: "'s \<Rightarrow> 's webhook" where
  "idle_webhook w = \<lparr>tw_desk = \<lparr>dk_world = w, dk_log = []\<rparr>, tw_seen = []\<rparr>"

lemma example_accepted:
  assumes "dc_engine cfg" "now \<in> {1000, 1030}"
  shows "\<exists>desk r. handle_alert example_codec (engine_venue ev txt) cfg ''0123456789abcdef'' (now, example_post) (idle_webhook w)
      = (Inr Accepted, \<lparr>tw_desk = desk, tw_seen = [(r, now)]\<rparr>) \<and> dk_log desk \<noteq> []"
proof -
  obtain d sg where a: "admit_alert example_codec ''0123456789abcdef'' example_post = Admitted d sg"
    "sg_type sg = ''entry''" "alert_time d sg = Some 1000"
    using example_admitted by (auto split: admission.splits)
  have f: "\<not> is_stale now (Some 1000)" using assms(2) by (auto simp: is_stale_def)
  let ?ve = "engine_venue ev txt"
  obtain q s1 where 1: "see_positions ?ve \<lparr>dk_world = w, dk_log = []\<rparr> = (q, s1)" by fastforce
  then have l: "dk_log s1 = [Seen q]" using see_positions_log[of ?ve "\<lparr>dk_world = w, dk_log = []\<rparr>"] by simp
  let ?live = "case q of Inl e \<Rightarrow> [] | Inr ps \<Rightarrow> ps"
  let ?d = "tv_decision example_codec (ve_text ?ve) sg (signal_direction sg (filter (\<lambda>p. pos_symbol p = sg_symbol sg) ?live))"
  obtain r s2 where 2: "execute_ai_action ?ve cfg ?d (default_context\<lparr>ctx_positions := ?live\<rparr>) s1 = (r, s2)" by fastforce
  from bybit_desk.entries_guarded[OF this] l have "dk_log s2 \<noteq> []" by (auto simp: log_of_def)
  moreover have run: "route_signal example_codec ?ve cfg sg \<lparr>dk_world = w, dk_log = []\<rparr> = (Accepted, s2)"
    using assms(1) 1 2 a(2) by (simp add: route_signal_def Let_def)
  ultimately show ?thesis using a f run
    by (simp add: handle_alert_def handle_signal_def idle_webhook_def Let_def)
qed

definition armed_webhook :: webhook_config where
  "armed_webhook = \<lparr>wc_enabled = True, wc_port = 9090, wc_secret = ''0123456789abcdef''\<rparr>"

lemma example_armed: "init_webhook armed_webhook True True = Inr (Some ''0123456789abcdef'')"
proof -
  have "length (strip ''0123456789abcdef'') = 16" by code_simp
  then show ?thesis by (simp add: init_webhook_def valid_webhook_def armed_webhook_def)
qed

theorem alert_orders_authenticated_witness:
  "\<exists>r s'. handle_alert example_codec example_venue example_desk_config ''0123456789abcdef'' (1030, example_post) (idle_webhook example_engine) = (r, s')
     \<and> tw_desk s' \<noteq> tw_desk (idle_webhook example_engine) \<and> transport_proof example_codec ''0123456789abcdef'' example_post"
proof -
  have "dc_engine example_desk_config" by (simp add: example_desk_config_def)
  from example_accepted[OF this, of 1030 example_env "\<lambda>x. ''100''" example_engine] obtain desk q where
    run: "handle_alert example_codec (engine_venue example_env (\<lambda>x. ''100'')) example_desk_config ''0123456789abcdef'' (1030, example_post) (idle_webhook example_engine)
      = (Inr Accepted, \<lparr>tw_desk = desk, tw_seen = [(q, 1030)]\<rparr>)" "dk_log desk \<noteq> []" by auto
  then have "tw_desk \<lparr>tw_desk = desk, tw_seen = [(q, 1030)]\<rparr> \<noteq> tw_desk (idle_webhook example_engine)" by (auto simp: idle_webhook_def)
  note moved = this
  from alert_orders_authenticated[OF example_armed run(1) moved]
  have "transport_proof example_codec ''0123456789abcdef'' example_post" by (rule conjunct1[OF conjunct2])
  with moved run(1) show ?thesis unfolding example_venue_def by blast
qed

theorem alert_replay_rejected_witness:
  "\<exists>s1. handle_alert example_codec example_venue example_desk_config ''0123456789abcdef'' (1000, example_post) (idle_webhook example_engine) = (Inr Accepted, s1)
     \<and> fst (handle_alert example_codec example_venue example_desk_config ''0123456789abcdef'' (1030, example_post) s1) = Inr Duplicate"
proof -
  have "dc_engine example_desk_config" by (simp add: example_desk_config_def)
  from example_accepted[OF this, of 1000 example_env "\<lambda>x. ''100''" example_engine] obtain s1 where
    run: "handle_alert example_codec example_venue example_desk_config ''0123456789abcdef'' (1000, example_post) (idle_webhook example_engine) = (Inr Accepted, s1)"
    unfolding example_venue_def by blast
  have "fst (handle_alert example_codec example_venue example_desk_config ''0123456789abcdef'' (1030, example_post) s1) = Inr Duplicate"
  proof (rule conjunct1[OF alert_replay_rejected])
    show "fst (handle_alert example_codec example_venue example_desk_config ''0123456789abcdef'' (1000, example_post) (idle_webhook example_engine))
        \<in> {Inr Accepted, Inr Stale, Inr Exit_no_position}" by (simp only: run fst_conv insert_iff simp_thms)
    show "sorted (1000 # map fst [] @ [1030 :: rat])" "fround (1030 - 1000) < 300" by simp_all
    show "s1 = handle_all example_codec example_venue example_desk_config ''0123456789abcdef'' []
        (snd (handle_alert example_codec example_venue example_desk_config ''0123456789abcdef'' (1000, example_post) (idle_webhook example_engine)))"
      by (simp only: run snd_conv handle_all_def foldl_Nil)
  qed
  with run show ?thesis by blast
qed

end
