(* ===== verification/FundingData.thy ===== *)
theory FundingData
  imports CycleRuns TradingView
begin

text \<open>
  What the funding-rate gate makes of the contexts the orchestrator builds. The strategy contexts of the main loop and of the
  webhook carry no funding rates; the gate blocks every entry with a notional whose symbol has none; and nothing in the
  repository switches a gate off. The locale \<open>refusing_desk\<close> states what follows for one evaluation, \<open>gated_venue\<close> is the
  modelled venue whose risk manager keeps the gates its constructor gave it.
\<close>

section \<open>Entries that get through\<close>

text \<open>Every entry in the log was asked for with the quantity zero, which the sizer replaces by its default size.\<close>

definition zero_entries :: "(rat \<Rightarrow> string) \<Rightarrow> desk_event list \<Rightarrow> bool" where
  "zero_entries txt es =
     (\<forall>a out. Sent a out \<in> set es \<and> act_type a = ENTER \<longrightarrow> py_get (act_metadata a) ''pre_size_quantity'' = PStr (txt 0))"

lemma zero_entries_none: "\<not> list_ex is_entry es \<Longrightarrow> zero_entries txt es"
  by (auto simp: zero_entries_def dest: entry_not_in)

lemma zero_entries_append [simp]: "zero_entries txt (es @ fs) \<longleftrightarrow> zero_entries txt es \<and> zero_entries txt fs"
  by (auto simp: zero_entries_def)

lemma pre_size_quantity:
  "py_get (act_metadata (data (checked_action ve rr a))) ''pre_size_quantity'' = PStr (ve_text ve (act_quantity a))"
  by (simp add: checked_action_def Let_def py_get_def)

text \<open>Along the main loop.\<close>

definition unfunded :: "(rat \<Rightarrow> string) \<Rightarrow> 's rotation \<Rightarrow> 's rotation \<Rightarrow> bool" where
  "unfunded txt s s' = (\<exists>es. rlog s s' es \<and> zero_entries txt es)"

lemma unfunded_quiet: "no_entries s s' \<Longrightarrow> unfunded txt s s'"
  unfolding no_entries_def unfunded_def using zero_entries_none by blast

lemma unfunded_trans: "unfunded txt s s1 \<Longrightarrow> unfunded txt s1 s2 \<Longrightarrow> unfunded txt s s2"
  unfolding unfunded_def using rlog_trans zero_entries_append by blast

locale refusing_desk = sizing_desk +
  assumes refused: "bare ctx \<Longrightarrow> act_type a = ENTER \<Longrightarrow> act_symbol a \<noteq> [] \<Longrightarrow> act_quantity a \<noteq> 0 \<Longrightarrow>
      ve_evaluate ve (Action a None) ctx w = (Inr rr, w') \<Longrightarrow> \<not> passed rr"
begin

lemma submit_zero:
  assumes "bare ctx" "act_contract a \<noteq> []" "act_side a \<noteq> []" "act_symbol a \<noteq> []" "act_type a = kind"
  shows "\<exists>es. log_of s (snd (submit_decision ve kind d ctx contract side a s)) es \<and> zero_entries (ve_text ve) es"
proof -
  obtain v s1 where 1: "in_world (ve_evaluate ve (Action a None) ctx) s = (v, s1)" by fastforce
  then have l1: "dk_log s1 = dk_log s" using in_world_log[of _ s] by (metis snd_conv)
  show ?thesis
  proof (cases "\<exists>rr. v = Inr rr \<and> passed rr")
    case False
    then show ?thesis using 1 l1
      by (intro exI[of _ "[]"]) (auto simp: submit_decision_def log_of_def zero_entries_def split: sum.splits)
  next
    case True
    then obtain rr where v: "v = Inr rr" "passed rr" by blast
    obtain w where w: "ve_evaluate ve (Action a None) ctx (dk_world s) = (Inr rr, w)"
      using 1 v by (auto simp: in_world_def split: prod.splits)
    have zero: "kind = ENTER \<longrightarrow> act_quantity a = 0" using refused[OF assms(1) _ assms(4) _ w] v(2) assms(5) by blast
    have same: "act_type (data (checked_action ve rr a)) = kind"
      using checked_action_same[OF assms(2,3) w v(2)] assms(5) by (simp add: same_order_def)
    let ?x = "checked_action ve rr a"
    obtain r s2 where 2: "send_action ve ?x ctx s1 = (r, s2)" by fastforce
    then have l2: "log_of s s2 [Sent (data ?x) r]" using send_action_log[of ve ?x ctx s1] l1 by (simp add: log_of_def)
    have z: "zero_entries (ve_text ve) [Sent (data ?x) r]"
      using zero same by (auto simp: zero_entries_def pre_size_quantity)
    show ?thesis
    proof (cases r)
      case (Inl e)
      with 1 v 2 l2 z show ?thesis by (intro exI[of _ "[Sent (data ?x) r]"]) (simp add: submit_decision_def Let_def)
    next
      case (Inr res)
      from after_execution_log[of s2 kind d contract side ?x res] obtain fs where
        fs: "log_of s2 (snd (after_execution ve kind d contract side ?x res s2)) fs" "\<not> list_ex is_entry fs" by blast
      have "zero_entries (ve_text ve) ([Sent (data ?x) r] @ fs)"
        using z zero_entries_none[OF fs(2)] by (simp only: zero_entries_append)
      with log_of_trans[OF l2 fs(1)] 1 v 2 Inr show ?thesis
        by (intro exI[of _ "[Sent (data ?x) r] @ fs"]) (simp add: submit_decision_def Let_def)
    qed
  qed
qed

lemma place_zero:
  assumes "bare ctx" "contract \<noteq> []" "side \<noteq> []"
  shows "\<exists>es. log_of s (snd (place_decision ve cfg kind d ctx contract side s)) es \<and> zero_entries (ve_text ve) es"
proof -
  let ?strategy = "if truthy (py_get d ''strategy'') then str_of (py_get d ''strategy'') else ''ai_default''"
  define B where "B = (if kind = ENTER then entry_brackets ve cfg ?strategy contract side s else (Inr (None, None), s))"
  obtain br s1 where B: "B = (br, s1)" by fastforce
  have l1: "dk_log s1 = dk_log s"
    using entry_brackets_log[of ve cfg ?strategy contract side s] B by (auto simp: B_def split: if_splits)
  have run: "place_decision ve cfg kind d ctx contract side s = bindS B (\<lambda>b s1.
       if kind = ENTER \<and> unprotected cfg b then (Inr False, s1)
       else (case decided_action_of ve cfg kind d (ctx_positions ctx) contract side b of
           Inl e \<Rightarrow> (Inl e, s1)
         | Inr a \<Rightarrow> (let (ok, s2) = submit_decision ve kind d ctx contract side a s1 in (Inr ok, s2))))"
    by (simp add: place_decision_def B_def)
  show ?thesis
  proof (cases "\<exists>b a. br = Inr b \<and> \<not> (kind = ENTER \<and> unprotected cfg b)
      \<and> decided_action_of ve cfg kind d (ctx_positions ctx) contract side b = Inr a")
    case False
    then show ?thesis using run B l1
      by (intro exI[of _ "[]"]) (cases br, auto simp: log_of_def zero_entries_def split: if_splits sum.splits)
  next
    case True
    then obtain b a where a: "br = Inr b" "\<not> (kind = ENTER \<and> unprotected cfg b)"
      "decided_action_of ve cfg kind d (ctx_positions ctx) contract side b = Inr a" by blast
    have "act_symbol a = contract" using a(3)
      by (auto simp: decided_action_of_def bindE_Inr_iff Let_def post_init_update default_action_def)
    with submit_zero[OF assms(1), of a kind s1 d contract side] decided_action_fields[OF a(3) assms(3,2)] assms obtain es where
      "log_of s1 (snd (submit_decision ve kind d ctx contract side a s1)) es" "zero_entries (ve_text ve) es" by auto
    then show ?thesis using run B a l1 by (intro exI[of _ es]) (auto simp: log_of_def Let_def split: prod.split)
  qed
qed

lemma execute_zero:
  assumes "bare ctx"
  shows "\<exists>es. log_of s (snd (execute_ai_action ve cfg d ctx s)) es \<and> zero_entries (ve_text ve) es"
proof -
  let ?contract = "str_of (py_get d ''contract'')" and ?kind = "action_kind (str_of (get_or d ''action'' (PStr ''HOLD'')))"
  show ?thesis
  proof (cases "\<exists>kind side. ?kind = Some kind \<and> order_side kind d (ctx_positions ctx) ?contract = Some side
      \<and> dc_risk_manager cfg \<and> dc_engine cfg \<and> ?contract \<noteq> [] \<and> truthy (py_get d ''quantity'')")
    case False
    then have "execute_ai_action ve cfg d ctx s = (Inr False, s)"
      by (auto simp: execute_ai_action_def Let_def split: option.split)
    then show ?thesis by (intro exI[of _ "[]"]) (simp add: log_of_def zero_entries_def)
  next
    case True
    then obtain kind side where k: "?kind = Some kind" "order_side kind d (ctx_positions ctx) ?contract = Some side"
      "dc_risk_manager cfg" "dc_engine cfg" "?contract \<noteq> []" "truthy (py_get d ''quantity'')" by blast
    then have side: "side \<noteq> []" by (auto simp: order_side_def Let_def split: if_splits)
    define R where "R = (if kind = ENTER then make_room ve cfg s else (Inr True, s))"
    obtain room s1 where R: "R = (room, s1)" by fastforce
    have "\<exists>es. log_of s s1 es \<and> \<not> list_ex is_entry es"
      using make_room_log[of s ve cfg] R by (auto simp: R_def log_of_refl split: if_splits intro: exI[of _ "[]"])
    then obtain es where es: "log_of s s1 es" "zero_entries (ve_text ve) es" using zero_entries_none by blast
    obtain fs where fs: "log_of s1 (snd (place_decision ve cfg kind d ctx ?contract side s1)) fs" "zero_entries (ve_text ve) fs"
      using place_zero[OF assms k(5) side] by blast
    have run: "execute_ai_action ve cfg d ctx s = bindS R (\<lambda>room s1. if room then place_decision ve cfg kind d ctx ?contract side s1 else (Inr False, s1))"
      using k by (simp add: execute_ai_action_def Let_def R_def)
    show ?thesis
    proof (cases "room = Inr True")
      case True
      then show ?thesis using run R log_of_trans[OF es(1) fs(1)] es(2) fs(2) by (intro exI[of _ "es @ fs"]) simp
    next
      case False
      then have "snd (execute_ai_action ve cfg d ctx s) = s1" using run R by (cases room) auto
      then show ?thesis using es by auto
    qed
  qed
qed

sublocale bare_loop: cycling "unfunded (ve_text ve)" sc ve cfg for sc cfg
proof unfold_locales
  fix s s1 s2 :: "'a rotation" and ctx d
  show "unfunded (ve_text ve) s s1 \<Longrightarrow> unfunded (ve_text ve) s1 s2 \<Longrightarrow> unfunded (ve_text ve) s s2" by (rule unfunded_trans)
  show "py_get d ''action'' \<in> {PStr ''adjust_stop'', PStr ''reduce_position''} \<Longrightarrow> unfunded (ve_text ve) s (snd (act_on ve cfg d ctx s))"
    by (intro unfunded_quiet quiet.adjusting)
  show "unfunded (ve_text ve) s (snd (act_on ve cfg d ctx s))" if "bare ctx"
    using execute_zero[OF that, of "ro_desk s" "rg_desk cfg" d] by (auto simp: unfunded_def rlog_def act_on_def on_desk_log)
qed (auto intro!: unfunded_quiet quiet.closing quiet.looking quiet.bracketing quiet.scanning intro: no_entries_same)

lemma loop_zero: "unfunded (ve_text ve) s ((main_iteration sc ve cfg ^^ n) s)"
  by (induction n) (auto intro: bare_loop.refl bare_loop.trans bare_loop.iterating)

lemma alert_zero: "\<exists>es. log_of s (snd (route_signal c ve cfg sg s)) es \<and> zero_entries (ve_text ve) es"
proof (cases "dc_engine cfg")
  case False
  then show ?thesis by (intro exI[of _ "[]"]) (simp add: route_signal_def log_of_def zero_entries_def)
next
  case True
  obtain r s1 where 1: "see_positions ve s = (r, s1)" by fastforce
  then have l: "log_of s s1 [Seen r]" using see_positions_log[of ve s] by (simp add: log_of_def)
  let ?live = "case r of Inl e \<Rightarrow> [] | Inr ps \<Rightarrow> ps"
  let ?ctx = "default_context\<lparr>ctx_positions := ?live\<rparr>"
  have "bare ?ctx" by (simp add: bare_def default_context_def)
  from execute_zero[OF this] obtain es where
    es: "log_of s1 (snd (execute_ai_action ve cfg (tv_decision c (ve_text ve) sg (signal_direction sg (filter (\<lambda>p. pos_symbol p = sg_symbol sg) ?live))) ?ctx s1)) es"
      "zero_entries (ve_text ve) es" by blast
  have z: "zero_entries (ve_text ve) [Seen r]" by (simp add: zero_entries_def)
  then have "zero_entries (ve_text ve) ([Seen r] @ es)" using es(2) by (simp only: zero_entries_append)
  then show ?thesis using True 1 l z log_of_trans[OF l es(1)]
    by (cases "sg_type sg = ''exit'' \<and> filter (\<lambda>p. pos_symbol p = sg_symbol sg) ?live = []") (auto simp: route_signal_def Let_def)
qed

end

section \<open>The gates of the repository\<close>

definition gated_venue :: "risk_config \<Rightarrow> 'w engine_env \<Rightarrow> (rat \<Rightarrow> string) \<Rightarrow> 'w engine venue" where
  "gated_venue rcfg ev txt = (engine_venue ev txt)
     \<lparr>ve_evaluate := (\<lambda>a ctx en. (risk_evaluate ((en_risk en)\<lparr>rm_gates := init_pipeline rcfg\<rparr>) a ctx, en))\<rparr>"

lemma gated_text [simp]: "ve_text (gated_venue rcfg ev txt) = txt"
  by (simp add: gated_venue_def engine_venue_def)

lemma unfunded_entry_blocked:
  assumes "risk_evaluate (rm\<lparr>rm_gates := init_pipeline rcfg\<rparr>) (Action a None) ctx = Inr rr" "passed rr"
    "bare ctx" "act_type a = ENTER"
  shows "act_quantity a = 0"
proof (rule ccontr)
  assume q: "act_quantity a \<noteq> 0"
  from risk_evaluate_passed[OF assms(1,2)] obtain g where g: "evaluate_gates (init_pipeline rcfg) (Action a None) ctx = Inr g" "passed g"
    by auto
  have "(FUNDING_RATE_COST_GATE, check_funding_rate_cost) \<in> set gates" by (simp add: gates_def)
  from passed_init_gates[OF g this] obtain r where "check_funding_rate_cost rcfg (Action a None) ctx = Inr r" "passed r" by blast
  from funding_passD[OF this] assms(4) proposed_notional_pos[of "Action a None"] q assms(3) show False
    by (auto simp: Gates.is_entry_def bare_def)
qed

interpretation gated: refusing_desk "gated_venue rcfg ev txt"
  by unfold_locales (auto simp: gated_venue_def intro: sized_keeps_order dest: unfunded_entry_blocked)

text \<open>
  \<^bold>\<open>C5\<close>. With the gates as the risk manager's constructor leaves them, the main loop sends no entry of a positive or negative
  quantity, whatever the market, the judge and the configuration are: every entry it ever hands to the engine was decided with the
  quantity zero. The funding gate needs the symbol's funding rate, which no strategy context of the loop carries.
\<close>

theorem main_loop_entries_unfunded:
  "\<exists>es. dk_log (ro_desk ((main_iteration sc (gated_venue rcfg ev txt) cfg ^^ n) s)) = dk_log (ro_desk s) @ es
     \<and> (\<forall>a out. Sent a out \<in> set es \<and> act_type a = ENTER \<longrightarrow> py_get (act_metadata a) ''pre_size_quantity'' = PStr (txt 0))"
  using gated.loop_zero[of rcfg ev "txt" s n sc cfg]
  by (auto simp: unfunded_def rlog_def log_of_def zero_entries_def)

text \<open>The same for an alert of the webhook.\<close>

lemma alert_entries_unfunded:
  "\<exists>es. log_of s (snd (route_signal c (gated_venue rcfg ev txt) cfg sg s)) es \<and> zero_entries txt es"
  using gated.alert_zero[of s c rcfg ev "txt" cfg sg] by simp

text \<open>The judge asks for a long of 100, from a flat account: the entry is decided, and none is sent.\<close>

theorem main_loop_entries_unfunded_witness:
  "\<exists>es. dk_log (ro_desk ((main_iteration (const_scout foreign_entry []) (gated_venue default_risk_config example_env (\<lambda>x. if x = 0 then ''0'' else ''100''))
       (example_rotation_config False [''BTCUSDT'']) ^^ 3) (start_rotation example_engine))) = es
     \<and> (\<forall>a out. Sent a out \<in> set es \<and> act_type a = ENTER \<longrightarrow> py_get (act_metadata a) ''pre_size_quantity'' = PStr ''0'')"
  using main_loop_entries_unfunded[of 3 "const_scout foreign_entry []" default_risk_config example_env "\<lambda>x. if x = 0 then ''0'' else ''100''"
      "example_rotation_config False [''BTCUSDT'']" "start_rotation example_engine"]
  by (simp add: start_rotation_def)

end
