(* ===== verification/Decisions.thy ===== *)
theory Decisions
  imports Rotation Floats
begin

text \<open>
  \<^verbatim>\<open>src/quad/orchestrator/_decisions_mixin.py\<close> and \<^verbatim>\<open>src/quad/ai/metrics.py\<close>: the journal of decisions, the resolution of
  their outcomes against the open positions, and the prediction metrics over the resolved ones. The table of
  decisions is the list of its rows in the order of insertion; of \<^verbatim>\<open>persistence/repositories.py\<close> the queries used here are
  modelled, rows of equal timestamps in insertion order. \<^verbatim>\<open>x ** 2\<close> is taken as correctly rounded.
\<close>

section \<open>Rows\<close>

record decision_row =
  dr_id :: int
  dr_timestamp :: int
  dr_strategy :: string
  dr_action :: string
  dr_symbol :: string
  dr_reason :: string
  dr_risk_passed :: bool
  dr_executed :: bool
  dr_cycle_time_ms :: int
  dr_direction :: string
  dr_confidence :: rat
  dr_gate_result :: string
  dr_entry_price :: string
  dr_exit_price :: string
  dr_realized_pnl :: string
  dr_outcome :: string
  dr_resolved_at :: "int option"

definition new_id :: "decision_row list \<Rightarrow> int" where
  "new_id rows = foldl (\<lambda>m r. max m (dr_id r)) 0 rows + 1"

definition get_unresolved :: "nat \<Rightarrow> decision_row list \<Rightarrow> decision_row list" where
  "get_unresolved limit rows = take limit (sort_key dr_timestamp (filter (\<lambda>r. dr_outcome r = ''open'') rows))"

definition get_resolved :: "nat \<Rightarrow> int option \<Rightarrow> bool \<Rightarrow> decision_row list \<Rightarrow> decision_row list" where
  "get_resolved limit since only_directional rows =
     take limit (sort_key dr_timestamp (filter (\<lambda>r. dr_outcome r \<noteq> ''open''
       \<and> (only_directional \<longrightarrow> dr_direction r \<in> {''LONG'', ''SHORT''})
       \<and> (case since of None \<Rightarrow> True | Some t \<Rightarrow> t \<le> dr_timestamp r)) rows))"

definition update_row :: "int \<Rightarrow> (decision_row \<Rightarrow> decision_row) \<Rightarrow> decision_row list \<Rightarrow> decision_row list" where
  "update_row i f rows = map (\<lambda>r. if dr_id r = i then f r else r) rows"

definition resolved_row :: "string \<Rightarrow> int \<Rightarrow> decision_row \<Rightarrow> decision_row" where
  "resolved_row out t r = r\<lparr>dr_outcome := out, dr_realized_pnl := ''0'', dr_exit_price := [], dr_resolved_at := Some t\<rparr>"

definition mark_outcome :: "int \<Rightarrow> string \<Rightarrow> int \<Rightarrow> decision_row list \<Rightarrow> decision_row list" where
  "mark_outcome i out t rows = update_row i (resolved_row out t) rows"

definition mark_executed :: "int \<Rightarrow> decision_row list \<Rightarrow> decision_row list" where
  "mark_executed i rows = update_row i (\<lambda>r. r\<lparr>dr_executed := True\<rparr>) rows"

section \<open>Logging a decision\<close>

text \<open>\<^verbatim>\<open>d.get(k) or z\<close> of an entry that is a text when it is there.\<close>

definition text_or :: "decision \<Rightarrow> string \<Rightarrow> string \<Rightarrow> string" where
  "text_or d k z = (if truthy (py_get d k) then str_of (py_get d k) else z)"

text \<open>A reasoning that is no text cannot be cut to 500 characters.\<close>

definition reason_text :: "decision \<Rightarrow> string res" where
  "reason_text d = (case py_get d ''reasoning'' of PStr s \<Rightarrow> Inr (take 500 s) | v \<Rightarrow> if truthy v then Inl TypeError else Inr [])"

definition decision_confidence :: "decision \<Rightarrow> rat" where
  "decision_confidence d = float_or 0 (py_get d ''confidence'')"

definition new_row :: "(rat \<Rightarrow> string) \<Rightarrow> (string, rat) dict \<Rightarrow> int \<Rightarrow> int \<Rightarrow> int \<Rightarrow> decision \<Rightarrow> decision_row res" where
  "new_row txt marks cycle_ms now i d =
     (let action = text_or d ''action'' ''HOLD''; symb = text_or d ''contract'' []
      in bindE (reason_text d) (\<lambda>reason. Inr
        \<lparr>dr_id = i, dr_timestamp = now, dr_strategy = text_or d ''strategy'' ''ai_default'', dr_action = action, dr_symbol = symb,
          dr_reason = reason, dr_risk_passed = (action \<in> {''ENTER'', ''EXIT''}), dr_executed = False, dr_cycle_time_ms = cycle_ms,
          dr_direction = text_or d ''direction'' ''NEUTRAL'', dr_confidence = decision_confidence d,
          dr_gate_result = text_or d ''gate_result'' ''not_checked'',
          dr_entry_price = (if action \<noteq> ''ENTER'' then []
             else (case map_of marks symb of None \<Rightarrow> [] | Some m \<Rightarrow> if m = 0 then [] else txt m)),
          dr_exit_price = [], dr_realized_pnl = ''0'', dr_outcome = (if action = ''ENTER'' then ''open'' else ''flat''),
          dr_resolved_at = None\<rparr>))"

text \<open>\<open>failing\<close>: whether the insertion raises. The id is written back into the decision.\<close>

definition log_ai_decision :: "bool \<Rightarrow> bool \<Rightarrow> (rat \<Rightarrow> string) \<Rightarrow> (string, rat) dict \<Rightarrow> int \<Rightarrow> int \<Rightarrow> decision \<Rightarrow> decision_row list
     \<Rightarrow> (int option \<times> decision) \<times> decision_row list" where
  "log_ai_decision db failing txt marks cycle_ms now d rows =
     (if \<not> db \<or> failing then ((None, d), rows)
      else (case new_row txt marks cycle_ms now (new_id rows) d of
          Inl e \<Rightarrow> ((None, d), rows)
        | Inr r \<Rightarrow> ((Some (dr_id r), AList.update ''db_id'' (PInt (dr_id r)) d), rows @ [r])))"

section \<open>Resolving outcomes\<close>

definition reconcile_decision_outcomes :: "bool \<Rightarrow> position list \<Rightarrow> int \<Rightarrow> decision_row list \<Rightarrow> decision_row list" where
  "reconcile_decision_outcomes db ps now rows =
     (if \<not> db then rows
      else foldl (\<lambda>rs r. if dr_symbol r \<in> set (open_symbols ps) then rs else mark_outcome (dr_id r) ''flat'' now rs)
             rows (get_unresolved 100 rows))"

section \<open>Metrics\<close>

definition row_outcome :: "decision_row \<Rightarrow> string" where
  "row_outcome r = lower (strip (if dr_outcome r = [] then ''open'' else dr_outcome r))"

definition row_direction :: "decision_row \<Rightarrow> string" where
  "row_direction r = upper (strip (if dr_direction r = [] then ''NEUTRAL'' else dr_direction r))"

definition row_confidence :: "decision_row \<Rightarrow> rat" where
  "row_confidence r = max 0 (min 1 (dr_confidence r))"

definition is_resolved :: "decision_row \<Rightarrow> bool" where
  "is_resolved r = (row_outcome r \<noteq> ''open'')"

definition is_directional :: "decision_row \<Rightarrow> bool" where
  "is_directional r = (row_outcome r \<in> {''win'', ''loss''} \<and> row_direction r \<in> {''LONG'', ''SHORT''})"

definition is_win :: "decision_row \<Rightarrow> bool" where
  "is_win r = (row_outcome r = ''win'')"

definition hit_rate :: "decision_row list \<Rightarrow> rat option" where
  "hit_rate rows =
     (let ds = filter is_directional rows; wins = length (filter is_win ds); losses = length (filter (\<lambda>r. \<not> is_win r) ds)
      in if wins + losses = 0 then None else Some (fround (of_nat wins / of_nat (wins + losses))))"

record calibration_bin =
  cb_bin :: nat
  cb_lo :: rat
  cb_hi :: rat
  cb_count :: nat
  cb_avg_confidence :: rat
  cb_avg_accuracy :: rat

definition in_bin :: "nat \<Rightarrow> nat \<Rightarrow> rat \<Rightarrow> bool" where
  "in_bin n i c = (fround (of_nat i / of_nat n) \<le> c \<and> c < fround (of_nat (i + 1) / of_nat n) \<or> i = n - 1 \<and> c = 1)"

definition calibration_step :: "nat \<Rightarrow> decision_row list \<Rightarrow> rat \<times> calibration_bin list \<Rightarrow> nat \<Rightarrow> rat \<times> calibration_bin list" where
  "calibration_step n ds s i =
     (let rs = filter (\<lambda>r. in_bin n i (row_confidence r)) ds
      in if rs = [] then s
         else (let conf = fround (float_sum (map row_confidence rs) / of_nat (length rs));
                   acc = fround (float_sum (map (\<lambda>r. if is_win r then 1 else 0) rs) / of_nat (length rs));
                   weight = fround (of_nat (length rs) / of_nat (length ds))
               in (fround (fst s + fround (weight * \<bar>fround (acc - conf)\<bar>)),
                   snd s @ [\<lparr>cb_bin = i, cb_lo = fround (of_nat i / of_nat n), cb_hi = fround (of_nat (i + 1) / of_nat n),
                     cb_count = length rs, cb_avg_confidence = conf, cb_avg_accuracy = acc\<rparr>])))"

definition expected_calibration_error :: "decision_row list \<Rightarrow> int \<Rightarrow> rat option \<times> calibration_bin list" where
  "expected_calibration_error rows n_bins =
     (let n = (if n_bins \<le> 0 then 10 else nat n_bins); ds = filter is_directional rows
      in if ds = [] then (None, [])
         else (let (e, bins) = foldl (calibration_step n ds) (0, []) [0..<n] in (Some e, bins)))"

definition squared_error :: "decision_row \<Rightarrow> rat" where
  "squared_error r = (let e = fround (row_confidence r - (if is_win r then 1 else 0)) in fround (e * e))"

definition brier_score :: "decision_row list \<Rightarrow> rat option" where
  "brier_score rows =
     (let ds = filter is_directional rows
      in if ds = [] then None else Some (fround (foldl (\<lambda>t r. fround (t + squared_error r)) 0 ds / of_nat (length ds))))"

record prediction_metrics =
  pm_sample_count :: nat
  pm_resolved_count :: nat
  pm_directional_count :: nat
  pm_wins :: nat
  pm_losses :: nat
  pm_flat_count :: nat
  pm_open_count :: nat
  pm_hit_rate :: "rat option"
  pm_ece :: "rat option"
  pm_ece_bins :: "calibration_bin list"
  pm_brier :: "rat option"
  pm_mean_confidence :: "rat option"

definition compute_metrics :: "decision_row list \<Rightarrow> int \<Rightarrow> prediction_metrics" where
  "compute_metrics rows n_bins =
     (let open_rows = length (filter (\<lambda>r. \<not> is_resolved r) rows);
          wins = length (filter (\<lambda>r. is_directional r \<and> row_outcome r = ''win'') rows);
          losses = length (filter (\<lambda>r. is_directional r \<and> row_outcome r = ''loss'') rows);
          (ece, bins) = expected_calibration_error rows n_bins;
          cs = map row_confidence (filter is_directional rows)
      in \<lparr>pm_sample_count = length rows, pm_resolved_count = length rows - open_rows, pm_directional_count = wins + losses,
          pm_wins = wins, pm_losses = losses, pm_flat_count = length (filter (\<lambda>r. row_outcome r = ''flat'') rows),
          pm_open_count = open_rows, pm_hit_rate = hit_rate rows, pm_ece = ece, pm_ece_bins = bins, pm_brier = brier_score rows,
          pm_mean_confidence = (if cs = [] then None else Some (fround (float_sum cs / of_nat (length cs))))\<rparr>)"

text \<open>The gauges of a cycle, a missing ratio (NaN) as \<open>None\<close>; the settings are read before anything is caught.\<close>

definition compute_ai_metrics :: "bool \<Rightarrow> (string, pyval) dict \<Rightarrow> int \<Rightarrow> decision_row list \<Rightarrow> (string \<times> rat option) list option res" where
  "compute_ai_metrics db cfg cycle rows =
     (if \<not> db \<or> \<not> truthy (get_or cfg ''enabled'' (PBool True)) then Inr None
      else bindE (int_setting (get_or cfg ''interval_cycles'' (PInt 1)) 1) (\<lambda>i.
        if cycle mod max i 1 \<noteq> 0 then Inr None
        else bindE (int_setting (get_or cfg ''min_resolved'' (PInt 5)) 0) (\<lambda>min_resolved.
          let m = compute_metrics (get_resolved 2000 None (truthy (get_or cfg ''only_directional'' (PBool True))) rows) 10
          in if int (pm_directional_count m) < min_resolved then Inr None
             else Inr (Some [(''ai_hit_rate'', pm_hit_rate m), (''ai_ece'', pm_ece m), (''ai_brier'', pm_brier m),
               (''ai_decisions_resolved'', Some (of_nat (pm_resolved_count m))),
               (''ai_decisions_directional'', Some (of_nat (pm_directional_count m)))]))))"

section \<open>Outcomes\<close>

lemma mark_outcomes:
  assumes "distinct (map dr_id us)"
  shows "foldl (\<lambda>rs r. if P r then rs else mark_outcome (dr_id r) out t rs) rows us
    = map (\<lambda>r. if \<exists>u \<in> set us. dr_id u = dr_id r \<and> \<not> P u then resolved_row out t r else r) rows"
  using assms
proof (induction us arbitrary: rows)
  case (Cons u us)
  have step: "(if P u then rows else mark_outcome (dr_id u) out t rows)
      = map (\<lambda>r. if dr_id u = dr_id r \<and> \<not> P u then resolved_row out t r else r) rows"
    by (auto simp: mark_outcome_def update_row_def)
  have keep: "dr_id (resolved_row out t r) = dr_id r" for r by (simp add: resolved_row_def)
  have once: "\<not> (\<exists>v \<in> set us. dr_id v = dr_id r \<and> \<not> P v)" if "dr_id u = dr_id r" for r
    using Cons.prems that by (metis distinct.simps(2) image_eqI list.simps(9) set_map)
  show ?case unfolding foldl.simps step using Cons.IH Cons.prems once by (auto simp: keep)
qed simp

lemma unresolved_subset: "set (get_unresolved k rows) \<subseteq> {r \<in> set rows. dr_outcome r = ''open''}"
  by (auto simp: get_unresolved_def dest: in_set_takeD)

lemma distinct_unresolved: "distinct (map dr_id rows) \<Longrightarrow> distinct (map dr_id (get_unresolved k rows))"
  unfolding get_unresolved_def take_map[symmetric]
  by (intro distinct_take) (auto simp: distinct_map intro: inj_on_subset)

text \<open>
  \<^bold>\<open>C35\<close>. One reconciliation resolves exactly those of the hundred oldest open decisions whose symbol has no open position any
  more, as flat and at the current time, and leaves every other row as it was; when at most a hundred rows are open, that is
  every open decision without a position.
\<close>

theorem decision_outcomes_reconciled:
  assumes "distinct (map dr_id rows)"
  shows "reconcile_decision_outcomes True ps now rows
      = map (\<lambda>r. if r \<in> set (get_unresolved 100 rows) \<and> dr_symbol r \<notin> set (open_symbols ps)
                 then resolved_row ''flat'' now r else r) rows
    \<and> (length (filter (\<lambda>r. dr_outcome r = ''open'') rows) \<le> 100 \<longrightarrow>
         (\<forall>r \<in> set rows. r \<in> set (get_unresolved 100 rows) \<longleftrightarrow> dr_outcome r = ''open''))"
proof -
  let ?us = "get_unresolved 100 rows"
  have same: "(\<exists>u \<in> set ?us. dr_id u = dr_id r \<and> dr_symbol u \<notin> set (open_symbols ps)) \<longleftrightarrow> r \<in> set ?us \<and> dr_symbol r \<notin> set (open_symbols ps)"
    if "r \<in> set rows" for r
    using that unresolved_subset[of 100 rows] assms by (auto simp: distinct_map inj_on_def)
  have "reconcile_decision_outcomes True ps now rows
      = map (\<lambda>r. if \<exists>u \<in> set ?us. dr_id u = dr_id r \<and> dr_symbol u \<notin> set (open_symbols ps) then resolved_row ''flat'' now r else r) rows"
    unfolding reconcile_decision_outcomes_def
    using mark_outcomes[OF distinct_unresolved[OF assms, of 100], of "\<lambda>r. dr_symbol r \<in> set (open_symbols ps)" "''flat''" now rows] by simp
  also have "\<dots> = map (\<lambda>r. if r \<in> set ?us \<and> dr_symbol r \<notin> set (open_symbols ps) then resolved_row ''flat'' now r else r) rows"
    using same by (intro map_cong) auto
  finally show ?thesis by (auto simp: get_unresolved_def)
qed

section \<open>Metrics\<close>

lemma fround_unit: "0 \<le> x \<Longrightarrow> x \<le> 1 \<Longrightarrow> 0 \<le> fround x \<and> fround x \<le> 1"
  using flt.rnd_mono[of x 1] by (simp add: flt.rnd_nonneg)

lemma fround_ratio: "a \<le> b \<Longrightarrow> 0 \<le> fround (of_nat a / of_nat b) \<and> fround (of_nat a / of_nat b) \<le> (1 :: rat)"
  by (intro fround_unit) (auto simp: divide_le_eq_1)

lemma row_confidence_bounds: "0 \<le> row_confidence r \<and> row_confidence r \<le> 1"
  by (simp add: row_confidence_def)

text \<open>The bins cover the unit interval without overlap, for their edges are the same roundings.\<close>

lemma edge_mono: "i \<le> j \<Longrightarrow> fround (of_nat i / of_nat n) \<le> (fround (of_nat j / of_nat n) :: rat)"
  by (intro flt.rnd_mono divide_right_mono) auto

lemma one_bin:
  assumes "0 \<le> c" "c \<le> 1" "0 < n"
  shows "\<exists>!i. i < n \<and> in_bin n i c"
proof (rule ex_ex1I)
  let ?hi = "\<lambda>i. fround (of_nat (i + 1) / of_nat n) :: rat"
  have last: "?hi (n - 1) = 1" using assms(3) by simp
  show "\<exists>i. i < n \<and> in_bin n i c"
  proof (cases "c = 1")
    case True then show ?thesis using assms(3) by (intro exI[of _ "n - 1"]) (simp add: in_bin_def)
  next
    case False
    then have ex: "c < ?hi (n - 1)" using assms(2) last by simp
    define i where "i = (LEAST i. c < ?hi i)"
    have i: "c < ?hi i" unfolding i_def by (rule LeastI[of "\<lambda>i. c < ?hi i", OF ex])
    have "i \<le> n - 1" unfolding i_def by (rule Least_le[of "\<lambda>i. c < ?hi i", OF ex])
    moreover have "fround (of_nat i / of_nat n) \<le> c"
    proof (cases i)
      case 0 then show ?thesis using assms(1) by simp
    next
      case (Suc j)
      then have "\<not> c < ?hi j" unfolding i_def by (metis lessI not_less_Least)
      then show ?thesis using Suc by simp
    qed
    ultimately show ?thesis using i assms(3) by (intro exI[of _ i]) (simp add: in_bin_def)
  qed
next
  have lt: False if "i < j" "j < n" "in_bin n i c" "in_bin n j c" for i j
  proof -
    have "i \<noteq> n - 1" using that(1,2) by simp
    then have "c < fround (of_nat (i + 1) / of_nat n)" using that(3) unfolding in_bin_def by blast
    moreover have "fround (of_nat (i + 1) / of_nat n) \<le> (fround (of_nat j / of_nat n) :: rat)" by (rule edge_mono) (use that in simp)
    moreover have "fround (of_nat (i + 1) / of_nat n) \<le> (1 :: rat)" by (rule fround_ratio[THEN conjunct2]) (use that in simp)
    moreover have "fround (of_nat j / of_nat n) \<le> c \<or> c = 1" using that(4) unfolding in_bin_def by blast
    ultimately show False by linarith
  qed
  fix i j assume "i < n \<and> in_bin n i c" "j < n \<and> in_bin n j c"
  then show "i = j" using lt[of i j] lt[of j i] by (cases i j rule: linorder_cases) auto
qed

lemma bins_count:
  assumes "0 < n"
  shows "(\<Sum>i<n. length (filter (\<lambda>r. in_bin n i (row_confidence r)) ds)) = length ds"
proof (induction ds)
  case (Cons r ds)
  have "\<exists>!i. i < n \<and> in_bin n i (row_confidence r)" using row_confidence_bounds[of r] assms by (intro one_bin) auto
  then obtain k where k: "k < n" "\<And>i. i < n \<Longrightarrow> in_bin n i (row_confidence r) = (i = k)" by blast
  have "length (filter (\<lambda>r. in_bin n i (row_confidence r)) (r # ds))
      = (if i = k then 1 else 0) + length (filter (\<lambda>r. in_bin n i (row_confidence r)) ds)" if "i < n" for i
    using k(2)[OF that] by (simp only: filter.simps) simp
  then have "(\<Sum>i<n. length (filter (\<lambda>r. in_bin n i (row_confidence r)) (r # ds)))
      = (\<Sum>i<n. (if i = k then 1 else 0) + length (filter (\<lambda>r. in_bin n i (row_confidence r)) ds))"
    by (intro sum.cong) auto
  also have "\<dots> = Suc (length ds)" using k(1) by (simp add: sum.distrib Cons.IH)
  finally show ?case by simp
qed simp

lemma calibration_counts:
  "sum_list (map cb_count (snd (foldl (calibration_step n ds) s is)))
     = sum_list (map cb_count (snd s)) + sum_list (map (\<lambda>i. length (filter (\<lambda>r. in_bin n i (row_confidence r)) ds)) is)"
proof (induction "is" arbitrary: s)
  case (Cons i "is")
  have "sum_list (map cb_count (snd (calibration_step n ds s i)))
      = sum_list (map cb_count (snd s)) + length (filter (\<lambda>r. in_bin n i (row_confidence r)) ds)"
    by (simp add: calibration_step_def Let_def)
  then show ?case by (simp add: Cons.IH)
qed simp

lemma bins_sum:
  "sum_list (map cb_count (snd (expected_calibration_error rows n_bins))) = length (filter is_directional rows)"
proof -
  define n where "n = (if n_bins \<le> 0 then 10 else nat n_bins)"
  let ?ds = "filter is_directional rows"
  obtain e bins where f: "foldl (calibration_step n ?ds) (0, []) [0..<n] = (e, bins)" by fastforce
  have "0 < n" by (simp add: n_def)
  from bins_count[OF this, of ?ds] have "sum_list (map (\<lambda>i. length (filter (\<lambda>r. in_bin n i (row_confidence r)) ?ds)) [0..<n]) = length ?ds"
    by (simp only: interv_sum_list_conv_sum_set_nat lessThan_atLeast0 set_upt)
  with calibration_counts[of n ?ds "(0, [])" "[0..<n]"] f have "sum_list (map cb_count bins) = length ?ds" by simp
  moreover have "expected_calibration_error rows n_bins = (if ?ds = [] then (None, []) else (Some e, bins))"
    using f by (simp add: expected_calibration_error_def n_def[symmetric] Let_def)
  ultimately show ?thesis by simp
qed

lemma squared_error_bounds: "0 \<le> squared_error r \<and> squared_error r \<le> 1"
proof -
  let ?e = "fround (row_confidence r - (if is_win r then 1 else 0))"
  have "- 1 \<le> row_confidence r - (if is_win r then 1 else 0)" "row_confidence r - (if is_win r then 1 else 0) \<le> 1"
    using row_confidence_bounds[of r] by auto
  then have "- 1 \<le> ?e" "?e \<le> 1" using flt.rnd_mono[of "- 1" "row_confidence r - (if is_win r then 1 else 0)"]
      flt.rnd_mono[of "row_confidence r - (if is_win r then 1 else 0)" 1] by (simp_all add: flt.rnd_minus)
  then have "\<bar>?e\<bar> \<le> 1" by (simp add: abs_le_iff)
  then have "?e * ?e \<le> 1" by (simp only: abs_square_le_1[symmetric] power2_eq_square)
  then show ?thesis unfolding squared_error_def Let_def by (intro fround_unit) auto
qed

lemma error_total_bounds:
  assumes "0 \<le> t" "t \<le> of_nat k" "k + length ds < 2 ^ 53"
  shows "0 \<le> foldl (\<lambda>t r. fround (t + squared_error r)) t ds \<and> foldl (\<lambda>t r. fround (t + squared_error r)) t ds \<le> of_nat (k + length ds)"
  using assms
proof (induction ds arbitrary: t k)
  case (Cons r ds)
  have "t + squared_error r \<le> of_int (int (Suc k))" using Cons.prems(2) squared_error_bounds[of r] by simp
  moreover have "fround (of_int (int (Suc k))) = of_int (int (Suc k))" using Cons.prems(3) by (intro fround_int) simp
  ultimately have "fround (t + squared_error r) \<le> of_nat (Suc k)" using flt.rnd_mono by (metis of_int_of_nat_eq)
  moreover have "0 \<le> fround (t + squared_error r)" using Cons.prems(1) squared_error_bounds[of r] by (intro flt.rnd_nonneg) simp
  ultimately show ?case using Cons.IH[of "fround (t + squared_error r)" "Suc k"] Cons.prems(3) by simp
qed simp

lemma directional_split:
  "length (filter (\<lambda>r. is_directional r \<and> row_outcome r = ''win'') rows) + length (filter (\<lambda>r. is_directional r \<and> row_outcome r = ''loss'') rows)
     = length (filter is_directional rows)"
  "length (filter is_win (filter is_directional rows)) + length (filter (\<lambda>r. \<not> is_win r) (filter is_directional rows))
     = length (filter is_directional rows)"
  "length (filter is_directional rows) + length (filter (\<lambda>r. row_outcome r = ''flat'') rows)
     + length (filter (\<lambda>r. \<not> is_resolved r) rows) \<le> length rows"
proof -
  show "length (filter (\<lambda>r. is_directional r \<and> row_outcome r = ''win'') rows) + length (filter (\<lambda>r. is_directional r \<and> row_outcome r = ''loss'') rows)
     = length (filter is_directional rows)" by (induction rows) (auto simp: is_directional_def)
  show "length (filter is_win (filter is_directional rows)) + length (filter (\<lambda>r. \<not> is_win r) (filter is_directional rows))
     = length (filter is_directional rows)" by (rule sum_length_filter_compl)
  show "length (filter is_directional rows) + length (filter (\<lambda>r. row_outcome r = ''flat'') rows)
     + length (filter (\<lambda>r. \<not> is_resolved r) rows) \<le> length rows"
    by (induction rows) (auto simp: is_directional_def is_resolved_def)
qed

text \<open>
  \<^bold>\<open>C36\<close>. The metrics of any rows are consistent: every row is open or resolved; the directional rows are the wins and the losses,
  apart from the flat ones; the confidence bins count every directional row exactly once; and hit rate and Brier score exist
  exactly when there is a directional row, and lie between 0 and 1.
\<close>

theorem prediction_metrics_sound:
  assumes "m = compute_metrics rows n_bins" "length rows < 2 ^ 53"
  shows "pm_sample_count m = pm_open_count m + pm_resolved_count m
    \<and> pm_directional_count m = pm_wins m + pm_losses m \<and> pm_directional_count m + pm_flat_count m \<le> pm_resolved_count m
    \<and> sum_list (map cb_count (pm_ece_bins m)) = pm_directional_count m
    \<and> (pm_hit_rate m = None \<longleftrightarrow> pm_directional_count m = 0) \<and> (pm_brier m = None \<longleftrightarrow> pm_directional_count m = 0)
    \<and> (\<forall>h. pm_hit_rate m = Some h \<longrightarrow> 0 \<le> h \<and> h \<le> 1) \<and> (\<forall>b. pm_brier m = Some b \<longrightarrow> 0 \<le> b \<and> b \<le> 1)"
proof -
  let ?ds = "filter is_directional rows"
  let ?sum = "foldl (\<lambda>t r. fround (t + squared_error r)) 0 ?ds"
  have d: "pm_directional_count m = length ?ds" using assms(1) directional_split(1)[of rows]
    by (simp add: compute_metrics_def Let_def split: prod.splits)
  have counts: "pm_sample_count m = length rows" "pm_open_count m = length (filter (\<lambda>r. \<not> is_resolved r) rows)"
    "pm_resolved_count m = length rows - pm_open_count m" "pm_flat_count m = length (filter (\<lambda>r. row_outcome r = ''flat'') rows)"
    "pm_directional_count m = pm_wins m + pm_losses m" "pm_ece_bins m = snd (expected_calibration_error rows n_bins)"
    "pm_hit_rate m = hit_rate rows" "pm_brier m = brier_score rows"
    using assms(1) by (simp_all add: compute_metrics_def Let_def split: prod.splits)
  have "hit_rate rows = (if ?ds = [] then None else Some (fround (of_nat (length (filter is_win ?ds)) / of_nat (length ?ds))))"
    unfolding hit_rate_def Let_def directional_split(2) by simp
  moreover have "0 \<le> fround (of_nat (length (filter is_win ?ds)) / of_nat (length ?ds))
      \<and> fround (of_nat (length (filter is_win ?ds)) / of_nat (length ?ds)) \<le> (1 :: rat)" by (rule fround_ratio) (rule length_filter_le)
  moreover have "length ?ds < 2 ^ 53" using assms(2) length_filter_le[of is_directional rows] by (rule le_less_trans[rotated])
  then have "0 \<le> ?sum \<and> ?sum \<le> of_nat (length ?ds)" using error_total_bounds[of 0 0 ?ds] by simp
  then have "0 \<le> fround (?sum / of_nat (length ?ds)) \<and> fround (?sum / of_nat (length ?ds)) \<le> 1" if "?ds \<noteq> []"
    using that by (intro fround_unit) (auto simp: divide_le_eq_1 simp del: filter_False)
  ultimately show ?thesis using d counts directional_split(3)[of rows] bins_sum[of rows n_bins]
    by (auto simp: brier_score_def Let_def)
qed

section \<open>The journal over time\<close>

inductive journal_step :: "decision_row list \<Rightarrow> decision_row list \<Rightarrow> bool" where
  logging: "journal_step rows (snd (log_ai_decision db failing txt marks ms now d rows))"
| resolving: "journal_step rows (reconcile_decision_outcomes db ps now rows)"
| executing: "journal_step rows (mark_executed i rows)"

definition journal_ok :: "decision_row list \<Rightarrow> bool" where
  "journal_ok rows = (distinct (map dr_id rows)
     \<and> (\<forall>r \<in> set rows. dr_outcome r = ''open'' \<and> dr_action r = ''ENTER'' \<or> dr_outcome r = ''flat''))"

lemma new_id_fresh: "r \<in> set rows \<Longrightarrow> dr_id r < new_id rows"
proof -
  have "m \<le> foldl (\<lambda>m r. max m (dr_id r)) m rows \<and> (\<forall>r \<in> set rows. dr_id r \<le> foldl (\<lambda>m r. max m (dr_id r)) m rows)" for m
  proof (induction rows arbitrary: m)
    case (Cons a rows)
    from Cons.IH[of "max m (dr_id a)"] show ?case by auto
  qed simp
  then show "r \<in> set rows \<Longrightarrow> dr_id r < new_id rows" unfolding new_id_def by fastforce
qed

lemma journal_ok_update:
  assumes "journal_ok rows" "\<And>r. dr_id (f r) = dr_id r"
    "\<And>r. dr_outcome (f r) = dr_outcome r \<and> dr_action (f r) = dr_action r \<or> dr_outcome (f r) = ''flat''"
  shows "journal_ok (update_row i f rows)"
proof -
  have "map dr_id (update_row i f rows) = map dr_id rows" using assms(2) by (simp add: update_row_def)
  moreover have "dr_outcome (f r) = ''open'' \<and> dr_action (f r) = ''ENTER'' \<or> dr_outcome (f r) = ''flat''" if "r \<in> set rows" for r
  proof -
    have "dr_outcome r = ''open'' \<and> dr_action r = ''ENTER'' \<or> dr_outcome r = ''flat''" using assms(1) that unfolding journal_ok_def by blast
    then show ?thesis using assms(3)[of r] by (elim disjE conjE) (simp_all only: simp_thms)
  qed
  moreover have "(\<forall>r \<in> set (update_row i f rows). P r) = (\<forall>r \<in> set rows. P (if dr_id r = i then f r else r))" for P
    by (auto simp: update_row_def)
  ultimately show ?thesis using assms(1) unfolding journal_ok_def by simp
qed

lemma new_row_fields:
  "new_row txt marks ms now i d = Inr r \<Longrightarrow> dr_id r = i \<and> dr_outcome r = (if dr_action r = ''ENTER'' then ''open'' else ''flat'')"
  by (cases "reason_text d") (clarsimp simp: new_row_def Let_def split del: if_split)+

lemma journal_ok_step: "journal_step rows rows' \<Longrightarrow> journal_ok rows \<Longrightarrow> journal_ok rows'"
proof (induction rule: journal_step.induct)
  case (logging rows db failing tx marks ms now d)
  show ?case
  proof (cases "new_row tx marks ms now (new_id rows) d")
    case (Inr r)
    then have "dr_id r = new_id rows" "dr_outcome r = ''open'' \<and> dr_action r = ''ENTER'' \<or> dr_outcome r = ''flat''"
      using new_row_fields[OF Inr] by (simp_all split: if_splits)
    then have "journal_ok (rows @ [r])" using logging new_id_fresh[of _ rows] by (fastforce simp: journal_ok_def)
    then show ?thesis using Inr logging by (simp add: log_ai_decision_def)
  qed (use logging in \<open>simp add: log_ai_decision_def\<close>)
next
  case (resolving rows db ps now)
  have mark: "journal_ok (mark_outcome i ''flat'' now rs)" if "journal_ok rs" for i rs
    unfolding mark_outcome_def by (rule journal_ok_update[OF that]) (auto simp: resolved_row_def)
  have "journal_ok (foldl (\<lambda>rs r. if P r then rs else mark_outcome (dr_id r) ''flat'' now rs) rs us)" if "journal_ok rs" for P us rs
    using that by (induction us arbitrary: rs) (simp_all add: mark)
  from this[OF resolving, of "\<lambda>r. dr_symbol r \<in> set (open_symbols ps)" "get_unresolved 100 rows"] show ?case
    using resolving by (simp add: reconcile_decision_outcomes_def)
next
  case (executing rows i)
  then show ?case unfolding mark_executed_def by (rule journal_ok_update) auto
qed

text \<open>Nothing writes a win or a loss: of every reachable journal the metrics are empty.\<close>

lemma journal_undirected:
  assumes "journal_step\<^sup>*\<^sup>* [] rows"
  shows "journal_ok rows \<and> pm_directional_count (compute_metrics rows n) = 0 \<and> pm_hit_rate (compute_metrics rows n) = None"
proof -
  have ok: "journal_ok rows" using assms
    by (induction rule: rtranclp_induct) (auto simp: journal_ok_def dest: journal_ok_step[unfolded journal_ok_def])
  have "lower (strip ''open'') = ''open''" "lower (strip ''flat'') = ''flat''" by code_simp+
  then have "\<not> is_directional r" if "r \<in> set rows" for r
    using ok that by (auto simp: journal_ok_def is_directional_def row_outcome_def)
  then have none: "filter is_directional rows = []" by (simp add: filter_empty_conv)
  then show ?thesis using ok directional_split(1)[of rows]
    by (simp add: compute_metrics_def hit_rate_def Let_def split: prod.split)
qed

section \<open>Examples\<close>

definition example_row :: "int \<Rightarrow> string \<Rightarrow> rat \<Rightarrow> decision_row" where
  "example_row i out c = \<lparr>dr_id = i, dr_timestamp = i, dr_strategy = [], dr_action = ''ENTER'', dr_symbol = ''BTCUSDT'', dr_reason = [],
     dr_risk_passed = True, dr_executed = True, dr_cycle_time_ms = 0, dr_direction = ''LONG'', dr_confidence = c, dr_gate_result = [],
     dr_entry_price = [], dr_exit_price = [], dr_realized_pnl = ''0'', dr_outcome = out, dr_resolved_at = None\<rparr>"

lemma decision_outcomes_reconciled_witness:
  "map dr_outcome (reconcile_decision_outcomes True [] 9 [example_row 1 ''open'' 0, example_row 2 ''win'' 1]) = [''flat'', ''win'']"
proof -
  have "distinct (map dr_id [example_row 1 ''open'' 0, example_row 2 ''win'' 1])" by (simp add: example_row_def)
  from decision_outcomes_reconciled[OF this, of "[]" 9] show ?thesis
    by (simp add: open_symbols_def open_positions_def) (simp add: example_row_def resolved_row_def)
qed

lemma prediction_metrics_sound_witness:
  "\<exists>h b. pm_hit_rate (compute_metrics [example_row 1 ''win'' (3 / 4), example_row 2 ''loss'' (1 / 4)] 10) = Some h \<and> 0 \<le> h \<and> h \<le> 1
     \<and> pm_brier (compute_metrics [example_row 1 ''win'' (3 / 4), example_row 2 ''loss'' (1 / 4)] 10) = Some b \<and> 0 \<le> b \<and> b \<le> 1"
proof -
  let ?rows = "[example_row 1 ''win'' (3 / 4), example_row 2 ''loss'' (1 / 4)]"
  have "map row_outcome ?rows = [''win'', ''loss'']" "map row_direction ?rows = [''LONG'', ''LONG'']" by code_simp+
  then have d: "pm_directional_count (compute_metrics ?rows 10) = 2"
    by (simp add: compute_metrics_def is_directional_def Let_def split: prod.split)
  have "length ?rows < 2 ^ 53" by simp
  from prediction_metrics_sound[OF refl this, of 10] d show ?thesis
    by (cases "pm_hit_rate (compute_metrics ?rows 10)"; cases "pm_brier (compute_metrics ?rows 10)") auto
qed

end
