(* ===== verification/Worker.thy ===== *)
theory Worker
  imports Json
begin

text \<open>
  \<^verbatim>\<open>src/quad/worker.py\<close>: the configuration of one tenant's worker process, from the registry's rows and the base
  configuration. Decrypting a secret and the text of a value that is not a string are parameters.
\<close>

record credential =
  cr_api_key :: string
  cr_api_secret :: string
  cr_testnet :: bool

record tenant_config =
  tc_leverage :: int
  tc_strategy :: string
  tc_max_positions :: int
  tc_stop_loss_pct :: rat
  tc_take_profit_pct :: rat
  tc_ai_tier :: string
  tc_ai_max_calls :: int
  tc_strategy_mode :: string
  tc_scalp_max_calls :: int
  tc_scalp_tp_pct :: rat
  tc_scalp_sl_pct :: rat

record tenant =
  tn_status :: string
  tn_credential :: "credential option"
  tn_config :: tenant_config

text \<open>A \<open>WorkerConfigError\<close>, which the supervisor expects, or anything else.\<close>

datatype config_fault = WorkerConfigError | Fault exc

definition default_symbols :: "string list" where
  "default_symbols = [''BTCUSDT'', ''ETHUSDT'', ''SOLUSDT'', ''BNBUSDT'']"

definition section_or_empty :: "jdict \<Rightarrow> string \<Rightarrow> jdict res" where
  "section_or_empty d k = (if \<not> jtruthy (jget d k) then Inr [] else (case jget d k of JDict s \<Rightarrow> Inr s | _ \<Rightarrow> Inl TypeError))"

text \<open>Iterating over a list, the characters of a text or the keys of a dict.\<close>

definition symbol_list :: "(json \<Rightarrow> string) \<Rightarrow> json \<Rightarrow> string list res" where
  "symbol_list txt v =
     (case v of
        JList xs \<Rightarrow> Inr (map (\<lambda>x. upper (case x of JVal (PStr s) \<Rightarrow> s | _ \<Rightarrow> txt x)) xs)
      | JVal (PStr s) \<Rightarrow> Inr (map (\<lambda>c. upper [c]) s)
      | JDict d \<Rightarrow> Inr (map (\<lambda>(k, x). upper k) d)
      | _ \<Rightarrow> Inl TypeError)"

definition worker_symbols :: "(json \<Rightarrow> string) \<Rightarrow> jdict \<Rightarrow> string list res" where
  "worker_symbols txt base =
     bindE (section_or_empty base ''trading'') (\<lambda>trading.
     bindE (section_or_empty base ''ai'') (\<lambda>ai.
       if jtruthy (jget trading ''underlyings'') then symbol_list txt (jget trading ''underlyings'')
       else if jtruthy (jget ai ''pairs'') then symbol_list txt (jget ai ''pairs'')
       else Inr default_symbols))"

definition symbols_json :: "string list \<Rightarrow> json" where
  "symbols_json ss = JList (map (\<lambda>s. JVal (PStr s)) ss)"

definition worker_mode :: "tenant_config \<Rightarrow> string" where
  "worker_mode tc = (let m = lower (if tc_strategy_mode tc = [] then ''trend'' else tc_strategy_mode tc)
     in if m \<in> {''trend'', ''scalp''} then m else ''trend'')"

definition exchange_section :: "string \<Rightarrow> string \<Rightarrow> bool \<Rightarrow> jdict \<Rightarrow> jdict res" where
  "exchange_section key secret testnet s =
     Inr (put ''testnet'' (PBool testnet) (AList.delete ''passphrase''
           (put ''api_secret'' (PStr secret) (put ''api_key'' (PStr key) (put ''name'' (PStr ''bybit'') s)))))"

definition trading_section :: "tenant_config \<Rightarrow> string list \<Rightarrow> jdict \<Rightarrow> jdict res" where
  "trading_section tc ss s =
     Inr (put ''ai_cycle_interval'' (PInt (if worker_mode tc = ''scalp'' then 300 else 3600))
           (AList.update ''underlyings'' (symbols_json ss)
             (put ''default_strategy'' (PStr (tc_strategy tc)) (put ''leverage'' (PInt (tc_leverage tc)) s))))"

definition risk_section :: "tenant_config \<Rightarrow> jdict \<Rightarrow> jdict res" where
  "risk_section tc s =
     bindE (in_section ''per_position_sl'' (\<lambda>p. Inr (put ''capital_pct'' (PFloat (tc_stop_loss_pct tc)) p))
              (put ''max_positions'' (PInt (tc_max_positions tc)) s))
       (in_section ''per_position_tp'' (\<lambda>p. Inr (put ''capital_pct'' (PFloat (tc_take_profit_pct tc)) p)))"

definition scalp_section :: "tenant_config \<Rightarrow> jdict \<Rightarrow> jdict res" where
  "scalp_section tc s =
     Inr (put_default ''max_symbols_per_cycle'' (JVal (PInt 2)) (put_default ''roll_seconds'' (JVal (PInt 1800))
       (put_default ''max_hold_seconds'' (JVal (PInt 3600)) (put_default ''timeframes'' (JList [JVal (PStr ''5m'')])
         (put ''sl_pct'' (PFloat (if tc_scalp_sl_pct tc = 0 then 8 else tc_scalp_sl_pct tc))
           (put ''tp_pct'' (PFloat (if tc_scalp_tp_pct tc = 0 then 15 else tc_scalp_tp_pct tc))
             (put ''max_calls_per_day'' (PInt (if tc_scalp_max_calls tc = 0 then 120 else tc_scalp_max_calls tc))
               (put_default ''model'' (JVal (PStr ''qwen/qwen3-32b'')) s))))))))"

definition rotation_section :: "jdict \<Rightarrow> jdict res" where
  "rotation_section s =
     Inr (put_default ''max_hold_seconds'' (JVal (PInt 3600)) (put_default ''close_open_position_each_cycle'' (JVal (PBool True)) s))"

definition ai_section :: "tenant_config \<Rightarrow> string list \<Rightarrow> jdict \<Rightarrow> jdict res" where
  "ai_section tc ss s =
     bindE (in_section ''scalp'' (scalp_section tc)
       (put ''mode'' (PStr (worker_mode tc))
         (put ''judge_max_calls_per_day'' (PInt (if tc_ai_max_calls tc = 0 then 24 else tc_ai_max_calls tc))
           (put ''tier'' (PStr (lower (if tc_ai_tier tc = [] then ''cheap'' else tc_ai_tier tc)))
             (AList.update ''pairs'' (symbols_json ss) s)))))
       (in_section ''rotation'' rotation_section)"

definition assemble_config :: "string \<Rightarrow> string \<Rightarrow> string \<Rightarrow> bool \<Rightarrow> tenant_config \<Rightarrow> string list \<Rightarrow> jdict \<Rightarrow> jdict res" where
  "assemble_config uuid key secret testnet tc ss base =
     bindE (in_section ''exchange'' (exchange_section key secret testnet)
              (put ''_mode'' (PStr ''bybit'') (put ''_tenant_id'' (PStr uuid) base))) (\<lambda>c1.
     let c2 = (if testnet then c1 else put ''_dry_run'' (PBool False) c1)
     in bindE (in_section ''trading'' (trading_section tc ss) c2) (\<lambda>c3.
        bindE (in_section ''risk'' (risk_section tc) c3) (\<lambda>c4.
        bindE (in_section ''ai'' (ai_section tc ss) c4)
          (in_section ''telegram'' (\<lambda>s. Inr (put ''enabled'' (PBool False) s))))))"

definition fault :: "'a res \<Rightarrow> config_fault + 'a" where
  "fault r = (case r of Inl e \<Rightarrow> Inl (Fault e) | Inr x \<Rightarrow> Inr x)"

text \<open>\<open>registry\<close> is the answer of the tenant query.\<close>

definition build_worker_config :: "(string \<Rightarrow> string res) \<Rightarrow> (json \<Rightarrow> string) \<Rightarrow> tenant option res \<Rightarrow> string \<Rightarrow> jdict \<Rightarrow> config_fault + jdict" where
  "build_worker_config decrypt txt registry uuid base =
     (case registry of
        Inl e \<Rightarrow> Inl (Fault e)
      | Inr None \<Rightarrow> Inl WorkerConfigError
      | Inr (Some t) \<Rightarrow>
          if tn_status t \<noteq> ''active'' then Inl WorkerConfigError
          else (case tn_credential t of
              None \<Rightarrow> Inl WorkerConfigError
            | Some cr \<Rightarrow>
               (case bindE (decrypt (cr_api_key cr)) (\<lambda>key. bindE (decrypt (cr_api_secret cr)) (\<lambda>secret. Inr (key, secret))) of
                  Inl e \<Rightarrow> Inl WorkerConfigError
                | Inr (key, secret) \<Rightarrow>
                    fault (bindE (worker_symbols txt base) (\<lambda>ss. assemble_config uuid key secret (cr_testnet cr) (tn_config t) ss base)))))"

section \<open>What a worker gets\<close>

lemma in_section_frame: "in_section k f d = Inr d' \<Longrightarrow> k' \<noteq> k \<Longrightarrow> map_of d' k' = map_of d k'"
  by (auto simp: in_section_Inr map_of_AList_update)

lemma in_section_setting:
  assumes "in_section k f d = Inr d'"
  obtains s s' where "f s = Inr s'" "map_of d k = None \<and> s = [] \<or> map_of d k = Some (JDict s)" "map_of d' k = Some (JDict s')"
  using assms by (auto simp: in_section_Inr map_of_AList_update)

definition worker_sections :: "string set" where
  "worker_sections = {''_tenant_id'', ''_mode'', ''_dry_run'', ''exchange'', ''trading'', ''risk'', ''ai'', ''telegram''}"

lemma exchange_section_settings:
  "exchange_section key secret testnet s = Inr s' \<Longrightarrow> map_of s' ''api_key'' = Some (JVal (PStr key))
     \<and> map_of s' ''api_secret'' = Some (JVal (PStr secret)) \<and> map_of s' ''testnet'' = Some (JVal (PBool testnet))
     \<and> map_of s' ''name'' = Some (JVal (PStr ''bybit'')) \<and> map_of s' ''passphrase'' = None"
  by (auto simp: exchange_section_def delete_conv')

lemma trading_section_settings:
  "trading_section tc ss s = Inr s' \<Longrightarrow> map_of s' ''leverage'' = Some (JVal (PInt (tc_leverage tc)))
     \<and> map_of s' ''underlyings'' = Some (symbols_json ss)
     \<and> map_of s' ''ai_cycle_interval'' = Some (JVal (PInt (if worker_mode tc = ''scalp'' then 300 else 3600)))"
  by (auto simp: trading_section_def map_of_AList_update)

lemma assembled:
  assumes "assemble_config uuid key secret testnet tc ss base = Inr cfg"
  shows "map_of cfg ''_tenant_id'' = Some (JVal (PStr uuid))
    \<and> setting cfg ''exchange'' ''api_key'' = Some (JVal (PStr key)) \<and> setting cfg ''exchange'' ''api_secret'' = Some (JVal (PStr secret))
    \<and> setting cfg ''exchange'' ''testnet'' = Some (JVal (PBool testnet)) \<and> setting cfg ''exchange'' ''passphrase'' = None
    \<and> map_of cfg ''_dry_run'' = (if testnet then map_of base ''_dry_run'' else Some (JVal (PBool False)))
    \<and> setting cfg ''trading'' ''leverage'' = Some (JVal (PInt (tc_leverage tc)))
    \<and> setting cfg ''trading'' ''underlyings'' = Some (symbols_json ss)
    \<and> setting cfg ''telegram'' ''enabled'' = Some (JVal (PBool False))
    \<and> (\<forall>k. k \<notin> worker_sections \<longrightarrow> map_of cfg k = map_of base k)"
proof -
  let ?b = "put ''_mode'' (PStr ''bybit'') (put ''_tenant_id'' (PStr uuid) base)"
  obtain c1 c2 c3 c4 where
    1: "in_section ''exchange'' (exchange_section key secret testnet) ?b = Inr c1" and
    2: "c2 = (if testnet then c1 else put ''_dry_run'' (PBool False) c1)" and
    3: "in_section ''trading'' (trading_section tc ss) c2 = Inr c3" and
    4: "in_section ''risk'' (risk_section tc) c3 = Inr c4" and
    5: "bindE (in_section ''ai'' (ai_section tc ss) c4) (in_section ''telegram'' (\<lambda>s. Inr (put ''enabled'' (PBool False) s))) = Inr cfg"
    using assms by (auto simp: assemble_config_def bindE_Inr_iff Let_def)
  then obtain c5 where 6: "in_section ''ai'' (ai_section tc ss) c4 = Inr c5"
    "in_section ''telegram'' (\<lambda>s. Inr (put ''enabled'' (PBool False) s)) c5 = Inr cfg" by (auto simp: bindE_Inr_iff)
  note frame = in_section_frame[OF 1] in_section_frame[OF 3] in_section_frame[OF 4] in_section_frame[OF 6(1)] in_section_frame[OF 6(2)]
  obtain w x where "exchange_section key secret testnet w = Inr x" and ex1: "map_of c1 ''exchange'' = Some (JDict x)"
    using in_section_setting[OF 1] by blast
  then have x: "map_of x ''api_key'' = Some (JVal (PStr key))" "map_of x ''api_secret'' = Some (JVal (PStr secret))"
    "map_of x ''testnet'' = Some (JVal (PBool testnet))" "map_of x ''passphrase'' = None" using exchange_section_settings by blast+
  obtain v y where "trading_section tc ss v = Inr y" and tr1: "map_of c3 ''trading'' = Some (JDict y)"
    using in_section_setting[OF 3] by blast
  then have y: "map_of y ''leverage'' = Some (JVal (PInt (tc_leverage tc)))" "map_of y ''underlyings'' = Some (symbols_json ss)"
    using trading_section_settings by blast+
  obtain u where z: "map_of cfg ''telegram'' = Some (JDict (put ''enabled'' (PBool False) u))"
    using in_section_setting[OF 6(2)] by blast
  have ex: "map_of cfg ''exchange'' = Some (JDict x)" using ex1 frame by (simp add: 2)
  have tr: "map_of cfg ''trading'' = Some (JDict y)" using tr1 frame by simp
  have "map_of cfg k = map_of base k" if "k \<notin> worker_sections" for k
    using that frame by (simp add: 2 worker_sections_def)
  moreover have "map_of cfg ''_tenant_id'' = Some (JVal (PStr uuid))"
    "map_of cfg ''_dry_run'' = (if testnet then map_of base ''_dry_run'' else Some (JVal (PBool False)))"
    using frame by (simp_all add: 2)
  ultimately show ?thesis using ex tr x y z by (simp add: setting_def)
qed

lemma built:
  assumes "build_worker_config decrypt txt registry uuid base = Inr cfg"
  obtains t cr key secret ss where "registry = Inr (Some t)" "tn_status t = ''active''" "tn_credential t = Some cr"
    "decrypt (cr_api_key cr) = Inr key" "decrypt (cr_api_secret cr) = Inr secret" "worker_symbols txt base = Inr ss"
    "assemble_config uuid key secret (cr_testnet cr) (tn_config t) ss base = Inr cfg"
  using assms by (auto simp: build_worker_config_def fault_def bindE_Inr_iff split: sum.splits option.splits if_splits)

text \<open>
  \<^bold>\<open>C11\<close>. A worker's configuration exists only for an active tenant with credentials; it carries that tenant's id and decrypted keys
  and no other passphrase, never the Telegram bot; a live worker is never in dry-run mode and a testnet worker keeps the base's; its
  symbols come from the base configuration, whatever the tenant's row says; and every section the builder does not own is the base's.
\<close>

theorem worker_config_isolated:
  assumes "build_worker_config decrypt txt registry uuid base = Inr cfg"
  shows "\<exists>t cr key secret ss. registry = Inr (Some t) \<and> tn_status t = ''active'' \<and> tn_credential t = Some cr
    \<and> decrypt (cr_api_key cr) = Inr key \<and> decrypt (cr_api_secret cr) = Inr secret \<and> worker_symbols txt base = Inr ss
    \<and> map_of cfg ''_tenant_id'' = Some (JVal (PStr uuid))
    \<and> setting cfg ''exchange'' ''api_key'' = Some (JVal (PStr key)) \<and> setting cfg ''exchange'' ''api_secret'' = Some (JVal (PStr secret))
    \<and> setting cfg ''exchange'' ''passphrase'' = None \<and> setting cfg ''telegram'' ''enabled'' = Some (JVal (PBool False))
    \<and> map_of cfg ''_dry_run'' = (if cr_testnet cr then map_of base ''_dry_run'' else Some (JVal (PBool False)))
    \<and> setting cfg ''trading'' ''leverage'' = Some (JVal (PInt (tc_leverage (tn_config t))))
    \<and> setting cfg ''trading'' ''underlyings'' = Some (symbols_json ss)
    \<and> (\<forall>k. k \<notin> worker_sections \<longrightarrow> map_of cfg k = map_of base k)"
proof -
  obtain t cr key secret ss where b: "registry = Inr (Some t)" "tn_status t = ''active''" "tn_credential t = Some cr"
    "decrypt (cr_api_key cr) = Inr key" "decrypt (cr_api_secret cr) = Inr secret" "worker_symbols txt base = Inr ss"
    "assemble_config uuid key secret (cr_testnet cr) (tn_config t) ss base = Inr cfg"
    by (rule built[OF assms])
  from assembled[OF b(7)] b(1-6) show ?thesis
    by (intro exI[of _ t] exI[of _ cr] exI[of _ key] exI[of _ secret] exI[of _ ss]) simp
qed

section \<open>Example\<close>

definition example_tenant_config :: tenant_config where
  "example_tenant_config = \<lparr>tc_leverage = 5, tc_strategy = ''trend_following'', tc_max_positions = 1, tc_stop_loss_pct = 30,
     tc_take_profit_pct = 50, tc_ai_tier = [], tc_ai_max_calls = 0, tc_strategy_mode = ''SCALP'', tc_scalp_max_calls = 0,
     tc_scalp_tp_pct = 0, tc_scalp_sl_pct = 0\<rparr>"

definition example_tenant :: tenant where
  "example_tenant = \<lparr>tn_status = ''active'', tn_credential = Some \<lparr>cr_api_key = ''k'', cr_api_secret = ''s'', cr_testnet = False\<rparr>,
     tn_config = example_tenant_config\<rparr>"

definition example_base :: jdict where
  "example_base = [(''_dry_run'', JVal (PBool True)), (''exchange'', JDict [(''passphrase'', JVal (PStr ''p''))]),
     (''monitoring'', JDict [])]"

theorem worker_config_isolated_witness:
  "\<exists>cfg. build_worker_config Inr (\<lambda>v. []) (Inr (Some example_tenant)) ''u1'' example_base = Inr cfg
     \<and> setting cfg ''exchange'' ''passphrase'' = None \<and> map_of cfg ''_dry_run'' = Some (JVal (PBool False))
     \<and> map_of cfg ''monitoring'' = Some (JDict [])"
proof -
  have "case build_worker_config Inr (\<lambda>v. []) (Inr (Some example_tenant)) ''u1'' example_base of Inl e \<Rightarrow> False | Inr c \<Rightarrow> True"
    by code_simp
  then obtain cfg where b: "build_worker_config Inr (\<lambda>v. []) (Inr (Some example_tenant)) ''u1'' example_base = Inr cfg"
    by (auto split: sum.splits)
  have "''monitoring'' \<notin> worker_sections" by (simp add: worker_sections_def)
  with worker_config_isolated[OF b] have "setting cfg ''exchange'' ''passphrase'' = None" "map_of cfg ''monitoring'' = Some (JDict [])"
    "map_of cfg ''_dry_run'' = Some (JVal (PBool False))" by (auto simp: example_tenant_def example_base_def)
  with b show ?thesis by blast
qed

end
