(* ===== verification/Supervisor.thy ===== *)
theory Supervisor
  imports Worker
begin

text \<open>
  \<^verbatim>\<open>src/quad/supervisor.py\<close> and the routes that drive it (\<^verbatim>\<open>api/routes_worker.py\<close>, \<^verbatim>\<open>api/routes_exchange.py\<close>): one worker process
  per tenant, restarted within a crash budget. The operating system's side are the live child processes with the tenant they were
  started for, the pid counter and the configuration files. What an operation cannot control is its \<open>moment\<close>: the clock,
  which stands still within an operation, and whether the registry answers, a process can be started, and a terminated
  process ends. \<open>ensure\<close> is in two halves, before and after it awaits the registry. Flattening of an account, audit rows and
  replies are left out; removing a file does not fail.
\<close>

section \<open>State\<close>

datatype worker_state = Running | Stopped | Failed

record worker_info =
  wi_config_path :: string
  wi_process :: "nat option"
  wi_state :: worker_state
  wi_restarts :: nat
  wi_last_start :: rat
  wi_last_exit :: rat
  wi_last_heartbeat :: rat
  wi_crash_times :: "rat list"

definition new_worker :: worker_info where
  "new_worker = \<lparr>wi_config_path = [], wi_process = None, wi_state = Stopped, wi_restarts = 0, wi_last_start = 0, wi_last_exit = 0,
     wi_last_heartbeat = 0, wi_crash_times = []\<rparr>"

record plane =
  pl_base :: jdict
  pl_dir :: string
  pl_max_restarts :: nat
  pl_window :: rat
  pl_allow_live :: bool
  pl_decrypt :: "string \<Rightarrow> string res"
  pl_text :: "json \<Rightarrow> string"

record moment =
  mo_now :: rat
  mo_registry :: bool
  mo_spawns :: bool
  mo_kills :: bool

text \<open>\<open>co_spawned\<close> is a ghost: the tenants and times of the processes started.\<close>

record control =
  co_workers :: "(string, worker_info) dict"
  co_tenants :: "(string, tenant) dict"
  co_alive :: "(nat \<times> string) list"
  co_next :: nat
  co_files :: "(string, jdict) dict"
  co_spawned :: "(string \<times> rat) list"

definition worker_of :: "control \<Rightarrow> string \<Rightarrow> worker_info option" where
  "worker_of c u = map_of (co_workers c) u"

definition set_worker :: "string \<Rightarrow> worker_info \<Rightarrow> control \<Rightarrow> control" where
  "set_worker u i c = c\<lparr>co_workers := AList.update u i (co_workers c)\<rparr>"

definition is_alive :: "control \<Rightarrow> nat \<Rightarrow> bool" where
  "is_alive c p = (p \<in> fst ` set (co_alive c))"

definition remove_config :: "worker_info \<Rightarrow> control \<Rightarrow> control" where
  "remove_config i c = (if wi_config_path i = [] then c else c\<lparr>co_files := AList.delete (wi_config_path i) (co_files c)\<rparr>)"

definition worker_path :: "plane \<Rightarrow> string \<Rightarrow> string" where
  "worker_path pl u = pl_dir pl @ ''/'' @ u @ ''.yaml''"

definition lookup_tenant :: "moment \<Rightarrow> control \<Rightarrow> string \<Rightarrow> tenant option res" where
  "lookup_tenant mo c u = (if mo_registry mo then Inr (map_of (co_tenants c) u) else Inl ConnectionError)"

section \<open>The supervisor\<close>

definition poll_worker :: "plane \<Rightarrow> moment \<Rightarrow> string \<Rightarrow> control \<Rightarrow> control" where
  "poll_worker pl mo u c =
     (case worker_of c u of
        None \<Rightarrow> c
      | Some i \<Rightarrow>
         (case wi_process i of
            None \<Rightarrow> c
          | Some p \<Rightarrow>
              if wi_state i \<noteq> Running then c
              else if is_alive c p then set_worker u (i\<lparr>wi_last_heartbeat := mo_now mo\<rparr>) c
              else (let crashes = filter (\<lambda>t. fround (mo_now mo - pl_window pl) < t) (wi_crash_times i @ [mo_now mo])
                    in remove_config i (set_worker u
                         (i\<lparr>wi_last_exit := mo_now mo, wi_crash_times := crashes, wi_process := None,
                            wi_state := (if pl_max_restarts pl < length crashes then Failed else Stopped)\<rparr>) c))))"

text \<open>The first half of \<^verbatim>\<open>ensure\<close>: whether there is a worker to start.\<close>

definition prepare_worker :: "plane \<Rightarrow> moment \<Rightarrow> string \<Rightarrow> control \<Rightarrow> bool \<times> control" where
  "prepare_worker pl mo u c =
     (case worker_of c u of
        None \<Rightarrow> (True, set_worker u new_worker c)
      | Some j \<Rightarrow>
         (let c1 = poll_worker pl mo u c
          in case worker_of c1 u of
               None \<Rightarrow> (True, c1)
             | Some i \<Rightarrow>
                (case wi_state i of
                   Running \<Rightarrow> (False, set_worker u (i\<lparr>wi_last_heartbeat := mo_now mo\<rparr>) c1)
                 | Failed \<Rightarrow> (True, set_worker u (i\<lparr>wi_state := Stopped, wi_restarts := 0, wi_crash_times := []\<rparr>) c1)
                 | Stopped \<Rightarrow> (True, c1))))"

text \<open>The second half: the configuration, its file, and the process.\<close>

definition spawn_worker :: "moment \<Rightarrow> string \<Rightarrow> worker_info \<Rightarrow> control \<Rightarrow> control" where
  "spawn_worker mo u i c =
     (if mo_spawns mo
      then set_worker u (i\<lparr>wi_process := Some (co_next c), wi_state := Running, wi_last_start := mo_now mo\<rparr>)
             (c\<lparr>co_alive := co_alive c @ [(co_next c, u)], co_next := co_next c + 1, co_spawned := co_spawned c @ [(u, mo_now mo)]\<rparr>)
      else set_worker u (i\<lparr>wi_state := Failed\<rparr>) c)"

definition launch_worker :: "plane \<Rightarrow> moment \<Rightarrow> string \<Rightarrow> control \<Rightarrow> unit res \<times> control" where
  "launch_worker pl mo u c =
     (let i = (case worker_of c u of Some i \<Rightarrow> i | None \<Rightarrow> new_worker)
      in case build_worker_config (pl_decrypt pl) (pl_text pl) (lookup_tenant mo c u) u (pl_base pl) of
           Inl WorkerConfigError \<Rightarrow> (Inr (), set_worker u (i\<lparr>wi_state := Failed\<rparr>) c)
         | Inl (Fault e) \<Rightarrow> (Inl e, c)
         | Inr cfg \<Rightarrow>
            (let i1 = i\<lparr>wi_config_path := worker_path pl u,
                        wi_restarts := (if wi_last_start i = 0 then wi_restarts i else wi_restarts i + 1)\<rparr>;
                 c1 = c\<lparr>co_files := AList.update (worker_path pl u) cfg (co_files c)\<rparr>
             in (Inr (), spawn_worker mo u i1 c1)))"

definition start_worker :: "plane \<Rightarrow> moment \<Rightarrow> string \<Rightarrow> control \<Rightarrow> unit res \<times> control" where
  "start_worker pl mo u c =
     (let (go, c1) = prepare_worker pl mo u c in if go then launch_worker pl mo u c1 else (Inr (), c1))"

text \<open>What the sweep restarts: an exited worker that was not stopped on purpose, unless its tenant is known to be inactive.\<close>

definition restartable :: "control \<Rightarrow> string \<Rightarrow> bool" where
  "restartable c u = (case worker_of c u of None \<Rightarrow> False | Some i \<Rightarrow> wi_state i = Stopped \<and> wi_config_path i \<noteq> [])"

definition known_inactive :: "moment \<Rightarrow> control \<Rightarrow> string \<Rightarrow> bool" where
  "known_inactive mo c u = (case lookup_tenant mo c u of Inr (Some t) \<Rightarrow> tn_status t \<noteq> ''active'' | _ \<Rightarrow> False)"

fun sweep_workers :: "plane \<Rightarrow> moment \<Rightarrow> string list \<Rightarrow> control \<Rightarrow> unit res \<times> control" where
  "sweep_workers pl mo [] c = (Inr (), c)"
| "sweep_workers pl mo (u # us) c =
     (let c1 = poll_worker pl mo u c
      in if restartable c1 u \<and> \<not> known_inactive mo c1 u
         then bindS (start_worker pl mo u c1) (\<lambda>x c2. sweep_workers pl mo us c2)
         else sweep_workers pl mo us c1)"

definition sweep :: "plane \<Rightarrow> moment \<Rightarrow> control \<Rightarrow> unit res \<times> control" where
  "sweep pl mo c = sweep_workers pl mo (map fst (co_workers c)) c"

text \<open>A failing sweep does not keep \<^verbatim>\<open>ensure\<close> from going on.\<close>

definition ensure :: "plane \<Rightarrow> moment \<Rightarrow> string \<Rightarrow> control \<Rightarrow> unit res \<times> control" where
  "ensure pl mo u c = start_worker pl mo u (snd (sweep pl mo c))"

definition stop_worker :: "plane \<Rightarrow> moment \<Rightarrow> string \<Rightarrow> control \<Rightarrow> control" where
  "stop_worker pl mo u c =
     (case worker_of c u of
        None \<Rightarrow> set_worker u new_worker c
      | Some j \<Rightarrow>
         (let c1 = poll_worker pl mo u c; i = (case worker_of c1 u of Some i \<Rightarrow> i | None \<Rightarrow> j);
              c2 = (case wi_process i of None \<Rightarrow> c1
                    | Some p \<Rightarrow> if mo_kills mo then c1\<lparr>co_alive := filter (\<lambda>(q, v). q \<noteq> p) (co_alive c1)\<rparr> else c1)
          in set_worker u (i\<lparr>wi_process := None, wi_state := (if wi_state i = Running then Stopped else wi_state i),
                             wi_config_path := []\<rparr>) (remove_config i c2)))"

definition stop_all :: "plane \<Rightarrow> moment \<Rightarrow> control \<Rightarrow> control" where
  "stop_all pl mo c = foldl (\<lambda>c u. stop_worker pl mo u c) c (map fst (co_workers c))"

text \<open>What is reported of a worker: its state and, when there is one, process, restarts and heartbeat.\<close>

definition worker_status :: "plane \<Rightarrow> moment \<Rightarrow> string \<Rightarrow> control \<Rightarrow> (worker_state \<times> (nat option \<times> nat \<times> rat) option) \<times> control" where
  "worker_status pl mo u c =
     (let c1 = poll_worker pl mo u c
      in (case worker_of c1 u of None \<Rightarrow> (Stopped, None) | Some i \<Rightarrow> (wi_state i, Some (wi_process i, wi_restarts i, wi_last_heartbeat i)), c1))"

section \<open>The routes\<close>

text \<open>
  A route answers a token of an active or halted tenant, so it needs the registry (\<^verbatim>\<open>current_tenant\<close>). An exception of a
  route ends it with what it changed so far.
\<close>

definition signed_in :: "moment \<Rightarrow> control \<Rightarrow> string \<Rightarrow> bool" where
  "signed_in mo c u = (case lookup_tenant mo c u of Inr (Some t) \<Rightarrow> tn_status t \<in> {''active'', ''halted''} | _ \<Rightarrow> False)"

definition update_tenant :: "string \<Rightarrow> (tenant \<Rightarrow> tenant) \<Rightarrow> control \<Rightarrow> control" where
  "update_tenant u f c = c\<lparr>co_tenants := map (\<lambda>(v, t). (v, if v = u then f t else t)) (co_tenants c)\<rparr>"

definition halt :: "tenant \<Rightarrow> tenant" where
  "halt t = t\<lparr>tn_status := ''halted''\<rparr>"

definition revive :: "tenant \<Rightarrow> tenant" where
  "revive t = (if tn_status t = ''halted'' then t\<lparr>tn_status := ''active''\<rparr> else t)"

definition store :: "credential option \<Rightarrow> tenant \<Rightarrow> tenant" where
  "store cr t = t\<lparr>tn_credential := cr\<rparr>"

definition worker_kill :: "plane \<Rightarrow> moment \<Rightarrow> string \<Rightarrow> control \<Rightarrow> control" where
  "worker_kill pl mo u c = (if signed_in mo c u then update_tenant u halt (stop_worker pl mo u c) else c)"

definition worker_resume :: "plane \<Rightarrow> moment \<Rightarrow> string \<Rightarrow> control \<Rightarrow> control" where
  "worker_resume pl mo u c =
     (if signed_in mo c u
      then (let c1 = update_tenant u revive c
            in case map_of (co_tenants c1) u of
                 None \<Rightarrow> c1
               | Some t \<Rightarrow> if tn_credential t = None then c1 else snd (ensure pl mo u c1))
      else c)"

definition worker_restart :: "plane \<Rightarrow> moment \<Rightarrow> string \<Rightarrow> control \<Rightarrow> control" where
  "worker_restart pl mo u c = (if signed_in mo c u then snd (ensure pl mo u (stop_worker pl mo u c)) else c)"

text \<open>Live trading needs the operator's consent and the user's; \<open>verified\<close> is what the exchange says of the keys.\<close>

definition exchange_connect :: "plane \<Rightarrow> moment \<Rightarrow> string \<Rightarrow> credential \<Rightarrow> bool \<Rightarrow> bool \<Rightarrow> control \<Rightarrow> control" where
  "exchange_connect pl mo u cr confirm verified c =
     (if \<not> signed_in mo c u then c
      else (case map_of (co_tenants c) u of
          None \<Rightarrow> c
        | Some t \<Rightarrow>
            if tn_status t \<noteq> ''active'' then c
            else if \<not> cr_testnet cr \<and> \<not> (pl_allow_live pl \<and> confirm) then c
            else if \<not> verified then c
            else snd (ensure pl mo u (update_tenant u (store (Some cr)) c))))"

definition exchange_disconnect :: "plane \<Rightarrow> moment \<Rightarrow> string \<Rightarrow> control \<Rightarrow> control" where
  "exchange_disconnect pl mo u c = (if signed_in mo c u then stop_worker pl mo u (update_tenant u (store None) c) else c)"

text \<open>An event: a process exits, the periodic sweep, the shutdown, or a request.\<close>

datatype control_event = Exits nat | Sweeps | StopsAll | Kills string | Resumes string | Restarts string
  | Connects string credential bool bool | Disconnects string | Asks string

fun control_step :: "plane \<Rightarrow> control \<Rightarrow> moment \<times> control_event \<Rightarrow> control" where
  "control_step pl c (mo, Exits p) = c\<lparr>co_alive := filter (\<lambda>(q, v). q \<noteq> p) (co_alive c)\<rparr>"
| "control_step pl c (mo, Sweeps) = snd (sweep pl mo c)"
| "control_step pl c (mo, StopsAll) = stop_all pl mo c"
| "control_step pl c (mo, Kills u) = worker_kill pl mo u c"
| "control_step pl c (mo, Resumes u) = worker_resume pl mo u c"
| "control_step pl c (mo, Restarts u) = worker_restart pl mo u c"
| "control_step pl c (mo, Connects u cr confirm verified) = exchange_connect pl mo u cr confirm verified c"
| "control_step pl c (mo, Disconnects u) = exchange_disconnect pl mo u c"
| "control_step pl c (mo, Asks u) = (if signed_in mo c u then snd (worker_status pl mo u c) else c)"

definition control_run :: "plane \<Rightarrow> control \<Rightarrow> (moment \<times> control_event) list \<Rightarrow> control" where
  "control_run pl c es = foldl (control_step pl) c es"

definition start_control :: "(string, tenant) dict \<Rightarrow> control" where
  "start_control ts = \<lparr>co_workers = [], co_tenants = ts, co_alive = [], co_next = 0, co_files = [], co_spawned = []\<rparr>"

section \<open>Reading the operations\<close>

lemma set_worker_fields [simp]: "co_tenants (set_worker u i c) = co_tenants c" "co_alive (set_worker u i c) = co_alive c"
  "co_next (set_worker u i c) = co_next c" "co_files (set_worker u i c) = co_files c" "co_spawned (set_worker u i c) = co_spawned c"
  by (simp_all add: set_worker_def)

lemma remove_config_fields [simp]: "co_tenants (remove_config i c) = co_tenants c" "co_alive (remove_config i c) = co_alive c"
  "co_next (remove_config i c) = co_next c" "co_workers (remove_config i c) = co_workers c"
  "co_spawned (remove_config i c) = co_spawned c"
  by (simp_all add: remove_config_def)

lemma worker_of_set [simp]: "worker_of (set_worker u i c) v = (if v = u then Some i else worker_of c v)"
  by (simp add: worker_of_def set_worker_def update_conv')

lemma worker_of_cong: "co_workers c = co_workers c' \<Longrightarrow> worker_of c v = worker_of c' v"
  by (simp add: worker_of_def)

lemma worker_of_remove [simp]: "worker_of (remove_config i c) v = worker_of c v"
  by (simp add: worker_of_def)

lemma worker_of_update [simp]: "worker_of (c\<lparr>co_tenants := t\<rparr>) v = worker_of c v" "worker_of (c\<lparr>co_alive := a\<rparr>) v = worker_of c v"
  "worker_of (c\<lparr>co_files := f\<rparr>) v = worker_of c v" "worker_of (c\<lparr>co_next := n\<rparr>) v = worker_of c v"
  "worker_of (c\<lparr>co_spawned := z\<rparr>) v = worker_of c v"
  by (simp_all add: worker_of_def)

lemma update_tenant_fields [simp]: "co_workers (update_tenant u f c) = co_workers c" "co_alive (update_tenant u f c) = co_alive c"
  "co_next (update_tenant u f c) = co_next c" "co_files (update_tenant u f c) = co_files c"
  "co_spawned (update_tenant u f c) = co_spawned c" "worker_of (update_tenant u f c) v = worker_of c v"
  by (simp_all add: update_tenant_def worker_of_def)

lemma map_of_update_tenant [simp]:
  "map_of (co_tenants (update_tenant u f c)) v = (if v = u then map_option f (map_of (co_tenants c) v) else map_of (co_tenants c) v)"
proof -
  have "map_of (map (\<lambda>(w, t). (w, if w = u then f t else t)) ts) v = (if v = u then map_option f (map_of ts v) else map_of ts v)" for ts
    by (induction ts) auto
  then show ?thesis by (simp add: update_tenant_def)
qed

lemma poll_fields [simp]: "co_tenants (poll_worker pl mo u c) = co_tenants c" "co_alive (poll_worker pl mo u c) = co_alive c"
  "co_next (poll_worker pl mo u c) = co_next c" "co_spawned (poll_worker pl mo u c) = co_spawned c"
  by (auto simp: poll_worker_def Let_def split: option.split)

lemma stop_worker_fields [simp]: "co_tenants (stop_worker pl mo u c) = co_tenants c" "co_next (stop_worker pl mo u c) = co_next c"
  "co_spawned (stop_worker pl mo u c) = co_spawned c"
  by (auto simp: stop_worker_def Let_def split: option.split)

lemma stop_worker_alive: "set (co_alive (stop_worker pl mo u c)) \<subseteq> set (co_alive c)"
  by (auto simp: stop_worker_def Let_def split: option.split)

lemma poll_cases [case_names same beating exited]:
  obtains (same) "poll_worker pl mo u c = c"
  | (beating) i where "worker_of c u = Some i" "poll_worker pl mo u c = set_worker u (i\<lparr>wi_last_heartbeat := mo_now mo\<rparr>) c"
  | (exited) i p j where "worker_of c u = Some i" "wi_state i = Running" "wi_process i = Some p" "\<not> is_alive c p"
      "wi_crash_times j = filter (\<lambda>t. fround (mo_now mo - pl_window pl) < t) (wi_crash_times i @ [mo_now mo])"
      "wi_process j = None" "wi_config_path j = wi_config_path i"
      "wi_state j = (if pl_max_restarts pl < length (wi_crash_times j) then Failed else Stopped)"
      "poll_worker pl mo u c = remove_config i (set_worker u j c)"
proof (cases "\<exists>i p. worker_of c u = Some i \<and> wi_process i = Some p \<and> wi_state i = Running")
  case False
  then show ?thesis by (intro same) (auto simp: poll_worker_def split: option.split)
next
  case True
  then obtain i p where i: "worker_of c u = Some i" "wi_process i = Some p" "wi_state i = Running" by blast
  show ?thesis
  proof (cases "is_alive c p")
    case True
    with i show ?thesis by (intro beating) (simp_all add: poll_worker_def)
  next
    case False
    define crashes where "crashes = filter (\<lambda>t. fround (mo_now mo - pl_window pl) < t) (wi_crash_times i @ [mo_now mo])"
    with i False show ?thesis
      by (intro exited[of i p "i\<lparr>wi_last_exit := mo_now mo, wi_crash_times := crashes, wi_process := None,
            wi_state := (if pl_max_restarts pl < length crashes then Failed else Stopped)\<rparr>"])
        (simp_all only: poll_worker_def Let_def option.case if_False not_True_eq_False simp_thms crashes_def[symmetric], simp_all)
  qed
qed

lemma stop_shape:
  assumes "worker_of c u = Some j" "worker_of (poll_worker pl mo u c) u = Some i"
  obtains a where "stop_worker pl mo u c = set_worker u
    (i\<lparr>wi_process := None, wi_state := (if wi_state i = Running then Stopped else wi_state i), wi_config_path := []\<rparr>)
    (remove_config i (poll_worker pl mo u c\<lparr>co_alive := a\<rparr>))"
proof -
  have n: "d\<lparr>co_alive := co_alive d\<rparr> = d" for d :: control by (cases d) simp
  have "\<exists>a. (case wi_process i of None \<Rightarrow> d | Some p \<Rightarrow> if mo_kills mo then d\<lparr>co_alive := f p\<rparr> else d) = d\<lparr>co_alive := a\<rparr>"
    for d :: control and f using n[of d, symmetric] by (cases "wi_process i") (auto intro: exI[of _ "co_alive d"])
  from this[of "poll_worker pl mo u c" "\<lambda>p. filter (\<lambda>(q, v). q \<noteq> p) (co_alive (poll_worker pl mo u c))"]
  obtain a where a: "(case wi_process i of None \<Rightarrow> poll_worker pl mo u c
      | Some p \<Rightarrow> if mo_kills mo then poll_worker pl mo u c\<lparr>co_alive := filter (\<lambda>(q, v). q \<noteq> p) (co_alive (poll_worker pl mo u c))\<rparr>
          else poll_worker pl mo u c) = poll_worker pl mo u c\<lparr>co_alive := a\<rparr>" by blast
  show ?thesis by (rule that[of a]) (simp only: stop_worker_def Let_def assms option.case a)
qed

text \<open>What a launch does, once the registry has answered.\<close>

lemma launch_cases [consumes 1, case_names refused raised launched unspawned]:
  assumes "worker_of c u = Some i"
  obtains (refused) "build_worker_config (pl_decrypt pl) (pl_text pl) (lookup_tenant mo c u) u (pl_base pl) = Inl WorkerConfigError"
      "snd (launch_worker pl mo u c) = set_worker u (i\<lparr>wi_state := Failed\<rparr>) c"
  | (raised) e where "build_worker_config (pl_decrypt pl) (pl_text pl) (lookup_tenant mo c u) u (pl_base pl) = Inl (Fault e)"
      "snd (launch_worker pl mo u c) = c"
  | (launched) cfg j where "build_worker_config (pl_decrypt pl) (pl_text pl) (lookup_tenant mo c u) u (pl_base pl) = Inr cfg" "mo_spawns mo"
      "wi_config_path j = worker_path pl u" "wi_process j = Some (co_next c)" "wi_state j = Running" "wi_crash_times j = wi_crash_times i"
      "snd (launch_worker pl mo u c) = set_worker u j
         (c\<lparr>co_files := AList.update (worker_path pl u) cfg (co_files c), co_alive := co_alive c @ [(co_next c, u)],
            co_next := co_next c + 1, co_spawned := co_spawned c @ [(u, mo_now mo)]\<rparr>)"
  | (unspawned) cfg j where "build_worker_config (pl_decrypt pl) (pl_text pl) (lookup_tenant mo c u) u (pl_base pl) = Inr cfg" "\<not> mo_spawns mo"
      "wi_config_path j = worker_path pl u" "wi_process j = wi_process i" "wi_state j = Failed" "wi_crash_times j = wi_crash_times i"
      "snd (launch_worker pl mo u c) = set_worker u j (c\<lparr>co_files := AList.update (worker_path pl u) cfg (co_files c)\<rparr>)"
proof (cases "build_worker_config (pl_decrypt pl) (pl_text pl) (lookup_tenant mo c u) u (pl_base pl)")
  case (Inl e)
  with assms show ?thesis by (cases e) (auto simp: launch_worker_def intro: refused raised)
next
  case (Inr cfg)
  let ?i = "i\<lparr>wi_config_path := worker_path pl u, wi_restarts := (if wi_last_start i = 0 then wi_restarts i else wi_restarts i + 1)\<rparr>"
  show ?thesis
  proof (cases "mo_spawns mo")
    case True
    with assms Inr show ?thesis
      by (intro launched[of cfg "?i\<lparr>wi_process := Some (co_next c), wi_state := Running, wi_last_start := mo_now mo\<rparr>"])
        (simp_all add: launch_worker_def spawn_worker_def Let_def)
  next
    case False
    with assms Inr show ?thesis by (intro unspawned[of cfg "?i\<lparr>wi_state := Failed\<rparr>"]) (simp_all add: launch_worker_def spawn_worker_def Let_def)
  qed
qed

text \<open>What \<open>ensure\<close> finds before it launches: never a running worker.\<close>

lemma start_cases [consumes 1, case_names fresh running cleared stopped]:
  assumes "c' = poll_worker pl mo u c"
  obtains (fresh) "worker_of c u = None" "snd (start_worker pl mo u c) = snd (launch_worker pl mo u (set_worker u new_worker c))"
  | (running) i where "worker_of c' u = Some i" "wi_state i = Running"
      "snd (start_worker pl mo u c) = set_worker u (i\<lparr>wi_last_heartbeat := mo_now mo\<rparr>) c'"
  | (cleared) i where "worker_of c' u = Some i" "wi_state i = Failed" "snd (start_worker pl mo u c)
      = snd (launch_worker pl mo u (set_worker u (i\<lparr>wi_state := Stopped, wi_restarts := 0, wi_crash_times := []\<rparr>) c'))"
  | (stopped) i where "worker_of c' u = Some i" "wi_state i = Stopped"
      "snd (start_worker pl mo u c) = snd (launch_worker pl mo u c')"
proof (cases "worker_of c u")
  case None
  then show ?thesis by (intro fresh) (simp_all add: start_worker_def prepare_worker_def)
next
  case (Some j)
  then have "worker_of c' u \<noteq> None" by (simp add: assms poll_worker_def Let_def split: option.split)
  then obtain i where i: "worker_of c' u = Some i" by blast
  show ?thesis
  proof (cases "wi_state i")
    case Running
    with i Some show ?thesis by (intro running) (simp_all add: start_worker_def prepare_worker_def assms)
  next
    case Stopped
    with i Some show ?thesis by (intro stopped) (simp_all add: start_worker_def prepare_worker_def assms)
  next
    case Failed
    with i Some show ?thesis by (intro cleared) (simp_all add: start_worker_def prepare_worker_def assms)
  qed
qed

section \<open>What every event maintains\<close>

text \<open>
  A property of the control plane that the steps of the supervisor and of the registry maintain is maintained by every
  event and every run; which tenants may be started or revived is up to the property.
\<close>

locale maintained =
  fixes pl :: plane and fair :: "moment \<Rightarrow> bool" and startable revivable :: "string \<Rightarrow> bool" and holds :: "control \<Rightarrow> bool"
  assumes poll: "fair mo \<Longrightarrow> holds c \<Longrightarrow> holds (poll_worker pl mo u c)"
    and start: "fair mo \<Longrightarrow> startable u \<or> restartable c u \<Longrightarrow> holds c \<Longrightarrow> holds (snd (start_worker pl mo u c))"
    and stop: "fair mo \<Longrightarrow> holds c \<Longrightarrow> holds (stop_worker pl mo u c)"
    and exit: "holds c \<Longrightarrow> holds (c\<lparr>co_alive := filter (\<lambda>(q, v). q \<noteq> p) (co_alive c)\<rparr>)"
    and halting: "holds c \<Longrightarrow> holds (update_tenant u halt c)"
    and reviving: "revivable u \<Longrightarrow> holds c \<Longrightarrow> holds (update_tenant u revive c)"
    and storing: "pl_allow_live pl \<or> cr_testnet cr \<Longrightarrow> holds c \<Longrightarrow> holds (update_tenant u (store (Some cr)) c)"
    and dropping: "holds c \<Longrightarrow> holds (update_tenant u (store None) c)"
begin

definition admitted :: "moment \<times> control_event \<Rightarrow> bool" where
  "admitted me = (fair (fst me) \<and> (case snd me of Resumes u \<Rightarrow> startable u \<and> revivable u | Restarts u \<Rightarrow> startable u
     | Connects u cr cf v \<Rightarrow> startable u | _ \<Rightarrow> True))"

lemma sweep_workers: "fair mo \<Longrightarrow> holds c \<Longrightarrow> holds (snd (sweep_workers pl mo us c))"
proof (induction us arbitrary: c)
  case (Cons u us)
  let ?c = "poll_worker pl mo u c"
  have p: "holds ?c" using poll Cons.prems by blast
  then have s: "restartable ?c u \<Longrightarrow> holds (snd (start_worker pl mo u ?c))" using start Cons.prems(1) by blast
  obtain r c2 where r: "start_worker pl mo u ?c = (r, c2)" by fastforce
  show ?case
    using Cons.IH[OF Cons.prems(1) p] Cons.IH[OF Cons.prems(1)] s
    by (cases r) (auto simp: r Let_def)
qed simp

lemma ensure: "fair mo \<Longrightarrow> startable u \<Longrightarrow> holds c \<Longrightarrow> holds (snd (ensure pl mo u c))"
  using start sweep_workers by (auto simp: ensure_def sweep_def)

lemma stop_all: "fair mo \<Longrightarrow> holds c \<Longrightarrow> holds (stop_all pl mo c)"
proof -
  assume f: "fair mo"
  have "holds c \<Longrightarrow> holds (foldl (\<lambda>c u. stop_worker pl mo u c) c us)" for c us
    by (induction us arbitrary: c) (auto intro: stop[OF f])
  then show "holds c \<Longrightarrow> holds (stop_all pl mo c)" by (simp add: stop_all_def)
qed

lemma step_event:
  assumes "admitted (mo, e)" "holds c"
  shows "holds (control_step pl c (mo, e))"
proof (cases e)
  case Sweeps
  with assms show ?thesis by (auto simp: admitted_def sweep_def intro: sweep_workers)
next
  case (Resumes u)
  with assms show ?thesis by (auto simp: admitted_def worker_resume_def Let_def intro: ensure reviving split: option.split)
next
  case (Connects u cr cf v)
  with assms show ?thesis by (auto simp: admitted_def exchange_connect_def intro: ensure storing split: option.split)
qed (use assms in \<open>auto simp: admitted_def worker_kill_def worker_restart_def exchange_disconnect_def
       worker_status_def Let_def intro: poll exit halting stop stop_all dropping ensure\<close>)

lemma run: "list_all admitted es \<Longrightarrow> holds c \<Longrightarrow> holds (control_run pl c es)"
proof (induction es arbitrary: c)
  case (Cons me es)
  then show ?case using step_event[of "fst me" "snd me" c] by (simp add: control_run_def)
qed (simp add: control_run_def)

end

text \<open>Starting a worker, for a property that every step of it maintains.\<close>

lemma start_rule:
  assumes "P c" "\<And>c. P c \<Longrightarrow> P (poll_worker pl mo u c)"
    and "worker_of c u = None \<Longrightarrow> P (set_worker u new_worker c)"
    and "\<And>c i. P c \<Longrightarrow> worker_of c u = Some i \<Longrightarrow> wi_state i = Running \<Longrightarrow> P (set_worker u (i\<lparr>wi_last_heartbeat := mo_now mo\<rparr>) c)"
    and "\<And>c i. P c \<Longrightarrow> worker_of c u = Some i \<Longrightarrow> wi_state i = Failed
      \<Longrightarrow> P (set_worker u (i\<lparr>wi_state := Stopped, wi_restarts := 0, wi_crash_times := []\<rparr>) c)"
    and launch: "\<And>c i. P c \<Longrightarrow> worker_of c u = Some i \<Longrightarrow> wi_state i = Stopped \<Longrightarrow> P (snd (launch_worker pl mo u c))"
  shows "P (snd (start_worker pl mo u c))"
proof (use refl[of "poll_worker pl mo u c"] in \<open>cases rule: start_cases\<close>)
  case fresh
  then show ?thesis using assms(3) launch[of "set_worker u new_worker c"] by (simp add: new_worker_def)
next
  case (running i)
  then show ?thesis using assms(1,2,4) by auto
next
  case (cleared i)
  let ?c = "set_worker u (i\<lparr>wi_state := Stopped, wi_restarts := 0, wi_crash_times := []\<rparr>) (poll_worker pl mo u c)"
  have "P ?c" using cleared assms(1,2,5) by blast
  with launch[of ?c] cleared show ?thesis by simp
next
  case (stopped i)
  then show ?thesis using assms(1,2) launch by auto
qed

section \<open>The kill switch\<close>

definition halted_for :: "string \<Rightarrow> control \<Rightarrow> bool" where
  "halted_for u c \<longleftrightarrow> (\<forall>t. map_of (co_tenants c) u = Some t \<longrightarrow> tn_status t \<noteq> ''active'') \<and> u \<notin> snd ` set (co_alive c)"

lemma halted_simps [simp]: "halted_for u (set_worker v i c) = halted_for u c" "halted_for u (poll_worker pl mo v c) = halted_for u c"
  by (simp_all add: halted_for_def)

lemma build_halted:
  "halted_for u c \<Longrightarrow> build_worker_config dec txt (lookup_tenant mo c u) u base \<noteq> Inr cfg"
  by (auto simp: halted_for_def lookup_tenant_def elim!: built split: if_splits)

lemma launch_halted:
  assumes "halted_for u c" "worker_of c v = Some i"
  shows "halted_for u (snd (launch_worker pl mo v c))"
proof (use assms(2) in \<open>cases rule: launch_cases[where pl = pl and mo = mo]\<close>)
  case (launched cfg j)
  then have "v \<noteq> u" using build_halted[OF assms(1)] by blast
  with launched(7) assms(1) show ?thesis by (simp add: halted_for_def)
qed (use assms(1) in \<open>simp_all add: halted_for_def\<close>)

interpretation halted: maintained pl "\<lambda>mo. True" "\<lambda>v. True" "\<lambda>v. v \<noteq> u" "halted_for u" for pl u
proof
  show "halted_for u (snd (start_worker pl mo v c))" if "halted_for u c" for mo v c
    using that by (rule start_rule[where P = "halted_for u"]) (simp_all add: launch_halted that)
  show "halted_for u (stop_worker pl mo v c)" if "halted_for u c" for mo v c
    using that stop_worker_alive[of pl mo v c] by (fastforce simp: halted_for_def)
qed (auto simp: halted_for_def halt_def store_def revive_def split: if_splits)

text \<open>Every live process is the one its tenant's worker holds, so there is at most one per tenant.\<close>

definition handled :: "control \<Rightarrow> bool" where
  "handled c \<longleftrightarrow> (\<forall>u i. worker_of c u = Some i \<longrightarrow> (wi_process i \<noteq> None \<longleftrightarrow> wi_state i = Running))
     \<and> (\<forall>p u. (p, u) \<in> set (co_alive c) \<longrightarrow> (\<exists>i. worker_of c u = Some i \<and> wi_process i = Some p))"

lemma handledD:
  assumes "handled c"
  shows "(p, u) \<in> set (co_alive c) \<Longrightarrow> worker_of c u = Some i \<Longrightarrow> wi_process i = Some p"
    and "worker_of c u = None \<Longrightarrow> (p, u) \<notin> set (co_alive c)"
    and "worker_of c u = Some i \<Longrightarrow> wi_process i = None \<longleftrightarrow> wi_state i \<noteq> Running"
  using assms by (fastforce simp: handled_def)+

lemma handled_set:
  assumes "handled c" "wi_process i \<noteq> None \<longleftrightarrow> wi_state i = Running"
    and "\<And>p. (p, u) \<in> set (co_alive c) \<Longrightarrow> wi_process i = Some p"
  shows "handled (set_worker u i c)"
  using assms by (auto simp: handled_def)

lemma handled_same:
  assumes "handled c" "worker_of c u = Some j" "wi_process i = wi_process j" "wi_state i = Running \<longleftrightarrow> wi_state j = Running"
  shows "handled (set_worker u i c)"
  using assms handledD[OF assms(1)] by (intro handled_set) auto

lemma handled_remove: "handled c \<Longrightarrow> handled (remove_config i c)"
  by (simp add: handled_def)

lemma handled_poll:
  assumes "handled c"
  shows "handled (poll_worker pl mo u c)"
proof (cases rule: poll_cases[of pl mo u c])
  case (exited i p j)
  have "handled (set_worker u j c)"
    using assms exited handledD(1)[OF assms _ exited(1)] by (intro handled_set) (auto simp: is_alive_def rev_image_eqI)
  with exited show ?thesis by (simp add: handled_remove)
qed (use assms in \<open>auto elim: handled_same\<close>)

lemma handled_launch:
  assumes "handled c" "worker_of c u = Some i" "wi_state i = Stopped"
  shows "handled (snd (launch_worker pl mo u c))"
proof (use assms(2) in \<open>cases rule: launch_cases[where pl = pl and mo = mo]\<close>)
  case (launched cfg j)
  have "(p, u) \<notin> set (co_alive c)" for p using handledD[OF assms(1)] assms(2,3) by force
  with launched assms(1) show ?thesis by (auto simp: handled_def)
next
  case (unspawned cfg j)
  have "handled (c\<lparr>co_files := f\<rparr>)" for f using assms(1) by (simp add: handled_def)
  with unspawned assms show ?thesis by (simp add: handled_same)
qed (use assms in \<open>auto intro: handled_same\<close>)

lemma handled_stop:
  assumes "handled c" "mo_kills mo"
  shows "handled (stop_worker pl mo u c) \<and> (p, u) \<notin> set (co_alive (stop_worker pl mo u c))"
proof (cases "worker_of c u")
  case None
  have "handled (set_worker u new_worker c)" using assms handledD(2)[OF assms(1) None] by (intro handled_set) (auto simp: new_worker_def)
  with None show ?thesis using handledD(2)[OF assms(1) None] by (simp add: stop_worker_def)
next
  case (Some j)
  let ?c = "poll_worker pl mo u c"
  have h: "handled ?c" using handled_poll assms(1) .
  have "worker_of ?c u \<noteq> None" using Some by (simp add: poll_worker_def Let_def split: option.split)
  then obtain i where i: "worker_of ?c u = Some i" by blast
  have "(q, u) \<in> set (co_alive ?c) \<Longrightarrow> wi_process i = Some q" for q using handledD(1)[OF h _ i] .
  with h i assms(2) Some show ?thesis
    by (cases "wi_process i") (auto simp: stop_worker_def handled_def)
qed

interpretation handled: maintained pl mo_kills "\<lambda>v. True" "\<lambda>v. True" handled for pl
proof
  show "handled (snd (start_worker pl mo u c))" if "handled c" for mo u c
    using that
  proof (rule start_rule[where P = handled])
    show "worker_of c u = None \<Longrightarrow> handled (set_worker u new_worker c)"
      using that handledD(2)[OF that] by (intro handled_set) (auto simp: new_worker_def)
  qed (auto intro: handled_poll handled_launch elim: handled_same)
  show "handled (stop_worker pl mo v c)" if "mo_kills mo" "handled c" for mo v c using handled_stop that by blast
qed (simp_all add: handled_poll, auto simp: handled_def)

end
