(* ===== verification/Tenancy.thy ===== *)
theory Tenancy
  imports Supervisor
begin

text \<open>
  What runs of the control plane guarantee: configuration files with decrypted keys belong to running workers, a crash loop is
  bounded, the kill switch holds, and live trading needs the operator. And where the guarantees end: a start interleaved with
  another, a process that cannot be started, a restart of the control plane.
\<close>

section \<open>Configuration files\<close>

lemma worker_path_inject: "worker_path pl u = worker_path pl v \<longleftrightarrow> u = v"
  by (simp add: worker_path_def)

lemma worker_path_nonempty [simp]: "worker_path pl u \<noteq> []" "[] \<noteq> worker_path pl u"
  by (simp_all add: worker_path_def)

text \<open>Every file is the one of a running worker.\<close>

definition runs :: "control \<Rightarrow> string \<Rightarrow> bool" where
  "runs c u = (case worker_of c u of None \<Rightarrow> False | Some i \<Rightarrow> wi_state i = Running)"

lemma runs_set [simp]: "runs (set_worker u i c) v = (if v = u then wi_state i = Running else runs c v)"
  by (simp add: runs_def)

lemma runs_frame [simp]: "runs (remove_config i c) v = runs c v" "runs (c\<lparr>co_files := f\<rparr>) v = runs c v"
  "runs (c\<lparr>co_alive := a\<rparr>) v = runs c v" "runs (c\<lparr>co_next := n\<rparr>) v = runs c v" "runs (c\<lparr>co_spawned := z\<rparr>) v = runs c v"
  "runs (update_tenant u g c) v = runs c v"
  by (simp_all add: runs_def)

definition filed :: "plane \<Rightarrow> control \<Rightarrow> bool" where
  "filed pl c \<longleftrightarrow>
     (\<forall>u i. worker_of c u = Some i \<longrightarrow> wi_config_path i = worker_path pl u \<or> wi_config_path i = [] \<and> wi_state i \<noteq> Running)
     \<and> (\<forall>path. map_of (co_files c) path \<noteq> None \<longrightarrow> (\<exists>u. path = worker_path pl u \<and> runs c u))"

lemma filedD:
  assumes "filed pl c"
  shows "worker_of c u = Some i \<Longrightarrow> wi_config_path i = worker_path pl u \<or> wi_config_path i = [] \<and> wi_state i \<noteq> Running"
    and "map_of (co_files c) (worker_path pl u) = None \<or> runs c u"
  using assms by (simp add: filed_def, auto simp: filed_def worker_path_inject)

lemma filed_set:
  assumes "filed pl c" "wi_config_path i = worker_path pl u \<or> wi_config_path i = [] \<and> wi_state i \<noteq> Running"
    and "map_of (co_files c) (worker_path pl u) = None \<or> wi_state i = Running"
  shows "filed pl (set_worker u i c)"
proof -
  have "\<exists>v. path = worker_path pl v \<and> runs (set_worker u i c) v" if "map_of (co_files c) path \<noteq> None" for path
  proof -
    from assms(1) that obtain v where "path = worker_path pl v" "runs c v" unfolding filed_def by blast
    with assms(3) that show ?thesis by (cases "v = u") (auto intro: exI[of _ v])
  qed
  with assms(1,2) show ?thesis by (simp add: filed_def)
qed

text \<open>A worker that is not running, and its file removed.\<close>

lemma filed_removed:
  assumes f: "filed pl c" and i: "worker_of c u = Some i"
    and j: "wi_config_path j = worker_path pl u \<or> wi_config_path j = []" "wi_state j \<noteq> Running"
  shows "filed pl (set_worker u j (remove_config i c))" "map_of (co_files (remove_config i c)) (worker_path pl u) = None"
proof -
  have "\<not> runs c u \<Longrightarrow> map_of (co_files c) (worker_path pl u) = None" using filedD(2)[OF f] by blast
  moreover have "wi_config_path i = [] \<Longrightarrow> \<not> runs c u" using filedD(1)[OF f i] i by (auto simp: runs_def)
  ultimately show n: "map_of (co_files (remove_config i c)) (worker_path pl u) = None"
    using filedD(1)[OF f i] by (auto simp: remove_config_def delete_conv')
  have "map_of (co_files (remove_config i c)) path \<noteq> None \<Longrightarrow> map_of (co_files c) path \<noteq> None" for path
    by (auto simp: remove_config_def delete_conv' split: if_splits)
  then have "filed pl (remove_config i c)" using f by (simp add: filed_def)
  with n j show "filed pl (set_worker u j (remove_config i c))" by (intro filed_set) auto
qed

lemma filed_same:
  assumes f: "filed pl c" and "worker_of c u = Some j" "wi_config_path i = wi_config_path j" "wi_state i = Running \<longleftrightarrow> wi_state j = Running"
  shows "filed pl (set_worker u i c)"
proof -
  have "map_of (co_files c) (worker_path pl u) = None \<or> runs c u" using filedD(2)[OF f] .
  then show ?thesis using assms filedD(1)[OF f assms(2)] by (intro filed_set) (auto simp: runs_def)
qed

lemma remove_set_commute: "remove_config i (set_worker u j c) = set_worker u j (remove_config i c)"
  by (simp add: remove_config_def set_worker_def)

lemma filed_poll:
  assumes f: "filed pl c"
  shows "filed pl (poll_worker pl mo u c)"
proof (cases rule: poll_cases[of pl mo u c])
  case (exited i p j)
  have "wi_state j \<noteq> Running" by (simp add: exited(8))
  then show ?thesis
    using filedD(1)[OF f exited(1)] unfolding exited(9) remove_set_commute by (intro filed_removed(1)[OF f exited(1)]) (auto simp: exited(7))
next
  case (beating i)
  then show ?thesis using f by (auto elim: filed_same)
qed (use f in simp)

lemma filed_launch:
  assumes f: "filed pl c" and i: "worker_of c u = Some i" and "wi_state i = Stopped" "mo_spawns mo"
  shows "filed pl (snd (launch_worker pl mo u c))"
proof (use i in \<open>cases rule: launch_cases[where pl = pl and mo = mo]\<close>)
  case (launched cfg j)
  have *: "\<exists>v. path = worker_path pl v \<and> runs (snd (launch_worker pl mo u c)) v"
    if p: "map_of (co_files (snd (launch_worker pl mo u c))) path \<noteq> None" for path
  proof (cases "path = worker_path pl u")
    case False
    with p obtain v where "path = worker_path pl v" "runs c v" using f unfolding filed_def launched(7) by (auto simp: update_conv')
    with False show ?thesis by (intro exI[of _ v]) (auto simp: launched(7))
  qed (auto simp: launched(5,7))
  have "wi_config_path k = worker_path pl v \<or> wi_config_path k = [] \<and> wi_state k \<noteq> Running"
    if "worker_of (snd (launch_worker pl mo u c)) v = Some k" for v k
    using that filedD(1)[OF f, of v k] launched(3) by (simp add: launched(7) split: if_splits)
  with * show ?thesis unfolding filed_def by blast
qed (use assms in \<open>auto elim: filed_same\<close>)

lemma filed_stop:
  assumes f: "filed pl c"
  shows "filed pl (stop_worker pl mo u c) \<and> map_of (co_files (stop_worker pl mo u c)) (worker_path pl u) = None"
proof (cases "worker_of c u")
  case None
  then have n: "map_of (co_files c) (worker_path pl u) = None"
    using filedD(2)[OF f, of u] by (simp add: runs_def)
  then have "filed pl (set_worker u new_worker c)" using f by (intro filed_set) (auto simp: new_worker_def)
  with None n show ?thesis by (simp add: stop_worker_def)
next
  case (Some j)
  let ?c = "poll_worker pl mo u c"
  have "worker_of ?c u \<noteq> None" using Some by (cases rule: poll_cases[of pl mo u c]) auto
  then obtain i where i: "worker_of ?c u = Some i" by blast
  have d: "filed pl (?c\<lparr>co_alive := a\<rparr>)" for a using filed_poll[OF f, of mo u] by (simp add: filed_def)
  let ?j = "i\<lparr>wi_process := None, wi_state := (if wi_state i = Running then Stopped else wi_state i), wi_config_path := []\<rparr>"
  have w: "worker_of (?c\<lparr>co_alive := a\<rparr>) u = Some i" for a using i by simp
  obtain a where a: "stop_worker pl mo u c = set_worker u ?j (remove_config i (?c\<lparr>co_alive := a\<rparr>))"
    by (rule stop_shape[OF Some i])
  show ?thesis using filed_removed[OF d w, of ?j a] by (simp add: a)
qed

interpretation filed: maintained pl mo_spawns "\<lambda>v. True" "\<lambda>v. True" "filed pl" for pl
proof
  show "filed pl (snd (start_worker pl mo u c))" if "mo_spawns mo" "filed pl c" for mo u c
    using that(2)
  proof (rule start_rule[where P = "filed pl"])
    show "worker_of c u = None \<Longrightarrow> filed pl (set_worker u new_worker c)"
      using that filedD(2)[OF that(2), of u] by (intro filed_set) (auto simp: new_worker_def runs_def)
  qed (auto intro: filed_poll filed_launch that(1) elim: filed_same)
qed (simp_all add: filed_poll filed_stop, simp_all add: filed_def)

section \<open>The crash budget\<close>

definition within_crashes :: "plane \<Rightarrow> control \<Rightarrow> bool" where
  "within_crashes pl c \<longleftrightarrow> (\<forall>u i. worker_of c u = Some i \<longrightarrow> wi_state i \<noteq> Failed \<longrightarrow> length (wi_crash_times i) \<le> pl_max_restarts pl)"

lemma within_crashes_set:
  "within_crashes pl c \<Longrightarrow> (wi_state i \<noteq> Failed \<Longrightarrow> length (wi_crash_times i) \<le> pl_max_restarts pl) \<Longrightarrow> within_crashes pl (set_worker u i c)"
  by (simp add: within_crashes_def)

lemma within_crashes_frame [simp]: "within_crashes pl (remove_config i c) = within_crashes pl c"
  "within_crashes pl (c\<lparr>co_alive := a\<rparr>) = within_crashes pl c" "within_crashes pl (c\<lparr>co_files := f\<rparr>) = within_crashes pl c"
  "within_crashes pl (c\<lparr>co_next := n\<rparr>) = within_crashes pl c" "within_crashes pl (c\<lparr>co_spawned := z\<rparr>) = within_crashes pl c"
  "within_crashes pl (update_tenant u g c) = within_crashes pl c"
  by (simp_all add: within_crashes_def)

lemma within_crashesD:
  "within_crashes pl c \<Longrightarrow> worker_of c u = Some i \<Longrightarrow> wi_state i \<noteq> Failed \<Longrightarrow> length (wi_crash_times i) \<le> pl_max_restarts pl"
  by (simp add: within_crashes_def)

lemma within_crashes_same:
  assumes "within_crashes pl c" "worker_of c u = Some j" "wi_crash_times i = wi_crash_times j" "wi_state i \<noteq> Failed \<Longrightarrow> wi_state j \<noteq> Failed"
  shows "within_crashes pl (set_worker u i c)"
  using assms within_crashesD[OF assms(1,2)] by (intro within_crashes_set) auto

lemma within_crashes_poll: "within_crashes pl c \<Longrightarrow> within_crashes pl (poll_worker pl mo u c)"
proof (cases rule: poll_cases[of pl mo u c])
  case (exited i p j)
  assume "within_crashes pl c"
  with exited(8) have "within_crashes pl (set_worker u j c)" by (intro within_crashes_set) (auto split: if_splits)
  then show ?thesis by (simp add: exited(9))
next
  case (beating i)
  assume "within_crashes pl c"
  with beating show ?thesis by (auto elim: within_crashes_same)
qed simp

lemma within_crashes_launch:
  assumes "within_crashes pl c" "worker_of c u = Some i" "wi_state i = Stopped"
  shows "within_crashes pl (snd (launch_worker pl mo u c))"
  using assms(2) by (cases rule: launch_cases[where pl = pl and mo = mo])
    (use within_crashesD[OF assms(1,2)] assms in \<open>auto intro!: within_crashes_set\<close>)

lemma within_crashes_stop: "within_crashes pl c \<Longrightarrow> within_crashes pl (stop_worker pl mo u c)"
proof -
  assume w: "within_crashes pl c"
  have p: "within_crashes pl (poll_worker pl mo u c)" using within_crashes_poll w .
  show ?thesis
  proof (cases "worker_of c u")
    case None
    with w show ?thesis by (auto simp: stop_worker_def new_worker_def intro: within_crashes_set)
  next
    case (Some j)
    have "worker_of (poll_worker pl mo u c) u \<noteq> None" using Some by (cases rule: poll_cases[of pl mo u c]) auto
    then obtain i where i: "worker_of (poll_worker pl mo u c) u = Some i" by blast
    from Some i p within_crashesD[OF p i] show ?thesis
      by (auto simp: stop_worker_def Let_def intro!: within_crashes_set split: option.split)
  qed
qed

interpretation crash_budget: maintained pl "\<lambda>mo. True" "\<lambda>v. True" "\<lambda>v. True" "within_crashes pl" for pl
proof
  show "within_crashes pl (snd (start_worker pl mo u c))" if "within_crashes pl c" for mo u c
    using that by (rule start_rule[where P = "within_crashes pl"])
      (auto intro: within_crashes_poll within_crashes_launch elim: within_crashes_same,
        auto intro: within_crashes_set simp: new_worker_def that)
qed (simp_all add: within_crashes_poll within_crashes_stop)

text \<open>
  The processes started for a tenant, and of a worker's crashes those at the given times. Within one window no crash is forgotten
  while another is counted, so between explicit starts the processes started are paid for by crashes.
\<close>

definition spawns :: "string \<Rightarrow> control \<Rightarrow> nat" where
  "spawns u c = length (filter (\<lambda>(v, t). v = u) (co_spawned c))"

definition recent :: "rat set \<Rightarrow> worker_info \<Rightarrow> nat" where
  "recent ts i = length (filter (\<lambda>t. t \<in> ts) (wi_crash_times i))"

definition one_window :: "plane \<Rightarrow> rat set \<Rightarrow> bool" where
  "one_window pl ts \<longleftrightarrow> (\<forall>a\<in>ts. \<forall>b\<in>ts. fround (a - pl_window pl) < b)"

definition affordable :: "plane \<Rightarrow> rat set \<Rightarrow> nat \<Rightarrow> nat \<Rightarrow> worker_info \<Rightarrow> bool" where
  "affordable pl ts n k i =
     (case wi_state i of
        Running \<Rightarrow> k \<le> n + 1 + recent ts i \<and> length (wi_crash_times i) \<le> pl_max_restarts pl
      | Stopped \<Rightarrow> wi_config_path i = [] \<or> k \<le> n + recent ts i \<and> length (wi_crash_times i) \<le> pl_max_restarts pl
      | Failed \<Rightarrow> True)"

definition bounded_spawns :: "plane \<Rightarrow> rat set \<Rightarrow> string \<Rightarrow> nat \<Rightarrow> control \<Rightarrow> bool" where
  "bounded_spawns pl ts u n c \<longleftrightarrow> spawns u c \<le> n + pl_max_restarts pl + 1
     \<and> (\<forall>i. worker_of c u = Some i \<longrightarrow> affordable pl ts n (spawns u c) i)"

lemma recent_le: "recent ts i \<le> length (wi_crash_times i)"
  by (simp add: recent_def)

lemma spawns_frame [simp]: "spawns u (set_worker v i c) = spawns u c" "spawns u (remove_config i c) = spawns u c"
  "spawns u (poll_worker pl mo v c) = spawns u c" "spawns u (stop_worker pl mo v c) = spawns u c"
  "spawns u (update_tenant v f c) = spawns u c" "spawns u (c\<lparr>co_alive := a\<rparr>) = spawns u c"
  by (simp_all add: spawns_def)

lemma others_unchanged:
  assumes "v \<noteq> u"
  shows "worker_of (poll_worker pl mo v c) u = worker_of c u" "worker_of (stop_worker pl mo v c) u = worker_of c u"
    and "worker_of (snd (start_worker pl mo v c)) u = worker_of c u \<and> spawns u (snd (start_worker pl mo v c)) = spawns u c"
proof -
  show p: "worker_of (poll_worker pl mo v c) u = worker_of c u" for c
    using assms by (cases rule: poll_cases[of pl mo v c]) auto
  show "worker_of (stop_worker pl mo v c) u = worker_of c u"
    using assms p by (auto simp: stop_worker_def Let_def split: option.split)
  have l: "worker_of (snd (launch_worker pl mo v d)) u = worker_of d u \<and> spawns u (snd (launch_worker pl mo v d)) = spawns u d"
    if "worker_of d v = Some i" for d i
    using that by (cases rule: launch_cases[where pl = pl and mo = mo]) (use assms in \<open>auto simp: spawns_def\<close>)
  let ?P = "\<lambda>d. worker_of d u = worker_of c u \<and> spawns u d = spawns u c"
  show "?P (snd (start_worker pl mo v c))"
    by (rule start_rule[where P = ?P]) (use assms p l in auto)
qed

lemma bounded_spawns_poll:
  assumes b: "bounded_spawns pl ts u n c" and "one_window pl ts" "mo_now mo \<in> ts"
  shows "bounded_spawns pl ts u n (poll_worker pl mo v c)"
proof (cases "v = u")
  case False
  with b show ?thesis by (simp add: bounded_spawns_def others_unchanged(1))
next
  case True
  show ?thesis
  proof (cases rule: poll_cases[of pl mo v c])
    case (exited i p j)
    have "filter (\<lambda>t. t \<in> ts) (wi_crash_times j) = filter (\<lambda>t. t \<in> ts) (wi_crash_times i @ [mo_now mo])"
      unfolding exited(5) filter_filter using assms(2,3) by (intro filter_cong) (auto simp: one_window_def)
    then have r: "recent ts j = recent ts i + 1" using assms(3) by (simp add: recent_def)
    have "affordable pl ts n (spawns u c) i" using b exited(1) True by (simp add: bounded_spawns_def)
    then have "affordable pl ts n (spawns u c) j" using exited(2,8) r by (auto simp: affordable_def)
    then show ?thesis using b True unfolding exited(9) by (simp add: bounded_spawns_def)
  next
    case (beating i)
    then show ?thesis using b True unfolding beating(2) by (simp add: bounded_spawns_def affordable_def recent_def split: worker_state.splits)
  qed (use b in simp)
qed

lemma bounded_spawns_restart:
  assumes b: "bounded_spawns pl ts u n c" and r: "restartable c u"
  shows "bounded_spawns pl ts u n (snd (start_worker pl mo u c))"
proof -
  obtain i where i: "worker_of c u = Some i" "wi_state i = Stopped" "wi_config_path i \<noteq> []"
    using r by (auto simp: restartable_def split: option.splits)
  have "poll_worker pl mo u c = c" using i by (simp add: poll_worker_def split: option.split)
  with i have s: "snd (start_worker pl mo u c) = snd (launch_worker pl mo u c)" by (simp add: start_worker_def prepare_worker_def)
  have k: "spawns u c \<le> n + recent ts i" "length (wi_crash_times i) \<le> pl_max_restarts pl"
    using b i by (auto simp: bounded_spawns_def affordable_def)
  have "bounded_spawns pl ts u n (snd (launch_worker pl mo u c))" using i(1)
  proof (cases rule: launch_cases[where pl = pl and mo = mo])
    case (launched cfg j)
    have "recent ts j = recent ts i" by (simp add: recent_def launched(6))
    then show ?thesis using k recent_le[of ts i] launched(5,6)
      by (simp add: launched(7) bounded_spawns_def affordable_def spawns_def)
  qed (use b i in \<open>auto simp: bounded_spawns_def affordable_def spawns_def\<close>)
  then show ?thesis by (simp add: s)
qed

lemma bounded_spawns_stop:
  assumes b: "bounded_spawns pl ts u n c"
  shows "bounded_spawns pl ts u n (stop_worker pl mo v c)"
proof (cases "v = u")
  case False
  with b show ?thesis by (simp add: bounded_spawns_def others_unchanged(2))
next
  case True
  show ?thesis
  proof (cases "worker_of c u")
    case None
    with b True show ?thesis by (simp add: stop_worker_def bounded_spawns_def affordable_def new_worker_def)
  next
    case (Some j)
    have "worker_of (poll_worker pl mo u c) u \<noteq> None" using Some by (cases rule: poll_cases[of pl mo u c]) auto
    then obtain i where i: "worker_of (poll_worker pl mo u c) u = Some i" by blast
    obtain a where a: "stop_worker pl mo u c = set_worker u
      (i\<lparr>wi_process := None, wi_state := (if wi_state i = Running then Stopped else wi_state i), wi_config_path := []\<rparr>)
      (remove_config i (poll_worker pl mo u c\<lparr>co_alive := a\<rparr>))" by (rule stop_shape[OF Some i])
    have "spawns u (stop_worker pl mo u c) \<le> n + pl_max_restarts pl + 1" using b by (simp add: bounded_spawns_def)
    then show ?thesis using True by (auto simp: a bounded_spawns_def affordable_def split: worker_state.split)
  qed
qed

interpretation window: maintained pl "\<lambda>mo. one_window pl ts \<and> mo_now mo \<in> ts" "\<lambda>v. v \<noteq> u" "\<lambda>v. True" "bounded_spawns pl ts u n"
  for pl ts u n
proof
  show "bounded_spawns pl ts u n (snd (start_worker pl mo v c))"
    if "v \<noteq> u \<or> restartable c v" "bounded_spawns pl ts u n c" for mo v c
  proof (cases "v = u")
    case False
    with that(2) show ?thesis by (simp add: bounded_spawns_def others_unchanged(3))
  qed (use that bounded_spawns_restart in blast)
qed (auto intro: bounded_spawns_poll bounded_spawns_stop, auto simp: bounded_spawns_def)

lemma bounded_spawns_start: "within_crashes pl c \<Longrightarrow> bounded_spawns pl ts u (spawns u c) c"
  by (auto simp: bounded_spawns_def affordable_def within_crashes_def split: worker_state.split)

section \<open>Live trading\<close>

text \<open>A server that does not allow live trading stores no credentials for it and starts no worker with any.\<close>

definition testnet_only :: "plane \<Rightarrow> control \<Rightarrow> bool" where
  "testnet_only pl c \<longleftrightarrow> pl_allow_live pl
     \<or> (\<forall>u t cr. map_of (co_tenants c) u = Some t \<longrightarrow> tn_credential t = Some cr \<longrightarrow> cr_testnet cr)
       \<and> (\<forall>path cfg. map_of (co_files c) path = Some cfg \<longrightarrow> setting cfg ''exchange'' ''testnet'' = Some (JVal (PBool True)))"

lemma testnet_only_frame [simp]: "testnet_only pl (set_worker u i c) = testnet_only pl c"
  "testnet_only pl (c\<lparr>co_alive := a\<rparr>) = testnet_only pl c"
  by (simp_all add: testnet_only_def)

lemma testnet_only_files:
  "testnet_only pl c \<Longrightarrow> co_tenants d = co_tenants c \<Longrightarrow> (\<And>path cfg. map_of (co_files d) path = Some cfg \<Longrightarrow> map_of (co_files c) path = Some cfg)
     \<Longrightarrow> testnet_only pl d"
  unfolding testnet_only_def by metis

lemma testnet_only_poll: "testnet_only pl c \<Longrightarrow> testnet_only pl (poll_worker pl mo u c)"
  by (erule testnet_only_files) (auto simp: poll_worker_def Let_def remove_config_def delete_conv' split: option.splits if_splits)

lemma testnet_only_stop: "testnet_only pl c \<Longrightarrow> testnet_only pl (stop_worker pl mo u c)"
  by (cases "worker_of c u", simp add: stop_worker_def)
    (drule testnet_only_poll[of _ _ mo u], erule testnet_only_files,
     auto simp: stop_worker_def Let_def remove_config_def delete_conv' split: option.splits if_splits)

lemma testnet_only_launch:
  assumes t: "testnet_only pl c" and "worker_of c u = Some i"
  shows "testnet_only pl (snd (launch_worker pl mo u c))"
proof -
  have b: "setting cfg ''exchange'' ''testnet'' = Some (JVal (PBool True))"
    if bw: "build_worker_config dec str (lookup_tenant mo c u) u base = Inr cfg" "\<not> pl_allow_live pl" for dec str base cfg
  proof -
    obtain x cr key secret ss where "lookup_tenant mo c u = Inr (Some x)" "tn_credential x = Some cr"
      and a: "assemble_config u key secret (cr_testnet cr) (tn_config x) ss base = Inr cfg" by (rule built[OF bw(1)])
    then have "cr_testnet cr" using t bw(2) by (auto simp: testnet_only_def lookup_tenant_def split: if_splits)
    with assembled[OF a] show ?thesis by simp
  qed
  show ?thesis using assms(2)
    by (cases rule: launch_cases[where pl = pl and mo = mo])
      (use t b in \<open>auto simp: testnet_only_def update_conv' split: if_splits\<close>)
qed

interpretation testnet: maintained pl "\<lambda>mo. True" "\<lambda>v. True" "\<lambda>v. True" "testnet_only pl" for pl
proof
  show "testnet_only pl (snd (start_worker pl mo u c))" if "testnet_only pl c" for mo u c
    using that by (rule start_rule[where P = "testnet_only pl"]) (auto intro: testnet_only_poll testnet_only_launch that)
qed (simp_all add: testnet_only_poll testnet_only_stop,
     auto simp: testnet_only_def halt_def revive_def store_def split: if_splits)

section \<open>Runs of the control plane\<close>

definition live :: "string \<Rightarrow> control \<Rightarrow> nat list" where
  "live u c = map fst (filter (\<lambda>(p, v). v = u) (co_alive c))"

definition resumes :: "string \<Rightarrow> control_event \<Rightarrow> bool" where
  "resumes u e = (case e of Resumes v \<Rightarrow> v = u | _ \<Rightarrow> False)"

definition explicit_start :: "string \<Rightarrow> control_event \<Rightarrow> bool" where
  "explicit_start u e = (case e of Resumes v \<Rightarrow> v = u | Restarts v \<Rightarrow> v = u | Connects v cr cf ok \<Rightarrow> v = u | _ \<Rightarrow> False)"

lemma start_fields [simp]: "worker_of (start_control ts) u = None" "co_alive (start_control ts) = []" "co_files (start_control ts) = []"
  "co_tenants (start_control ts) = ts"
  by (simp_all add: start_control_def worker_of_def)

lemma started: "handled (start_control ts)" "filed pl (start_control ts)" "within_crashes pl (start_control ts)"
  by (simp_all add: handled_def filed_def within_crashes_def)

lemma admitted_handled: "list_all (\<lambda>(mo, e). mo_kills mo) es \<Longrightarrow> handled (control_run pl (start_control ts) es)"
  by (rule handled.run) (auto simp: handled.admitted_def started list_all_iff split: control_event.split)

text \<open>
  \<^bold>\<open>C7\<close>. The kill switch holds: once a tenant has been halted through it, in any reachable state (no terminated process having
  refused to end), no later sequence of exits, sweeps, requests of other tenants, reconnects or restarts leaves a process of that
  tenant alive, until the tenant resumes.
\<close>

theorem kill_switch_holds:
  assumes "list_all (\<lambda>(mo, e). mo_kills mo) es" "c = control_run pl (start_control ts) es" "mo_kills mo" "signed_in mo c u"
    and later: "list_all (\<lambda>(mo, e). \<not> resumes u e) es'"
  shows "live u (control_run pl (worker_kill pl mo u c) es') = []"
proof -
  have "handled c" using admitted_handled assms(1,2) by blast
  then have "halted_for u (worker_kill pl mo u c)"
    using handled_stop[OF _ assms(3)] assms(4) by (auto simp: halted_for_def worker_kill_def halt_def)
  then have "halted_for u (control_run pl (worker_kill pl mo u c) es')"
    using later by (intro halted.run) (auto simp: halted.admitted_def list_all_iff resumes_def split: control_event.splits)
  then show ?thesis by (force simp: halted_for_def live_def filter_empty_conv)
qed

text \<open>
  \<^bold>\<open>C8\<close>. In a run in which processes can be started and ended, every live process is the one its tenant's worker holds, so a
  tenant never has two, and every configuration file, with its decrypted keys, is the one of a running worker.
\<close>

theorem workers_supervised:
  assumes "list_all (\<lambda>(mo, e). mo_kills mo \<and> mo_spawns mo) es" "c = control_run pl (start_control ts) es"
  shows "(\<forall>p q. p \<in> set (live u c) \<longrightarrow> q \<in> set (live u c) \<longrightarrow> p = q)
    \<and> (\<forall>p. p \<in> set (live u c) \<longrightarrow> (\<exists>i. worker_of c u = Some i \<and> wi_process i = Some p \<and> wi_state i = Running))
    \<and> (\<forall>path. map_of (co_files c) path \<noteq> None \<longrightarrow> (\<exists>v. path = worker_path pl v \<and> runs c v))"
proof -
  have h: "handled c" using admitted_handled[of es pl ts] assms by (auto simp: list_all_iff case_prod_unfold)
  have r: "\<exists>i. worker_of c u = Some i \<and> wi_process i = Some p \<and> wi_state i = Running" if "p \<in> set (live u c)" for p
    using that h by (fastforce simp: handled_def live_def)
  have o: "p = q" if "p \<in> set (live u c)" "q \<in> set (live u c)" for p q using r[OF that(1)] r[OF that(2)] by auto
  have "filed pl c" unfolding assms(2)
    by (rule filed.run) (use assms(1) in \<open>auto simp: filed.admitted_def started list_all_iff split: control_event.split\<close>)
  then have "\<forall>path. map_of (co_files c) path \<noteq> None \<longrightarrow> (\<exists>v. path = worker_path pl v \<and> runs c v)" by (simp add: filed_def)
  with r o show ?thesis by blast
qed

text \<open>
  \<^bold>\<open>C9\<close>. Crash loops are bounded: from any reachable state, while all times lie in one restart window and nobody starts the
  worker explicitly, the supervisor starts at most \<open>max_restarts + 1\<close> processes for a tenant, however often they crash.
\<close>

theorem crash_restarts_bounded:
  assumes "c = control_run pl (start_control ts) es" "one_window pl moments"
    and "list_all (\<lambda>(mo, e). mo_now mo \<in> moments \<and> \<not> explicit_start u e) es'"
  shows "spawns u (control_run pl c es') \<le> spawns u c + pl_max_restarts pl + 1"
proof -
  have "within_crashes pl c" unfolding assms(1)
    by (rule crash_budget.run) (auto simp: crash_budget.admitted_def started list_all_iff split: control_event.split)
  then have "bounded_spawns pl moments u (spawns u c) c" by (rule bounded_spawns_start)
  then have "bounded_spawns pl moments u (spawns u c) (control_run pl c es')"
  proof (rule window.run[rotated])
    have "window.admitted pl moments u (mo, e)" if "(mo, e) \<in> set es'" for mo e
    proof -
      have "mo_now mo \<in> moments" "\<not> explicit_start u e" using assms(3) that by (auto simp: list_all_iff)
      with assms(2) show ?thesis unfolding window.admitted_def by (cases e) (simp_all add: explicit_start_def)
    qed
    then show "list_all (window.admitted pl moments u) es'" by (auto simp: list_all_iff)
  qed
  then show ?thesis by (simp add: bounded_spawns_def)
qed


section \<open>Examples, and where the guarantees end\<close>

definition example_plane :: plane where
  "example_plane = \<lparr>pl_base = [], pl_dir = ''w'', pl_max_restarts = 1, pl_window = 600, pl_allow_live = False, pl_decrypt = Inr,
     pl_text = (\<lambda>v. [])\<rparr>"

definition example_credential :: "string \<Rightarrow> credential" where
  "example_credential k = \<lparr>cr_api_key = k, cr_api_secret = ''s'', cr_testnet = True\<rparr>"

definition example_tenants :: "(string, tenant) dict" where
  "example_tenants = [(''u'', \<lparr>tn_status = ''active'', tn_credential = None, tn_config = example_tenant_config\<rparr>)]"

definition at_time :: "rat \<Rightarrow> moment" where
  "at_time t = \<lparr>mo_now = t, mo_registry = True, mo_spawns = True, mo_kills = True\<rparr>"

definition connects :: "string \<Rightarrow> control_event" where
  "connects k = Connects ''u'' (example_credential k) True True"

definition connected :: control where
  "connected = control_run example_plane (start_control example_tenants) [(at_time 100, connects ''k1'')]"

theorem kill_switch_holds_witness:
  "live ''u'' connected = [0] \<and> live ''u'' (control_run example_plane (worker_kill example_plane (at_time 101) ''u'' connected)
     [(at_time 102, Sweeps), (at_time 103, connects ''k2''), (at_time 104, Restarts ''u'')]) = []"
proof
  show "live ''u'' connected = [0]" by code_simp
  have "signed_in (at_time 101) connected ''u''" by code_simp
  then show "live ''u'' (control_run example_plane (worker_kill example_plane (at_time 101) ''u'' connected)
     [(at_time 102, Sweeps), (at_time 103, connects ''k2''), (at_time 104, Restarts ''u'')]) = []"
    by (intro kill_switch_holds[where es = "[(at_time 100, connects ''k1'')]" and ts = example_tenants])
      (simp_all add: connected_def at_time_def connects_def resumes_def)
qed

theorem workers_supervised_witness:
  "live ''u'' connected = [0] \<and> (\<exists>i. worker_of connected ''u'' = Some i \<and> wi_process i = Some 0 \<and> wi_state i = Running)"
proof -
  have l: "live ''u'' connected = [0]" by code_simp
  with workers_supervised[of "[(at_time 100, connects ''k1'')]" connected example_plane example_tenants "''u''"]
  show ?thesis by (simp add: connected_def at_time_def)
qed

text \<open>With a budget of one crash, the second one ends the restarts.\<close>

definition crash_loop :: "(moment \<times> control_event) list" where
  "crash_loop = [(at_time 1010, Exits 0), (at_time 1020, Sweeps), (at_time 1030, Exits 1), (at_time 1040, Sweeps), (at_time 1050, Sweeps)]"

theorem crash_restarts_bounded_witness:
  "spawns ''u'' connected = 1 \<and> spawns ''u'' (control_run example_plane connected crash_loop) \<le> 3"
proof
  show s: "spawns ''u'' connected = 1" by code_simp
  have "one_window example_plane {1010, 1020, 1030, 1040, 1050}" by (simp add: one_window_def example_plane_def)
  then have "spawns ''u'' (control_run example_plane connected crash_loop) \<le> spawns ''u'' connected + pl_max_restarts example_plane + 1"
  proof (rule crash_restarts_bounded[rotated])
    show "connected = control_run example_plane (start_control example_tenants) [(at_time 100, connects ''k1'')]" by (simp add: connected_def)
    show "list_all (\<lambda>(mo, e). mo_now mo \<in> {1010, 1020, 1030, 1040, 1050} \<and> \<not> explicit_start ''u'' e) crash_loop"
      by (simp add: crash_loop_def at_time_def explicit_start_def)
  qed
  with s show "spawns ''u'' (control_run example_plane connected crash_loop) \<le> 3" by (simp add: example_plane_def)
qed

lemma crash_loop_fails:
  "map_option wi_state (worker_of (control_run example_plane connected crash_loop) ''u'') = Some Failed"
  "spawns ''u'' (control_run example_plane connected crash_loop) = 2"
  by code_simp+


text \<open>
  Two starts of one tenant that both look before either launches: the second process replaces the first as the worker's, which
  nothing ends any more, not even the kill switch.
\<close>

definition interleaved_starts :: control where
  "interleaved_starts =
     (let c0 = start_control [(''u'', example_tenant)]; c1 = snd (prepare_worker example_plane (at_time 100) ''u'' c0);
          c2 = snd (prepare_worker example_plane (at_time 100) ''u'' c1); c3 = snd (launch_worker example_plane (at_time 101) ''u'' c2)
      in snd (launch_worker example_plane (at_time 101) ''u'' c3))"

lemma interleaved_starts_orphan:
  "live ''u'' interleaved_starts = [0, 1]" "live ''u'' (worker_kill example_plane (at_time 102) ''u'' interleaved_starts) = [0]"
  by code_simp+

text \<open>The kill switch ends the process before it halts the tenant: a start in between survives it, and every later sweep.\<close>

lemma kill_switch_gap:
  "live ''u'' (snd (sweep example_plane (at_time 103) (update_tenant ''u'' halt (snd (ensure example_plane (at_time 102) ''u''
     (stop_worker example_plane (at_time 101) ''u'' connected)))))) = [1]"
  by code_simp

text \<open>A process that cannot be started leaves its configuration file, and no sweep removes it.\<close>

definition cannot_spawn :: moment where
  "cannot_spawn = (at_time 100)\<lparr>mo_spawns := False\<rparr>"

lemma failed_spawn_leaves_keys:
  "case map_of (co_files (control_run example_plane (start_control example_tenants) [(cannot_spawn, connects ''k1''), (at_time 200, Sweeps)])) ''w/u.yaml''
   of None \<Rightarrow> False | Some cfg \<Rightarrow> setting cfg ''exchange'' ''api_key'' = Some (JVal (PStr ''k1''))"
  by code_simp

text \<open>Connecting with new keys leaves the running worker, and its file, with the old ones.\<close>

lemma reconnect_keeps_old_keys:
  "let c = control_run example_plane connected [(at_time 200, connects ''k2'')]
   in live ''u'' c = [0] \<and> map_option tn_credential (map_of (co_tenants c) ''u'') = Some (Some (example_credential ''k2''))
      \<and> (case map_of (co_files c) ''w/u.yaml'' of None \<Rightarrow> False | Some cfg \<Rightarrow> setting cfg ''exchange'' ''api_key'' = Some (JVal (PStr ''k1'')))"
  by code_simp

text \<open>
  The control plane does not stop its workers when it ends and knows none when it starts: a connect then starts a second process,
  and the kill switch ends only that one.
\<close>

definition rebooted :: "control \<Rightarrow> control" where
  "rebooted c = c\<lparr>co_workers := []\<rparr>"

lemma reboot_orphans:
  "let c = control_run example_plane (rebooted connected) [(at_time 200, connects ''k1'')]
   in live ''u'' c = [0, 1] \<and> live ''u'' (worker_kill example_plane (at_time 300) ''u'' c) = [0]"
  by code_simp

end
