(* ===== verification/Settings.thy ===== *)
theory Settings
  imports Json "HOL-Library.List_Lexorder" "HOL-Library.Char_ord"
begin

text \<open>
  \<^verbatim>\<open>src/quad/config/manager.py\<close>: the configuration as nested dicts read and written by dotted keys, merged from the file, the
  environment and the overrides set at run time. What a load reads is its \<open>surroundings\<close>: the answer of \<^verbatim>\<open>yaml.safe_load\<close>,
  the environment (after the dotenv file) and the home directories. The validation by the schema is a parameter: the dumped sections
  with the two safety switches, or an error. Listeners are notified one after the other; what they do is not modelled.
\<close>

section \<open>Dotted keys\<close>

fun split_on :: "char \<Rightarrow> string \<Rightarrow> string list" where
  "split_on c [] = [[]]"
| "split_on c (x # xs) = (case split_on c xs of [] \<Rightarrow> [[x]] | w # ws \<Rightarrow> if x = c then [] # w # ws else (x # w) # ws)"

fun join_with :: "char \<Rightarrow> string list \<Rightarrow> string" where
  "join_with c [] = []"
| "join_with c [w] = w"
| "join_with c (w # v # ws) = w @ [c] @ join_with c (v # ws)"

fun walk :: "json \<Rightarrow> string list \<Rightarrow> json option" where
  "walk v [] = Some v"
| "walk (JDict d) (p # ps) = (case map_of d p of None \<Rightarrow> None | Some v \<Rightarrow> walk v ps)"
| "walk v (p # ps) = None"

definition dot_get :: "jdict \<Rightarrow> string \<Rightarrow> json option" where
  "dot_get d key = (if key = [] then None else walk (JDict d) (split_on CHR ''.'' key))"

fun assign :: "jdict \<Rightarrow> string list \<Rightarrow> json \<Rightarrow> jdict" where
  "assign d [] v = d"
| "assign d [p] v = AList.update p v d"
| "assign d (p # q # ps) v = AList.update p (JDict (assign (case map_of d p of Some (JDict e) \<Rightarrow> e | _ \<Rightarrow> []) (q # ps) v)) d"

definition dot_set :: "jdict \<Rightarrow> string \<Rightarrow> json \<Rightarrow> jdict" where
  "dot_set d key v = (if key = [] then d else assign d (split_on CHR ''.'' key) v)"

text \<open>\<^verbatim>\<open>_deep_merge\<close>: the second dict wins, dicts are merged.\<close>

function merge_into :: "jdict \<Rightarrow> jdict \<Rightarrow> jdict" where
  "merge_into r [] = r"
| "merge_into r ((k, v) # b) =
     merge_into (AList.update k (case v of JDict y \<Rightarrow> (case map_of r k of Some (JDict x) \<Rightarrow> JDict (merge_into x y) | _ \<Rightarrow> v) | _ \<Rightarrow> v) r) b"
  by pat_completeness auto
termination by (relation "measure (\<lambda>(r, b). size (JDict b))") auto

section \<open>The environment\<close>

type_synonym environment = "(string, string) dict"

definition is_word :: "char \<Rightarrow> bool" where
  "is_word c = (is_digit c \<or> 65 \<le> code_point c \<and> code_point c \<le> 90 \<or> 97 \<le> code_point c \<and> code_point c \<le> 122 \<or> c = CHR ''_'')"

text \<open>\<^verbatim>\<open>os.path.expandvars\<close>: a name in braces or word characters after a dollar sign; what is inserted is not read again.\<close>

function expandvars :: "environment \<Rightarrow> string \<Rightarrow> string" where
  "expandvars env [] = []"
| "expandvars env (c # s) =
     (if c \<noteq> CHR ''$'' then c # expandvars env s
      else if s \<noteq> [] \<and> hd s = CHR ''{'' \<and> CHR ''}'' \<in> set (tl s)
      then (let n = takeWhile (\<lambda>x. x \<noteq> CHR ''}'') (tl s); rest = drop (length n + 1) (tl s)
            in (case map_of env n of Some v \<Rightarrow> v | None \<Rightarrow> ''${'' @ n @ ''}'') @ expandvars env rest)
      else (let n = takeWhile is_word s
            in if n = [] then c # expandvars env s
               else (case map_of env n of Some v \<Rightarrow> v | None \<Rightarrow> c # n) @ expandvars env (drop (length n) s)))"
  by pat_completeness auto
termination by (relation "measure (\<lambda>(env, s). length s)") auto

definition expanduser :: "environment \<Rightarrow> (string \<Rightarrow> string option) \<Rightarrow> string \<Rightarrow> string" where
  "expanduser env homes s =
     (if s = [] \<or> hd s \<noteq> CHR ''~'' then s
      else (let user = takeWhile (\<lambda>x. x \<noteq> CHR ''/'') (tl s); rest = dropWhile (\<lambda>x. x \<noteq> CHR ''/'') (tl s)
            in case (if user = [] then (case map_of env ''HOME'' of Some h \<Rightarrow> Some h | None \<Rightarrow> homes []) else homes user) of
                 None \<Rightarrow> s
               | Some h \<Rightarrow> (let p = rev (dropWhile (\<lambda>x. x = CHR ''/'') (rev h)) @ rest in if p = [] then ''/'' else p)))"

fun expand :: "(string \<Rightarrow> string) \<Rightarrow> json \<Rightarrow> json" where
  "expand f (JVal v) = JVal (case v of PStr s \<Rightarrow> PStr (f s) | _ \<Rightarrow> v)"
| "expand f (JList xs) = JList (map (expand f) xs)"
| "expand f (JDict d) = JDict (map (\<lambda>(k, v). (k, expand f v)) d)"

definition env_var_map :: "(string \<times> string) list" where
  "env_var_map =
     [(''QUAD_HEALTH_PORT'', ''monitoring.health_server.port''), (''QUAD_MODE'', ''_mode''), (''QUAD_DRY_RUN'', ''_dry_run''),
      (''QUAD_DEFAULT_STRATEGY'', ''trading.default_strategy''), (''QUAD_DSN'', ''persistence.dsn''),
      (''DATABASE_URL'', ''persistence.dsn''), (''QUAD_CONFIG_DIR'', ''config_dir''), (''BYBIT_API_KEY'', ''exchange.api_key''),
      (''BYBIT_API_SECRET'', ''exchange.api_secret''), (''BYBIT_TESTNET'', ''exchange.testnet''), (''QUAD_AI_ENABLED'', ''ai.enabled''),
      (''QUAD_AI_MODEL'', ''ai.model''), (''QUAD_AI_TIMEOUT'', ''ai.timeout''),
      (''QUAD_AI_MAX_REQUESTS_PER_DAY'', ''ai.max_requests_per_day''), (''GROQ_API_KEY'', ''ai.api_key''),
      (''QUAD_TRADINGVIEW_WEBHOOK_ENABLED'', ''tradingview_webhook.enabled''),
      (''QUAD_TRADINGVIEW_WEBHOOK_PORT'', ''tradingview_webhook.port''),
      (''QUAD_TRADINGVIEW_WEBHOOK_SECRET'', ''tradingview_webhook.secret''),
      (''QUAD_HEALTH_API_KEY'', ''monitoring.health_server.api_key'')]"

definition starts :: "string \<Rightarrow> string \<Rightarrow> bool" where
  "starts w s = (take (length w) s = w)"

text \<open>\<^verbatim>\<open>s.replace("__", ".").replace("_", ".")\<close>.\<close>

fun dotted :: "string \<Rightarrow> string" where
  "dotted [] = []"
| "dotted [c] = [if c = CHR ''_'' then CHR ''.'' else c]"
| "dotted (c # d # s) =
     (if c = CHR ''_'' then CHR ''.'' # (if d = CHR ''_'' then dotted s else dotted (d # s)) else c # dotted (d # s))"

definition section_renames :: "(string \<times> string) list" where
  "section_renames = [(''log'', ''logging''), (''db'', ''persistence''), (''health'', ''monitoring.health_server''), (''telegram'', ''telegram'')]"

definition env_to_config_key :: "string \<Rightarrow> string" where
  "env_to_config_key name =
     (if \<not> starts ''BYBIT_'' name \<and> \<not> starts ''QUAD_'' name then dotted (lower name)
      else (let parts = split_on CHR ''_'' (lower (drop (if starts ''BYBIT_'' name then 6 else 5) name));
                suffix = join_with CHR ''.'' (tl parts)
            in case map_of section_renames (hd parts) of
                 Some prefix \<Rightarrow> if suffix = [] then prefix else prefix @ ''.'' @ suffix
               | None \<Rightarrow> join_with CHR ''.'' parts))"

text \<open>\<^verbatim>\<open>float(s)\<close> of a text: underscores only between digits.\<close>

fun grouped :: "bool \<Rightarrow> string \<Rightarrow> bool" where
  "grouped after [] = True"
| "grouped after (c # s) =
     (if c = CHR ''_'' then after \<and> s \<noteq> [] \<and> is_digit (hd s) \<and> grouped False s else grouped (is_digit c) s)"

definition coerce_env_value :: "string \<Rightarrow> pyval" where
  "coerce_env_value s =
     (let low = strip (lower s)
      in if low \<in> {''true'', ''1'', ''yes'', ''on''} then PBool True
         else if low \<in> {''false'', ''0'', ''no'', ''off''} then PBool False
         else (case parse_int s of
             Some n \<Rightarrow> PInt n
           | None \<Rightarrow> (case (if grouped False s then to_float (PStr s) else Inl ValueError) of Inr x \<Rightarrow> PFloat x | Inl e \<Rightarrow> PStr s)))"

definition config_key_of :: "string \<Rightarrow> string option" where
  "config_key_of name =
     (case map_of env_var_map name of
        Some k \<Rightarrow> Some k
      | None \<Rightarrow> if starts ''QUAD_'' name \<or> starts ''BYBIT_'' name then Some (env_to_config_key name) else None)"

definition apply_env_overrides :: "environment \<Rightarrow> jdict \<Rightarrow> jdict" where
  "apply_env_overrides env d =
     foldl (\<lambda>d (name, s). case config_key_of name of None \<Rightarrow> d | Some k \<Rightarrow> dot_set d k (JVal (coerce_env_value s))) d env"

section \<open>Loading\<close>

record surroundings =
  su_file :: "json res"
  su_env :: environment
  su_homes :: "string \<Rightarrow> string option"

record schema =
  sc_sections :: "jdict \<Rightarrow> jdict res"
  sc_mode :: "jdict \<Rightarrow> pyval"
  sc_dry_run :: "jdict \<Rightarrow> pyval"

record manager =
  cm_config :: jdict
  cm_overrides :: jdict

text \<open>\<^verbatim>\<open>_load_yaml\<close>: an empty file is an empty dict, anything but a dict is refused.\<close>

definition load_yaml :: "json res \<Rightarrow> jdict res" where
  "load_yaml r = bindE r (\<lambda>v. case v of JDict d \<Rightarrow> Inr d | JVal PNone \<Rightarrow> Inr [] | _ \<Rightarrow> Inl TypeError)"

definition expand_all :: "surroundings \<Rightarrow> jdict \<Rightarrow> jdict" where
  "expand_all su d = map (\<lambda>(k, v). (k, expand (\<lambda>s. expanduser (su_env su) (su_homes su) (expandvars (su_env su) s)) v)) d"

text \<open>The three layers.\<close>

definition merged_layers :: "surroundings \<Rightarrow> jdict \<Rightarrow> jdict \<Rightarrow> jdict" where
  "merged_layers su base overrides = merge_into (apply_env_overrides (su_env su) (expand_all su base)) overrides"

definition keep_missing :: "jdict \<Rightarrow> jdict \<Rightarrow> jdict" where
  "keep_missing merged dumped = foldl (\<lambda>d (k, v). if map_of d k = None then d @ [(k, v)] else d) dumped merged"

definition load_all_layers :: "schema \<Rightarrow> surroundings \<Rightarrow> manager \<Rightarrow> manager res" where
  "load_all_layers sc su m =
     bindE (load_yaml (su_file su)) (\<lambda>base.
     let merged = merged_layers su base (cm_overrides m)
     in bindE (sc_sections sc merged) (\<lambda>dumped.
        Inr (m\<lparr>cm_config := keep_missing merged
          (put ''_dry_run'' (sc_dry_run sc merged) (put ''_mode'' (sc_mode sc merged) dumped))\<rparr>)))"

definition new_manager :: "schema \<Rightarrow> surroundings \<Rightarrow> manager res" where
  "new_manager sc su = load_all_layers sc su \<lparr>cm_config = [], cm_overrides = []\<rparr>"

section \<open>Python's equality and the difference of two configurations\<close>

fun number_of :: "pyval \<Rightarrow> rat option" where
  "number_of (PBool b) = Some (if b then 1 else 0)"
| "number_of (PInt n) = Some (of_int n)"
| "number_of (PFloat x) = Some x"
| "number_of (PDec x) = Some x"
| "number_of v = None"

definition py_equal :: "pyval \<Rightarrow> pyval \<Rightarrow> bool" where
  "py_equal v w = (if number_of v = None then v = w else number_of v = number_of w)"

fun json_equal :: "json \<Rightarrow> json \<Rightarrow> bool"
  and list_equal :: "json list \<Rightarrow> json list \<Rightarrow> bool"
  and entries_in :: "(string \<times> json) list \<Rightarrow> (string \<times> json) list \<Rightarrow> bool" where
  "json_equal (JVal v) (JVal w) = py_equal v w"
| "json_equal (JList xs) (JList ys) = list_equal xs ys"
| "json_equal (JDict d) (JDict e) = (length d = length e \<and> entries_in d e)"
| "json_equal v w = False"
| "list_equal [] [] = True"
| "list_equal (x # xs) (y # ys) = (json_equal x y \<and> list_equal xs ys)"
| "list_equal xs ys = False"
| "entries_in [] e = True"
| "entries_in ((k, v) # d) e = ((case map_of e k of None \<Rightarrow> False | Some w \<Rightarrow> json_equal v w) \<and> entries_in d e)"

text \<open>A change: the dotted key, the old and the new value; \<open>None\<close> is the sentinel of a missing one.\<close>

type_synonym change = "string \<times> json option \<times> json option"

definition below :: "string \<Rightarrow> string \<Rightarrow> string" where
  "below prefix k = (if prefix = [] then k else prefix @ ''.'' @ k)"

definition added :: "string \<Rightarrow> jdict \<Rightarrow> jdict \<Rightarrow> change list" where
  "added prefix old new = map (\<lambda>(k, v). (below prefix k, None, Some v)) (filter (\<lambda>(k, v). map_of old k = None) new)"

function (sequential) value_diff :: "string \<Rightarrow> json \<Rightarrow> json \<Rightarrow> change list"
  and kept_diff :: "string \<Rightarrow> jdict \<Rightarrow> jdict \<Rightarrow> change list" where
  "value_diff key (JDict d) (JDict e) = kept_diff key d e @ added key d e"
| "value_diff key v w = (if json_equal v w then [] else [(key, Some v, Some w)])"
| "kept_diff prefix [] new = []"
| "kept_diff prefix ((k, v) # old) new =
     (case map_of new k of None \<Rightarrow> [(below prefix k, Some v, None)] | Some w \<Rightarrow> value_diff (below prefix k) v w) @ kept_diff prefix old new"
  by pat_completeness auto
termination by (relation "measure (\<lambda>x. case x of Inl (key, v, w) \<Rightarrow> 2 * size v + 1 | Inr (prefix, d, e) \<Rightarrow> 2 * size (JDict d))") auto

definition dict_diff :: "string \<Rightarrow> jdict \<Rightarrow> jdict \<Rightarrow> change list" where
  "dict_diff prefix old new = kept_diff prefix old new @ added prefix old new"

section \<open>The manager\<close>

definition get_section :: "manager \<Rightarrow> string \<Rightarrow> jdict" where
  "get_section m prefix = (case dot_get (cm_config m) prefix of Some (JDict d) \<Rightarrow> d | _ \<Rightarrow> [])"

definition get_value :: "manager \<Rightarrow> string \<Rightarrow> json \<Rightarrow> json" where
  "get_value m key z = (case dot_get (cm_config m) key of None \<Rightarrow> z | Some v \<Rightarrow> v)"

definition get_item :: "manager \<Rightarrow> string \<Rightarrow> json res" where
  "get_item m key = (case dot_get (cm_config m) key of None \<Rightarrow> Inl KeyError | Some v \<Rightarrow> Inr v)"

text \<open>An operation returns the notifications sent to every listener.\<close>

definition set_value :: "string \<Rightarrow> json \<Rightarrow> manager \<Rightarrow> change list \<times> manager" where
  "set_value key v m =
     (let old = dot_get (cm_config m) key;
          m' = m\<lparr>cm_config := dot_set (cm_config m) key v, cm_overrides := dot_set (cm_overrides m) key v\<rparr>
      in (if (case old of None \<Rightarrow> True | Some w \<Rightarrow> \<not> json_equal w v) then [(key, old, Some v)] else [], m'))"

definition reload :: "schema \<Rightarrow> surroundings \<Rightarrow> manager \<Rightarrow> change list res \<times> manager" where
  "reload sc su m =
     (case load_all_layers sc su m of
        Inl e \<Rightarrow> (Inl e, m)
      | Inr m' \<Rightarrow> (Inr (sort_key fst (dict_diff [] (cm_config m) (cm_config m'))), m'))"

datatype settings_op = Set_value string json | Reload surroundings

fun settings_step :: "schema \<Rightarrow> manager \<Rightarrow> settings_op \<Rightarrow> manager" where
  "settings_step sc m (Set_value key v) = snd (set_value key v m)"
| "settings_step sc m (Reload su) = snd (reload sc su m)"

definition settings_run :: "schema \<Rightarrow> manager \<Rightarrow> settings_op list \<Rightarrow> manager" where
  "settings_run sc m ops = foldl (settings_step sc) m ops"

section \<open>Reading what was written\<close>

lemma split_on_nonempty [simp]: "split_on c s \<noteq> []"
  by (induction s) (auto split: list.split)

lemma join_split [simp]: "join_with c (split_on c s) = s"
proof (induction s)
  case (Cons x s)
  obtain w ws where "split_on c s = w # ws" using split_on_nonempty by (cases "split_on c s") blast+
  with Cons show ?case by (cases ws) auto
qed simp

lemma split_on_plain: "c \<notin> set w \<Longrightarrow> split_on c w = [w]"
  by (induction w) auto

lemma split_on_append: "c \<notin> set w \<Longrightarrow> split_on c (w @ c # s) = w # split_on c s"
proof (induction w)
  case Nil
  then show ?case by (cases "split_on c s") auto
qed auto

lemma split_join: "ws \<noteq> [] \<Longrightarrow> list_all (\<lambda>w. c \<notin> set w) ws \<Longrightarrow> split_on c (join_with c ws) = ws"
  by (induction c ws rule: join_with.induct) (auto simp: split_on_plain split_on_append)

lemma walk_assign: "ps \<noteq> [] \<Longrightarrow> walk (JDict (assign d ps v)) ps = Some v"
  by (induction d ps v rule: assign.induct) (auto simp: map_of_AList_update)

text \<open>Neither path continues the other.\<close>

fun apart :: "'a list \<Rightarrow> 'a list \<Rightarrow> bool" where
  "apart (p # ps) (q # qs) = (p \<noteq> q \<or> apart ps qs)"
| "apart ps qs = False"

lemma walk_nonempty: "walk (JDict []) (q # qs) = None"
  by simp

lemma walk_assign_apart: "apart ps qs \<Longrightarrow> walk (JDict (assign d ps v)) qs = walk (JDict d) qs"
proof (induction d ps v arbitrary: qs rule: assign.induct)
  case (2 d p v)
  then show ?case by (cases qs) (auto simp: map_of_AList_update)
next
  case (3 d p q ps v)
  then obtain r rs where qs: "qs = r # rs" by (cases qs) auto
  show ?case
  proof (cases "r = p")
    case True
    with 3(2) qs have a: "apart (q # ps) rs" by simp
    then obtain t ts where "rs = t # ts" by (cases rs) auto
    with 3(1)[OF a] qs True show ?thesis by (auto simp: map_of_AList_update split: option.split json.split)
  qed (simp add: qs map_of_AList_update)
qed simp

section \<open>Merging\<close>

fun tidy :: "json \<Rightarrow> bool" where
  "tidy (JDict d) = (distinct (map fst d) \<and> (\<forall>v \<in> snd ` set d. tidy v))"
| "tidy v = True"

lemma update_elements: "x \<in> set (AList.update k v d) \<Longrightarrow> x = (k, v) \<or> x \<in> set d"
  by (induction d) (auto split: if_splits)

lemma tidy_update: "tidy (JDict d) \<Longrightarrow> tidy v \<Longrightarrow> tidy (JDict (AList.update k v d))"
  by (auto simp: distinct_update dest!: update_elements)

lemma tidy_entry: "tidy (JDict d) \<Longrightarrow> map_of d k = Some v \<Longrightarrow> tidy v"
  by (force dest: map_of_SomeD)

lemma tidy_assign: "tidy (JDict d) \<Longrightarrow> tidy v \<Longrightarrow> tidy (JDict (assign d ps v))"
proof (induction d ps v rule: assign.induct)
  case (3 d p q ps v)
  have "tidy (JDict (case map_of d p of Some (JDict e) \<Rightarrow> e | _ \<Rightarrow> []))"
    using tidy_entry[OF 3(2), of p] by (auto simp del: tidy.simps(1) split: option.split json.split) simp_all
  with 3 show ?case by (simp only: assign.simps) (intro tidy_update; simp)
qed (auto simp del: tidy.simps intro: tidy_update)

definition merge_value :: "json option \<Rightarrow> json \<Rightarrow> json" where
  "merge_value old v = (case v of JDict y \<Rightarrow> (case old of Some (JDict x) \<Rightarrow> JDict (merge_into x y) | _ \<Rightarrow> v) | _ \<Rightarrow> v)"

lemma merge_into_Cons: "merge_into r ((k, v) # b) = merge_into (AList.update k (merge_value (map_of r k) v) r) b"
  by (simp add: merge_value_def)

lemma map_of_merge:
  "distinct (map fst b) \<Longrightarrow>
     map_of (merge_into r b) k = (case map_of b k of None \<Rightarrow> map_of r k | Some v \<Rightarrow> Some (merge_value (map_of r k) v))"
proof (induction b arbitrary: r)
  case (Cons e b)
  obtain j v where e: "e = (j, v)" by (cases e)
  have "map_of b j = None" using Cons.prems by (simp add: e map_of_eq_None_iff)
  with Cons show ?case by (simp add: e merge_into_Cons map_of_AList_update del: merge_into.simps(2) split: option.split)
qed simp

text \<open>A value of the second dict is found in the merged one, unless it is a dict itself.\<close>

lemma walk_merge:
  "tidy (JDict b) \<Longrightarrow> walk (JDict b) ps = Some v \<Longrightarrow> \<forall>e. v \<noteq> JDict e \<Longrightarrow> walk (JDict (merge_into r b)) ps = Some v"
proof (induction ps arbitrary: r b)
  case (Cons p ps)
  obtain w where w: "map_of b p = Some w" "walk w ps = Some v" using Cons.prems(2) by (auto split: option.splits)
  then have m: "map_of (merge_into r b) p = Some (merge_value (map_of r p) w)" using Cons.prems(1) by (simp add: map_of_merge)
  have "walk (merge_value (map_of r p) w) ps = Some v"
  proof (cases "\<exists>x y. w = JDict y \<and> map_of r p = Some (JDict x)")
    case True
    then obtain x y where xy: "w = JDict y" "map_of r p = Some (JDict x)" by blast
    then have "tidy (JDict y)" using tidy_entry[OF Cons.prems(1) w(1)] by simp
    with Cons.IH[of y x] Cons.prems(3) w(2) xy show ?thesis by (simp add: merge_value_def)
  next
    case False
    then have "merge_value (map_of r p) w = w" by (auto simp: merge_value_def split: json.split option.split)
    with w show ?thesis by simp
  qed
  with m show ?case by simp
qed auto

lemma map_of_keep_missing:
  "map_of (keep_missing merged dumped) k = (case map_of dumped k of None \<Rightarrow> map_of merged k | Some v \<Rightarrow> Some v)"
proof (induction merged arbitrary: dumped)
  case (Cons e merged)
  obtain j v where e: "e = (j, v)" by (cases e)
  have "keep_missing (e # merged) dumped = keep_missing merged (if map_of dumped j = None then dumped @ [(j, v)] else dumped)"
    by (simp add: keep_missing_def e)
  with Cons show ?case by (auto simp: e map_add_def split: option.split)
qed (simp add: keep_missing_def split: option.split)

section \<open>Overrides survive\<close>

text \<open>What validating and dumping does to a value it accepts: a section the schema knows keeps it.\<close>

definition schema_keeps :: "schema \<Rightarrow> string \<Rightarrow> json \<Rightarrow> bool" where
  "schema_keeps sc key v \<longleftrightarrow> (\<forall>merged dumped. sc_sections sc merged = Inr dumped \<longrightarrow> dot_get merged key = Some v
     \<longrightarrow> map_of dumped (hd (split_on CHR ''.'' key)) \<noteq> None \<longrightarrow> dot_get dumped key = Some v)"

definition is_switch :: "string \<Rightarrow> bool" where
  "is_switch key = (hd (split_on CHR ''.'' key) \<in> {''_mode'', ''_dry_run''})"

lemma dot_get_section: "key \<noteq> [] \<Longrightarrow> dot_get d key = (case map_of d (hd (split_on CHR ''.'' key)) of None \<Rightarrow> None
    | Some v \<Rightarrow> walk v (tl (split_on CHR ''.'' key)))"
  by (cases "split_on CHR ''.'' key") (auto simp: dot_get_def split: option.split)

lemma load_keeps_override:
  assumes l: "load_all_layers sc su m = Inr m'" and k: "dot_get (cm_overrides m) key = Some v" "tidy (JDict (cm_overrides m))"
    and v: "\<forall>e. v \<noteq> JDict e" "schema_keeps sc key v" "\<not> is_switch key"
  shows "dot_get (cm_config m') key = Some v" "cm_overrides m' = cm_overrides m"
proof -
  have ne: "key \<noteq> []" using k(1) by (auto simp: dot_get_def)
  obtain base dumped where d: "sc_sections sc (merged_layers su base (cm_overrides m)) = Inr dumped"
    and m': "m' = m\<lparr>cm_config := keep_missing (merged_layers su base (cm_overrides m))
      (put ''_dry_run'' (sc_dry_run sc (merged_layers su base (cm_overrides m)))
        (put ''_mode'' (sc_mode sc (merged_layers su base (cm_overrides m))) dumped))\<rparr>"
    using l by (auto simp: load_all_layers_def Let_def bindE_Inr_iff)
  let ?merged = "merged_layers su base (cm_overrides m)" and ?h = "hd (split_on CHR ''.'' key)"
  have g: "dot_get ?merged key = Some v"
    using k v(1) ne by (simp add: merged_layers_def dot_get_def walk_merge del: walk.simps)
  have h: "map_of (cm_config m') ?h = (case map_of dumped ?h of None \<Rightarrow> map_of ?merged ?h | Some v \<Rightarrow> Some v)"
    using v(3) by (auto simp: m' map_of_keep_missing is_switch_def)
  show "dot_get (cm_config m') key = Some v"
  proof (cases "map_of dumped ?h")
    case None
    with g show ?thesis by (simp add: dot_get_section[OF ne] h)
  next
    case (Some w)
    then have "dot_get dumped key = Some v" using v(2) d g unfolding schema_keeps_def by blast
    with Some show ?thesis by (simp add: dot_get_section[OF ne] h)
  qed
  show "cm_overrides m' = cm_overrides m" by (simp add: m')
qed

definition disturbs :: "string \<Rightarrow> settings_op \<Rightarrow> bool" where
  "disturbs key oper = (case oper of Reload su \<Rightarrow> False
     | Set_value k v \<Rightarrow> k \<noteq> [] \<and> \<not> apart (split_on CHR ''.'' k) (split_on CHR ''.'' key))"

definition tidy_op :: "settings_op \<Rightarrow> bool" where
  "tidy_op oper = (case oper of Reload su \<Rightarrow> True | Set_value k v \<Rightarrow> tidy v)"

lemma dot_get_set: "key \<noteq> [] \<Longrightarrow> dot_get (dot_set d key v) key = Some v"
  by (simp add: dot_get_def dot_set_def walk_assign del: walk.simps)

lemma dot_get_set_apart: "\<not> disturbs key (Set_value k v) \<Longrightarrow> dot_get (dot_set d k v) key = dot_get d key"
  by (auto simp: disturbs_def dot_get_def dot_set_def walk_assign_apart simp del: walk.simps)

lemma tidy_dot_set: "tidy (JDict d) \<Longrightarrow> tidy v \<Longrightarrow> tidy (JDict (dot_set d key v))"
  by (simp add: dot_set_def tidy_assign del: tidy.simps)

definition overrides_hold :: "string \<Rightarrow> json \<Rightarrow> manager \<Rightarrow> bool" where
  "overrides_hold key v m \<longleftrightarrow> tidy (JDict (cm_overrides m)) \<and> dot_get (cm_overrides m) key = Some v \<and> dot_get (cm_config m) key = Some v"

lemma overrides_hold_step:
  assumes "overrides_hold key v m" "\<not> disturbs key oper" "tidy_op oper" "\<forall>e. v \<noteq> JDict e" "schema_keeps sc key v" "\<not> is_switch key"
  shows "overrides_hold key v (settings_step sc m oper)"
proof (cases oper)
  case (Set_value k w)
  with assms show ?thesis
    by (simp add: overrides_hold_def set_value_def Let_def dot_get_set_apart tidy_dot_set tidy_op_def del: tidy.simps)
next
  case (Reload su)
  show ?thesis
  proof (cases "load_all_layers sc su m")
    case (Inr m')
    have "dot_get (cm_overrides m) key = Some v" "tidy (JDict (cm_overrides m))" using assms(1) by (simp_all add: overrides_hold_def)
    from load_keeps_override[OF Inr this assms(4-6)] this Inr Reload show ?thesis
      by (simp add: overrides_hold_def reload_def del: tidy.simps)
  qed (use assms Reload in \<open>simp add: reload_def\<close>)
qed

lemma overrides_hold_run:
  assumes "overrides_hold key v m" "list_all (\<lambda>oper. \<not> disturbs key oper \<and> tidy_op oper) ops" "\<forall>e. v \<noteq> JDict e"
    "schema_keeps sc key v" "\<not> is_switch key"
  shows "overrides_hold key v (settings_run sc m ops)"
  using assms(1,2)
proof (induction ops arbitrary: m)
  case (Cons oper ops)
  then show ?case using overrides_hold_step[OF Cons.prems(1) _ _ assms(3-5), of oper] by (simp add: settings_run_def)
qed (simp add: settings_run_def)

lemma tidy_overrides_run:
  "tidy (JDict (cm_overrides m)) \<Longrightarrow> list_all tidy_op ops \<Longrightarrow> tidy (JDict (cm_overrides (settings_run sc m ops)))"
proof (induction ops arbitrary: m)
  case (Cons oper ops)
  have "tidy (JDict (cm_overrides (settings_step sc m oper)))"
    using Cons.prems by (cases oper)
      (auto simp: set_value_def Let_def tidy_dot_set tidy_op_def reload_def load_all_layers_def bindE_Inr_iff
        simp del: tidy.simps split: sum.split)
  with Cons show ?case by (simp add: settings_run_def)
qed (simp add: settings_run_def)

section \<open>The difference\<close>

text \<open>The specification: what changed at a path, when everything above it is a dict before and after.\<close>

fun change_at :: "json option \<Rightarrow> json option \<Rightarrow> string list \<Rightarrow> (json option \<times> json option) option" where
  "change_at (Some (JDict d)) (Some (JDict e)) [] = None"
| "change_at (Some (JDict d)) (Some (JDict e)) (p # ps) = change_at (map_of d p) (map_of e p) ps"
| "change_at None None ps = None"
| "change_at (Some v) (Some w) [] = (if json_equal v w then None else Some (Some v, Some w))"
| "change_at v w [] = Some (v, w)"
| "change_at v w (p # ps) = None"

fun key_path :: "string \<Rightarrow> string list \<Rightarrow> string" where
  "key_path key [] = key"
| "key_path key (p # ps) = key_path (below key p) ps"

lemma change_at_None: "change_at None (Some w) ps = (if ps = [] then Some (None, Some w) else None)"
  "change_at (Some v) None ps = (if ps = [] then Some (Some v, None) else None)"
  by (cases ps; cases w; simp) (cases ps; cases v; simp)

lemma change_at_missing: "change_at None w ps = Some (x, y) \<longleftrightarrow> ps = [] \<and> x = None \<and> y = w \<and> w \<noteq> None"
  by (cases w) (auto simp: change_at_None)

lemma change_at_flat: "\<not> (\<exists>d e. v = JDict d \<and> w = JDict e) \<Longrightarrow>
    change_at (Some v) (Some w) ps = (if ps = [] \<and> \<not> json_equal v w then Some (Some v, Some w) else None)"
  by (cases v; cases w; cases ps) auto

lemma added_iff:
  "distinct (map fst new) \<Longrightarrow> x \<in> set (added prefix old new) \<longleftrightarrow>
     (\<exists>p v. x = (below prefix p, None, Some v) \<and> map_of old p = None \<and> map_of new p = Some v)"
  by (auto simp: added_def dest: map_of_SomeD)

lemma value_diff_flat: "\<not> (\<exists>d e. v = JDict d \<and> w = JDict e) \<Longrightarrow>
    value_diff key v w = (if json_equal v w then [] else [(key, Some v, Some w)])"
  by (cases v; cases w) auto

lemma diff_iff:
  shows "tidy v \<Longrightarrow> tidy w \<Longrightarrow>
      (k, x, y) \<in> set (value_diff key v w) \<longleftrightarrow> (\<exists>ps. k = key_path key ps \<and> change_at (Some v) (Some w) ps = Some (x, y))"
    and "tidy (JDict old) \<Longrightarrow> tidy (JDict new) \<Longrightarrow>
      (k, x, y) \<in> set (kept_diff prefix old new) \<longleftrightarrow>
        (\<exists>p ps v. k = key_path prefix (p # ps) \<and> map_of old p = Some v \<and> change_at (Some v) (map_of new p) ps = Some (x, y))"
proof (induction key v w and prefix old new rule: value_diff_kept_diff.induct)
  case (1 key d e)
  have a: "(k, x, y) \<in> set (added key d e) \<longleftrightarrow>
      (\<exists>p ps. k = key_path key (p # ps) \<and> map_of d p = None \<and> change_at None (map_of e p) ps = Some (x, y))"
    using "1.prems"(2) by (auto simp: added_iff change_at_missing)
  show ?case
  proof
    assume "(k, x, y) \<in> set (value_diff key (JDict d) (JDict e))"
    then consider "(k, x, y) \<in> set (kept_diff key d e)" | "(k, x, y) \<in> set (added key d e)" by auto
    then show "\<exists>ps. k = key_path key ps \<and> change_at (Some (JDict d)) (Some (JDict e)) ps = Some (x, y)"
    proof cases
      case 1
      with "1.IH" "1.prems" obtain p ps v where "k = key_path key (p # ps)" "map_of d p = Some v"
        "change_at (Some v) (map_of e p) ps = Some (x, y)" by blast
      then show ?thesis by (intro exI[of _ "p # ps"]) simp
    next
      case 2
      with a obtain p ps where "k = key_path key (p # ps)" "map_of d p = None" "change_at None (map_of e p) ps = Some (x, y)" by blast
      then show ?thesis by (intro exI[of _ "p # ps"]) simp
    qed
  next
    assume "\<exists>ps. k = key_path key ps \<and> change_at (Some (JDict d)) (Some (JDict e)) ps = Some (x, y)"
    then obtain qs where q: "k = key_path key qs" "change_at (Some (JDict d)) (Some (JDict e)) qs = Some (x, y)" by blast
    then obtain p ps where p: "qs = p # ps" by (cases qs) auto
    show "(k, x, y) \<in> set (value_diff key (JDict d) (JDict e))"
    proof (cases "map_of d p")
      case None
      with q p a show ?thesis by auto
    next
      case (Some v)
      with q p "1.IH" "1.prems" show ?thesis by auto
    qed
  qed
next
  case (4 prefix j v old new)
  have t: "tidy (JDict old)" "tidy v" "map_of old j = None" using "4.prems"(1) by (auto simp: map_of_eq_None_iff)
  have h: "(k, x, y) \<in> set (case map_of new j of None \<Rightarrow> [(below prefix j, Some v, None)] | Some w \<Rightarrow> value_diff (below prefix j) v w)
      \<longleftrightarrow> (\<exists>ps. k = key_path prefix (j # ps) \<and> change_at (Some v) (map_of new j) ps = Some (x, y))"
  proof (cases "map_of new j")
    case None
    then show ?thesis by (auto simp: change_at_None split: if_splits intro: exI[of _ "[]"])
  next
    case (Some w)
    with "4.IH"(1)[OF Some] t(2) tidy_entry[OF "4.prems"(2) Some] show ?thesis by simp
  qed
  have r: "(k, x, y) \<in> set (kept_diff prefix old new) \<longleftrightarrow>
      (\<exists>p ps v'. k = key_path prefix (p # ps) \<and> map_of old p = Some v' \<and> change_at (Some v') (map_of new p) ps = Some (x, y))"
    using "4.IH"(2) t(1) "4.prems"(2) by blast
  let ?R = "\<lambda>m. \<exists>p ps v'. k = key_path prefix (p # ps) \<and> map_of m p = Some v' \<and> change_at (Some v') (map_of new p) ps = Some (x, y)"
  have A: "?R ((j, v) # old)" if "?R old"
  proof -
    from that obtain p ps v' where p: "k = key_path prefix (p # ps)" "map_of old p = Some v'" "change_at (Some v') (map_of new p) ps = Some (x, y)"
      by blast
    moreover have "p \<noteq> j" using p(2) t(3) by auto
    ultimately show ?thesis by (intro exI[of _ p] exI[of _ ps] exI[of _ v']) simp
  qed
  have B: "?R ((j, v) # old)" if "\<exists>ps. k = key_path prefix (j # ps) \<and> change_at (Some v) (map_of new j) ps = Some (x, y)"
    using that by (intro exI[of _ j]) auto
  have "?R old \<or> (\<exists>ps. k = key_path prefix (j # ps) \<and> change_at (Some v) (map_of new j) ps = Some (x, y))" if "?R ((j, v) # old)"
    using that by (auto split: if_splits)
  with A B show ?case unfolding kept_diff.simps set_append Un_iff h r by blast
qed (auto simp: change_at_flat split: if_splits)

text \<open>Keys that are not empty and hold no dot, as in any configuration the dotted keys can reach.\<close>

fun plain :: "json \<Rightarrow> bool" where
  "plain (JDict d) = (\<forall>(k, v) \<in> set d. k \<noteq> [] \<and> CHR ''.'' \<notin> set k \<and> plain v)"
| "plain v = True"

lemma plain_entry: "plain (JDict d) \<Longrightarrow> map_of d k = Some v \<Longrightarrow> k \<noteq> [] \<and> CHR ''.'' \<notin> set k \<and> plain v"
  by (force dest: map_of_SomeD)

lemma change_at_plain:
  "change_at v w ps = Some c \<Longrightarrow> pred_option plain v \<Longrightarrow> pred_option plain w \<Longrightarrow> list_all (\<lambda>p. p \<noteq> [] \<and> CHR ''.'' \<notin> set p) ps"
proof (induction v w ps rule: change_at.induct)
  case (2 d e p ps)
  have d: "plain (JDict d)" and e: "plain (JDict e)" using 2(3,4) by (simp_all del: plain.simps)
  have c: "change_at (map_of d p) (map_of e p) ps = Some c" using 2(2) by simp
  have "map_of d p \<noteq> None \<or> map_of e p \<noteq> None" using c by (cases "map_of d p"; cases "map_of e p") simp_all
  then have "p \<noteq> [] \<and> CHR ''.'' \<notin> set p" using plain_entry[OF d, of p] plain_entry[OF e, of p] by blast
  moreover have "pred_option plain (map_of d p)" by (cases "map_of d p") (use plain_entry[OF d, of p] in auto)
  moreover have "pred_option plain (map_of e p)" by (cases "map_of e p") (use plain_entry[OF e, of p] in auto)
  ultimately show ?case using 2(1)[OF c] by simp
qed auto

lemma key_path_append: "key \<noteq> [] \<Longrightarrow> key_path key ps = key @ concat (map (\<lambda>q. ''.'' @ q) ps)"
  by (induction ps arbitrary: key) (auto simp: below_def)

lemma join_with_append: "join_with c (p # ps) = p @ concat (map (\<lambda>q. c # q) ps)"
  by (induction ps arbitrary: p) auto

lemma key_path_join: "ps \<noteq> [] \<Longrightarrow> hd ps \<noteq> [] \<Longrightarrow> key_path [] ps = join_with CHR ''.'' ps"
  by (cases ps) (auto simp: below_def key_path_append join_with_append)

lemma dict_diff_iff:
  assumes "tidy (JDict old)" "tidy (JDict new)" "plain (JDict old)" "plain (JDict new)"
  shows "(key, x, y) \<in> set (dict_diff [] old new) \<longleftrightarrow> change_at (Some (JDict old)) (Some (JDict new)) (split_on CHR ''.'' key) = Some (x, y)"
proof -
  have d: "(key, x, y) \<in> set (dict_diff [] old new) \<longleftrightarrow>
      (\<exists>ps. key = key_path [] ps \<and> change_at (Some (JDict old)) (Some (JDict new)) ps = Some (x, y))"
    using diff_iff(1)[OF assms(1,2), of key x y "[]"] by (simp add: dict_diff_def)
  have p: "ps \<noteq> [] \<and> list_all (\<lambda>p. p \<noteq> [] \<and> CHR ''.'' \<notin> set p) ps"
    if "change_at (Some (JDict old)) (Some (JDict new)) ps = Some (x, y)" for ps
    using change_at_plain[OF that] that assms(3,4) by (cases ps) (auto simp del: plain.simps)
  have j: "key_path [] ps = join_with CHR ''.'' ps" if "ps \<noteq> []" "list_all (\<lambda>p. p \<noteq> [] \<and> CHR ''.'' \<notin> set p) ps" for ps
    using that by (intro key_path_join) (cases ps; auto)+
  show ?thesis unfolding d
  proof
    assume "\<exists>ps. key = key_path [] ps \<and> change_at (Some (JDict old)) (Some (JDict new)) ps = Some (x, y)"
    then obtain ps where ps: "key = key_path [] ps" "change_at (Some (JDict old)) (Some (JDict new)) ps = Some (x, y)" by blast
    then have "split_on CHR ''.'' key = ps" using p[OF ps(2)] j[of ps] by (auto simp: list_all_iff intro!: split_join)
    with ps show "change_at (Some (JDict old)) (Some (JDict new)) (split_on CHR ''.'' key) = Some (x, y)" by simp
  next
    assume c: "change_at (Some (JDict old)) (Some (JDict new)) (split_on CHR ''.'' key) = Some (x, y)"
    with p[OF c] j[of "split_on CHR ''.'' key"] show "\<exists>ps. key = key_path [] ps \<and> change_at (Some (JDict old)) (Some (JDict new)) ps = Some (x, y)"
      by (intro exI[of _ "split_on CHR ''.'' key"]) simp
  qed
qed

section \<open>Properties\<close>


text \<open>
  \<^bold>\<open>C13\<close>. A reload notifies, in the order of the keys, of exactly the values that differ: those found at a dotted key, with everything
  above it a dict before and after, which are not both dicts and not equal as Python compares them.
\<close>

theorem reload_notifies_exactly:
  assumes "reload sc su m = (Inr cs, m')"
    and "tidy (JDict (cm_config m))" "tidy (JDict (cm_config m'))" "plain (JDict (cm_config m))" "plain (JDict (cm_config m'))"
  shows "sorted (map fst cs) \<and> ((key, x, y) \<in> set cs \<longleftrightarrow>
    change_at (Some (JDict (cm_config m))) (Some (JDict (cm_config m'))) (split_on CHR ''.'' key) = Some (x, y))"
proof -
  have "cs = sort_key fst (dict_diff [] (cm_config m) (cm_config m'))" using assms(1) by (auto simp: reload_def split: sum.splits)
  then show ?thesis using dict_diff_iff[OF assms(2-5)] by simp
qed

section \<open>Examples\<close>

definition example_schema :: schema where
  "example_schema = \<lparr>sc_sections = Inr, sc_mode = (\<lambda>d. PStr ''bybit''), sc_dry_run = (\<lambda>d. PBool True)\<rparr>"

definition example_surroundings :: "int \<Rightarrow> environment \<Rightarrow> surroundings" where
  "example_surroundings n env = \<lparr>su_file = Inr (JDict [(''risk'', JDict [(''max_positions'', JVal (PInt n))])]), su_env = env,
     su_homes = (\<lambda>u. None)\<rparr>"

lemma schema_keeps_example: "schema_keeps example_schema key v"
  by (simp add: schema_keeps_def example_schema_def)


theorem reload_notifies_exactly_witness:
  "\<exists>m cs m'. new_manager example_schema (example_surroundings 3 []) = Inr m \<and> reload example_schema (example_surroundings 4 []) m = (Inr cs, m')
     \<and> (''risk.max_positions'', Some (JVal (PInt 3)), Some (JVal (PInt 4))) \<in> set cs"
proof -
  define m where "m = \<lparr>cm_config = [(''risk'', JDict [(''max_positions'', JVal (PInt 3))]), (''_mode'', JVal (PStr ''bybit'')),
    (''_dry_run'', JVal (PBool True))], cm_overrides = []\<rparr>"
  define m' where "m' = \<lparr>cm_config = [(''risk'', JDict [(''max_positions'', JVal (PInt 4))]), (''_mode'', JVal (PStr ''bybit'')),
    (''_dry_run'', JVal (PBool True))], cm_overrides = []\<rparr>"
  have m: "new_manager example_schema (example_surroundings 3 []) = Inr m" unfolding m_def by code_simp
  have l: "load_all_layers example_schema (example_surroundings 4 []) m = Inr m'" unfolding m_def m'_def by code_simp
  then obtain cs where cs: "reload example_schema (example_surroundings 4 []) m = (Inr cs, m')" by (simp add: reload_def)
  have "split_on CHR ''.'' ''risk.max_positions'' = [''risk'', ''max_positions'']" by code_simp
  with reload_notifies_exactly[OF cs, of "''risk.max_positions''" "Some (JVal (PInt 3))" "Some (JVal (PInt 4))"]
  have "(''risk.max_positions'', Some (JVal (PInt 3)), Some (JVal (PInt 4))) \<in> set cs"
    by (simp add: m_def m'_def py_equal_def)
  with m cs show ?thesis by blast
qed

text \<open>
  A variable that is not in the table has every underscore turned into a dot, so it names no setting of the schema; what looks like
  a number becomes one, also in a secret; and of two variables for one setting the later one in the environment wins.
\<close>

lemma unknown_variable_key: "env_to_config_key ''QUAD_RISK_MAX_POSITION_SIZE'' = ''risk.max.position.size''"
  by code_simp

lemma digits_are_numbers: "coerce_env_value ''0123456789012345'' = PInt 123456789012345" "coerce_env_value ''1'' = PBool True"
  by code_simp+

lemma dsn_by_order:
  "dot_get (apply_env_overrides [(''QUAD_DSN'', ''a''), (''DATABASE_URL'', ''b'')] []) ''persistence.dsn'' = Some (JVal (PStr ''b''))"
  "dot_get (apply_env_overrides [(''DATABASE_URL'', ''b''), (''QUAD_DSN'', ''a'')] []) ''persistence.dsn'' = Some (JVal (PStr ''a''))"
  by code_simp+

end
