(* ===== verification/Spec2Isabelle.thy ===== *)
theory Spec2Isabelle
  imports RiskManager Buffers Signals Pipeline FundingData Decisions Tenancy Settings
begin

text \<open>
  A verification library of the Quad futures trading bot (\<^verbatim>\<open>src/quad\<close>), from the checks on a language
  model's decision through the risk system to the exchange and back to the trade journal.

  \<^bold>\<open>How the program works.\<close> The orchestrator collects market data, asks a strategy or a language model for a
  decision, turns it into an \<^verbatim>\<open>Action\<close> and hands it to the execution engine (\<^verbatim>\<open>execution/engine.py\<close>). The
  engine asks the risk manager (\<^verbatim>\<open>risk/manager.py\<close>), which consults the circuit breakers, the nine gates and
  the sizer; prepares the quantity for the exchange's filters; and submits the order, whole or in TWAP
  slices, through the gateway (\<^verbatim>\<open>execution/gateway.py\<close>), which retries the exchange adapter
  (\<^verbatim>\<open>exchange/bybit.py\<close>). A background loop reconciles the tracked orders and ingests the exchange's fills
  into the journal.

  \<^bold>\<open>Foundations.\<close>
  \<^item> \<^verbatim>\<open>Prelude\<close>: exceptions as values (\<open>exc + 'a\<close>, \<open>bindE\<close>, \<open>bindS\<close>), Python's insertion-ordered dict (locale
    \<open>keyed_store\<close>), bounded deque (locale \<open>bounded_queue\<close>), slices, stable sort.
  \<^item> \<^verbatim>\<open>Numerics\<close>: \<^verbatim>\<open>Decimal\<close> and \<^verbatim>\<open>float\<close> as rationals rounded after every operation (\<open>dround\<close>: 28 decimal digits,
    \<open>fround\<close>: 53 binary digits; locale \<open>rounding\<close>), \<^verbatim>\<open>quantize\<close> and \<^verbatim>\<open>repr\<close>; arithmetic on a decimal grid, on
    which the roundings are exact.
  \<^item> \<^verbatim>\<open>PyValues\<close>: the dynamically typed values of configuration and metadata dicts, their truth value, text
    functions and \<^verbatim>\<open>Decimal(str(v))\<close>.
  \<^item> \<^verbatim>\<open>Domain\<close>: the dataclasses and enums of \<^verbatim>\<open>types/\<close>, one record or datatype each.

  \<^bold>\<open>Risk.\<close>
  \<^item> \<^verbatim>\<open>Gates\<close> (\<^verbatim>\<open>risk/gates.py\<close>): one function per gate, the fail-fast and the diagnostic pipeline. What a passed
    pipeline guarantees, the equivalence of the two pipelines, monotonicity in the order's size.
  \<^item> \<^verbatim>\<open>Breakers\<close> (\<^verbatim>\<open>risk/circuit_breakers.py\<close>): seven breakers and their state file. The latched kill switch over
    every sequence of operations, restart, and what each breaker has counted after any number of cycles.
  \<^item> \<^verbatim>\<open>Sizing\<close> (\<^verbatim>\<open>risk/sizing.py\<close>), \<^verbatim>\<open>Exposure\<close> (\<^verbatim>\<open>risk/exposure.py\<close>): the caps of the Kelly sizer; the report and
    the bounded funding history.
  \<^item> \<^verbatim>\<open>RiskManager\<close> (\<^verbatim>\<open>risk/manager.py\<close>): the composition, and what its approval is worth.

  \<^bold>\<open>Execution.\<close>
  \<^item> \<^verbatim>\<open>Retry\<close> (\<^verbatim>\<open>common/retry.py\<close>): backoff and the bounded retry loop, by recursion on the remaining attempts:
    the loop's own bound is the fuel, and \<open>retry_outcome\<close> says it always returns.
  \<^item> \<^verbatim>\<open>Gateway\<close> (\<^verbatim>\<open>execution/gateway.py\<close>): submission, cancellation, refresh; the requests handed to the exchange are
    kept in order in the ghost field \<open>gw_wire\<close>. The locale \<open>order_port\<close> is the contract of a submission.
  \<^item> \<^verbatim>\<open>Twap\<close> (\<^verbatim>\<open>execution/twap.py\<close>): the plan on the exchange's grid (the search for the slice count is
    structural on the count) and its execution over an \<open>order_port\<close>, interpreted on the gateway.
  \<^item> \<^verbatim>\<open>Bybit\<close> (\<^verbatim>\<open>exchange/bybit.py\<close>, \<^verbatim>\<open>exchange/base.py\<close>): request bodies, responses, filters with their caches,
    normalisation of quantities and prices, positions and fills. \<open>bybit_ops\<close> is the adapter as the gateway sees it.
  \<^item> \<^verbatim>\<open>Reconciler\<close> (\<^verbatim>\<open>execution/reconciler.py\<close>): tracked orders against the exchange's answers, shown equal to a
    declarative list of expected discrepancies.
  \<^item> \<^verbatim>\<open>Journal\<close> (\<^verbatim>\<open>execution/engine.py\<close>, the trade rows and their existence query in \<^verbatim>\<open>persistence/\<close>): rows of the engine's
    own fills and ingestion of the exchange's fills over the locale \<open>trade_table\<close>.
  \<^item> \<^verbatim>\<open>Engine\<close> (\<^verbatim>\<open>execution/engine.py\<close>): the whole path of an action, plain and in slices, and the reachable
    engines under executions, cancellations and reconciliations.

  \<^bold>\<open>Inputs.\<close>
  \<^item> \<^verbatim>\<open>Buffers\<close> (\<^verbatim>\<open>market_data/buffers.py\<close>): the ring buffers refine the unbounded history of prices.
  \<^item> \<^verbatim>\<open>Floats\<close>, \<^verbatim>\<open>Indicators\<close>, \<^verbatim>\<open>Signals\<close> (\<^verbatim>\<open>ai/ta.py\<close>): float sums and square roots; the indicators and the report of
    one timeframe, with their ranges under rounding; the local and the scalp signal, and the agreement of the
    local signal with the validator's plausibility gate.
  \<^item> \<^verbatim>\<open>Validator\<close> (\<^verbatim>\<open>ai/validator.py\<close>): from a language model's dict to a decision that may be executed.

  \<^bold>\<open>Decisions.\<close>
  \<^item> \<^verbatim>\<open>Strategy\<close> (\<^verbatim>\<open>strategy/\<close>): parameter validation, sizing and bracket helpers, the trend strategy.
  \<^item> \<^verbatim>\<open>Backtest\<close> (\<^verbatim>\<open>backtesting/\<close>): the replay over a locale for what a strategy keeps; \<open>replay\<close> is a
    \<open>partial_function (option)\<close>, and \<open>run_backtest_returns\<close> says when it returns. \<^verbatim>\<open>Pipeline\<close> plugs the trend
    strategy into the backtester and into the engine's request building.
  \<^item> \<^verbatim>\<open>Desk\<close> (\<^verbatim>\<open>orchestrator/_positions_mixin.py\<close>): closing every position, bracket prices, executing a decision, over a
    record of operations (\<open>venue\<close>); everything sent or seen is kept in the ghost \<open>dk_log\<close>. The locale \<open>sizing_desk\<close>
    is what the desk needs of the risk manager: sizing changes only quantity and metadata of an order.
  \<^item> \<^verbatim>\<open>Trading\<close>: the venue made of the modelled adapter, risk manager and engine (interpretation of \<open>sizing_desk\<close>).
  \<^item> \<^verbatim>\<open>Rotation\<close> (\<^verbatim>\<open>orchestrator/_rotation_mixin.py\<close>): call budget, scan of a pair, trend and scalp rotation, cycle, main
    loop. \<^verbatim>\<open>Cycle\<close> proves, once for every preorder on states that the primitive steps keep (locales \<open>managing\<close> and
    \<open>cycling\<close>), that the loop keeps it, and interprets it for the call budget and for the entries;
    \<^verbatim>\<open>CycleRuns\<close> holds concrete runs.
  \<^item> \<^verbatim>\<open>TradingView\<close> (\<^verbatim>\<open>tradingview/\<close>, \<^verbatim>\<open>orchestrator/_tv_mixin.py\<close>): from the bytes of a webhook request to a decision of the
    desk; who may cause an order, and that an alert is not executed twice.
  \<^item> \<^verbatim>\<open>Decisions\<close> (\<^verbatim>\<open>orchestrator/_decisions_mixin.py\<close>, \<^verbatim>\<open>ai/metrics.py\<close>): the journal of decisions, the resolution of
    outcomes and the prediction metrics.
  \<^item> \<^verbatim>\<open>FundingData\<close>: the contexts of the main loop and of the webhook against the funding-rate gate (locale
    \<open>refusing_desk\<close>, interpreted on the venue with the gates as constructed): no entry of a non-zero quantity is sent.

  \<^bold>\<open>Control plane.\<close> One worker process per tenant runs the program above.
  \<^item> \<^verbatim>\<open>Json\<close>: nested values of configurations and payloads. \<^verbatim>\<open>Settings\<close> (\<^verbatim>\<open>config/manager.py\<close>): the
    layered configuration, its overrides over every run of sets and reloads, and the notifications of a reload against a
    pointwise definition of difference. \<^verbatim>\<open>Worker\<close> (\<^verbatim>\<open>worker.py\<close>): the configuration of a tenant's worker, and what it can
    contain.
  \<^item> \<^verbatim>\<open>Supervisor\<close> (\<^verbatim>\<open>supervisor.py\<close>, \<^verbatim>\<open>api/routes_worker.py\<close>, \<^verbatim>\<open>api/routes_exchange.py\<close>): starting, reaping, restarting and
    stopping workers as steps on a state of workers, live processes and files; the locale \<open>maintained\<close> proves once that
    what the steps maintain every run maintains. \<^verbatim>\<open>Tenancy\<close> interprets it five times: kill switch, process handles,
    configuration files, crash budget, live trading; and has the runs in which a guarantee ends.

  \<^bold>\<open>Conventions.\<close> A method that changes its object returns it updated; one that may raise returns
  \<open>exc + 'a\<close>, together with the state it leaves when that is observable. A dict is an association list in
  insertion order. A \<^verbatim>\<open>Decimal\<close> or \<^verbatim>\<open>float\<close> is finite (no NaN, no infinity; the one \<^verbatim>\<open>Decimal("Infinity")\<close> of
  the sizer is \<open>None\<close>) and has no representation besides its value, except where the code compares texts
  (\<open>text_trade\<close> in \<^verbatim>\<open>Reconciler\<close>). Digit searches stop at 17 significant digits, enough for every binary64 value.
  Methods that hold their lock throughout are single steps. The text of log lines and reasons is left out.

  \<^bold>\<open>Parameters.\<close> The signed REST call below the adapter (record \<open>rest\<close>), the clock, the random client
  identifiers, the jitter draws, the SHA-256 digest of an order identifier, the trade query of the risk
  manager, writing the breaker file, the language model and the collection of its context (record \<open>scout\<close>). A hypothesis about one of them stands in the theorem that needs it.

  \<^bold>\<open>Not modelled.\<close> The construction and wiring of the orchestrator, the language-model
  client and its prompts, the websocket and candle client, SQL persistence other than the trade rows, the other routes of the HTTP API,
  the Telegram bot, monitoring and the encryption wrapper, which are input, output or calls into services.
\<close>

end
